(* ===== verification/Kernel_Prelude.thy ===== *)
theory Kernel_Prelude
  imports Main "HOL-Library.Word"
begin

unbundle bit_operations_syntax

text \<open>
  Shared vocabulary of the development: the kernel's integer types, its error codes
  (\<^verbatim>\<open>Kernel/Library/KLibC/errno.h\<close>), the result type \<^verbatim>\<open>ErrorOr<T>\<close> as a sum, half-open
  address intervals read as sets of natural numbers, and the facts about machine words and
  lists that the components share.  The interfaces of the Prism support library, whose sources
  are not part of the repository, are stated here as operation records with a locale of laws.
\<close>

section \<open>Integer types\<close>

type_synonym u8 = "8 word"
type_synonym u16 = "16 word"
type_synonym u32 = "32 word"
type_synonym u64 = "64 word"
type_synonym usize = "64 word"
type_synonym Pointer = "64 word"

section \<open>Error codes\<close>

text \<open>
  The codes the modelled components return; \<^verbatim>\<open>EWOULDBLOCK\<close> is the same number as
  \<^verbatim>\<open>EAGAIN\<close> in the source, and is not a constructor of its own.
\<close>

datatype errno_t =
    EPERM | ENOENT | ESRCH | EINTR | EIO | ENXIO | E2BIG | ENOEXEC | EBADF | ECHILD
  | EAGAIN | ENOMEM | EACCES | EFAULT | ENOTBLK | EBUSY | EEXIST | EXDEV | ENODEV | ENOTDIR
  | EISDIR | EINVAL | ENFILE | EMFILE | ENOTTY | ETXTBSY | EFBIG | ENOSPC | ESPIPE | EROFS
  | EMLINK | EPIPE | EDOM | ERANGE | EDEADLK | ENAMETOOLONG | ENOLCK | ENOSYS | ENOTEMPTY | ELOOP
  | ENOLINK | EOVERFLOW

type_synonym 'a error_or = "errno_t + 'a"

section \<open>Collections of facts\<close>

named_theorems mem_defs \<open>unfolding rules of the memory components\<close>
named_theorems vfs_defs \<open>unfolding rules of the filesystem components\<close>

section \<open>Words\<close>

lemma unat_add_nowrap:
  fixes a b :: "'a::len word"
  assumes "unat a + unat b < 2 ^ LENGTH('a)"
  shows "unat (a + b) = unat a + unat b"
  using assms by (simp add: unat_word_ariths)

lemma unat_sub_le:
  fixes a b :: "'a::len word"
  assumes "b \<le> a"
  shows "unat (a - b) = unat a - unat b"
  using assms by (rule unat_sub)

lemma unat_lt64: "unat (x :: u64) < 18446744073709551616"
  using unsigned_less [of x] by simp

lemma unat_mult_nowrap:
  fixes a b :: "'a::len word"
  assumes "unat a * unat b < 2 ^ LENGTH('a)"
  shows "unat (a * b) = unat a * unat b"
  using assms by (simp add: unat_word_ariths)

lemma sint_lt64: "sint (x :: u64) < 9223372036854775808" "- 9223372036854775808 \<le> sint (x :: u64)"
  using sint_less [of x] sint_greater_eq [of x] by simp_all

lemma sint_unat64:
  assumes "unat (x :: u64) < 9223372036854775808"
  shows "sint x = int (unat x)"
proof -
  have "uint x = int (unat x)" by (simp only: uint_nat)
  with assms have "- 9223372036854775808 \<le> uint x" "uint x < 9223372036854775808" by linarith+
  then have "signed_take_bit 63 (uint x) = uint x" by (intro signed_take_bit_int_eq_self) simp_all
  then show ?thesis by (simp add: sint_uint)
qed

lemma sint_sub_inside:
  fixes a b :: u64
  assumes "- 9223372036854775808 \<le> sint a - sint b" and "sint a - sint b < 9223372036854775808"
  shows "sint (a - b) = sint a - sint b"
  using assms by (simp add: sint_word_ariths signed_take_bit_int_eq_self)

lemma sint_add_inside:
  fixes a b :: u64
  assumes "- 9223372036854775808 \<le> sint a + sint b" and "sint a + sint b < 9223372036854775808"
  shows "sint (a + b) = sint a + sint b"
  using assms by (simp add: sint_word_ariths signed_take_bit_int_eq_self)

section \<open>Half-open address intervals\<close>

text \<open>The addresses covered by \<^term>\<open>n\<close> bytes from \<^term>\<open>b\<close>, as unbounded numbers: an
  interval that runs past the end of the address space does not wrap here.\<close>

definition span :: "u64 \<Rightarrow> usize \<Rightarrow> nat set" where
  "span b n = {unat b ..< unat b + unat n}"

definition nowrap :: "u64 \<Rightarrow> usize \<Rightarrow> bool" where
  "nowrap b n \<longleftrightarrow> unat b + unat n < 2 ^ 64"

lemma nowrap_end: "nowrap b n \<Longrightarrow> unat (b + n) = unat b + unat n"
  by (simp add: nowrap_def unat_word_ariths)

lemma mem_span: "a \<in> span b n \<longleftrightarrow> unat b \<le> a \<and> a < unat b + unat n"
  by (simp add: span_def)

lemma span_disjoint_iff:
  "span b n \<inter> span c m = {} \<longleftrightarrow>
     n = 0 \<or> m = 0 \<or> unat b + unat n \<le> unat c \<or> unat c + unat m \<le> unat b"
proof -
  have "n = 0 \<longleftrightarrow> unat n = 0" and "m = 0 \<longleftrightarrow> unat m = 0"
    by (simp_all add: unat_eq_0)
  then show ?thesis
    by (auto simp: span_def disjoint_iff)
qed

lemma span_split:
  assumes "k \<le> n" and "unat b + unat k < 2 ^ 64"
  shows "span b n = span b k \<union> span (b + k) (n - k)"
    and "span b k \<inter> span (b + k) (n - k) = {}"
  using assms
  by (auto simp: span_def unat_add_nowrap unat_sub_le word_le_nat_alt)

section \<open>Prism: bitmaps\<close>

text \<open>
  \<^verbatim>\<open>Prism/Containers/Bitmap.hpp\<close> is outside the repository.  The components use it through
  \<^verbatim>\<open>Allocate\<close>, \<^verbatim>\<open>GetSize\<close>, \<^verbatim>\<open>SetAll\<close>, \<^verbatim>\<open>GetIndex\<close> and \<^verbatim>\<open>SetIndex\<close>; these are the
  fields of an operation record that the definitions take as an argument.  What the code relies
  on is the locale below: \<^verbatim>\<open>Allocate(n)\<close> gives room for \<open>n\<close> bits, \<^verbatim>\<open>SetAll(0xff)\<close> sets
  them all, and \<^verbatim>\<open>SetIndex\<close> inside the bitmap changes exactly one bit.  Nothing is assumed of
  an access outside it.
\<close>

record 'bm bitmap_ops =
  bm_Allocate :: "nat \<Rightarrow> 'bm"
  bm_GetSize :: "'bm \<Rightarrow> nat"
  bm_SetAll :: "'bm \<Rightarrow> u8 \<Rightarrow> 'bm"
  bm_GetIndex :: "'bm \<Rightarrow> nat \<Rightarrow> bool"
  bm_SetIndex :: "'bm \<Rightarrow> nat \<Rightarrow> bool \<Rightarrow> 'bm"

locale prism_bitmap =
  fixes bo :: "'bm bitmap_ops" and bits :: "'bm \<Rightarrow> nat"
  assumes bits_Allocate: "bits (bm_Allocate bo n) = n"
    and GetSize_zero: "bm_GetSize bo b = 0 \<longleftrightarrow> bits b = 0"
    and bits_SetAll: "bits (bm_SetAll bo b w) = bits b"
    and bits_SetIndex: "bits (bm_SetIndex bo b i v) = bits b"
    and Get_SetAll: "i < bits b \<Longrightarrow> bm_GetIndex bo (bm_SetAll bo b 0xff) i"
    and Get_SetIndex: "i < bits b \<Longrightarrow> j < bits b \<Longrightarrow>
      bm_GetIndex bo (bm_SetIndex bo b i v) j = (if j = i then v else bm_GetIndex bo b j)"

text \<open>A bitmap held as a list of bits satisfies the laws; concrete runs use it.\<close>

definition list_bitmap :: "bool list bitmap_ops" where
  "list_bitmap = \<lparr> bm_Allocate = (\<lambda>n. replicate n False),
                   bm_GetSize = length,
                   bm_SetAll = (\<lambda>b v. map (\<lambda>i. bit v (i mod 8)) [0..<length b]),
                   bm_GetIndex = (\<lambda>b i. i < length b \<and> b ! i),
                   bm_SetIndex = (\<lambda>b i v. b[i := v]) \<rparr>"

lemma bit_0xff: "bit (0xff :: int) (i mod 8)"
proof -
  have "\<forall>k < 8. bit (0xff :: int) k"
    by (simp add: numeral_eq_Suc less_Suc_eq all_conj_distrib)
  then show ?thesis by simp
qed

interpretation list_bm: prism_bitmap list_bitmap length
  by unfold_locales (auto simp: list_bitmap_def nth_list_update simp: bit_0xff)

section \<open>Prism: alignment\<close>

text \<open>
  \<^verbatim>\<open>Math::AlignUp(x, a)\<close> is documented to round \<open>x\<close> up to a multiple of the power of two
  \<open>a\<close>; nothing is assumed when the result does not fit.
\<close>

locale prism_align =
  fixes alignUp :: "u64 \<Rightarrow> usize \<Rightarrow> u64"
  assumes alignUp: "k < 64 \<Longrightarrow> unat x + 2 ^ k \<le> 2 ^ 64 \<Longrightarrow>
    unat (alignUp x (2 ^ k)) = ((unat x + 2 ^ k - 1) div 2 ^ k) * 2 ^ k"
begin

lemma alignUp_dvd: "k < 64 \<Longrightarrow> unat x + 2 ^ k \<le> 2 ^ 64 \<Longrightarrow> 2 ^ k dvd unat (alignUp x (2 ^ k))"
  by (simp add: alignUp)

lemma alignUp_lower:
  assumes "k < 64" "unat x + 2 ^ k \<le> 2 ^ 64"
  shows "unat x \<le> unat (alignUp x (2 ^ k))"
proof -
  have "(unat x + 2 ^ k - 1) mod 2 ^ k < (2 ^ k :: nat)" "0 < (2 ^ k :: nat)" by simp_all
  with div_mult_mod_eq [of "unat x + 2 ^ k - 1" "2 ^ k :: nat"] show ?thesis
    unfolding alignUp [OF assms] by linarith
qed

lemma alignUp_upper:
  assumes "k < 64" "unat x + 2 ^ k \<le> 2 ^ 64"
  shows "unat (alignUp x (2 ^ k)) < unat x + 2 ^ k"
proof -
  have "(unat x + 2 ^ k - 1) div 2 ^ k * 2 ^ k \<le> unat x + 2 ^ k - 1" by (rule div_times_less_eq_dividend)
  moreover have "0 < (2 ^ k :: nat)" by simp
  ultimately show ?thesis by (simp only: alignUp [OF assms])
qed

end

definition align_up :: "u64 \<Rightarrow> usize \<Rightarrow> u64" where
  "align_up x a = ((x + (a - 1)) div a) * a"

lemma unat_pow2: "k < 64 \<Longrightarrow> unat (2 ^ k :: u64) = 2 ^ k"
proof -
  assume "k < 64"
  then have "(2 :: nat) ^ k < 2 ^ 64" by (intro power_strict_increasing) auto
  then show ?thesis using unat_of_nat [of "2 ^ k", where ?'a = 64] by simp
qed

lemma align_up_unat:
  assumes "k < 64" "unat x + 2 ^ k \<le> (2 ^ 64 :: nat)"
  shows "unat (align_up x (2 ^ k)) = ((unat x + 2 ^ k - 1) div 2 ^ k) * 2 ^ k"
proof -
  have pos: "0 < (2 ^ k :: nat)" by simp
  have "unat ((2 ^ k :: u64) - 1) = 2 ^ k - 1"
    using assms(1) unat_sub_le [of 1 "2 ^ k :: u64"] by (simp add: unat_pow2 word_le_nat_alt)
  then have add: "unat (x + (2 ^ k - 1)) = unat x + 2 ^ k - 1"
    using assms(2) pos by (subst unat_add_nowrap) auto
  have "(unat x + 2 ^ k - 1) div 2 ^ k * 2 ^ k \<le> unat x + 2 ^ k - 1" by (rule div_times_less_eq_dividend)
  with assms(2) pos have "(unat x + 2 ^ k - 1) div 2 ^ k * 2 ^ k < 2 ^ 64" by linarith
  then show ?thesis
    using assms(1) by (simp add: align_up_def unat_mult_nowrap unat_div add unat_pow2)
qed

interpretation align_up: prism_align align_up
  by unfold_locales (rule align_up_unat)

end
