(* ===== verification/Address_Space.thy ===== *)
theory Address_Space
  imports Kernel_Prelude "HOL-Library.RBT"
begin

text \<open>
  Virtual address ranges, regions and address spaces (\<^verbatim>\<open>Memory/AddressRange.hpp\<close>,
  \<^verbatim>\<open>Memory/Region.hpp\<close>, \<^verbatim>\<open>Memory/AddressSpace.cpp\<close>).  The red-black tree that holds the
  regions is Prism's; the locale \<open>prism_tree\<close> states what the code relies on.  The lemmas show
  that the regions of an address space stay pairwise disjoint under allocation, that
  \<^verbatim>\<open>Find\<close> is exact, and that allocation without a fixed address finds room.
\<close>

section \<open>Address ranges\<close>

record AddressRange =
  ar_Base :: Pointer
  ar_Size :: usize

definition AddressRange_End :: "AddressRange \<Rightarrow> Pointer" where
  "AddressRange_End r = ar_Base r + ar_Size r"

definition AddressRange_Contains :: "AddressRange \<Rightarrow> Pointer \<Rightarrow> bool" where
  "AddressRange_Contains r address \<longleftrightarrow> address \<ge> ar_Base r \<and> address < AddressRange_End r"

definition AddressRange_Contains2 :: "AddressRange \<Rightarrow> Pointer \<Rightarrow> usize \<Rightarrow> bool" where
  "AddressRange_Contains2 r base len =
     (let fin = base + len; currentStart = ar_Base r; currentEnd = AddressRange_End r
      in fin \<le> currentStart \<or> base \<ge> currentEnd)"

definition AddressRange_Intersects :: "AddressRange \<Rightarrow> AddressRange \<Rightarrow> bool" where
  "AddressRange_Intersects r other =
     (let (a, b) = (if ar_Base r > ar_Base other then (other, r) else (r, other))
      in ar_Base a < AddressRange_End b \<and> ar_Base b < AddressRange_End a)"

abbreviation range_span :: "AddressRange \<Rightarrow> nat set" where
  "range_span r \<equiv> span (ar_Base r) (ar_Size r)"

definition range_ok :: "AddressRange \<Rightarrow> bool" where
  "range_ok r \<longleftrightarrow> nowrap (ar_Base r) (ar_Size r)"

lemma range_End: "range_ok r \<Longrightarrow> unat (AddressRange_End r) = unat (ar_Base r) + unat (ar_Size r)"
  by (simp add: range_ok_def AddressRange_End_def nowrap_end)

lemma AddressRange_Contains_iff:
  "range_ok r \<Longrightarrow> AddressRange_Contains r a \<longleftrightarrow> unat a \<in> range_span r"
  by (simp add: AddressRange_Contains_def range_End mem_span word_le_nat_alt word_less_nat_alt)

section \<open>Regions\<close>

text \<open>\<^verbatim>\<open>VMM::Access\<close> is a bit set over 8 bits; \<^verbatim>\<open>operator&\<close> tests for a common bit.\<close>

type_synonym Access = u8

definition Access_eNone :: Access where "Access_eNone = 0x00"
definition Access_eRead :: Access where "Access_eRead = 0x01"
definition Access_eWrite :: Access where "Access_eWrite = 0x02"
definition Access_eExecute :: Access where "Access_eExecute = 0x04"
definition Access_eUser :: Access where "Access_eUser = 0x08"

definition Access_has :: "Access \<Rightarrow> Access \<Rightarrow> bool" where
  "Access_has lhs rhs \<longleftrightarrow> lhs AND rhs \<noteq> 0"

record Region =
  m_VirtualRange :: AddressRange
  m_PhysicalBase :: Pointer
  m_Access :: Access
  m_Fd :: "nat option"

definition Region_make :: "Pointer \<Rightarrow> Pointer \<Rightarrow> usize \<Rightarrow> nat option \<Rightarrow> Region" where
  "Region_make phys virt sz fd =
     \<lparr>m_VirtualRange = \<lparr>ar_Base = virt, ar_Size = sz\<rparr>, m_PhysicalBase = phys,
      m_Access = Access_eNone, m_Fd = fd\<rparr>"

definition Region_VirtualBase :: "Region \<Rightarrow> Pointer" where
  "Region_VirtualBase r = ar_Base (m_VirtualRange r)"

definition Region_Size :: "Region \<Rightarrow> usize" where
  "Region_Size r = ar_Size (m_VirtualRange r)"

definition Region_End :: "Region \<Rightarrow> Pointer" where
  "Region_End r = ar_Base (m_VirtualRange r) + ar_Size (m_VirtualRange r)"

definition Region_Contains :: "Region \<Rightarrow> Pointer \<Rightarrow> bool" where
  "Region_Contains r address = AddressRange_Contains (m_VirtualRange r) address"

definition Region_IsReadable :: "Region \<Rightarrow> bool" where
  "Region_IsReadable r = Access_has (m_Access r) Access_eRead"

definition Region_IsWriteable :: "Region \<Rightarrow> bool" where
  "Region_IsWriteable r = Access_has (m_Access r) Access_eWrite"

definition Region_IsExecutable :: "Region \<Rightarrow> bool" where
  "Region_IsExecutable r = Access_has (m_Access r) Access_eExecute"

definition Region_SetPhysicalBase :: "Pointer \<Rightarrow> Region \<Rightarrow> Region" where
  "Region_SetPhysicalBase phys r = r\<lparr>m_PhysicalBase := phys\<rparr>"

definition Region_SetAccessMode :: "Access \<Rightarrow> Region \<Rightarrow> Region" where
  "Region_SetAccessMode access r = r\<lparr>m_Access := access\<rparr>"

lemmas Region_getters [mem_defs] =
  Region_make_def Region_VirtualBase_def Region_Size_def Region_End_def

abbreviation region_span :: "Region \<Rightarrow> nat set" where
  "region_span r \<equiv> range_span (m_VirtualRange r)"

abbreviation region_ok :: "Region \<Rightarrow> bool" where
  "region_ok r \<equiv> range_ok (m_VirtualRange r)"

lemma region_End_unat:
  "region_ok r \<Longrightarrow> unat (Region_End r) = unat (Region_VirtualBase r) + unat (Region_Size r)"
  by (simp add: mem_defs range_ok_def nowrap_end)

section \<open>Prism: ordered trees\<close>

text \<open>
  The operations of \<^verbatim>\<open>RedBlackTree<K, V>\<close> the address space calls; iteration is
  \<open>rb_entries\<close>.  The laws: iteration is in strictly increasing key order, inserting at a new key
  adds one entry, erasing a key removes its entry.  Inserting at a key that is present is left
  open but for the keys.
\<close>

record ('k, 'v, 't) tree_ops =
  rb_empty :: 't
  rb_Insert :: "'k \<Rightarrow> 'v \<Rightarrow> 't \<Rightarrow> 't"
  rb_Erase :: "'k \<Rightarrow> 't \<Rightarrow> 't"
  rb_entries :: "'t \<Rightarrow> ('k \<times> 'v) list"

lemma sorted_keys_last:
  assumes "sorted_wrt (<) (map fst es)" and "e \<in> set es"
  shows "e = last es \<or> fst e < fst (last es)"
proof (cases es rule: rev_cases)
  case (snoc xs l)
  with assms show ?thesis by (auto simp: sorted_wrt_append)
qed (use assms in simp)

locale prism_tree =
  fixes ro :: "('k::linorder, 'v, 't) tree_ops"
  assumes entries_empty: "rb_entries ro (rb_empty ro) = []"
    and entries_sorted: "sorted_wrt (<) (map fst (rb_entries ro t))"
    and entries_Insert: "k \<notin> fst ` set (rb_entries ro t) \<Longrightarrow>
      set (rb_entries ro (rb_Insert ro k v t)) = insert (k, v) (set (rb_entries ro t))"
    and entries_Erase: "set (rb_entries ro (rb_Erase ro k t)) = {e \<in> set (rb_entries ro t). fst e \<noteq> k}"

definition rbt_ops :: "('k::linorder, 'v, ('k, 'v) rbt) tree_ops" where
  "rbt_ops = \<lparr>rb_empty = RBT.empty, rb_Insert = RBT.insert, rb_Erase = RBT.delete, rb_entries = RBT.entries\<rparr>"

lemma set_RBT_entries: "set (RBT.entries t) = {(k, v). RBT.lookup t k = Some v}"
  by (auto simp: lookup_in_tree)

lemma entries_RBT_empty: "RBT.entries RBT.empty = []"
  using set_RBT_entries [of RBT.empty] by simp

interpretation rbt: prism_tree rbt_ops
proof unfold_locales
  show "sorted_wrt (<) (map fst (rb_entries rbt_ops t))" for t :: "('k::linorder, 'v) rbt"
    by (simp add: rbt_ops_def strict_sorted_iff sorted_entries distinct_entries)
  show "set (rb_entries rbt_ops (rb_Insert rbt_ops k v t)) = insert (k, v) (set (rb_entries rbt_ops t))"
    if "k \<notin> fst ` set (rb_entries rbt_ops t)" for k :: "'k::linorder" and v :: 'v and t
    using that by (auto simp: rbt_ops_def set_RBT_entries image_iff split: if_splits)
qed (auto simp: rbt_ops_def set_RBT_entries entries_RBT_empty split: if_splits)

section \<open>Address spaces\<close>

record 't AddressSpace =
  m_RegionTree :: 't
  m_TotalRange :: AddressRange

abbreviation as_entries ::
    "(Pointer, Region, 't) tree_ops \<Rightarrow> 't AddressSpace \<Rightarrow> (Pointer \<times> Region) list" where
  "as_entries ro s \<equiv> rb_entries ro (m_RegionTree s)"

text \<open>
  The constructor: \<^verbatim>\<open>PMM::GetMemoryTop()\<close> rounded up to 1 GiB, plus 4 GiB, of size
  \<^verbatim>\<open>MM::HigherHalfOffset()\<close>.  \<^verbatim>\<open>Math::AlignUp\<close> is Prism's and an argument.
\<close>

definition AddressSpace_make ::
    "(Pointer, Region, 't) tree_ops \<Rightarrow> (Pointer \<Rightarrow> usize \<Rightarrow> Pointer) \<Rightarrow> Pointer \<Rightarrow> usize \<Rightarrow> 't AddressSpace" where
  "AddressSpace_make ro alignUp memoryTop higherHalfOffset =
     \<lparr>m_RegionTree = rb_empty ro,
      m_TotalRange = \<lparr>ar_Base = alignUp memoryTop 0x40000000 + 0x100000000, ar_Size = higherHalfOffset\<rparr>\<rparr>"

definition AddressSpace_IsAvailable ::
    "(Pointer, Region, 't) tree_ops \<Rightarrow> 't AddressSpace \<Rightarrow> Pointer \<Rightarrow> usize \<Rightarrow> bool" where
  "AddressSpace_IsAvailable ro s base len =
     (let fin = base + len
      in list_all (\<lambda>(k, current). fin \<le> Region_VirtualBase current \<or> base \<ge> Region_End current)
           (as_entries ro s))"

definition AddressSpace_Insert ::
    "(Pointer, Region, 't) tree_ops \<Rightarrow> Pointer \<Rightarrow> Region \<Rightarrow> 't AddressSpace \<Rightarrow> 't AddressSpace" where
  "AddressSpace_Insert ro base region s = s\<lparr>m_RegionTree := rb_Insert ro base region (m_RegionTree s)\<rparr>"

definition AddressSpace_Erase ::
    "(Pointer, Region, 't) tree_ops \<Rightarrow> Pointer \<Rightarrow> 't AddressSpace \<Rightarrow> 't AddressSpace" where
  "AddressSpace_Erase ro base s =
     (if base \<in> fst ` set (as_entries ro s)
      then s\<lparr>m_RegionTree := rb_Erase ro base (m_RegionTree s)\<rparr> else s)"

definition AddressSpace_Clear ::
    "(Pointer, Region, 't) tree_ops \<Rightarrow> 't AddressSpace \<Rightarrow> 't AddressSpace" where
  "AddressSpace_Clear ro s = s\<lparr>m_RegionTree := rb_empty ro\<rparr>"

text \<open>The loop of \<^verbatim>\<open>AllocateRegion\<close> and the check after it: the base address chosen.\<close>

fun AllocateRegion_scan ::
    "(Pointer \<Rightarrow> usize \<Rightarrow> Pointer) \<Rightarrow> (Pointer \<Rightarrow> bool) \<Rightarrow> usize \<Rightarrow> usize \<Rightarrow> (Pointer \<times> Region) list
       \<Rightarrow> Pointer \<Rightarrow> Pointer option" where
  "AllocateRegion_scan alignUp available len alignment [] current =
     (let current = alignUp current alignment
      in if available current then Some current else None)"
| "AllocateRegion_scan alignUp available len alignment ((k, region) # entries) current =
     (let regionStart = Region_VirtualBase region; current = alignUp current alignment
      in if current + len \<le> regionStart \<and> available current then Some current
         else AllocateRegion_scan alignUp available len alignment entries (Region_End region))"

definition AddressSpace_AllocateRegion ::
    "(Pointer, Region, 't) tree_ops \<Rightarrow> (Pointer \<Rightarrow> usize \<Rightarrow> Pointer) \<Rightarrow> usize \<Rightarrow> usize
       \<Rightarrow> 't AddressSpace \<Rightarrow> Region option \<times> 't AddressSpace" where
  "AddressSpace_AllocateRegion ro alignUp len alignment s =
     (case AllocateRegion_scan alignUp (\<lambda>c. AddressSpace_IsAvailable ro s c len) len alignment
             (as_entries ro s) (alignUp (ar_Base (m_TotalRange s)) alignment) of
        None \<Rightarrow> (None, s)
      | Some current \<Rightarrow>
          (let region = Region_make 0 current len None
           in (Some region, AddressSpace_Insert ro (Region_VirtualBase region) region s)))"

definition AddressSpace_AllocateFixed ::
    "(Pointer, Region, 't) tree_ops \<Rightarrow> (Pointer \<Rightarrow> usize \<Rightarrow> Pointer) \<Rightarrow> Pointer \<Rightarrow> usize
       \<Rightarrow> 't AddressSpace \<Rightarrow> Region option \<times> 't AddressSpace" where
  "AddressSpace_AllocateFixed ro alignUp virt sz s =
     (let sz = alignUp sz 0x1000
      in if \<not> AddressSpace_IsAvailable ro s virt sz then (None, s)
         else let region = Region_make 0 virt sz None
              in (Some region, AddressSpace_Insert ro (Region_VirtualBase region) region s))"

fun find_region :: "(Pointer \<times> Region) list \<Rightarrow> Pointer \<Rightarrow> Region option" where
  "find_region [] address = None"
| "find_region ((k, region) # entries) address =
     (let sz = Region_Size region; start = Region_VirtualBase region; fin = start + sz
      in if address \<ge> start \<and> address < fin then Some region else find_region entries address)"

definition AddressSpace_Find ::
    "(Pointer, Region, 't) tree_ops \<Rightarrow> 't AddressSpace \<Rightarrow> Pointer \<Rightarrow> Region option" where
  "AddressSpace_Find ro s address = find_region (as_entries ro s) address"

definition AddressSpace_Contains ::
    "(Pointer, Region, 't) tree_ops \<Rightarrow> 't AddressSpace \<Rightarrow> Pointer \<Rightarrow> bool" where
  "AddressSpace_Contains ro s virt \<longleftrightarrow> AddressSpace_Find ro s virt \<noteq> None"

section \<open>The invariant\<close>

text \<open>
  Every region is stored under its own base, is not empty and does not run past the end of the
  address space, and two regions stored under different keys share no address.
\<close>

definition region_entry_ok :: "Pointer \<times> Region \<Rightarrow> bool" where
  "region_entry_ok e \<longleftrightarrow> fst e = Region_VirtualBase (snd e) \<and> region_ok (snd e) \<and> Region_Size (snd e) \<noteq> 0"

definition regions_disjoint :: "(Pointer \<times> Region) set \<Rightarrow> bool" where
  "regions_disjoint E \<longleftrightarrow>
     (\<forall>e\<in>E. \<forall>e'\<in>E. fst e \<noteq> fst e' \<longrightarrow> region_span (snd e) \<inter> region_span (snd e') = {})"

definition as_inv :: "(Pointer, Region, 't) tree_ops \<Rightarrow> 't AddressSpace \<Rightarrow> bool" where
  "as_inv ro s \<longleftrightarrow> (\<forall>e\<in>set (as_entries ro s). region_entry_ok e) \<and> regions_disjoint (set (as_entries ro s))"

lemma clear_of_region:
  assumes "region_entry_ok e" and "nowrap b n" and "n \<noteq> 0"
  shows "b + n \<le> Region_VirtualBase (snd e) \<or> b \<ge> Region_End (snd e) \<longleftrightarrow>
         span b n \<inter> region_span (snd e) = {}"
  using assms region_End_unat [of "snd e"]
  by (simp add: region_entry_ok_def span_disjoint_iff word_le_nat_alt nowrap_end mem_defs)

lemma base_in_region_span: "region_entry_ok e \<Longrightarrow> unat (fst e) \<in> region_span (snd e)"
  by (simp add: region_entry_ok_def mem_span mem_defs unat_gt_0)

text \<open>Room for a request: no candidate address, rounded up, runs past the end of the address space.\<close>

definition as_room :: "(Pointer, Region, 't) tree_ops \<Rightarrow> 't AddressSpace \<Rightarrow> nat \<Rightarrow> usize \<Rightarrow> bool" where
  "as_room ro s k len \<longleftrightarrow> unat (ar_Base (m_TotalRange s)) + 2 * 2 ^ k + unat len < 2 ^ 64 \<and>
     (\<forall>e\<in>set (as_entries ro s). unat (Region_End (snd e)) + 2 ^ k + unat len < 2 ^ 64)"

locale region_tree = prism_tree ro + prism_align alignUp
  for ro :: "(Pointer, Region, 't) tree_ops" and alignUp :: "u64 \<Rightarrow> usize \<Rightarrow> u64"
begin

lemma IsAvailable_iff:
  assumes "as_inv ro s" and "nowrap b n" and "n \<noteq> 0"
  shows "AddressSpace_IsAvailable ro s b n \<longleftrightarrow>
    (\<forall>e\<in>set (as_entries ro s). span b n \<inter> region_span (snd e) = {})"
  using assms
  by (auto simp: AddressSpace_IsAvailable_def list_all_iff as_inv_def Let_def clear_of_region
           simp flip: clear_of_region split: prod.splits)

lemma Insert_available:
  assumes "as_inv ro s" and "nowrap b n" and "n \<noteq> 0" and "AddressSpace_IsAvailable ro s b n"
  defines "r \<equiv> Region_make 0 b n None"
  shows "as_inv ro (AddressSpace_Insert ro (Region_VirtualBase r) r s)"
    and "set (as_entries ro (AddressSpace_Insert ro (Region_VirtualBase r) r s)) = insert (b, r) (set (as_entries ro s))"
proof -
  have free: "span b n \<inter> region_span (snd e) = {}" if "e \<in> set (as_entries ro s)" for e
    using IsAvailable_iff [OF assms(1-3)] assms(4) that by blast
  have base: "unat b \<in> span b n" using assms(3) by (simp add: mem_span unat_gt_0)
  have new: "b \<notin> fst ` set (as_entries ro s)"
  proof
    assume "b \<in> fst ` set (as_entries ro s)"
    then obtain e where e: "e \<in> set (as_entries ro s)" "fst e = b" by blast
    with base_in_region_span [of e] assms(1) have "unat b \<in> region_span (snd e)" by (auto simp: as_inv_def)
    with free [OF e(1)] base show False by blast
  qed
  then show ents: "set (as_entries ro (AddressSpace_Insert ro (Region_VirtualBase r) r s)) =
      insert (b, r) (set (as_entries ro s))"
    by (simp add: AddressSpace_Insert_def entries_Insert r_def mem_defs)
  have r: "region_entry_ok (b, r)" "region_span r = span b n"
    using assms(2,3) by (simp_all add: r_def region_entry_ok_def range_ok_def mem_defs)
  show "as_inv ro (AddressSpace_Insert ro (Region_VirtualBase r) r s)"
    using assms(1) r free unfolding as_inv_def ents regions_disjoint_def by (auto simp: Int_commute)
qed

lemma Find_exact:
  assumes "as_inv ro s"
  shows "AddressSpace_Find ro s a = Some r \<longleftrightarrow>
    (Region_VirtualBase r, r) \<in> set (as_entries ro s) \<and> unat a \<in> region_span r"
proof -
  have "find_region es a = Some r \<longleftrightarrow> (Region_VirtualBase r, r) \<in> set es \<and> unat a \<in> region_span r"
    if "\<forall>e\<in>set es. region_entry_ok e" "sorted_wrt (<) (map fst es)" "regions_disjoint (set es)" for es
    using that
  proof (induction es)
    case (Cons e es)
    have e: "region_entry_ok e" using Cons.prems by simp
    have hit: "a \<ge> Region_VirtualBase (snd e) \<and> a < Region_VirtualBase (snd e) + Region_Size (snd e)
        \<longleftrightarrow> unat a \<in> region_span (snd e)"
      using e region_End_unat [of "snd e"]
      by (simp add: region_entry_ok_def mem_span word_le_nat_alt word_less_nat_alt mem_defs)
    have tl: "find_region es a = Some r \<longleftrightarrow> (Region_VirtualBase r, r) \<in> set es \<and> unat a \<in> region_span r"
      using Cons.prems by (intro Cons.IH) (auto simp: regions_disjoint_def)
    have other: "unat a \<notin> region_span (snd e)"
      if "(Region_VirtualBase r, r) \<in> set es" "unat a \<in> region_span r"
    proof -
      from that(1) Cons.prems(2) have "fst e < Region_VirtualBase r" by force
      with that Cons.prems(3) have "region_span (snd e) \<inter> region_span r = {}"
        unfolding regions_disjoint_def by (metis fst_conv list.set_intros less_irrefl snd_conv)
      with that(2) show ?thesis by blast
    qed
    show ?case
      using hit tl other e by (cases e) (auto simp: Let_def region_entry_ok_def)
  qed simp
  from this [of "as_entries ro s"] assms entries_sorted show ?thesis
    by (simp add: AddressSpace_Find_def as_inv_def)
qed

lemma scan_result:
  assumes "AllocateRegion_scan alignUp available len al es c = Some b"
  shows "available b \<and> (\<exists>x \<in> insert c ((\<lambda>e. Region_End (snd e)) ` set es). b = alignUp x al)"
  using assms
proof (induction es arbitrary: c)
  case (Cons e es)
  obtain k r where e: "e = (k, r)" by (cases e)
  show ?case
  proof (cases "alignUp c al + len \<le> Region_VirtualBase r \<and> available (alignUp c al)")
    case False
    with Cons.prems have "AllocateRegion_scan alignUp available len al es (Region_End r) = Some b"
      by (simp add: e Let_def)
    from Cons.IH [OF this] show ?thesis by (auto simp: e)
  qed (use Cons.prems in \<open>auto simp: e Let_def\<close>)
qed (auto simp: Let_def split: if_splits)

lemma scan_last:
  "es \<noteq> [] \<Longrightarrow> available (alignUp (Region_End (snd (last es))) al) \<Longrightarrow>
     \<exists>b. AllocateRegion_scan alignUp available len al es c = Some b"
  by (induction alignUp available len al es c rule: AllocateRegion_scan.induct)
    (auto simp: Let_def split: if_splits)

lemma last_region_end:
  assumes "as_inv ro s" and "e \<in> set (as_entries ro s)"
  shows "unat (Region_End (snd e)) \<le> unat (Region_End (snd (last (as_entries ro s))))"
proof -
  let ?l = "last (as_entries ro s)"
  have l: "?l \<in> set (as_entries ro s)" using assms(2) by (cases "as_entries ro s") auto
  have ok: "region_entry_ok e" "region_entry_ok ?l" using assms l by (auto simp: as_inv_def)
  have "e = ?l \<or> fst e < fst ?l"
    using sorted_keys_last [OF entries_sorted assms(2)] .
  moreover have ?thesis if "fst e < fst ?l"
  proof -
    from that assms l have "region_span (snd e) \<inter> region_span (snd ?l) = {}"
      unfolding as_inv_def regions_disjoint_def by (metis less_irrefl)
    with that ok region_End_unat [of "snd e"] region_End_unat [of "snd ?l"] show ?thesis
      by (simp add: span_disjoint_iff region_entry_ok_def word_less_nat_alt mem_defs)
  qed
  ultimately show ?thesis by auto
qed

lemma AllocateRegion_works:
  assumes "as_inv ro s" and "k < 64" and "len \<noteq> 0" and "as_room ro s k len"
  obtains b where "AddressSpace_AllocateRegion ro alignUp len (2 ^ k) s =
      (Some (Region_make 0 b len None), AddressSpace_Insert ro b (Region_make 0 b len None) s)"
    and "2 ^ k dvd unat b" and "nowrap b len" and "AddressSpace_IsAvailable ro s b len"
proof -
  let ?c = "alignUp (ar_Base (m_TotalRange s)) (2 ^ k)"
  let ?av = "\<lambda>c. AddressSpace_IsAvailable ro s c len"
  let ?X = "insert ?c ((\<lambda>e. Region_End (snd e)) ` set (as_entries ro s))"
  have X: "unat x + 2 ^ k + unat len < 2 ^ 64" if "x \<in> ?X" for x
    using that assms(2,4) alignUp_upper [of k "ar_Base (m_TotalRange s)"] by (auto simp: as_room_def)
  have cand: "2 ^ k dvd unat (alignUp x (2 ^ k))" "nowrap (alignUp x (2 ^ k)) len" "unat x \<le> unat (alignUp x (2 ^ k))"
    if "x \<in> ?X" for x
    using X [OF that] alignUp_dvd [OF assms(2), of x] alignUp_upper [OF assms(2), of x]
      alignUp_lower [OF assms(2), of x] by (simp_all add: nowrap_def)
  have "\<exists>b. AllocateRegion_scan alignUp ?av len (2 ^ k) (as_entries ro s) ?c = Some b"
  proof (cases "as_entries ro s = []")
    case True
    then show ?thesis by (simp add: AddressSpace_IsAvailable_def Let_def)
  next
    case False
    let ?l = "Region_End (snd (last (as_entries ro s)))"
    have "?l \<in> ?X" using False by simp
    from cand(3) [OF this] last_region_end [OF assms(1)] have "?av (alignUp ?l (2 ^ k))"
      by (force simp: AddressSpace_IsAvailable_def list_all_iff Let_def word_le_nat_alt)
    with False show ?thesis by (rule scan_last)
  qed
  then obtain b where b: "AllocateRegion_scan alignUp ?av len (2 ^ k) (as_entries ro s) ?c = Some b" ..
  from scan_result [OF this] obtain x where "x \<in> ?X" "b = alignUp x (2 ^ k)" "?av b" by blast
  with cand [of x] b that [of b] show thesis
    by (simp add: AddressSpace_AllocateRegion_def Let_def mem_defs)
qed

end

interpretation rbt_regions: region_tree rbt_ops align_up
  by unfold_locales

section \<open>Properties\<close>

text \<open>Concrete address spaces: one without regions, one with a page at \<open>0x4000\<close>.\<close>

definition as_empty :: "Pointer \<Rightarrow> (Pointer, Region) rbt AddressSpace" where
  "as_empty base = \<lparr>m_RegionTree = RBT.empty, m_TotalRange = \<lparr>ar_Base = base, ar_Size = 0x1000000\<rparr>\<rparr>"

lemma as_empty_inv: "as_inv rbt_ops (as_empty base)"
  by (simp add: as_inv_def as_empty_def regions_disjoint_def rbt.entries_empty [simplified rbt_ops_def] rbt_ops_def
      entries_RBT_empty)

definition as_one :: "(Pointer, Region) rbt AddressSpace" where
  "as_one = AddressSpace_Insert rbt_ops 0x4000 (Region_make 0 0x4000 0x1000 None) (as_empty 0x1000)"

lemma as_one_inv: "as_inv rbt_ops as_one"
  using rbt_regions.Insert_available(1) [OF as_empty_inv, of "0x4000" "0x1000" "0x1000"]
  by (simp add: as_one_def nowrap_def as_empty_def AddressSpace_IsAvailable_def rbt_ops_def entries_RBT_empty
      Region_VirtualBase_def Region_make_def)

text \<open>
  For two address ranges that do not run past the end of the address space and are
  not empty, \<^verbatim>\<open>AddressRange::Intersects\<close> holds exactly when they share an address.
\<close>

theorem Intersects_iff_overlap:
  assumes "range_ok r" and "range_ok r'" and "ar_Size r \<noteq> 0" and "ar_Size r' \<noteq> 0"
  shows "AddressRange_Intersects r r' \<longleftrightarrow> range_span r \<inter> range_span r' \<noteq> {}"
  using assms
  by (auto simp: AddressRange_Intersects_def span_disjoint_iff word_less_nat_alt range_End not_le unat_gt_0)

theorem Intersects_iff_overlap_witness:
  "AddressRange_Intersects \<lparr>ar_Base = 0x2000, ar_Size = 0x1000\<rparr> \<lparr>ar_Base = 0x1000, ar_Size = 0x1001\<rparr> \<longleftrightarrow>
     span 0x2000 0x1000 \<inter> span 0x1000 0x1001 \<noteq> {}"
  using Intersects_iff_overlap [of "\<lparr>ar_Base = 0x2000, ar_Size = 0x1000\<rparr>" "\<lparr>ar_Base = 0x1000, ar_Size = 0x1001\<rparr>"]
  by (simp add: range_ok_def nowrap_def)

text \<open>
  \<^verbatim>\<open>AddressRange::Contains(base, length)\<close> does not test containment: for non-empty
  ranges it answers true exactly when the two ranges have no address in common.
\<close>

theorem Contains2_is_disjointness:
  assumes "range_ok r" and "nowrap b n" and "ar_Size r \<noteq> 0" and "n \<noteq> 0"
  shows "AddressRange_Contains2 r b n \<longleftrightarrow> range_span r \<inter> span b n = {}"
  using assms
  by (auto simp: AddressRange_Contains2_def span_disjoint_iff word_le_nat_alt range_End nowrap_end)

theorem Contains2_is_disjointness_witness:
  "\<not> AddressRange_Contains2 \<lparr>ar_Base = 0x1000, ar_Size = 0x3000\<rparr> 0x2000 0x1000 \<and> span 0x2000 0x1000 \<subseteq> span 0x1000 0x3000"
  using Contains2_is_disjointness [of "\<lparr>ar_Base = 0x1000, ar_Size = 0x3000\<rparr>" "0x2000" "0x1000"]
  by (auto simp: range_ok_def nowrap_def span_def disjoint_iff)

text \<open>
  \<^verbatim>\<open>AllocateFixed(virt, size)\<close>, for a non-empty request that does not wrap once
  rounded up to whole pages, succeeds exactly when no region overlaps it.  It then adds exactly
  the region \<open>[virt, virt + size)\<close> and keeps all regions pairwise disjoint; otherwise it leaves
  the address space unchanged.
\<close>

theorem AllocateFixed_keeps_regions_disjoint:
  fixes s :: "'t AddressSpace"
  assumes "region_tree ro alignUp" and "as_inv ro s"
    and "alignUp sz 0x1000 = n" and "nowrap virt n" and "n \<noteq> 0"
    and "AddressSpace_AllocateFixed ro alignUp virt sz s = (res, s')"
  shows "as_inv ro s' \<and>
    (if \<forall>e\<in>set (as_entries ro s). span virt n \<inter> region_span (snd e) = {}
     then res = Some (Region_make 0 virt n None) \<and>
          set (as_entries ro s') = insert (virt, Region_make 0 virt n None) (set (as_entries ro s))
     else res = None \<and> s' = s)"
  using assms(6) region_tree.IsAvailable_iff [OF assms(1,2,4,5)] region_tree.Insert_available [OF assms(1,2,4,5)]
    assms(2,3)
  by (auto simp: AddressSpace_AllocateFixed_def Let_def split: if_splits simp: mem_defs)

theorem AllocateFixed_keeps_regions_disjoint_witness:
  "\<exists>s'. AddressSpace_AllocateFixed rbt_ops align_up 0x4000 0x10 (as_empty 0x1000) =
      (Some (Region_make 0 0x4000 0x1000 None), s') \<and> as_inv rbt_ops s'"
proof -
  obtain res s' where run: "AddressSpace_AllocateFixed rbt_ops align_up 0x4000 0x10 (as_empty 0x1000) = (res, s')"
    by fastforce
  have n: "align_up 0x10 0x1000 = 0x1000" by code_simp
  show ?thesis
    using AllocateFixed_keeps_regions_disjoint [OF rbt_regions.region_tree_axioms as_empty_inv n _ _ run] run
    by (simp add: nowrap_def as_empty_def rbt_ops_def entries_RBT_empty)
qed

text \<open>
  Claim C19. \<^verbatim>\<open>AllocateRegion(length, alignment)\<close>, for a power-of-two alignment and as long as
  no candidate address wraps, always succeeds: the region it returns has the length asked for,
  is aligned, overlaps none of the regions present, and is the only change; the regions stay
  pairwise disjoint.
\<close>

theorem AllocateRegion_finds_disjoint_room:
  fixes s :: "'t AddressSpace"
  assumes "region_tree ro alignUp" and "as_inv ro s" and "k < 64" and "len \<noteq> 0" and "as_room ro s k len"
  shows "\<exists>r s'. AddressSpace_AllocateRegion ro alignUp len (2 ^ k) s = (Some r, s') \<and>
    Region_Size r = len \<and> 2 ^ k dvd unat (Region_VirtualBase r) \<and>
    (\<forall>e\<in>set (as_entries ro s). region_span r \<inter> region_span (snd e) = {}) \<and>
    set (as_entries ro s') = insert (Region_VirtualBase r, r) (set (as_entries ro s)) \<and> as_inv ro s'"
proof -
  obtain b where b: "AddressSpace_AllocateRegion ro alignUp len (2 ^ k) s =
      (Some (Region_make 0 b len None), AddressSpace_Insert ro b (Region_make 0 b len None) s)"
    "2 ^ k dvd unat b" "nowrap b len" "AddressSpace_IsAvailable ro s b len"
    using region_tree.AllocateRegion_works [OF assms] .
  show ?thesis
    using b region_tree.IsAvailable_iff [OF assms(1,2) b(3) assms(4)]
      region_tree.Insert_available [OF assms(1,2) b(3) assms(4) b(4)]
    by (auto simp: mem_defs)
qed

theorem AllocateRegion_finds_disjoint_room_witness:
  "\<exists>r s'. AddressSpace_AllocateRegion rbt_ops align_up 0x2000 (2 ^ 12) (as_empty 0x1000) = (Some r, s') \<and>
     Region_Size r = 0x2000 \<and> as_inv rbt_ops s'"
proof -
  have "as_room rbt_ops (as_empty 0x1000) 12 0x2000"
    by (simp add: as_room_def as_empty_def rbt_ops_def entries_RBT_empty)
  from AllocateRegion_finds_disjoint_room [OF rbt_regions.region_tree_axioms as_empty_inv _ _ this]
  show ?thesis by auto
qed

text \<open>
  \<^verbatim>\<open>Find(address)\<close> returns a region exactly when it is the one that covers the
  address.
\<close>

theorem Find_returns_covering_region:
  fixes s :: "'t AddressSpace"
  assumes "region_tree ro alignUp" and "as_inv ro s"
  shows "AddressSpace_Find ro s a = Some r \<longleftrightarrow>
    (Region_VirtualBase r, r) \<in> set (as_entries ro s) \<and> unat a \<in> region_span r"
  by (rule region_tree.Find_exact [OF assms])

theorem Find_returns_covering_region_witness:
  "AddressSpace_Find rbt_ops as_one 0x4800 = Some (Region_make 0 0x4000 0x1000 None) \<and>
   unat (0x4800 :: u64) \<in> region_span (Region_make 0 0x4000 0x1000 None)"
proof -
  have "AddressSpace_Find rbt_ops as_one 0x4800 = Some (Region_make 0 0x4000 0x1000 None)" by code_simp
  then show ?thesis
    using Find_returns_covering_region [OF rbt_regions.region_tree_axioms as_one_inv] by blast
qed

text \<open>
  The address arithmetic of \<^verbatim>\<open>IsAvailable\<close> wraps: with one region in the last but
  one page of the address space, a second region at the same base whose end wraps to \<open>0\<close> is
  accepted.
\<close>

theorem AllocateFixed_accepts_wrapping_overlap:
  "\<exists>r s r' s'. AddressSpace_AllocateFixed rbt_ops align_up 0xffffffffffffe000 0x1000 (as_empty 0x1000) = (Some r, s) \<and>
     AddressSpace_AllocateFixed rbt_ops align_up 0xffffffffffffe000 0x2000 s = (Some r', s') \<and>
     region_span r \<inter> region_span r' \<noteq> {}"
proof -
  let ?r = "Region_make 0 0xffffffffffffe000 0x1000 None"
  let ?r' = "Region_make 0 0xffffffffffffe000 0x2000 None"
  let ?s = "snd (AddressSpace_AllocateFixed rbt_ops align_up 0xffffffffffffe000 0x1000 (as_empty 0x1000))"
  have "fst (AddressSpace_AllocateFixed rbt_ops align_up 0xffffffffffffe000 0x1000 (as_empty 0x1000)) = Some ?r"
    by code_simp
  moreover have "fst (AddressSpace_AllocateFixed rbt_ops align_up 0xffffffffffffe000 0x2000 ?s) = Some ?r'"
    by code_simp
  moreover have "region_span ?r \<inter> region_span ?r' \<noteq> {}"
    by (simp add: mem_defs span_disjoint_iff)
  ultimately show ?thesis by (metis prod.collapse)
qed

text \<open>
  \<^verbatim>\<open>AllocateRegion\<close> restarts its search at the end of every region, also of one
  that lies below the address space's total range, and so can return a region below that range.
\<close>

theorem AllocateRegion_leaves_total_range:
  "\<exists>r0 s r s'. AddressSpace_AllocateFixed rbt_ops align_up 0x1000 0x1000 (as_empty 0x100000) = (Some r0, s) \<and>
     AddressSpace_AllocateRegion rbt_ops align_up 0x1000 0x1000 s = (Some r, s') \<and>
     Region_VirtualBase r = 0x2000 \<and> ar_Base (m_TotalRange s) = 0x100000"
proof -
  let ?s = "snd (AddressSpace_AllocateFixed rbt_ops align_up 0x1000 0x1000 (as_empty 0x100000))"
  have "fst (AddressSpace_AllocateFixed rbt_ops align_up 0x1000 0x1000 (as_empty 0x100000)) =
      Some (Region_make 0 0x1000 0x1000 None)"
    by code_simp
  moreover have "fst (AddressSpace_AllocateRegion rbt_ops align_up 0x1000 0x1000 ?s) =
      Some (Region_make 0 0x2000 0x1000 None)"
    by code_simp
  moreover have "ar_Base (m_TotalRange ?s) = 0x100000" by code_simp
  ultimately show ?thesis
    by (intro exI [of _ "Region_make 0 0x1000 0x1000 None"] exI [of _ ?s]
        exI [of _ "Region_make 0 0x2000 0x1000 None"]
        exI [of _ "snd (AddressSpace_AllocateRegion rbt_ops align_up 0x1000 0x1000 ?s)"])
      (simp add: prod_eq_iff mem_defs)
qed

end
