(* ===== verification/Page_Attributes.thy ===== *)
theory Page_Attributes
  imports Address_Space
begin

unbundle bit_operations_syntax

text \<open>
  Page attributes and page-table entries (\<^verbatim>\<open>Memory/PageTableEntry.hpp\<close>,
  \<^verbatim>\<open>Memory/Region.cpp\<close> and the flag conversions of \<^verbatim>\<open>Arch/x86_64/VMM.cpp\<close>).  The
  lemmas relate attributes to the bits the processor reads: the permissions survive the
  conversion in both directions, and the memory type each cache attribute selects is computed
  through the page attribute table that the kernel programs.
\<close>

section \<open>Attributes\<close>

type_synonym PageAttributes = u64

definition eRead :: PageAttributes where "eRead = 0x001"
definition eWrite :: PageAttributes where "eWrite = 0x002"
definition eExecutable :: PageAttributes where "eExecutable = 0x004"
definition eUser :: PageAttributes where "eUser = 0x008"
definition eGlobal :: PageAttributes where "eGlobal = 0x010"
definition eLPage :: PageAttributes where "eLPage = 0x020"
definition eLLPage :: PageAttributes where "eLLPage = 0x040"
definition eRW :: PageAttributes where "eRW = eRead OR eWrite"
definition eRWX :: PageAttributes where "eRWX = eRW OR eExecutable"
definition eRWXU :: PageAttributes where "eRWXU = eRWX OR eUser"
definition eUncacheableStrong :: PageAttributes where "eUncacheableStrong = 0x100"
definition eWriteCombining :: PageAttributes where "eWriteCombining = 0x080 OR 0x080"
definition eWriteThrough :: PageAttributes where "eWriteThrough = 0x200"
definition eWriteProtected :: PageAttributes where "eWriteProtected = 0x200 OR 0x080"
definition eWriteBack :: PageAttributes where "eWriteBack = 0x200 OR 0x100"
definition eUncacheable :: PageAttributes where "eUncacheable = 0x080 OR 0x100 OR 0x200"

lemmas attr_defs [mem_defs] = eRead_def eWrite_def eExecutable_def eUser_def eGlobal_def eLPage_def
  eLLPage_def eUncacheableStrong_def eWriteCombining_def eWriteThrough_def eWriteProtected_def
  eWriteBack_def eUncacheable_def

text \<open>
  The operators.  \<^verbatim>\<open>operator|\<close>, \<^verbatim>\<open>operator^\<close> and \<^verbatim>\<open>operator~\<close> go through
  \<^verbatim>\<open>int\<close>, that is, they keep 32 bits and sign-extend; \<^verbatim>\<open>operator&\<close> works on all 64.
\<close>

definition attr_not :: "PageAttributes \<Rightarrow> PageAttributes" where
  "attr_not v = scast (NOT (ucast v :: u32))"

definition attr_or :: "PageAttributes \<Rightarrow> PageAttributes \<Rightarrow> PageAttributes" where
  "attr_or l r = scast ((ucast l :: u32) OR ucast r)"

definition attr_and :: "PageAttributes \<Rightarrow> PageAttributes \<Rightarrow> u64" where
  "attr_and l r = l AND r"

definition attr_xor :: "PageAttributes \<Rightarrow> PageAttributes \<Rightarrow> PageAttributes" where
  "attr_xor l r = scast ((ucast l :: u32) XOR ucast r)"

definition attr_has :: "PageAttributes \<Rightarrow> PageAttributes \<Rightarrow> bool" where
  "attr_has l r \<longleftrightarrow> attr_and l r \<noteq> 0"

text \<open>\<^verbatim>\<open>Region::PageAttributes\<close>.\<close>

definition Region_PageAttributes :: "Region \<Rightarrow> PageAttributes" where
  "Region_PageAttributes r =
     (let flags = eWriteBack;
          flags = (if Access_has (m_Access r) Access_eRead then attr_or flags eRead else flags);
          flags = (if Access_has (m_Access r) Access_eWrite then attr_or flags eWrite else flags);
          flags = (if Access_has (m_Access r) Access_eExecute then attr_or flags eExecutable else flags);
          flags = (if Access_has (m_Access r) Access_eUser then attr_or flags eUser else flags)
      in attr_or (attr_or (attr_or flags eRead) eWrite) eExecutable)"

section \<open>Page-table entries\<close>

definition PTE_PRESENT :: u64 where "PTE_PRESENT = 0x1"
definition PTE_WRITEABLE :: u64 where "PTE_WRITEABLE = 0x2"
definition PTE_USER_SUPER :: u64 where "PTE_USER_SUPER = 0x4"
definition PTE_PWT :: u64 where "PTE_PWT = 0x8"
definition PTE_PCD :: u64 where "PTE_PCD = 0x10"
definition PTE_LPAGE :: u64 where "PTE_LPAGE = 0x80"
definition PTE_PAT4K :: u64 where "PTE_PAT4K = 0x80"
definition PTE_GLOBAL :: u64 where "PTE_GLOBAL = 0x100"
definition PTE_PATLG :: u64 where "PTE_PATLG = 0x1000"
definition PTE_NOEXEC :: u64 where "PTE_NOEXEC = 0x8000000000000000"
definition PTE_ADDRESS_MASK :: u64 where "PTE_ADDRESS_MASK = 0x000ffffffffff000"

definition g_DefaultPteFlags :: u64 where
  "g_DefaultPteFlags = PTE_PRESENT OR PTE_WRITEABLE OR PTE_USER_SUPER"

lemmas pte_bit_defs [mem_defs] = PTE_PRESENT_def PTE_WRITEABLE_def PTE_USER_SUPER_def PTE_PWT_def
  PTE_PCD_def PTE_LPAGE_def PTE_PAT4K_def PTE_GLOBAL_def PTE_PATLG_def PTE_NOEXEC_def
  PTE_ADDRESS_MASK_def g_DefaultPteFlags_def

type_synonym PageTableEntry = u64

definition pte_Address :: "PageTableEntry \<Rightarrow> Pointer" where
  "pte_Address e = e AND PTE_ADDRESS_MASK"

definition pte_GetFlag :: "PageTableEntry \<Rightarrow> u64 \<Rightarrow> bool" where
  "pte_GetFlag e flag \<longleftrightarrow> e AND flag \<noteq> 0"

definition pte_Flags :: "PageTableEntry \<Rightarrow> u64" where
  "pte_Flags e = e AND NOT PTE_ADDRESS_MASK"

definition pte_SetAddress :: "Pointer \<Rightarrow> PageTableEntry \<Rightarrow> PageTableEntry" where
  "pte_SetAddress address e = (e AND NOT PTE_ADDRESS_MASK) OR address"

definition pte_SetFlags :: "u64 \<Rightarrow> bool \<Rightarrow> PageTableEntry \<Rightarrow> PageTableEntry" where
  "pte_SetFlags flags enabled e = (if enabled then e OR flags else e AND NOT flags)"

definition pte_Clear :: "PageTableEntry \<Rightarrow> PageTableEntry" where
  "pte_Clear e = 0"

definition pte_IsValid :: "PageTableEntry \<Rightarrow> bool" where
  "pte_IsValid e = pte_GetFlag e PTE_PRESENT"

definition pte_IsLarge :: "PageTableEntry \<Rightarrow> bool" where
  "pte_IsLarge e = pte_GetFlag e PTE_LPAGE"

section \<open>Conversions\<close>

text \<open>\<^verbatim>\<open>ret\<close> is not initialised in the source; its initial value is an argument.\<close>

definition FromNativeFlags :: "PageAttributes \<Rightarrow> u64 \<Rightarrow> PageAttributes" where
  "FromNativeFlags ret flags =
     (let ret = (if flags AND PTE_PRESENT \<noteq> 0 then attr_or ret eRead else ret);
          ret = (if flags AND PTE_WRITEABLE \<noteq> 0 then attr_or ret eWrite else ret);
          ret = (if flags AND PTE_NOEXEC = 0 then attr_or ret eExecutable else ret);
          ret = (if flags AND PTE_USER_SUPER \<noteq> 0 then attr_or ret eUser else ret);
          ret = (if flags AND PTE_GLOBAL \<noteq> 0 then attr_or ret eGlobal else ret);
          patbit = (if flags AND PTE_LPAGE \<noteq> 0 then PTE_PATLG else PTE_PAT4K)
      in if flags AND (patbit OR PTE_PCD) = (patbit OR PTE_PCD) then attr_or ret eWriteBack
         else if flags AND (PTE_PCD OR PTE_PWT) = (PTE_PCD OR PTE_PWT) then attr_or ret eWriteCombining
         else ret)"

definition ToNativeFlags :: "PageAttributes \<Rightarrow> u64" where
  "ToNativeFlags attribs =
     (let pteFlags = PTE_PRESENT;
          pteFlags = (if attr_has attribs eWrite then pteFlags OR PTE_WRITEABLE else pteFlags);
          pteFlags = (if \<not> attr_has attribs eExecutable then pteFlags OR PTE_NOEXEC else pteFlags);
          pteFlags = (if attr_has attribs eUser then pteFlags OR PTE_USER_SUPER else pteFlags);
          pteFlags = (if attr_has attribs eGlobal then pteFlags OR PTE_GLOBAL else pteFlags);
          pteFlags = (if attr_has attribs eLPage \<or> attr_has attribs eLLPage
                      then pteFlags OR PTE_LPAGE else pteFlags);
          largePages = (pteFlags AND PTE_LPAGE \<noteq> 0);
          patbit = (if largePages then PTE_PATLG else PTE_PAT4K);
          pteFlags = (if attr_has attribs eUncacheableStrong then pteFlags OR PTE_PCD else pteFlags)
      in if attr_has attribs eWriteCombining then (pteFlags OR (PTE_PCD OR PTE_PWT)) AND NOT patbit
         else if attr_has attribs eWriteThrough then pteFlags OR patbit
         else if attr_has attribs eWriteProtected then pteFlags OR (patbit OR PTE_PWT)
         else if attr_has attribs eWriteBack then pteFlags OR (patbit OR PTE_PCD)
         else if attr_has attribs eUncacheable then pteFlags OR (patbit OR PTE_PCD OR PTE_PWT)
         else pteFlags)"

definition PAGE_SIZE :: usize where "PAGE_SIZE = 0x1000"
definition LPAGE_SIZE :: usize where "LPAGE_SIZE = 0x200000"
definition LLPAGE_SIZE :: usize where "LLPAGE_SIZE = 0x40000000"

lemmas page_size_defs [mem_defs] = PAGE_SIZE_def LPAGE_SIZE_def LLPAGE_SIZE_def

definition GetPageSize :: "PageAttributes \<Rightarrow> usize" where
  "GetPageSize flags =
     (if attr_has flags eLLPage then LLPAGE_SIZE
      else if attr_has flags eLPage then LPAGE_SIZE else PAGE_SIZE)"

text \<open>
  The page attribute table the constructor of \<^verbatim>\<open>PageMap\<close> writes, and the memory type a leaf
  entry selects: entry \<open>4 * PAT + 2 * PCD + PWT\<close> of the table, as the processor manual defines
  it, with the PAT bit at bit 12 of a large page and at bit 7 of a small one.
\<close>

definition page_attribute_table :: u64 where
  "page_attribute_table = push_bit 56 0x07 OR push_bit 48 0x06 OR push_bit 40 0x05 OR push_bit 32 0x04
     OR push_bit 24 0x01"

definition memory_type :: "bool \<Rightarrow> u64 \<Rightarrow> u64" where
  "memory_type large native =
     (let i = (if native AND (if large then PTE_PATLG else PTE_PAT4K) \<noteq> 0 then 4 else 0)
            + (if native AND PTE_PCD \<noteq> 0 then 2 else 0) + (if native AND PTE_PWT \<noteq> 0 then 1 else 0 :: nat)
      in drop_bit (8 * i) page_attribute_table AND 0xff)"

section \<open>Bits\<close>

lemma and_flag_iff:
  fixes a :: u64
  shows "a AND 0x1 \<noteq> 0 \<longleftrightarrow> bit a 0" "a AND 0x2 \<noteq> 0 \<longleftrightarrow> bit a 1" "a AND 0x4 \<noteq> 0 \<longleftrightarrow> bit a 2"
    "a AND 0x8 \<noteq> 0 \<longleftrightarrow> bit a 3" "a AND 0x10 \<noteq> 0 \<longleftrightarrow> bit a 4" "a AND 0x20 \<noteq> 0 \<longleftrightarrow> bit a 5"
    "a AND 0x40 \<noteq> 0 \<longleftrightarrow> bit a 6" "a AND 0x80 \<noteq> 0 \<longleftrightarrow> bit a 7" "a AND 0x100 \<noteq> 0 \<longleftrightarrow> bit a 8"
    "a AND 0x200 \<noteq> 0 \<longleftrightarrow> bit a 9" "a AND 0x1000 \<noteq> 0 \<longleftrightarrow> bit a 12"
    "a AND 0x8000000000000000 \<noteq> 0 \<longleftrightarrow> bit a 63"
  using and_exp_eq_0_iff_not_bit [of a 0] and_exp_eq_0_iff_not_bit [of a 1] and_exp_eq_0_iff_not_bit [of a 2]
    and_exp_eq_0_iff_not_bit [of a 3] and_exp_eq_0_iff_not_bit [of a 4] and_exp_eq_0_iff_not_bit [of a 5]
    and_exp_eq_0_iff_not_bit [of a 6] and_exp_eq_0_iff_not_bit [of a 7] and_exp_eq_0_iff_not_bit [of a 8]
    and_exp_eq_0_iff_not_bit [of a 9] and_exp_eq_0_iff_not_bit [of a 12] and_exp_eq_0_iff_not_bit [of a 63]
  by simp_all

lemma and_flag_63: "(a :: u64) AND 0x8000000000000000 = 0 \<longleftrightarrow> \<not> bit a 63"
  using and_flag_iff(12) [of a] by blast

lemma attr_has_iff:
  "attr_has a eRead \<longleftrightarrow> bit a 0" "attr_has a eWrite \<longleftrightarrow> bit a 1" "attr_has a eExecutable \<longleftrightarrow> bit a 2"
  "attr_has a eUser \<longleftrightarrow> bit a 3" "attr_has a eGlobal \<longleftrightarrow> bit a 4" "attr_has a eLPage \<longleftrightarrow> bit a 5"
  "attr_has a eLLPage \<longleftrightarrow> bit a 6" "attr_has a eWriteCombining \<longleftrightarrow> bit a 7"
  "attr_has a eUncacheableStrong \<longleftrightarrow> bit a 8" "attr_has a eWriteThrough \<longleftrightarrow> bit a 9"
  unfolding attr_has_def attr_and_def attr_defs or.idem by (rule and_flag_iff)+

lemma ToNativeFlags_bits:
  "bit (ToNativeFlags a) 0" "bit (ToNativeFlags a) 1 \<longleftrightarrow> bit a 1" "bit (ToNativeFlags a) 2 \<longleftrightarrow> bit a 3"
  "bit (ToNativeFlags a) 8 \<longleftrightarrow> bit a 4" "bit (ToNativeFlags a) 63 \<longleftrightarrow> \<not> bit a 2"
  by (simp_all add: ToNativeFlags_def Let_def attr_has_iff pte_bit_defs bit_simps)

lemma bit_attr_or: "n < 31 \<Longrightarrow> bit (attr_or l r) n \<longleftrightarrow> bit l n \<or> bit r n"
  by (simp add: attr_or_def bit_simps min_def)

lemma FromNativeFlags_bits:
  "bit (FromNativeFlags r f) 0 \<longleftrightarrow> bit r 0 \<or> bit f 0" "bit (FromNativeFlags r f) 1 \<longleftrightarrow> bit r 1 \<or> bit f 1"
  "bit (FromNativeFlags r f) 2 \<longleftrightarrow> bit r 2 \<or> \<not> bit f 63" "bit (FromNativeFlags r f) 3 \<longleftrightarrow> bit r 3 \<or> bit f 2"
  "bit (FromNativeFlags r f) 4 \<longleftrightarrow> bit r 4 \<or> bit f 8"
  by (auto simp: FromNativeFlags_def Let_def bit_attr_or pte_bit_defs attr_defs and_flag_iff and_flag_63 bit_simps)

section \<open>Properties\<close>

text \<open>
  \<^verbatim>\<open>ToNativeFlags\<close> yields a present entry that is writable, executable and open to
  user mode exactly as the attributes say, and converting back with \<^verbatim>\<open>FromNativeFlags\<close> (from a
  zero start value) gives the same permissions.
\<close>

theorem native_flags_keep_permissions:
  "bit (ToNativeFlags a) 0 \<and> (bit (ToNativeFlags a) 1 \<longleftrightarrow> attr_has a eWrite) \<and>
   (bit (ToNativeFlags a) 63 \<longleftrightarrow> \<not> attr_has a eExecutable) \<and> (bit (ToNativeFlags a) 2 \<longleftrightarrow> attr_has a eUser) \<and>
   (attr_has (FromNativeFlags 0 (ToNativeFlags a)) eRead) \<and>
   (attr_has (FromNativeFlags 0 (ToNativeFlags a)) eWrite \<longleftrightarrow> attr_has a eWrite) \<and>
   (attr_has (FromNativeFlags 0 (ToNativeFlags a)) eExecutable \<longleftrightarrow> attr_has a eExecutable) \<and>
   (attr_has (FromNativeFlags 0 (ToNativeFlags a)) eUser \<longleftrightarrow> attr_has a eUser) \<and>
   (attr_has (FromNativeFlags 0 (ToNativeFlags a)) eGlobal \<longleftrightarrow> attr_has a eGlobal)"
  by (simp add: attr_has_iff ToNativeFlags_bits FromNativeFlags_bits del: One_nat_def)

text \<open>
  Through the page attribute table of the kernel, the attributes write-back,
  write-through and write-combining select the memory types of these names (6, 4 and 1), for
  write-back also on a large page.
\<close>

theorem cache_attributes_select_memory_type:
  "memory_type False (ToNativeFlags (attr_or eRW eWriteBack)) = 6 \<and> memory_type True (ToNativeFlags (attr_or (attr_or eRW eLPage) eWriteBack)) = 6 \<and>
   memory_type False (ToNativeFlags (attr_or eRW eWriteThrough)) = 4 \<and>
   memory_type False (ToNativeFlags (attr_or eRW eWriteCombining)) = 1"
  by code_simp

text \<open>
  \<^verbatim>\<open>eUncacheableStrong\<close> selects the write-back memory type (6): its bit is also a
  bit of \<^verbatim>\<open>eWriteBack\<close>, whose test comes later and fires.  \<^verbatim>\<open>eUncacheable\<close> and
  \<^verbatim>\<open>eWriteProtected\<close> select write-combining (1).
\<close>

theorem uncacheable_attributes_are_cached:
  "memory_type False (ToNativeFlags (attr_or eRW eUncacheableStrong)) = 6 \<and>
   memory_type False (ToNativeFlags (attr_or eRW eUncacheable)) = 1 \<and>
   memory_type False (ToNativeFlags (attr_or eRW eWriteProtected)) = 1"
  by code_simp

text \<open>
  Decoding the flags of a page-table entry never reports write-back (bit 9): bit 7 makes
  \<^verbatim>\<open>FromNativeFlags\<close> look at the large-page PAT bit, which \<^verbatim>\<open>Flags()\<close> has masked out, and
  without bit 7 the small-page PAT bit is clear.
\<close>

theorem entry_never_decodes_as_WriteBack:
  "\<not> bit (FromNativeFlags 0 (pte_Flags e)) 9 \<and> bit eWriteBack 9"
proof -
  let ?f = "pte_Flags e"
  have "?f AND (PTE_PATLG OR PTE_PCD) \<noteq> PTE_PATLG OR PTE_PCD"
  proof
    assume "?f AND (PTE_PATLG OR PTE_PCD) = PTE_PATLG OR PTE_PCD"
    then have "bit (?f AND (PTE_PATLG OR PTE_PCD)) 12 = bit (PTE_PATLG OR PTE_PCD) 12" by simp
    then show False by (simp add: bit_simps pte_bit_defs pte_Flags_def)
  qed
  moreover have "?f AND (PTE_PAT4K OR PTE_PCD) \<noteq> PTE_PAT4K OR PTE_PCD" if "\<not> bit ?f 7"
  proof
    assume "?f AND (PTE_PAT4K OR PTE_PCD) = PTE_PAT4K OR PTE_PCD"
    then have "bit (?f AND (PTE_PAT4K OR PTE_PCD)) 7 = bit (PTE_PAT4K OR PTE_PCD) 7" by simp
    with that show False by (simp add: bit_simps pte_bit_defs)
  qed
  moreover have "?f AND PTE_LPAGE \<noteq> 0 \<longleftrightarrow> bit ?f 7" by (simp add: PTE_LPAGE_def and_flag_iff)
  ultimately show ?thesis
    by (auto simp: FromNativeFlags_def Let_def bit_attr_or attr_defs bit_simps)
qed
end
