(* ===== verification/Memory_Zones.thy ===== *)
theory Memory_Zones
  imports Kernel_Prelude
begin

text \<open>
  Boot memory zones (\<^verbatim>\<open>Memory/MemoryZone.hpp\<close>, \<^verbatim>\<open>Boot/BootMemoryInfo.hpp\<close>): typed
  stretches of physical memory from which early boot carves blocks at the low end.
  The lemmas show that a carved block lies in the zone, that the remainder is disjoint from it,
  and that no byte is lost.
\<close>

section \<open>Zones\<close>

datatype MemoryZoneType =
    eUsable | eReserved | eACPI_Reclaimable | eACPI_NVS | eBadMemory
  | eBootloaderReclaimable | eKernelAndModules | eFramebuffer | eCount

record MemoryZone =
  zone_Base :: Pointer
  zone_Length :: usize
  zone_Type :: MemoryZoneType

type_synonym MemoryMap = "MemoryZone list"

datatype PagingMode = ePagingNone | eLevel4 | eLevel5

text \<open>\<^verbatim>\<open>MemoryZone::Allocate\<close>: the null pointer is \<open>0\<close>.\<close>

definition MemoryZone_Allocate :: "usize \<Rightarrow> MemoryZone \<Rightarrow> Pointer \<times> MemoryZone" where
  "MemoryZone_Allocate bytes z =
     (if bytes > zone_Length z \<or> zone_Type z \<noteq> eUsable then (0, z)
      else (zone_Base z,
            z\<lparr>zone_Base := zone_Base z + bytes, zone_Length := zone_Length z - bytes\<rparr>))"

abbreviation zone_span :: "MemoryZone \<Rightarrow> nat set" where
  "zone_span z \<equiv> span (zone_Base z) (zone_Length z)"

definition zone_ok :: "MemoryZone \<Rightarrow> bool" where
  "zone_ok z \<longleftrightarrow> nowrap (zone_Base z) (zone_Length z)"

lemma MemoryZone_Allocate_fails:
  "bytes > zone_Length z \<or> zone_Type z \<noteq> eUsable \<Longrightarrow> MemoryZone_Allocate bytes z = (0, z)"
  by (simp add: MemoryZone_Allocate_def)

lemma MemoryZone_Allocate_carves:
  assumes "MemoryZone_Allocate bytes z = (p, z')" and "bytes \<le> zone_Length z"
    and "zone_Type z = eUsable" and "zone_ok z"
  shows "p = zone_Base z" and "zone_span z = span p bytes \<union> zone_span z'"
    and "span p bytes \<inter> zone_span z' = {}" and "zone_ok z'"
    and "zone_Type z' = eUsable"
proof -
  from assms have p: "p = zone_Base z" and z': "z' = z\<lparr>zone_Base := zone_Base z + bytes,
      zone_Length := zone_Length z - bytes\<rparr>"
    by (auto simp: MemoryZone_Allocate_def split: if_splits)
  show "p = zone_Base z" by (rule p)
  show "zone_Type z' = eUsable" using z' assms(3) by simp
  from assms(2,4) have bound: "unat (zone_Base z) + unat bytes < 2 ^ 64"
    by (simp add: zone_ok_def nowrap_def word_le_nat_alt)
  show "zone_span z = span p bytes \<union> zone_span z'" "span p bytes \<inter> zone_span z' = {}"
    using span_split [OF assms(2) bound] p z' by simp_all
  show "zone_ok z'"
    using assms(2,4) bound z'
    by (simp add: zone_ok_def nowrap_def unat_add_nowrap unat_sub_le word_le_nat_alt)
qed

end
