(* ===== verification/Page_Tables.thy ===== *)
theory Page_Tables
  imports Page_Attributes Memory_Zones
begin

unbundle bit_operations_syntax

text \<open>
  The page map: walking, mapping and unmapping (\<^verbatim>\<open>Arch/x86_64/VMM.cpp\<close>,
  \<^verbatim>\<open>Memory/PageMap.cpp\<close>, \<^verbatim>\<open>PageMap::NextLevel\<close> of \<^verbatim>\<open>Memory/VMM.cpp\<close>).  Page tables
  are a store from table addresses and indices to entries.  The theorems show that mapping a
  page makes exactly that page translate to the given frame and changes no other translation,
  and that unmapping removes exactly one translation.
\<close>

section \<open>State and environment\<close>

text \<open>
  Page tables are addressed by the higher-half pointer the kernel uses.  Outside of the model
  and arguments of the definitions are the conversions of Prism's \<^verbatim>\<open>Pointer\<close>, the heap behind
  \<^verbatim>\<open>new PageTable\<close> (a heap state, the address and the contents of the new table), the paging
  mode and the flag \<^verbatim>\<open>s_1GibPages\<close>.
\<close>

record 'h paging_env =
  env_ToHigherHalf :: "Pointer \<Rightarrow> Pointer"
  env_FromHigherHalf :: "Pointer \<Rightarrow> Pointer"
  env_new_PageTable :: "'h \<Rightarrow> Pointer \<times> (usize \<Rightarrow> PageTableEntry) \<times> 'h"
  env_PagingMode :: PagingMode
  env_1GibPages :: bool

record 'h page_state =
  pt_entries :: "Pointer \<Rightarrow> usize \<Rightarrow> PageTableEntry"
  pt_heap :: 'h

text \<open>A \<^verbatim>\<open>PageTableEntry*\<close>: a table and an index in it.\<close>

type_synonym pte_ref = "Pointer \<times> usize"

definition read_pte :: "pte_ref \<Rightarrow> 'h page_state \<Rightarrow> PageTableEntry" where
  "read_pte r st = pt_entries st (fst r) (snd r)"

definition write_pte :: "pte_ref \<Rightarrow> PageTableEntry \<Rightarrow> 'h page_state \<Rightarrow> 'h page_state" where
  "write_pte r e st =
     st\<lparr>pt_entries := (pt_entries st)(fst r := (pt_entries st (fst r))(snd r := e))\<rparr>"

definition AllocatePageTable :: "'h paging_env \<Rightarrow> 'h page_state \<Rightarrow> Pointer \<times> 'h page_state" where
  "AllocatePageTable env st =
     (let (p, contents, h) = env_new_PageTable env (pt_heap st)
      in (p, st\<lparr>pt_entries := (pt_entries st)(p := contents), pt_heap := h\<rparr>))"

text \<open>\<^verbatim>\<open>NextLevel\<close> returns the next table, \<open>0\<close> for null.\<close>

definition NextLevel :: "'h paging_env \<Rightarrow> pte_ref \<Rightarrow> bool \<Rightarrow> 'h page_state \<Rightarrow> Pointer \<times> 'h page_state" where
  "NextLevel env entry allocate st =
     (if pte_IsValid (read_pte entry st)
      then (env_ToHigherHalf env (pte_Address (read_pte entry st)), st)
      else if \<not> allocate then (0, st)
      else let (newEntry, st) = AllocatePageTable env st;
               st = write_pte entry (pte_SetAddress (env_FromHigherHalf env newEntry) (read_pte entry st)) st;
               st = write_pte entry (pte_SetFlags g_DefaultPteFlags True (read_pte entry st)) st
           in (newEntry, st))"

definition Virt2Pte ::
    "'h paging_env \<Rightarrow> Pointer \<Rightarrow> Pointer \<Rightarrow> bool \<Rightarrow> usize \<Rightarrow> 'h page_state \<Rightarrow> pte_ref option \<times> 'h page_state" where
  "Virt2Pte env topLevel virt allocate pageSize st =
     (let pml5Entry = drop_bit 48 virt AND 0x1ff;
          pml4Entry = drop_bit 39 virt AND 0x1ff;
          pml3Entry = drop_bit 30 virt AND 0x1ff;
          pml2Entry = drop_bit 21 virt AND 0x1ff;
          pml1Entry = drop_bit 12 virt AND 0x1ff
      in if topLevel = 0 then (None, st)
      else let (pml4, st) = (if env_PagingMode env = eLevel5
                             then NextLevel env (topLevel, pml5Entry) allocate st else (topLevel, st))
      in if pml4 = 0 then (None, st)
      else let (pml3, st) = NextLevel env (pml4, pml4Entry) allocate st
      in if pml3 = 0 then (None, st)
      else if pageSize = LLPAGE_SIZE \<or> pte_IsLarge (read_pte (pml3, pml3Entry) st)
      then (Some (pml3, pml3Entry), st)
      else let (pml2, st) = NextLevel env (pml3, pml3Entry) allocate st
      in if pml2 = 0 then (None, st)
      else if pageSize = LPAGE_SIZE \<or> pte_IsLarge (read_pte (pml2, pml2Entry) st)
      then (Some (pml2, pml2Entry), st)
      else let (pml1, st) = NextLevel env (pml2, pml2Entry) allocate st
      in if pml1 = 0 then (None, st) else (Some (pml1, pml1Entry), st))"

text \<open>\<^verbatim>\<open>u64(-1)\<close> stands for no translation.\<close>

definition Virt2Phys :: "'h paging_env \<Rightarrow> Pointer \<Rightarrow> Pointer \<Rightarrow> PageAttributes \<Rightarrow> 'h page_state \<Rightarrow> Pointer" where
  "Virt2Phys env topLevel virt flags st =
     (let pageSize = GetPageSize flags
      in case fst (Virt2Pte env topLevel virt False pageSize st) of
           None \<Rightarrow> - 1
         | Some pmlEntry \<Rightarrow>
             if \<not> pte_GetFlag (read_pte pmlEntry st) PTE_PRESENT then - 1
             else pte_Address (read_pte pmlEntry st) + virt mod pageSize)"

text \<open>
  \<^verbatim>\<open>InternalMap\<close> below the split of 1 GiB pages.  The recursive calls of the source have
  \<^verbatim>\<open>eLLPage\<close> cleared, so they are calls of this part.
\<close>

definition InternalMap_page ::
    "'h paging_env \<Rightarrow> Pointer \<Rightarrow> Pointer \<Rightarrow> Pointer \<Rightarrow> PageAttributes \<Rightarrow> 'h page_state \<Rightarrow> bool \<times> 'h page_state" where
  "InternalMap_page env topLevel virt phys flags st =
     (case Virt2Pte env topLevel virt True (GetPageSize flags) st of
        (None, st) \<Rightarrow> (False, st)
      | (Some pmlEntry, st) \<Rightarrow>
          let st = write_pte pmlEntry (pte_Clear (read_pte pmlEntry st)) st;
              st = write_pte pmlEntry (pte_SetAddress phys (read_pte pmlEntry st)) st;
              st = write_pte pmlEntry (pte_SetFlags (ToNativeFlags flags) True (read_pte pmlEntry st)) st
          in (True, st))"

text \<open>A loop over offsets that stops at the first step that fails.\<close>

fun all_steps :: "('i \<Rightarrow> 's \<Rightarrow> bool \<times> 's) \<Rightarrow> 'i list \<Rightarrow> 's \<Rightarrow> bool \<times> 's" where
  "all_steps f [] st = (True, st)"
| "all_steps f (i # is) st = (case f i st of (True, st) \<Rightarrow> all_steps f is st | (False, st) \<Rightarrow> (False, st))"

text \<open>The offsets \<open>0\<close>, 2 MiB, ... below 1 GiB.\<close>

definition lpage_offsets :: "usize list" where
  "lpage_offsets = map (\<lambda>i. of_nat i * LPAGE_SIZE) [0..<512]"

definition InternalMap ::
    "'h paging_env \<Rightarrow> Pointer \<Rightarrow> Pointer \<Rightarrow> Pointer \<Rightarrow> PageAttributes \<Rightarrow> 'h page_state \<Rightarrow> bool \<times> 'h page_state" where
  "InternalMap env topLevel virt phys flags st =
     (if GetPageSize flags = LLPAGE_SIZE \<and> \<not> env_1GibPages env
      then let flags = attr_and flags (attr_not eLLPage); flags = attr_or flags eLPage
           in all_steps (\<lambda>i. InternalMap_page env topLevel (virt + i) (phys + i) flags) lpage_offsets st
      else InternalMap_page env topLevel virt phys flags st)"

definition unmapOne ::
    "'h paging_env \<Rightarrow> Pointer \<Rightarrow> Pointer \<Rightarrow> usize \<Rightarrow> 'h page_state \<Rightarrow> bool \<times> 'h page_state" where
  "unmapOne env topLevel virt pageSize st =
     (case Virt2Pte env topLevel virt False pageSize st of
        (None, st) \<Rightarrow> (False, st)
      | (Some pmlEntry, st) \<Rightarrow> (True, write_pte pmlEntry (pte_Clear (read_pte pmlEntry st)) st))"

definition InternalUnmap ::
    "'h paging_env \<Rightarrow> Pointer \<Rightarrow> Pointer \<Rightarrow> PageAttributes \<Rightarrow> 'h page_state \<Rightarrow> bool \<times> 'h page_state" where
  "InternalUnmap env topLevel virt flags st =
     (let pageSize = GetPageSize flags
      in if pageSize = LLPAGE_SIZE \<and> \<not> env_1GibPages env
         then all_steps (\<lambda>i. unmapOne env topLevel (virt + i) 0x200000) lpage_offsets st
         else unmapOne env topLevel virt pageSize st)"

definition SetFlags ::
    "'h paging_env \<Rightarrow> Pointer \<Rightarrow> Pointer \<Rightarrow> PageAttributes \<Rightarrow> 'h page_state \<Rightarrow> bool \<times> 'h page_state" where
  "SetFlags env topLevel virt flags st =
     (case Virt2Pte env topLevel virt True (GetPageSize flags) st of
        (None, st) \<Rightarrow> (False, st)
      | (Some pmlEntry, st) \<Rightarrow>
          let nativeFlags = ToNativeFlags flags; addr = pte_Address (read_pte pmlEntry st);
              st = write_pte pmlEntry (pte_Clear (read_pte pmlEntry st)) st;
              st = write_pte pmlEntry (pte_SetAddress addr (read_pte pmlEntry st)) st;
              st = write_pte pmlEntry (pte_SetFlags nativeFlags True (read_pte pmlEntry st)) st
          in (True, st))"

section \<open>The walk as a recursion\<close>

text \<open>
  A table of level \<open>n\<close> has \<open>n\<close> levels of tables below it; level \<open>1\<close> and \<open>2\<close> entries may map a
  large page.  The walk from a table of level \<open>n\<close> and the equation with \<^verbatim>\<open>Virt2Pte\<close>.
\<close>

definition pt_index :: "nat \<Rightarrow> Pointer \<Rightarrow> usize" where
  "pt_index n virt = drop_bit (12 + 9 * n) virt AND 0x1ff"

definition pt_leaf :: "nat \<Rightarrow> PageTableEntry \<Rightarrow> bool" where
  "pt_leaf n e \<longleftrightarrow> (n = 1 \<or> n = 2) \<and> pte_IsLarge e"

definition pt_stop :: "usize \<Rightarrow> nat \<Rightarrow> bool" where
  "pt_stop pageSize n \<longleftrightarrow> n = 1 \<and> pageSize = LPAGE_SIZE \<or> n = 2 \<and> pageSize = LLPAGE_SIZE"

fun pt_walk :: "'h paging_env \<Rightarrow> bool \<Rightarrow> usize \<Rightarrow> Pointer \<Rightarrow> nat \<Rightarrow> Pointer \<Rightarrow> 'h page_state
    \<Rightarrow> pte_ref option \<times> 'h page_state" where
  "pt_walk env al ps virt 0 t st = (Some (t, pt_index 0 virt), st)"
| "pt_walk env al ps virt (Suc n) t st =
     (let r = (t, pt_index (Suc n) virt)
      in if pt_stop ps (Suc n) \<or> pt_leaf (Suc n) (read_pte r st) then (Some r, st)
         else let (t', st) = NextLevel env r al st
              in if t' = 0 then (None, st) else pt_walk env al ps virt n t' st)"

abbreviation pt_depth :: "'h paging_env \<Rightarrow> nat" where
  "pt_depth env \<equiv> (if env_PagingMode env = eLevel5 then 4 else 3)"

lemma pt_walk_pos:
  "0 < n \<Longrightarrow> pt_walk env al ps virt n t st =
     (let r = (t, pt_index n virt)
      in if pt_stop ps n \<or> pt_leaf n (read_pte r st) then (Some r, st)
         else let (t', st) = NextLevel env r al st
              in if t' = 0 then (None, st) else pt_walk env al ps virt (n - 1) t' st)"
  by (cases n) (simp_all add: Let_def cong: prod.case_cong if_cong)

lemmas pt_walk_numerals = pt_walk_pos [of 4] pt_walk_pos [of 3] pt_walk_pos [of 2] pt_walk_pos [of 1]

lemma Virt2Pte_walk:
  "t \<noteq> 0 \<Longrightarrow> Virt2Pte env t virt al ps st = pt_walk env al ps virt (pt_depth env) t st"
  by (cases "env_PagingMode env = eLevel5")
    (simp_all add: Virt2Pte_def pt_walk_numerals pt_index_def pt_leaf_def pt_stop_def Let_def
      cong: prod.case_cong if_cong)

lemma walk_no_alloc: "snd (pt_walk env False ps virt n t st) = st"
  by (induction n arbitrary: t) (auto simp: Let_def NextLevel_def)

section \<open>Well-formed page maps\<close>

text \<open>
  The laws of the environment: a table that \<^verbatim>\<open>new\<close> hands out is not in use, is zeroed, and
  its address survives the way through an entry (it is a page-aligned physical address).
  \<open>tabs h\<close> are the tables handed out so far.
\<close>

locale page_table_heap =
  fixes env :: "'h paging_env" and tabs :: "'h \<Rightarrow> Pointer set"
  assumes new_table: "env_new_PageTable env h = (p, c, h') \<Longrightarrow> p \<noteq> 0 \<Longrightarrow>
      p \<notin> tabs h \<and> tabs h' = insert p (tabs h) \<and> c = (\<lambda>_. 0) \<and>
      env_ToHigherHalf env (env_FromHigherHalf env p) = p \<and>
      env_FromHigherHalf env p AND PTE_ADDRESS_MASK = env_FromHigherHalf env p"

text \<open>The next \<open>n\<close> allocations succeed.\<close>

fun heap_room :: "'h paging_env \<Rightarrow> nat \<Rightarrow> 'h \<Rightarrow> bool" where
  "heap_room env 0 h = True"
| "heap_room env (Suc n) h = (case env_new_PageTable env h of (p, c, h') \<Rightarrow> p \<noteq> 0 \<and> heap_room env n h')"

definition pt_child :: "'h paging_env \<Rightarrow> PageTableEntry \<Rightarrow> Pointer" where
  "pt_child env e = env_ToHigherHalf env (pte_Address e)"

definition pt_inner :: "nat \<Rightarrow> PageTableEntry \<Rightarrow> bool" where
  "pt_inner n e \<longleftrightarrow> 0 < n \<and> pte_IsValid e \<and> \<not> pt_leaf n e"

text \<open>
  \<open>lv\<close> gives each table of a page map its level.  Inner entries lead to a table one level below,
  no two of them to the same, and an entry that is not present is zero.
\<close>

definition pt_wf :: "'h paging_env \<Rightarrow> ('h \<Rightarrow> Pointer set) \<Rightarrow> (Pointer \<rightharpoonup> nat) \<Rightarrow> 'h page_state \<Rightarrow> bool" where
  "pt_wf env tabs lv st \<longleftrightarrow>
     (\<forall>t\<in>dom lv. t \<noteq> 0 \<and> t \<in> tabs (pt_heap st)) \<and>
     (\<forall>t n i. lv t = Some n \<longrightarrow> pt_inner n (read_pte (t, i) st) \<longrightarrow>
        lv (pt_child env (read_pte (t, i) st)) = Some (n - 1)) \<and>
     (\<forall>t n i t' n' i'. lv t = Some n \<longrightarrow> lv t' = Some n' \<longrightarrow> pt_inner n (read_pte (t, i) st) \<longrightarrow>
        pt_inner n' (read_pte (t', i') st) \<longrightarrow>
        pt_child env (read_pte (t, i) st) = pt_child env (read_pte (t', i') st) \<longrightarrow> t = t' \<and> i = i') \<and>
     (\<forall>t n i. lv t = Some n \<longrightarrow> pte_IsValid (read_pte (t, i) st) \<or> read_pte (t, i) st = 0)"

text \<open>The present entry a walk without allocation ends at.\<close>

definition pt_translate :: "'h paging_env \<Rightarrow> Pointer \<Rightarrow> nat \<Rightarrow> Pointer \<Rightarrow> 'h page_state \<Rightarrow> PageTableEntry option" where
  "pt_translate env virt n t st =
     (case fst (pt_walk env False PAGE_SIZE virt n t st) of
        None \<Rightarrow> None
      | Some r \<Rightarrow> if pte_IsValid (read_pte r st) then Some (read_pte r st) else None)"

lemma not_stop_page [simp]: "\<not> pt_stop PAGE_SIZE n"
  by (simp add: pt_stop_def mem_defs)

lemma pte_zero [simp]: "\<not> pte_IsValid 0" "\<not> pte_IsLarge 0" "\<not> pt_leaf n 0"
  by (simp_all add: pte_IsValid_def pte_IsLarge_def pte_GetFlag_def pt_leaf_def)

lemma read_write [simp]:
  "read_pte r (write_pte r' e st) = (if r = r' then e else read_pte r st)"
  "pt_heap (write_pte r' e st) = pt_heap st"
  by (auto simp: read_pte_def write_pte_def prod_eq_iff)

lemma translate_zero_table:
  assumes "\<And>i. read_pte (t, i) st = 0"
  shows "pt_translate env v n t st = None"
  by (cases n) (simp_all add: pt_translate_def Let_def NextLevel_def assms)

lemma translate_Suc:
  "pt_translate env v (Suc n) t st =
     (let e = read_pte (t, pt_index (Suc n) v) st
      in if \<not> pte_IsValid e then None else if pt_leaf (Suc n) e then Some e
         else if pt_child env e = 0 then None else pt_translate env v n (pt_child env e) st)"
  by (auto simp: pt_translate_def Let_def NextLevel_def pt_child_def)

lemma walk_cong:
  "(\<And>k. k \<le> n \<Longrightarrow> pt_index k v = pt_index k v') \<Longrightarrow> pt_walk env al ps v n t st = pt_walk env al ps v' n t st"
  by (induction n arbitrary: t st) (auto simp: Let_def split: prod.splits)

section \<open>Entries and walks\<close>

lemma masked_entry:
  assumes "x AND PTE_ADDRESS_MASK = x" and "f AND PTE_ADDRESS_MASK = 0"
  shows "pte_Address (x OR f) = x" and "pte_IsValid (x OR f) = bit f 0" and "pte_IsLarge (x OR f) = bit f 7"
proof -
  have "(x OR f) AND PTE_ADDRESS_MASK = (x AND PTE_ADDRESS_MASK) OR (f AND PTE_ADDRESS_MASK)"
    by (rule bit.conj_disj_distrib2)
  with assms show "pte_Address (x OR f) = x" by (simp add: pte_Address_def)
  have "bit x n \<longleftrightarrow> bit (x AND PTE_ADDRESS_MASK) n" for n by (simp add: assms(1))
  from this [of 0] this [of 7] have "\<not> bit x 0" "\<not> bit x 7"
    by (simp_all add: bit_simps pte_bit_defs)
  then show "pte_IsValid (x OR f) = bit f 0" "pte_IsLarge (x OR f) = bit f 7"
    by (simp_all add: pte_IsValid_def pte_IsLarge_def pte_GetFlag_def pte_bit_defs and_flag_iff bit_simps
        del: One_nat_def)
qed

lemma default_flags: "g_DefaultPteFlags AND PTE_ADDRESS_MASK = 0" "bit g_DefaultPteFlags 0" "\<not> bit g_DefaultPteFlags 7"
  by (simp_all add: pte_bit_defs)

text \<open>No large page covers the address.\<close>

fun no_large :: "'h paging_env \<Rightarrow> Pointer \<Rightarrow> nat \<Rightarrow> Pointer \<Rightarrow> 'h page_state \<Rightarrow> bool" where
  "no_large env v 0 t st = True"
| "no_large env v (Suc n) t st =
     (\<not> pt_leaf (Suc n) (read_pte (t, pt_index (Suc n) v) st) \<and>
      (pt_inner (Suc n) (read_pte (t, pt_index (Suc n) v) st) \<longrightarrow>
         no_large env v n (pt_child env (read_pte (t, pt_index (Suc n) v) st)) st))"

lemma no_large_zero:
  assumes "\<And>i. read_pte (t, i) st = 0"
  shows "no_large env v n t st"
  by (cases n) (simp_all add: assms pt_inner_def)

lemma native_flags_outside_mask:
  assumes "GetPageSize flags = PAGE_SIZE"
  shows "ToNativeFlags flags AND PTE_ADDRESS_MASK = 0"
proof -
  have "\<not> bit flags 5" "\<not> bit flags 6"
    using assms by (auto simp: GetPageSize_def attr_has_iff page_size_defs split: if_splits)
  then show ?thesis
    by (simp add: ToNativeFlags_def Let_def attr_has_iff pte_bit_defs bit.conj_disj_distrib2 and.assoc)
qed

context page_table_heap
begin

lemma NextLevel_alloc:
  assumes "read_pte (t, i) st = 0" and "env_new_PageTable env (pt_heap st) = (p, c, h')" and "p \<noteq> 0" and "t \<in> tabs (pt_heap st)"
  obtains st1 where "NextLevel env (t, i) True st = (p, st1)" and "pt_heap st1 = h'"
    and "\<And>r. read_pte r st1 = (if r = (t, i) then env_FromHigherHalf env p OR g_DefaultPteFlags
                              else if fst r = p then 0 else read_pte r st)"
proof -
  note new = new_table [OF assms(2,3)]
  with assms(4) have "t \<noteq> p" by auto
  obtain st1 where "NextLevel env (t, i) True st = (p, st1)" "pt_heap st1 = h'"
    "\<And>r. read_pte r st1 = (if r = (t, i) then env_FromHigherHalf env p OR g_DefaultPteFlags
                              else if fst r = p then 0 else read_pte r st)"
    using assms(1,2) new \<open>t \<noteq> p\<close>
    by (auto simp: NextLevel_def AllocatePageTable_def Let_def read_pte_def write_pte_def pte_SetAddress_def
        pte_SetFlags_def split: prod.splits)
  then show thesis by (rule that)
qed

lemma link_table:
  assumes "pt_wf env tabs lv st" and "lv t = Some (Suc n)" and "read_pte (t, i) st = 0"
    and "env_new_PageTable env (pt_heap st) = (p, c, h')" and "p \<noteq> 0"
  obtains st1 where "NextLevel env (t, i) True st = (p, st1)" and "pt_heap st1 = h'"
    and "pt_wf env tabs (lv(p \<mapsto> n)) st1" and "lv p = None"
    and "pt_inner (Suc n) (read_pte (t, i) st1)" and "pt_child env (read_pte (t, i) st1) = p"
    and "\<And>j. read_pte (p, j) st1 = 0"
    and "\<And>r. fst r \<in> dom lv \<Longrightarrow> read_pte r st \<noteq> 0 \<Longrightarrow> read_pte r st1 = read_pte r st"
    and "\<And>t' v k. lv t' = Some k \<Longrightarrow> pt_translate env v k t' st1 = pt_translate env v k t' st"
proof -
  note new = new_table [OF assms(4,5)]
  have "t \<in> tabs (pt_heap st)" using assms(1,2) by (auto simp: pt_wf_def)
  obtain st1
    where nl: "NextLevel env (t, i) True st = (p, st1)" "pt_heap st1 = h'"
      and rd: "\<And>r. read_pte r st1 = (if r = (t, i) then env_FromHigherHalf env p OR g_DefaultPteFlags
                              else if fst r = p then 0 else read_pte r st)"
    by (rule NextLevel_alloc [OF assms(3-5) \<open>t \<in> tabs (pt_heap st)\<close>]) blast
  let ?e = "env_FromHigherHalf env p OR g_DefaultPteFlags"
  have e: "pte_IsValid ?e" "\<not> pte_IsLarge ?e" "pt_child env ?e = p"
    using new masked_entry [of "env_FromHigherHalf env p" g_DefaultPteFlags] default_flags
    by (simp_all add: pt_child_def)
  have p: "lv p = None" using assms(1) new by (auto simp: pt_wf_def)
  then have tp: "t \<noteq> p" using assms(2) by auto
  have chld: "pt_child env (read_pte (t', j) st) \<noteq> p" if "lv t' = Some k" "pt_inner k (read_pte (t', j) st)" for t' k j
    using assms(1) that p unfolding pt_wf_def by fastforce
  have wf: "pt_wf env tabs (lv(p \<mapsto> n)) st1"
    unfolding pt_wf_def
  proof (intro conjI)
    show "\<forall>t'\<in>dom (lv(p \<mapsto> n)). t' \<noteq> 0 \<and> t' \<in> tabs (pt_heap st1)"
      using assms(1,5) new nl(2) by (auto simp: pt_wf_def)
    show "\<forall>t' k j. (lv(p \<mapsto> n)) t' = Some k \<longrightarrow> pt_inner k (read_pte (t', j) st1) \<longrightarrow>
        (lv(p \<mapsto> n)) (pt_child env (read_pte (t', j) st1)) = Some (k - 1)"
      using assms(1,2) e tp p chld by (auto simp: rd pt_wf_def pt_inner_def)
    show "\<forall>t' k j. (lv(p \<mapsto> n)) t' = Some k \<longrightarrow> pte_IsValid (read_pte (t', j) st1) \<or> read_pte (t', j) st1 = 0"
      using assms(1) e by (auto simp: rd pt_wf_def)
    show "\<forall>t1 n1 i1 t2 n2 i2. (lv(p \<mapsto> n)) t1 = Some n1 \<longrightarrow> (lv(p \<mapsto> n)) t2 = Some n2 \<longrightarrow>
        pt_inner n1 (read_pte (t1, i1) st1) \<longrightarrow> pt_inner n2 (read_pte (t2, i2) st1) \<longrightarrow>
        pt_child env (read_pte (t1, i1) st1) = pt_child env (read_pte (t2, i2) st1) \<longrightarrow> t1 = t2 \<and> i1 = i2"
    proof (intro allI impI)
      fix t1 n1 i1 t2 n2 i2
      assume *: "(lv(p \<mapsto> n)) t1 = Some n1" "(lv(p \<mapsto> n)) t2 = Some n2"
        "pt_inner n1 (read_pte (t1, i1) st1)" "pt_inner n2 (read_pte (t2, i2) st1)"
        "pt_child env (read_pte (t1, i1) st1) = pt_child env (read_pte (t2, i2) st1)"
      then have "t1 \<noteq> p" "t2 \<noteq> p" using tp by (auto simp: rd pt_inner_def split: if_splits)
      with * e chld [of t1 n1 i1] chld [of t2 n2 i2] assms(1) show "t1 = t2 \<and> i1 = i2"
        unfolding pt_wf_def by (simp add: rd split: if_splits)
    qed
  qed
  have tr: "pt_translate env v k t' st1 = pt_translate env v k t' st" if "lv t' = Some k" for t' v k
    using that
  proof (induction k arbitrary: t')
    case 0
    then have "t' \<noteq> p" "(t', pt_index 0 v) \<noteq> (t, i)" using p assms(2) by auto
    then show ?case by (auto simp: pt_translate_def rd)
  next
    case (Suc k)
    then have t'p: "t' \<noteq> p" using p by auto
    show ?case
    proof (cases "(t', pt_index (Suc k) v) = (t, i)")
      case True
      then have "Suc k = Suc n" using Suc.prems assms(2) by simp
      moreover have "pt_translate env v n p st1 = None"
        using tp by (intro translate_zero_table) (simp add: rd)
      ultimately show ?thesis
        using True assms(3) e assms(5) by (simp add: translate_Suc rd Let_def pt_leaf_def)
    next
      case False
      have "lv (pt_child env (read_pte (t', pt_index (Suc k) v) st)) = Some k"
        if "pte_IsValid (read_pte (t', pt_index (Suc k) v) st)" "\<not> pt_leaf (Suc k) (read_pte (t', pt_index (Suc k) v) st)"
        using assms(1) Suc.prems that unfolding pt_wf_def pt_inner_def by force
      with False t'p Suc.IH show ?thesis by (auto simp: translate_Suc rd Let_def)
    qed
  qed
  show thesis
    by (rule that [OF nl wf p _ _ _ _ tr]) (use e p tp assms(3) in \<open>auto simp: rd pt_inner_def pt_leaf_def\<close>)
qed


lemma inner_child:
  assumes "pt_wf env tabs lv st" and "lv t = Some n" and "pt_inner n (read_pte (t, i) st)"
  shows "lv (pt_child env (read_pte (t, i) st)) = Some (n - 1)" and "pt_child env (read_pte (t, i) st) \<noteq> 0"
proof -
  show *: "lv (pt_child env (read_pte (t, i) st)) = Some (n - 1)"
    using assms unfolding pt_wf_def by blast
  then show "pt_child env (read_pte (t, i) st) \<noteq> 0" using assms(1) unfolding pt_wf_def by blast
qed

lemma walk_inner:
  assumes "pt_inner (Suc n) (read_pte (t, pt_index (Suc n) v) st)" and "pt_child env (read_pte (t, pt_index (Suc n) v) st) \<noteq> 0"
  shows "pt_walk env al PAGE_SIZE v (Suc n) t st =
    pt_walk env al PAGE_SIZE v n (pt_child env (read_pte (t, pt_index (Suc n) v) st)) st"
  using assms by (simp add: NextLevel_def Let_def pt_inner_def pt_child_def)

lemma heap_room_less: "heap_room env (Suc n) h \<Longrightarrow> heap_room env n h"
proof (induction n arbitrary: h)
  case (Suc n)
  obtain p c h' where "env_new_PageTable env h = (p, c, h')" by (cases "env_new_PageTable env h")
  with Suc show ?case by simp
qed simp

text \<open>
  A walk that allocates ends at an entry, keeps the page map well formed, keeps all translations
  and all entries in use, and is the walk without allocation in the new state.
\<close>

definition walk_post :: "(Pointer \<rightharpoonup> nat) \<Rightarrow> 'h page_state \<Rightarrow> (Pointer \<rightharpoonup> nat) \<Rightarrow> 'h page_state \<Rightarrow> bool" where
  "walk_post lv st lv' st' \<longleftrightarrow> pt_wf env tabs lv' st' \<and> lv \<subseteq>\<^sub>m lv' \<and>
     (\<forall>r. fst r \<in> dom lv \<longrightarrow> read_pte r st \<noteq> 0 \<longrightarrow> read_pte r st' = read_pte r st) \<and>
     (\<forall>t k v. lv t = Some k \<longrightarrow> pt_translate env v k t st' = pt_translate env v k t st)"

lemma walk_post_refl: "pt_wf env tabs lv st \<Longrightarrow> walk_post lv st lv st"
  by (simp add: walk_post_def)

lemma walk_post_trans:
  assumes "walk_post lv st lv1 st1" and "walk_post lv1 st1 lv2 st2"
  shows "walk_post lv st lv2 st2"
proof -
  have sub: "lv t = Some k \<Longrightarrow> lv1 t = Some k" for t k
    using assms(1) by (metis domI map_le_def walk_post_def)
  have "read_pte r st2 = read_pte r st" if "fst r \<in> dom lv" "read_pte r st \<noteq> 0" for r
  proof -
    have "read_pte r st1 = read_pte r st" using assms(1) that unfolding walk_post_def by blast
    moreover have "fst r \<in> dom lv1" using that(1) sub by blast
    ultimately show ?thesis using assms(2) that(2) unfolding walk_post_def by metis
  qed
  moreover have "pt_translate env v k t st2 = pt_translate env v k t st" if "lv t = Some k" for t k v
    using assms that sub [OF that] unfolding walk_post_def by metis
  ultimately show ?thesis
    using assms map_le_trans [of lv lv1 lv2] unfolding walk_post_def by blast
qed

lemma walk_alloc:
  assumes "pt_wf env tabs lv st" and "lv t = Some n" and "heap_room env n (pt_heap st)"
  shows "\<exists>r st' lv'. pt_walk env True PAGE_SIZE v n t st = (Some r, st') \<and> walk_post lv st lv' st' \<and>
     pt_walk env False PAGE_SIZE v n t st' = (Some r, st') \<and>
     (no_large env v n t st \<longrightarrow> lv' (fst r) = Some 0)"
  using assms
proof (induction n arbitrary: t st lv)
  case 0
  then show ?case by (auto intro: walk_post_refl)
next
  case (Suc n)
  let ?r = "(t, pt_index (Suc n) v)" and ?e = "read_pte (t, pt_index (Suc n) v) st"
  consider (leaf) "pt_leaf (Suc n) ?e" | (inner) "pt_inner (Suc n) ?e" | (none) "?e = 0"
    using Suc.prems(1,2) unfolding pt_wf_def pt_inner_def by blast
  then show ?case
  proof cases
    case leaf
    with Suc.prems(1) show ?thesis by (auto intro: walk_post_refl)
  next
    case inner
    note c = inner_child [OF Suc.prems(1,2) inner, simplified]
    from Suc.IH [OF Suc.prems(1) c(1) heap_room_less [OF Suc.prems(3)]] obtain r st' lv' where
      w: "pt_walk env True PAGE_SIZE v n (pt_child env ?e) st = (Some r, st')" "walk_post lv st lv' st'"
         "pt_walk env False PAGE_SIZE v n (pt_child env ?e) st' = (Some r, st')"
         "no_large env v n (pt_child env ?e) st \<longrightarrow> lv' (fst r) = Some 0" by blast
    have "?e \<noteq> 0" using inner by (auto simp: pt_inner_def)
    with w(2) Suc.prems(2) have "read_pte ?r st' = ?e" by (auto simp: walk_post_def)
    with w inner c show ?thesis by (metis no_large.simps(2) walk_inner)
  next
    case none
    obtain p c h' where new: "env_new_PageTable env (pt_heap st) = (p, c, h')"
      by (cases "env_new_PageTable env (pt_heap st)")
    with Suc.prems(3) have p: "p \<noteq> 0" and room: "heap_room env n h'" by auto
    obtain st1 where l: "NextLevel env ?r True st = (p, st1)" "pt_heap st1 = h'"
        "pt_wf env tabs (lv(p \<mapsto> n)) st1" "lv p = None" "pt_inner (Suc n) (read_pte ?r st1)"
        "pt_child env (read_pte ?r st1) = p"
      and zero: "\<And>i. read_pte (p, i) st1 = 0"
      and k: "\<And>r. fst r \<in> dom lv \<Longrightarrow> read_pte r st \<noteq> 0 \<Longrightarrow> read_pte r st1 = read_pte r st"
        "\<And>t' v k. lv t' = Some k \<Longrightarrow> pt_translate env v k t' st1 = pt_translate env v k t' st"
      by (rule link_table [OF Suc.prems(1,2) none new p]) blast
    have step: "walk_post lv st (lv(p \<mapsto> n)) st1"
      using l(3,4) k by (auto simp: walk_post_def map_le_def)
    have room1: "heap_room env n (pt_heap st1)" using room l(2) by simp
    from Suc.IH [OF l(3) fun_upd_same room1] obtain r st' lv' where
      w: "pt_walk env True PAGE_SIZE v n p st1 = (Some r, st')" "walk_post (lv(p \<mapsto> n)) st1 lv' st'"
         "pt_walk env False PAGE_SIZE v n p st' = (Some r, st')"
         "no_large env v n p st1 \<longrightarrow> lv' (fst r) = Some 0" by blast
    have "read_pte ?r st1 \<noteq> 0" using l(5) by (auto simp: pt_inner_def)
    with w(2) Suc.prems(2) have "read_pte ?r st' = read_pte ?r st1" by (auto simp: walk_post_def)
    then have "pt_walk env False PAGE_SIZE v (Suc n) t st' = (Some r, st')"
      using walk_inner [of n t v st' False] l(5,6) w(3) p by simp
    moreover have "pt_walk env True PAGE_SIZE v (Suc n) t st = (Some r, st')"
      using none l(1) w(1) p by (simp add: Let_def)
    moreover have "no_large env v n p st1" by (rule no_large_zero) (rule zero)
    ultimately show ?thesis using walk_post_trans [OF step w(2)] w(4) by blast
  qed
qed

lemma walk_no_large:
  assumes "pt_wf env tabs lv st" and "lv t = Some n" and "no_large env v n t st"
    and "fst (pt_walk env False PAGE_SIZE v n t st) = Some r"
  shows "lv (fst r) = Some 0"
  using assms(2-4)
proof (induction n arbitrary: t)
  case (Suc n)
  have inner: "pt_inner (Suc n) (read_pte (t, pt_index (Suc n) v) st)"
    using Suc.prems(2,3) by (auto simp: pt_inner_def Let_def NextLevel_def split: if_splits)
  note c = inner_child [OF assms(1) Suc.prems(1) inner]
  from c Suc.prems(2,3) inner show ?case
    by (intro Suc.IH [of "pt_child env (read_pte (t, pt_index (Suc n) v) st)"])
      (simp_all add: walk_inner [OF inner c(2)] del: pt_walk.simps)
qed auto

text \<open>Two walks that meet at an entry of a last-level table took the same way.\<close>

lemma walk_separate:
  assumes "pt_wf env tabs lv st" and "lv t = Some n" and "lv t' = Some n"
    and "fst (pt_walk env False PAGE_SIZE v n t st) = Some r" and "lv (fst r) = Some 0"
    and "fst (pt_walk env False PAGE_SIZE v' n t' st) = Some r"
  shows "t = t' \<and> (\<forall>k\<le>n. pt_index k v = pt_index k v')"
  using assms(2-4,6)
proof (induction n arbitrary: t t')
  case 0
  then show ?case by auto
next
  case (Suc n)
  let ?e = "read_pte (t, pt_index (Suc n) v) st" and ?e' = "read_pte (t', pt_index (Suc n) v') st"
  have inn: "pt_inner (Suc n) (read_pte (s, pt_index (Suc n) u) st)"
    if "lv s = Some (Suc n)" "fst (pt_walk env False PAGE_SIZE u (Suc n) s st) = Some r" for s u
    using that assms(5) by (auto simp: pt_inner_def Let_def NextLevel_def split: if_splits)
  note i = inn [OF Suc.prems(1,3)] and i' = inn [OF Suc.prems(2,4)]
  note c = inner_child [OF assms(1) Suc.prems(1) i] and c' = inner_child [OF assms(1) Suc.prems(2) i']
  have "pt_child env ?e = pt_child env ?e' \<and> (\<forall>k\<le>n. pt_index k v = pt_index k v')"
    using Suc.IH [of "pt_child env ?e" "pt_child env ?e'"] c c' Suc.prems(3,4)
    by (simp add: walk_inner [OF i c(2)] walk_inner [OF i' c'(2)] del: pt_walk.simps)
  moreover from this have "t = t' \<and> pt_index (Suc n) v = pt_index (Suc n) v'"
    using assms(1) Suc.prems(1,2) i i' unfolding pt_wf_def by blast
  ultimately show ?case by (auto simp: le_Suc_eq)
qed

lemma pt_wf_cong:
  assumes "pt_wf env tabs lv st" and "pt_heap st2 = pt_heap st"
    and same: "\<And>t n i. lv t = Some n \<Longrightarrow> 0 < n \<Longrightarrow> read_pte (t, i) st2 = read_pte (t, i) st"
    and "\<And>t n i. lv t = Some n \<Longrightarrow> pte_IsValid (read_pte (t, i) st2) \<or> read_pte (t, i) st2 = 0"
  shows "pt_wf env tabs lv st2"
proof -
  have inner: "pt_inner n (read_pte (t, i) st2) \<longleftrightarrow> pt_inner n (read_pte (t, i) st)" if "lv t = Some n" for t n i
    using same [OF that, of i] by (cases n) (auto simp: pt_inner_def)
  have "read_pte (t, i) st2 = read_pte (t, i) st" if "lv t = Some n" "pt_inner n (read_pte (t, i) st)" for t n i
    using same [OF that(1), of i] that(2) by (simp add: pt_inner_def)
  with assms(1,2,4) show ?thesis by (simp add: pt_wf_def inner)
qed

lemma write_last_level:
  assumes "pt_wf env tabs lv st" and "lv (fst r) = Some 0" and "pte_IsValid e \<or> e = 0"
  shows "pt_wf env tabs lv (write_pte r e st)"
    and "lv t = Some n \<Longrightarrow> fst (pt_walk env False PAGE_SIZE v n t (write_pte r e st)) =
           fst (pt_walk env False PAGE_SIZE v n t st)"
proof -
  obtain a b where r: "r = (a, b)" by (cases r)
  have same: "read_pte (t, i) (write_pte r e st) = read_pte (t, i) st" if "lv t = Some n" "0 < n" for t i n
    using that assms(2) by (auto simp: r)
  show "pt_wf env tabs lv (write_pte r e st)"
    by (rule pt_wf_cong [OF assms(1)]) (use same assms(1,3) in \<open>auto simp: pt_wf_def\<close>)
  show "fst (pt_walk env False PAGE_SIZE v n t (write_pte r e st)) = fst (pt_walk env False PAGE_SIZE v n t st)"
    if "lv t = Some n"
    using that
  proof (induction n arbitrary: t)
    case (Suc n)
    note s = same [OF Suc.prems, simplified]
    show ?case
    proof (cases "pt_inner (Suc n) (read_pte (t, pt_index (Suc n) v) st)")
      case True
      note c = inner_child [OF assms(1) Suc.prems True]
      with True Suc.IH show ?thesis by (simp add: walk_inner s del: pt_walk.simps)
    next
      case False
      then show ?thesis by (auto simp: Let_def s NextLevel_def pt_inner_def)
    qed
  qed simp
qed

lemma translate_write:
  assumes "pt_wf env tabs lv st" and "lv (fst r) = Some 0" and "pte_IsValid e \<or> e = 0" and "lv t = Some n"
  shows "pt_translate env v n t (write_pte r e st) =
    (if fst (pt_walk env False PAGE_SIZE v n t st) = Some r then (if e = 0 then None else Some e)
     else pt_translate env v n t st)"
  using assms(3) by (auto simp: pt_translate_def write_last_level(2) [OF assms] split: option.splits)

end

lemma pt_index_alt: "pt_index k v = take_bit 9 (drop_bit (12 + 9 * k) v)"
proof -
  have "(0x1ff :: u64) = mask 9" by (simp add: mask_eq_exp_minus_1)
  then show ?thesis by (simp add: pt_index_def take_bit_eq_mask)
qed

text \<open>The number of the virtual page: the address bits the walk looks at.\<close>

definition virt_page :: "'h paging_env \<Rightarrow> Pointer \<Rightarrow> u64" where
  "virt_page env v = take_bit (9 * (pt_depth env + 1)) (drop_bit 12 v)"

lemma take_bit_slices:
  "take_bit (9 * (n + 1)) (drop_bit 12 v) = take_bit (9 * (n + 1)) (drop_bit 12 (v' :: u64)) \<longleftrightarrow>
     (\<forall>k\<le>n. pt_index k v = pt_index k v')" (is "?l = ?r \<longleftrightarrow> _")
proof
  assume eq: "?l = ?r"
  show "\<forall>k\<le>n. pt_index k v = pt_index k v'"
  proof (intro allI impI)
    fix k assume "k \<le> n"
    have "pt_index k u = take_bit 9 (drop_bit (9 * k) (take_bit (9 * (n + 1)) (drop_bit 12 u)))" for u
      using \<open>k \<le> n\<close> by (auto simp: pt_index_alt intro!: bit_word_eqI simp: bit_simps add.assoc) 
    with eq show "pt_index k v = pt_index k v'" by simp
  qed
next
  assume idx: "\<forall>k\<le>n. pt_index k v = pt_index k v'"
  have "bit (drop_bit 12 v) j = bit (drop_bit 12 v') j" if "j < 9 * (n + 1)" for j
  proof -
    have "bit (pt_index (j div 9) v) (j mod 9) = bit (pt_index (j div 9) v') (j mod 9)"
      using idx that by (simp add: less_mult_imp_div_less less_Suc_eq_le)
    moreover have "bit (pt_index (j div 9) u) (j mod 9) = bit (drop_bit 12 u) j" for u
      by (simp add: pt_index_alt bit_simps add.assoc mult.commute)
    ultimately show ?thesis by simp
  qed
  then show "?l = ?r" by (intro bit_eqI) (auto simp: bit_take_bit_iff)
qed

lemma Virt2Phys_translate:
  assumes "t \<noteq> 0" and "GetPageSize f = PAGE_SIZE"
  shows "Virt2Phys env t v f st =
    (case pt_translate env v (pt_depth env) t st of None \<Rightarrow> - 1 | Some e \<Rightarrow> pte_Address e + v mod PAGE_SIZE)"
  using assms
  by (auto simp: Virt2Phys_def Virt2Pte_walk pt_translate_def Let_def pte_IsValid_def split: option.splits)

lemma GetPageSize_eRead: "GetPageSize eRead = PAGE_SIZE"
  by (simp add: GetPageSize_def attr_has_iff) (simp add: attr_defs)

definition pmap_ok :: "'h paging_env \<Rightarrow> ('h \<Rightarrow> Pointer set) \<Rightarrow> Pointer \<Rightarrow> 'h page_state \<Rightarrow> bool" where
  "pmap_ok env tabs pml st \<longleftrightarrow> (\<exists>lv. pt_wf env tabs lv st \<and> lv pml = Some (pt_depth env))"

section \<open>Properties\<close>

text \<open>
  A small machine for concrete runs: sixteen page tables from \<open>0xffff800000001000\<close> on, 4-level
  paging, the higher half at \<open>0xffff800000000000\<close>.
\<close>

definition small_env :: "nat paging_env" where
  "small_env = \<lparr>env_ToHigherHalf = (\<lambda>p. p + 0xffff800000000000), env_FromHigherHalf = (\<lambda>p. p - 0xffff800000000000),
     env_new_PageTable = (\<lambda>h. (if h < 16 then 0xffff800000001000 + of_nat h * 0x1000 else 0, \<lambda>_. 0, h + 1)),
     env_PagingMode = eLevel4, env_1GibPages = True\<rparr>"

definition small_tabs :: "nat \<Rightarrow> Pointer set" where
  "small_tabs h = (\<lambda>k. 0xffff800000001000 + of_nat k * 0x1000) ` {..<min h 16}"

definition small_state :: "nat page_state" where
  "small_state = \<lparr>pt_entries = (\<lambda>_ _. 0), pt_heap = 1\<rparr>"

interpretation small: page_table_heap small_env small_tabs
proof unfold_locales
  fix h p and c :: "usize \<Rightarrow> PageTableEntry" and h'
  assume "env_new_PageTable small_env h = (p, c, h')" and "p \<noteq> 0"
  then have h: "h < 16" "p = 0xffff800000001000 + of_nat h * 0x1000" "c = (\<lambda>_. 0)" "h' = h + 1"
    by (auto simp: small_env_def split: if_splits)
  have inj: "h = k" if "h < 16" "k < 16" "(of_nat h :: u64) * 0x1000 = of_nat k * 0x1000" for h k
  proof -
    have un: "unat ((of_nat n :: u64) * 0x1000) = n * 4096" if "n < 16" for n
    proof -
      have "unat (of_nat n :: u64) = n" using that by (simp add: unat_of_nat)
      with that show ?thesis by (subst unat_mult_nowrap) simp_all
    qed
    have "h * 4096 = k * 4096" using un [OF that(1)] un [OF that(2)] that(3) by metis
    then show ?thesis by simp
  qed
  have "p \<notin> small_tabs h"
  proof
    assume "p \<in> small_tabs h"
    then obtain k where "k < h" "(of_nat h :: u64) * 0x1000 = of_nat k * 0x1000"
      using h by (auto simp: small_tabs_def)
    with inj [of h k] h(1) show False by simp
  qed
  moreover have "small_tabs h' = insert p (small_tabs h)"
    using h by (auto simp: small_tabs_def less_Suc_eq min_def)
  moreover have "(0x1000 + of_nat h * 0x1000 :: u64) AND PTE_ADDRESS_MASK = 0x1000 + of_nat h * 0x1000"
  proof -
    have "h \<in> set [0, 1, 2, 3, 4, 5, 6, 7, 8, 9, 10, 11, 12, 13, 14, 15]" using h(1) by (simp, presburger)
    then show ?thesis by (auto simp: PTE_ADDRESS_MASK_def)
  qed
  ultimately show "p \<notin> small_tabs h \<and> small_tabs h' = insert p (small_tabs h) \<and> c = (\<lambda>_. 0) \<and>
      env_ToHigherHalf small_env (env_FromHigherHalf small_env p) = p \<and>
      env_FromHigherHalf small_env p AND PTE_ADDRESS_MASK = env_FromHigherHalf small_env p"
    using h by (simp add: small_env_def)
qed

lemma small_ok: "pmap_ok small_env small_tabs 0xffff800000001000 small_state"
  unfolding pmap_ok_def
  by (rule exI [of _ "[0xffff800000001000 \<mapsto> 3]"])
    (auto simp: pt_wf_def small_state_def small_tabs_def small_env_def pt_inner_def read_pte_def)

lemma small_no_large: "no_large small_env v n t small_state"
  by (rule no_large_zero) (simp add: small_state_def read_pte_def)

text \<open>
  Claim C3. Mapping a 4 KiB page where no large page covers the address, with a page-aligned
  physical address below 2^52 and tables to be had, succeeds and keeps the page map well formed;
  afterwards every address of that page translates to the frame plus its offset, and the
  translation of every other page is what it was.
\<close>

theorem InternalMap_maps_one_page:
  fixes env :: "'h paging_env"
  assumes "page_table_heap env tabs" and "pmap_ok env tabs pml st" and "heap_room env (pt_depth env) (pt_heap st)"
    and "no_large env virt (pt_depth env) pml st"
    and "GetPageSize flags = PAGE_SIZE" and "phys AND PTE_ADDRESS_MASK = phys"
  shows "\<exists>st'. InternalMap env pml virt phys flags st = (True, st') \<and> pmap_ok env tabs pml st' \<and>
    (\<forall>v. Virt2Phys env pml v eRead st' =
      (if virt_page env v = virt_page env virt then phys + v mod PAGE_SIZE else Virt2Phys env pml v eRead st))"
proof -
  obtain lv where wf: "pt_wf env tabs lv st" and lt: "lv pml = Some (pt_depth env)"
    using assms(2) by (auto simp: pmap_ok_def)
  have nz: "pml \<noteq> 0" using wf lt by (auto simp: pt_wf_def)
  from page_table_heap.walk_alloc [OF assms(1) wf lt assms(3), of virt] obtain r st1 lv1 where
    w: "pt_walk env True PAGE_SIZE virt (pt_depth env) pml st = (Some r, st1)"
       "page_table_heap.walk_post env tabs lv st lv1 st1"
       "pt_walk env False PAGE_SIZE virt (pt_depth env) pml st1 = (Some r, st1)" "lv1 (fst r) = Some 0"
    using assms(4) by blast
  note post = w(2) [unfolded page_table_heap.walk_post_def [OF assms(1)]]
  then have lt1: "lv1 pml = Some (pt_depth env)" using lt by (metis domI map_le_def)
  have wf1: "pt_wf env tabs lv1 st1" using post by blast
  let ?e = "phys OR ToNativeFlags flags"
  let ?st = "write_pte r ?e st1"
  have e: "pte_IsValid ?e" "pte_Address ?e = phys"
    using masked_entry [OF assms(6) native_flags_outside_mask [OF assms(5)]] ToNativeFlags_bits(1) by simp_all
  then have ne: "?e \<noteq> 0" by auto
  have "InternalMap env pml virt phys flags st = (True, write_pte r ?e (write_pte r phys (write_pte r 0 st1)))"
    using assms(5) nz w(1)
    by (simp add: InternalMap_def InternalMap_page_def Virt2Pte_walk Let_def pte_Clear_def pte_SetAddress_def
        pte_SetFlags_def page_size_defs)
  also have "write_pte r ?e (write_pte r phys (write_pte r 0 st1)) = ?st"
    by (simp add: write_pte_def)
  finally have run: "InternalMap env pml virt phys flags st = (True, ?st)" .
  note wl = page_table_heap.write_last_level [OF assms(1) wf1 w(4), of ?e]
  have ok: "pmap_ok env tabs pml ?st"
    using wl(1) post e lt1 by (auto simp: pmap_ok_def)
  have tr: "pt_translate env v (pt_depth env) pml ?st =
      (if virt_page env v = virt_page env virt then Some ?e else pt_translate env v (pt_depth env) pml st)" for v
  proof -
    have "fst (pt_walk env False PAGE_SIZE v (pt_depth env) pml st1) = Some r \<longleftrightarrow> virt_page env v = virt_page env virt"
      using page_table_heap.walk_separate [OF assms(1) wf1 lt1 lt1 _ w(4), of virt v] w(3) post
        walk_cong [of "pt_depth env" v virt env False PAGE_SIZE pml st1]
      unfolding virt_page_def take_bit_slices by force
    with page_table_heap.translate_write [OF assms(1) wf1 w(4) _ lt1, of ?e v] post e ne lt lt1
    show ?thesis by simp
  qed
  have "\<forall>v. Virt2Phys env pml v eRead ?st =
      (if virt_page env v = virt_page env virt then phys + v mod PAGE_SIZE else Virt2Phys env pml v eRead st)"
    using e by (simp add: Virt2Phys_translate [OF nz GetPageSize_eRead] tr)
  with run ok show ?thesis by blast
qed


theorem InternalMap_maps_one_page_witness:
  "\<exists>st'. InternalMap small_env 0xffff800000001000 0x400000 0x7000 eRW small_state = (True, st') \<and>
     Virt2Phys small_env 0xffff800000001000 0x400123 eRead st' = 0x7123"
proof -
  have "heap_room small_env (pt_depth small_env) (pt_heap small_state)"
    by (simp add: small_env_def small_state_def eval_nat_numeral(1) numeral_3_eq_3)
  from InternalMap_maps_one_page [OF small.page_table_heap_axioms small_ok this small_no_large, of eRW "0x7000" "0x400000"]
  show ?thesis
    by (auto simp: GetPageSize_def attr_has_def attr_and_def eRW_def attr_defs page_size_defs pte_bit_defs
        virt_page_def small_env_def)
qed


text \<open>
  Claim C20. Unmapping a 4 KiB page that no large page covers fails exactly when a table on the
  way is missing, and then changes nothing; otherwise the page has no translation afterwards and
  every other page keeps its own.
\<close>

theorem InternalUnmap_unmaps_one_page:
  fixes env :: "'h paging_env"
  assumes "page_table_heap env tabs" and "pmap_ok env tabs pml st" and "no_large env virt (pt_depth env) pml st"
    and "GetPageSize flags = PAGE_SIZE" and "InternalUnmap env pml virt flags st = (ok, st')"
  shows "pmap_ok env tabs pml st' \<and> (ok \<longleftrightarrow> fst (Virt2Pte env pml virt False PAGE_SIZE st) \<noteq> None) \<and>
    (\<not> ok \<longrightarrow> st' = st) \<and> Virt2Phys env pml virt eRead st' = - 1 \<and>
    (\<forall>v. virt_page env v \<noteq> virt_page env virt \<longrightarrow> Virt2Phys env pml v eRead st' = Virt2Phys env pml v eRead st)"
proof -
  obtain lv where wf: "pt_wf env tabs lv st" and lt: "lv pml = Some (pt_depth env)"
    using assms(2) by (auto simp: pmap_ok_def)
  have nz: "pml \<noteq> 0" using wf lt by (auto simp: pt_wf_def)
  have un: "InternalUnmap env pml virt flags st =
      (case fst (pt_walk env False PAGE_SIZE virt (pt_depth env) pml st) of
         None \<Rightarrow> (False, st) | Some r \<Rightarrow> (True, write_pte r 0 st))"
    using assms(4) nz walk_no_alloc [of env PAGE_SIZE virt "pt_depth env" pml st]
    by (auto simp: InternalUnmap_def unmapOne_def Let_def Virt2Pte_walk pte_Clear_def page_size_defs
        split: prod.splits option.splits)
  show ?thesis
  proof (cases "fst (pt_walk env False PAGE_SIZE virt (pt_depth env) pml st)")
    case None
    with un assms(5) have r: "ok = False" "st' = st" by simp_all
    with None assms(2) show ?thesis
      by (simp add: Virt2Phys_translate [OF nz GetPageSize_eRead] pt_translate_def Virt2Pte_walk [OF nz])
  next
    case (Some r)
    with un assms(5) have r: "ok" "st' = write_pte r 0 st" by simp_all
    have lr: "lv (fst r) = Some 0"
      by (rule page_table_heap.walk_no_large [OF assms(1) wf lt assms(3) Some])
    have meet: "fst (pt_walk env False PAGE_SIZE v (pt_depth env) pml st) = Some r \<Longrightarrow>
        virt_page env v = virt_page env virt" for v
      using page_table_heap.walk_separate [OF assms(1) wf lt lt Some lr, of v]
      unfolding virt_page_def take_bit_slices by simp
    have tr: "pt_translate env v (pt_depth env) pml st' =
        (if fst (pt_walk env False PAGE_SIZE v (pt_depth env) pml st) = Some r then None
         else pt_translate env v (pt_depth env) pml st)" for v
      using page_table_heap.translate_write [OF assms(1) wf lr _ lt, of 0 v] r(2) by simp
    have "pmap_ok env tabs pml st'"
      using page_table_heap.write_last_level(1) [OF assms(1) wf lr, of 0] lt r(2) by (auto simp: pmap_ok_def)
    moreover have "Virt2Phys env pml virt eRead st' = - 1"
      using tr [of virt] Some by (simp add: Virt2Phys_translate [OF nz GetPageSize_eRead])
    moreover have "Virt2Phys env pml v eRead st' = Virt2Phys env pml v eRead st"
      if "virt_page env v \<noteq> virt_page env virt" for v
    proof -
      have "pt_translate env v (pt_depth env) pml st' = pt_translate env v (pt_depth env) pml st"
        using tr [of v] meet [of v] that by auto
      then show ?thesis by (simp only: Virt2Phys_translate [OF nz GetPageSize_eRead])
    qed
    moreover have "fst (Virt2Pte env pml virt False PAGE_SIZE st) \<noteq> None"
      using Some by (simp add: Virt2Pte_walk [OF nz])
    ultimately show ?thesis using r(1) by blast
  qed
qed

theorem InternalUnmap_unmaps_one_page_witness:
  "\<exists>st'. InternalUnmap small_env 0xffff800000001000 0x400000 0 small_state = (False, st') \<and>
     Virt2Phys small_env 0xffff800000001000 0x400000 eRead st' = - 1"
proof -
  obtain ok st' where run: "InternalUnmap small_env 0xffff800000001000 0x400000 0 small_state = (ok, st')"
    by fastforce
  have "fst (Virt2Pte small_env 0xffff800000001000 0x400000 False PAGE_SIZE small_state) = None"
    by (simp add: Virt2Pte_def NextLevel_def read_pte_def small_state_def small_env_def)
  moreover have "GetPageSize 0 = PAGE_SIZE" by (simp add: GetPageSize_def attr_has_def attr_and_def)
  ultimately show ?thesis
    using InternalUnmap_unmaps_one_page [OF small.page_table_heap_axioms small_ok small_no_large _ run] run
    by (intro exI [of _ st']) (metis (full_types))
qed

text \<open>
  The PAT bit of a large page lies inside the address mask: after mapping a 2 MiB page
  with write-back attributes at the physical address \<open>p\<close>, the entry's \<^verbatim>\<open>Address()\<close> is
  \<open>p + 0x1000\<close>.
\<close>

theorem large_page_address_includes_pat_bit:
  assumes "phys AND 0x000fffffffe00000 = phys"
  shows "pte_Address (pte_SetFlags (ToNativeFlags (attr_or (attr_or eRW eLPage) eWriteBack)) True (pte_SetAddress phys 0))
    = phys + 0x1000"
proof -
  have fl: "ToNativeFlags (attr_or (attr_or eRW eLPage) eWriteBack) AND PTE_ADDRESS_MASK = 0x1000" by code_simp
  have sub: "phys AND m = phys AND (0x000fffffffe00000 AND m)" for m
    using arg_cong [OF assms, of "\<lambda>x. x AND m"] by (simp only: and.assoc)
  have ph: "phys AND PTE_ADDRESS_MASK = phys"
    using sub [of PTE_ADDRESS_MASK] assms by (simp add: PTE_ADDRESS_MASK_def)
  have "phys AND 0x1000 = 0" using sub [of "0x1000"] by simp
  then have "phys OR 0x1000 = phys + 0x1000" by (simp add: disjunctive_add_eq_or)
  with fl ph show ?thesis
    by (simp add: pte_Address_def pte_SetFlags_def pte_SetAddress_def bit.conj_disj_distrib2)
qed

theorem large_page_address_includes_pat_bit_witness:
  "pte_Address (pte_SetFlags (ToNativeFlags (attr_or (attr_or eRW eLPage) eWriteBack)) True (pte_SetAddress 0x200000 0))
    = 0x201000"
  using large_page_address_includes_pat_bit [of "0x200000"] by simp

end
