(* ===== verification/Bitmap_Allocator.thy ===== *)
theory Bitmap_Allocator
  imports Memory_Zones
begin

text \<open>
  The page frame allocator interface (\<^verbatim>\<open>Memory/Allocator/PageFrameAllocator.hpp\<close>) and its
  bitmap implementation (\<^verbatim>\<open>Memory/Allocator/BitmapAllocator.cpp\<close>).  The interface is the
  locale \<open>page_frame_allocator\<close>: what a client may rely on when it allocates and frees runs of
  frames.  The bitmap allocator provides it for every bitmap that obeys the Prism laws; clients
  that free only what they own never see two live blocks overlap.
\<close>

section \<open>State and operations\<close>

text \<open>
  The class members, with the function-local \<^verbatim>\<open>static usize lastIndex\<close> of
  \<^verbatim>\<open>AllocatePages\<close> as a field.  Bitmap indices are page numbers; they are bounded by
  \<^verbatim>\<open>limit\<close> in every loop of the source, so they are kept as natural numbers, while
  addresses and byte counts wrap at 64 bits.
\<close>

record 'bm BitmapAllocator =
  m_PageBitmap :: 'bm
  m_MemoryTop :: Pointer
  m_UsableMemoryTop :: Pointer
  m_PageSize :: usize
  m_UsableMemorySize :: usize
  m_TotalMemory :: usize
  m_UsedMemory :: usize
  lastIndex :: nat

text \<open>One iteration of the first loop of \<^verbatim>\<open>Initialize\<close>.\<close>

definition BitmapAllocator_scan_zone ::
    "MemoryZone \<Rightarrow> 'bm BitmapAllocator \<Rightarrow> 'bm BitmapAllocator" where
  "BitmapAllocator_scan_zone entry s =
     (let top = zone_Base entry + zone_Length entry;
          s = s\<lparr>m_MemoryTop := max (m_MemoryTop s) top\<rparr>
      in case zone_Type entry of
           eUsable \<Rightarrow>
             s\<lparr>m_UsableMemorySize := m_UsableMemorySize s + zone_Length entry,
               m_UsableMemoryTop := max (m_UsableMemoryTop s) top,
               m_TotalMemory := m_TotalMemory s + zone_Length entry\<rparr>
         | eACPI_Reclaimable \<Rightarrow>
             s\<lparr>m_UsedMemory := m_UsedMemory s + zone_Length entry,
               m_TotalMemory := m_TotalMemory s + zone_Length entry\<rparr>
         | eBootloaderReclaimable \<Rightarrow>
             s\<lparr>m_UsedMemory := m_UsedMemory s + zone_Length entry,
               m_TotalMemory := m_TotalMemory s + zone_Length entry\<rparr>
         | eKernelAndModules \<Rightarrow>
             s\<lparr>m_UsedMemory := m_UsedMemory s + zone_Length entry,
               m_TotalMemory := m_TotalMemory s + zone_Length entry\<rparr>
         | _ \<Rightarrow> s)"

text \<open>
  The inner loop of the second pass: it clears one bit per page of a usable zone, starting at
  offset \<open>page\<close>.  The counter is a 64-bit word, so the loop need not end for every argument;
  \<open>None\<close> is a loop that does not end.
\<close>

partial_function (option) BitmapAllocator_free_zone ::
    "'bm bitmap_ops \<Rightarrow> usize \<Rightarrow> MemoryZone \<Rightarrow> usize \<Rightarrow> 'bm \<Rightarrow> 'bm option" where
  "BitmapAllocator_free_zone bo pageSize z page bm =
     (if page < zone_Length z
      then BitmapAllocator_free_zone bo pageSize z (page + pageSize)
             (bm_SetIndex bo bm (unat ((zone_Base z + page) div pageSize)) False)
      else Some bm)"

fun BitmapAllocator_free_zones ::
    "'bm bitmap_ops \<Rightarrow> usize \<Rightarrow> MemoryMap \<Rightarrow> 'bm \<Rightarrow> 'bm option" where
  "BitmapAllocator_free_zones bo pageSize [] bm = Some bm"
| "BitmapAllocator_free_zones bo pageSize (z # zs) bm =
     (if zone_Type z \<noteq> eUsable then BitmapAllocator_free_zones bo pageSize zs bm
      else case BitmapAllocator_free_zone bo pageSize z
                  (if zone_Base z = 0 then 4096 else 0) bm of
             None \<Rightarrow> None
           | Some bm' \<Rightarrow> BitmapAllocator_free_zones bo pageSize zs bm')"

text \<open>
  \<^verbatim>\<open>Initialize\<close>.  \<^verbatim>\<open>Math::IsPowerOfTwo\<close> belongs to Prism and is an argument.  \<open>None\<close>
  is a division by zero, a failed assertion or a loop that does not end; otherwise the result is
  the error code or success, with the state the members are left in.
\<close>

definition BitmapAllocator_Initialize ::
    "'bm bitmap_ops \<Rightarrow> (usize \<Rightarrow> bool) \<Rightarrow> MemoryMap \<Rightarrow> usize \<Rightarrow> 'bm BitmapAllocator
       \<Rightarrow> (unit error_or \<times> 'bm BitmapAllocator) option" where
  "BitmapAllocator_Initialize bo isPowerOfTwo memoryMap pageSize s =
     (if \<not> isPowerOfTwo pageSize then Some (Inl EINVAL, s)
      else let s = fold BitmapAllocator_scan_zone memoryMap (s\<lparr>m_PageSize := pageSize\<rparr>)
           in if m_MemoryTop s = 0 then Some (Inl ENOMEM, s)
              else if pageSize = 0 then None
              else let bitmapEntryCount = unat (m_UsableMemoryTop s div pageSize);
                       bm = bm_SetAll bo (bm_Allocate bo bitmapEntryCount) 0xff
                   in if bm_GetSize bo bm = 0 then None
                      else case BitmapAllocator_free_zones bo pageSize memoryMap bm of
                             None \<Rightarrow> None
                           | Some bm' \<Rightarrow> Some (Inr (), s\<lparr>m_PageBitmap := bm'\<rparr>))"

text \<open>The loops that set or clear the bits \<open>lo, \<dots>, hi - 1\<close>.\<close>

definition bitmap_set_range ::
    "'bm bitmap_ops \<Rightarrow> 'bm \<Rightarrow> nat \<Rightarrow> nat \<Rightarrow> bool \<Rightarrow> 'bm" where
  "bitmap_set_range bo bm lo hi v = fold (\<lambda>i b. bm_SetIndex bo b i v) [lo ..< hi] bm"

text \<open>
  \<^verbatim>\<open>FindFreeRegions(start, count, limit)\<close>: the loop with its counter
  \<^verbatim>\<open>contiguousPages\<close>.  It returns the page number found, the value left in the reference
  parameter \<^verbatim>\<open>start\<close>, and the bitmap.
\<close>

function FindFreeRegions ::
    "'bm bitmap_ops \<Rightarrow> nat \<Rightarrow> nat \<Rightarrow> nat \<Rightarrow> nat \<Rightarrow> 'bm \<Rightarrow> nat option \<times> nat \<times> 'bm" where
  "FindFreeRegions bo count limit contiguousPages start bm =
     (if start < limit then
        if \<not> bm_GetIndex bo bm start then
          if contiguousPages + 1 = count then
            (let start = start + 1; page = start - count
             in (Some page, start, bitmap_set_range bo bm page start True))
          else FindFreeRegions bo count limit (contiguousPages + 1) (start + 1) bm
        else FindFreeRegions bo count limit 0 (start + 1) bm
      else (None, start, bm))"
  by pat_completeness auto
termination
  by (relation "measure (\<lambda>(bo, count, limit, c, start, bm). limit - start)") auto

declare FindFreeRegions.simps [simp del]

text \<open>The pointer the call returns: \<^verbatim>\<open>page * m_PageSize\<close>, or null.\<close>

definition found_pointer :: "usize \<Rightarrow> nat option \<Rightarrow> Pointer" where
  "found_pointer pageSize r = (case r of None \<Rightarrow> 0 | Some page \<Rightarrow> of_nat page * pageSize)"

definition BitmapAllocator_AllocatePages ::
    "'bm bitmap_ops \<Rightarrow> usize \<Rightarrow> 'bm BitmapAllocator \<Rightarrow> Pointer \<times> 'bm BitmapAllocator" where
  "BitmapAllocator_AllocatePages bo pageCount s =
     (if pageCount = 0 then (0, s)
      else
        let i = lastIndex s;
            limit = unat (m_UsableMemoryTop s div m_PageSize s);
            (r, last, bm) = FindFreeRegions bo (unat pageCount) limit 0 (lastIndex s)
                              (m_PageBitmap s);
            pages = found_pointer (m_PageSize s) r;
            s = s\<lparr>lastIndex := last, m_PageBitmap := bm\<rparr>
        in if pages = 0 then
             let (r, last, bm) = FindFreeRegions bo (unat pageCount) i 0 0 (m_PageBitmap s);
                 pages = found_pointer (m_PageSize s) r;
                 s = s\<lparr>lastIndex := last, m_PageBitmap := bm\<rparr>
             in if pages = 0 then (0, s)
                else (pages, s\<lparr>m_UsedMemory := m_UsedMemory s + pageCount * m_PageSize s\<rparr>)
           else (pages, s\<lparr>m_UsedMemory := m_UsedMemory s + pageCount * m_PageSize s\<rparr>))"

definition BitmapAllocator_FreePages ::
    "'bm bitmap_ops \<Rightarrow> Pointer \<Rightarrow> usize \<Rightarrow> 'bm BitmapAllocator \<Rightarrow> 'bm BitmapAllocator" where
  "BitmapAllocator_FreePages bo page pageCount s =
     (if pageCount = 0 \<or> page = 0 then s
      else let pageIndex = page div m_PageSize s
           in s\<lparr>m_PageBitmap := bitmap_set_range bo (m_PageBitmap s) (unat pageIndex)
                                  (unat (pageIndex + pageCount)) False,
                m_UsedMemory := m_UsedMemory s - pageCount * m_PageSize s\<rparr>)"

definition BitmapAllocator_MemoryTop :: "'bm BitmapAllocator \<Rightarrow> usize" where
  "BitmapAllocator_MemoryTop s = m_UsableMemoryTop s"

definition BitmapAllocator_TotalMemorySize :: "'bm BitmapAllocator \<Rightarrow> usize" where
  "BitmapAllocator_TotalMemorySize s = m_TotalMemory s"

definition BitmapAllocator_UsedMemorySize :: "'bm BitmapAllocator \<Rightarrow> usize" where
  "BitmapAllocator_UsedMemorySize s = m_UsedMemory s"

definition BitmapAllocator_FreeMemorySize :: "'bm BitmapAllocator \<Rightarrow> usize" where
  "BitmapAllocator_FreeMemorySize s =
     BitmapAllocator_TotalMemorySize s - BitmapAllocator_UsedMemorySize s"

lemmas BitmapAllocator_getters [mem_defs] =
  BitmapAllocator_MemoryTop_def BitmapAllocator_TotalMemorySize_def
  BitmapAllocator_UsedMemorySize_def BitmapAllocator_FreeMemorySize_def

section \<open>Searching the bitmap\<close>

definition free_run :: "'bm bitmap_ops \<Rightarrow> 'bm \<Rightarrow> nat \<Rightarrow> nat \<Rightarrow> bool" where
  "free_run bo bm p n \<longleftrightarrow> (\<forall>k<n. \<not> bm_GetIndex bo bm (p + k))"

lemma free_runD: "free_run bo bm p n \<Longrightarrow> p \<le> i \<Longrightarrow> i < p + n \<Longrightarrow> \<not> bm_GetIndex bo bm i"
  by (auto simp: free_run_def dest: spec [of _ "i - p"])

lemma free_run_blocked: "bm_GetIndex bo bm i \<Longrightarrow> p \<le> i \<Longrightarrow> i < p + n \<Longrightarrow> \<not> free_run bo bm p n"
  by (blast dest: free_runD)

lemma free_run_Suc:
  "free_run bo bm p n \<Longrightarrow> \<not> bm_GetIndex bo bm (p + n) \<Longrightarrow> free_run bo bm p (Suc n)"
  by (auto simp: free_run_def less_Suc_eq)

text \<open>What one call of the loop promises, started with \<open>c\<close> free pages just before \<open>start\<close>.\<close>

definition find_post ::
    "'bm bitmap_ops \<Rightarrow> nat \<Rightarrow> nat \<Rightarrow> nat \<Rightarrow> 'bm \<Rightarrow> nat option \<times> nat \<times> 'bm \<Rightarrow> bool" where
  "find_post bo count limit lo bm res \<longleftrightarrow>
     (case res of
        (None, start', bm') \<Rightarrow>
          bm' = bm \<and> limit \<le> start' \<and>
          (\<forall>q. lo \<le> q \<longrightarrow> q + count \<le> limit \<longrightarrow> \<not> free_run bo bm q count)
      | (Some p, start', bm') \<Rightarrow>
          lo \<le> p \<and> start' = p + count \<and> start' \<le> limit \<and> free_run bo bm p count \<and>
          bm' = bitmap_set_range bo bm p start' True \<and>
          (\<forall>q. lo \<le> q \<longrightarrow> q < p \<longrightarrow> \<not> free_run bo bm q count))"

lemma find_post_widen:
  assumes "find_post bo count limit lo' bm res" and "lo \<le> lo'"
    and "\<And>q. lo \<le> q \<Longrightarrow> q < lo' \<Longrightarrow> \<not> free_run bo bm q count"
  shows "find_post bo count limit lo bm res"
  using assms by (auto simp: find_post_def split: prod.splits option.splits) (metis not_less)+

lemma FindFreeRegions_post:
  assumes "c < count" and "c \<le> start" and "free_run bo bm (start - c) c"
  shows "find_post bo count limit (start - c) bm (FindFreeRegions bo count limit c start bm)"
  using assms
proof (induction bo count limit c start bm rule: FindFreeRegions.induct)
  case (1 bo count limit c start bm)
  note unfold = FindFreeRegions.simps [of bo count limit c start bm]
  consider (finish) "\<not> start < limit" | (used) "start < limit" "bm_GetIndex bo bm start"
    | (found) "start < limit" "\<not> bm_GetIndex bo bm start" "c + 1 = count"
    | (more) "start < limit" "\<not> bm_GetIndex bo bm start" "c + 1 \<noteq> count"
    by blast
  then show ?case
  proof cases
    case finish
    with "1.prems" show ?thesis by (auto simp: unfold find_post_def)
  next
    case used
    have "find_post bo count limit (start + 1 - 0) bm (FindFreeRegions bo count limit 0 (start + 1) bm)"
      using "1.IH"(2) [OF used(1)] used(2) "1.prems" by (simp add: free_run_def)
    moreover have "\<not> free_run bo bm q count" if "start - c \<le> q" "q < start + 1" for q
      using that used(2) "1.prems" by (intro free_run_blocked) auto
    ultimately show ?thesis
      using used by (auto simp: unfold intro: find_post_widen)
  next
    case found
    with "1.prems" have "free_run bo bm (start - c) (Suc c)"
      by (intro free_run_Suc) simp_all
    with found "1.prems" show ?thesis by (auto simp: unfold find_post_def Let_def)
  next
    case more
    have "free_run bo bm (start - c) (Suc c)"
      using more(2) "1.prems" by (intro free_run_Suc) simp_all
    with "1.IH"(1) [OF more(1,2,3)] more "1.prems" show ?thesis by (simp add: unfold)
  qed
qed

lemma FindFreeRegions_spec:
  "0 < count \<Longrightarrow> find_post bo count limit start bm (FindFreeRegions bo count limit 0 start bm)"
  using FindFreeRegions_post [of 0 count start bo bm limit] by (simp add: free_run_def)

lemma FindFreeRegions_exhausted:
  "FindFreeRegions bo count limit c start bm = (None, start', bm') \<Longrightarrow> start' = max start limit"
proof (induction bo count limit c start bm rule: FindFreeRegions.induct)
  case (1 bo count limit c start bm)
  then show ?case
    by (subst (asm) FindFreeRegions.simps) (auto simp: Let_def split: if_splits)
qed

context prism_bitmap
begin

lemma bits_set_range [simp]: "bits (bitmap_set_range bo b lo hi v) = bits b"
proof -
  have "bits (fold (\<lambda>i b. bm_SetIndex bo b i v) is b) = bits b" for "is"
    by (induction "is" arbitrary: b) (simp_all add: bits_SetIndex)
  then show ?thesis by (simp add: bitmap_set_range_def)
qed

lemma Get_set_range:
  assumes "hi \<le> bits b" and "j < bits b"
  shows "bm_GetIndex bo (bitmap_set_range bo b lo hi v) j =
           (if lo \<le> j \<and> j < hi then v else bm_GetIndex bo b j)"
proof -
  have "bm_GetIndex bo (fold (\<lambda>i b. bm_SetIndex bo b i v) is b) j =
          (if j \<in> set is then v else bm_GetIndex bo b j)"
    if "\<forall>i\<in>set is. i < bits b" "j < bits b" for "is"
    using that by (induction "is" arbitrary: b) (auto simp: Get_SetIndex bits_SetIndex)
  then show ?thesis using assms by (simp add: bitmap_set_range_def)
qed

end

section \<open>The interface: runs of page frames\<close>

text \<open>The frames behind a pointer to \<open>n\<close> pages.\<close>

definition frames_of :: "usize \<Rightarrow> Pointer \<Rightarrow> usize \<Rightarrow> nat set" where
  "frames_of pageSize p n = {unat (p div pageSize) ..< unat (p div pageSize) + unat n}"

text \<open>
  What a client of \<^verbatim>\<open>PageFrameAllocator\<close> relies on: a successful allocation hands out frames
  that were free and takes exactly these; a failed one takes nothing; freeing a block of managed
  frames gives exactly these back.
\<close>

locale page_frame_allocator =
  fixes inv :: "'s \<Rightarrow> bool" and alloc :: "usize \<Rightarrow> 's \<Rightarrow> Pointer \<times> 's"
    and free :: "Pointer \<Rightarrow> usize \<Rightarrow> 's \<Rightarrow> 's"
    and free_frames :: "'s \<Rightarrow> nat set" and managed :: "'s \<Rightarrow> nat set" and psize :: "'s \<Rightarrow> usize"
  assumes free_managed: "inv s \<Longrightarrow> free_frames s \<subseteq> managed s"
    and alloc_keeps: "inv s \<Longrightarrow> alloc n s = (p, s') \<Longrightarrow>
      inv s' \<and> managed s' = managed s \<and> psize s' = psize s"
    and alloc_null: "inv s \<Longrightarrow> alloc n s = (0, s') \<Longrightarrow> free_frames s' = free_frames s"
    and alloc_takes: "inv s \<Longrightarrow> alloc n s = (p, s') \<Longrightarrow> p \<noteq> 0 \<Longrightarrow>
      frames_of (psize s) p n \<subseteq> free_frames s \<and>
      free_frames s' = free_frames s - frames_of (psize s) p n"
    and free_keeps: "inv s \<Longrightarrow> p \<noteq> 0 \<Longrightarrow> frames_of (psize s) p n \<subseteq> managed s \<Longrightarrow>
      inv (free p n s) \<and> managed (free p n s) = managed s \<and> psize (free p n s) = psize s"
    and free_gives: "inv s \<Longrightarrow> p \<noteq> 0 \<Longrightarrow> frames_of (psize s) p n \<subseteq> managed s \<Longrightarrow>
      free_frames (free p n s) = free_frames s \<union> frames_of (psize s) p n"

text \<open>
  A client: it owns the blocks it was given and frees blocks it owns, named by their position in
  the list of live blocks.
\<close>

datatype page_op = AllocOp usize | FreeOp nat

fun pages_step ::
    "(usize \<Rightarrow> 's \<Rightarrow> Pointer \<times> 's) \<Rightarrow> (Pointer \<Rightarrow> usize \<Rightarrow> 's \<Rightarrow> 's) \<Rightarrow> page_op
       \<Rightarrow> 's \<times> (Pointer \<times> usize) list \<Rightarrow> 's \<times> (Pointer \<times> usize) list" where
  "pages_step alloc free (AllocOp n) (s, own) =
     (let (p, s') = alloc n s in (s', if p = 0 then own else (p, n) # own))"
| "pages_step alloc free (FreeOp k) (s, own) =
     (if k < length own
      then (free (fst (own ! k)) (snd (own ! k)) s, take k own @ drop (Suc k) own)
      else (s, own))"

definition pages_run ::
    "(usize \<Rightarrow> 's \<Rightarrow> Pointer \<times> 's) \<Rightarrow> (Pointer \<Rightarrow> usize \<Rightarrow> 's \<Rightarrow> 's) \<Rightarrow> page_op list
       \<Rightarrow> 's \<times> (Pointer \<times> usize) list \<Rightarrow> 's \<times> (Pointer \<times> usize) list" where
  "pages_run alloc free ops c = fold (pages_step alloc free) ops c"

definition live_disjoint :: "usize \<Rightarrow> (Pointer \<times> usize) list \<Rightarrow> bool" where
  "live_disjoint ps own \<longleftrightarrow>
     sorted_wrt (\<lambda>(p, n) (q, m). frames_of ps p n \<inter> frames_of ps q m = {}) own"

lemma live_disjoint_remove:
  assumes "live_disjoint ps own" and "k < length own" and "x \<in> set (take k own @ drop (Suc k) own)"
  shows "frames_of ps (fst (own ! k)) (snd (own ! k)) \<inter> frames_of ps (fst x) (snd x) = {}"
proof -
  have split: "own = take k own @ own ! k # drop (Suc k) own"
    using assms(2) by (rule id_take_nth_drop)
  have "sorted_wrt (\<lambda>(p, n) (q, m). frames_of ps p n \<inter> frames_of ps q m = {})
          (take k own @ own ! k # drop (Suc k) own)"
    using assms(1) by (simp add: live_disjoint_def flip: split)
  then show ?thesis
    using assms(3) by (auto simp: sorted_wrt_append split_beta)
qed

lemma live_disjoint_drop_nth:
  assumes "live_disjoint ps own" and "k < length own"
  shows "live_disjoint ps (take k own @ drop (Suc k) own)"
proof -
  have "own = take k own @ own ! k # drop (Suc k) own"
    using assms(2) by (rule id_take_nth_drop)
  with assms(1) have "live_disjoint ps (take k own @ own ! k # drop (Suc k) own)" by simp
  then show ?thesis by (auto simp: live_disjoint_def sorted_wrt_append)
qed

context page_frame_allocator
begin

definition client_ok :: "'s \<times> (Pointer \<times> usize) list \<Rightarrow> bool" where
  "client_ok c \<longleftrightarrow> inv (fst c) \<and> live_disjoint (psize (fst c)) (snd c) \<and>
     (\<forall>(p, n)\<in>set (snd c). p \<noteq> 0 \<and>
        frames_of (psize (fst c)) p n \<subseteq> managed (fst c) - free_frames (fst c))"

lemma client_ok_alloc:
  assumes ok: "client_ok (s, own)" and step: "alloc n s = (p, s')"
  shows "client_ok (s', if p = 0 then own else (p, n) # own)"
proof -
  from ok have inv: "inv s" by (simp add: client_ok_def)
  note keeps = alloc_keeps [OF inv step]
  show ?thesis
  proof (cases "p = 0")
    case True
    with alloc_null [OF inv] step keeps ok show ?thesis by (simp add: client_ok_def)
  next
    case False
    note takes = alloc_takes [OF inv step False]
    with free_managed [OF inv] keeps ok False show ?thesis
      by (fastforce simp: client_ok_def live_disjoint_def)
  qed
qed

lemma client_ok_free:
  assumes ok: "client_ok (s, own)" and k: "k < length own"
  shows "client_ok (free (fst (own ! k)) (snd (own ! k)) s, take k own @ drop (Suc k) own)"
proof -
  let ?p = "fst (own ! k)" and ?n = "snd (own ! k)" and ?rest = "take k own @ drop (Suc k) own"
  have "own ! k \<in> set own" using k by simp
  with ok have inv: "inv s" and p: "?p \<noteq> 0" and own: "frames_of (psize s) ?p ?n \<subseteq> managed s"
    by (auto simp: client_ok_def split_beta)
  note keeps = free_keeps [OF inv p own] and gives = free_gives [OF inv p own]
  have sub: "set ?rest \<subseteq> set own"
    by (auto dest: in_set_takeD in_set_dropD)
  have "q \<noteq> 0 \<and> frames_of (psize s) q m \<subseteq> managed s - (free_frames s \<union> frames_of (psize s) ?p ?n)"
    if "(q, m) \<in> set ?rest" for q m
  proof -
    from that sub have "(q, m) \<in> set own" by blast
    with ok have "q \<noteq> 0" "frames_of (psize s) q m \<subseteq> managed s - free_frames s"
      by (auto simp: client_ok_def)
    moreover have "frames_of (psize s) ?p ?n \<inter> frames_of (psize s) q m = {}"
      using live_disjoint_remove [OF _ k that] ok by (simp add: client_ok_def)
    ultimately show ?thesis by blast
  qed
  with ok keeps gives show ?thesis
    by (auto simp: client_ok_def live_disjoint_drop_nth k)
qed

lemma client_ok_run: "client_ok c \<Longrightarrow> client_ok (pages_run alloc free ops c)"
proof (induction ops arbitrary: c)
  case Nil
  then show ?case by (simp add: pages_run_def)
next
  case (Cons x ops)
  obtain s own where c: "c = (s, own)" by (cases c)
  have "client_ok (pages_step alloc free x c)"
  proof (cases x)
    case (AllocOp n)
    obtain p s' where "alloc n s = (p, s')" by (cases "alloc n s")
    with client_ok_alloc [of s own n p s'] Cons.prems c AllocOp show ?thesis by simp
  next
    case (FreeOp k)
    with client_ok_free [of s own k] Cons.prems c show ?thesis by simp
  qed
  then show ?case using Cons.IH by (simp add: pages_run_def)
qed

lemma live_blocks:
  assumes "inv s" and "pages_run alloc free ops (s, []) = (s', own)"
  shows "inv s' \<and> live_disjoint (psize s') own \<and>
    (\<forall>(p, n)\<in>set own. p \<noteq> 0 \<and> frames_of (psize s') p n \<subseteq> managed s' - free_frames s')"
proof -
  have "client_ok (s, [])" using assms(1) by (simp add: client_ok_def live_disjoint_def)
  then have "client_ok (s', own)" using client_ok_run assms(2) by metis
  then show ?thesis by (simp add: client_ok_def)
qed

end

section \<open>The bitmap allocator provides the interface\<close>

text \<open>
  The representation invariant: the bitmap covers the usable memory, the search position is
  inside it, and frame \<open>0\<close>, whose address is the null pointer, is marked used.
\<close>

definition bma_inv :: "'bm bitmap_ops \<Rightarrow> ('bm \<Rightarrow> nat) \<Rightarrow> 'bm BitmapAllocator \<Rightarrow> bool" where
  "bma_inv bo bits s \<longleftrightarrow>
     m_PageSize s \<noteq> 0 \<and> bits (m_PageBitmap s) = unat (m_UsableMemoryTop s div m_PageSize s) \<and>
     lastIndex s \<le> bits (m_PageBitmap s) \<and> 0 < bits (m_PageBitmap s) \<and>
     bm_GetIndex bo (m_PageBitmap s) 0"

definition bma_free_frames :: "'bm bitmap_ops \<Rightarrow> ('bm \<Rightarrow> nat) \<Rightarrow> 'bm BitmapAllocator \<Rightarrow> nat set" where
  "bma_free_frames bo bits s =
     {i. i < bits (m_PageBitmap s) \<and> \<not> bm_GetIndex bo (m_PageBitmap s) i}"

definition bma_managed :: "('bm \<Rightarrow> nat) \<Rightarrow> 'bm BitmapAllocator \<Rightarrow> nat set" where
  "bma_managed bits s = {0 <..< bits (m_PageBitmap s)}"

lemma page_pointer:
  assumes "page < unat (mtop div ps)" and "ps \<noteq> (0 :: usize)"
  shows "unat (of_nat page * ps) = page * unat ps" and "of_nat page * ps div ps = of_nat page"
    and "unat (of_nat page :: u64) = page"
proof -
  from assms(1) have lt: "page < unat mtop div unat ps" by (simp add: unat_div)
  then have le: "page * unat ps \<le> unat mtop"
    by (metis div_times_less_eq_dividend less_imp_le mult.commute mult_le_mono2 order_trans)
  have ps: "0 < unat ps" using assms(2) by (simp add: unat_gt_0)
  from lt div_le_dividend have "page < unat mtop" by (rule less_le_trans)
  then have page: "page < 2 ^ 64" using unat_lt64 [of mtop] by simp
  then show uof: "unat (of_nat page :: u64) = page" by (simp add: unat_of_nat)
  have "page * unat ps < 2 ^ 64" using le unat_lt64 [of mtop] by simp
  then show u: "unat (of_nat page * ps) = page * unat ps"
    using uof by (simp add: unat_mult_nowrap)
  have "unat (of_nat page * ps div ps) = page" using u ps by (simp add: unat_div)
  then show "of_nat page * ps div ps = of_nat page"
    by (metis uof word_unat_eq_iff)
qed

lemma page_pointer_null:
  assumes "page < unat (mtop div ps)" and "ps \<noteq> (0 :: usize)"
  shows "of_nat page * ps = 0 \<longleftrightarrow> page = 0"
  using page_pointer(1) [OF assms] assms(2) by (auto simp: unat_eq_0 dest: arg_cong [where f = unat])

context prism_bitmap
begin

text \<open>Under the invariant the search never reports frame \<open>0\<close>, so a null result means no run.\<close>

lemma found_nonnull:
  assumes inv: "bma_inv bo bits s" and post: "find_post bo count limit lo (m_PageBitmap s) (Some p, st, bm)"
    and "0 < count" and "limit \<le> unat (m_UsableMemoryTop s div m_PageSize s)"
  shows "0 < p" and "p + count \<le> limit" and "found_pointer (m_PageSize s) (Some p) \<noteq> 0"
    and "found_pointer (m_PageSize s) (Some p) div m_PageSize s = of_nat p"
    and "unat (of_nat p :: u64) = p"
proof -
  from post have bound: "p + count \<le> limit" and run: "free_run bo (m_PageBitmap s) p count"
    by (auto simp: find_post_def)
  show "p + count \<le> limit" by (rule bound)
  show "0 < p"
    using free_runD [OF run, of 0] inv assms(3) by (cases p) (auto simp: bma_inv_def)
  have lt: "p < unat (m_UsableMemoryTop s div m_PageSize s)" and ps: "m_PageSize s \<noteq> 0"
    using bound assms(3,4) inv by (auto simp: bma_inv_def)
  show "found_pointer (m_PageSize s) (Some p) \<noteq> 0"
    using page_pointer_null [OF lt ps] \<open>0 < p\<close> by (simp add: found_pointer_def)
  show "found_pointer (m_PageSize s) (Some p) div m_PageSize s = of_nat p"
    using page_pointer(2) [OF lt ps] by (simp add: found_pointer_def)
  show "unat (of_nat p :: u64) = p" by (rule page_pointer(3) [OF lt ps])
qed

text \<open>The two outcomes of an allocation.\<close>

definition alloc_result :: "usize \<Rightarrow> 'bm BitmapAllocator \<Rightarrow> Pointer \<times> 'bm BitmapAllocator \<Rightarrow> bool" where
  "alloc_result n s res \<longleftrightarrow>
     (case res of (p, s') \<Rightarrow>
       if p = 0 then
         (\<exists>l \<le> bits (m_PageBitmap s). s' = s\<lparr>lastIndex := l\<rparr>) \<and>
         (n = 0 \<or> (\<forall>q. (lastIndex s \<le> q \<and> q + unat n \<le> bits (m_PageBitmap s)
                       \<or> q + unat n \<le> lastIndex s) \<longrightarrow> \<not> free_run bo (m_PageBitmap s) q (unat n)))
       else \<exists>k. n \<noteq> 0 \<and> 0 < k \<and> k + unat n \<le> bits (m_PageBitmap s) \<and>
              unat (p div m_PageSize s) = k \<and> p = of_nat k * m_PageSize s \<and>
              free_run bo (m_PageBitmap s) k (unat n) \<and>
              (lastIndex s \<le> k \<or> k + unat n \<le> lastIndex s) \<and>
              s' = s\<lparr>lastIndex := k + unat n,
                      m_PageBitmap := bitmap_set_range bo (m_PageBitmap s) k (k + unat n) True,
                      m_UsedMemory := m_UsedMemory s + n * m_PageSize s\<rparr>)"

lemma AllocatePages_result:
  assumes inv: "bma_inv bo bits s"
  shows "alloc_result n s (BitmapAllocator_AllocatePages bo n s)"
proof (cases "n = 0")
  case True
  then show ?thesis
    using inv by (auto simp: alloc_result_def BitmapAllocator_AllocatePages_def bma_inv_def
        intro!: exI [of _ "lastIndex s"])
next
  case False
  let ?c = "unat n" and ?lim = "unat (m_UsableMemoryTop s div m_PageSize s)" and ?bm = "m_PageBitmap s"
  have c: "0 < ?c" using False by (simp add: unat_gt_0)
  have lim: "?lim = bits ?bm" and last: "lastIndex s \<le> ?lim" using inv by (simp_all add: bma_inv_def)
  obtain r st bm where f1: "FindFreeRegions bo ?c ?lim 0 (lastIndex s) ?bm = (r, st, bm)"
    by (metis prod_cases3)
  have p1: "find_post bo ?c ?lim (lastIndex s) ?bm (r, st, bm)"
    using FindFreeRegions_spec [OF c, of bo ?lim "lastIndex s" ?bm] f1 by simp
  show ?thesis
  proof (cases r)
    case (Some p)
    note found = found_nonnull [OF inv p1 [unfolded Some] c order_refl]
    from p1 Some have "bm = bitmap_set_range bo ?bm p (p + ?c) True" "st = p + ?c"
      "free_run bo ?bm p ?c" "lastIndex s \<le> p" by (auto simp: find_post_def)
    with found f1 Some False lim show ?thesis
      by (auto simp: alloc_result_def BitmapAllocator_AllocatePages_def found_pointer_def)
  next
    case None
    obtain r' st' bm' where f2: "FindFreeRegions bo ?c (lastIndex s) 0 0 ?bm = (r', st', bm')"
      by (metis prod_cases3)
    have p2: "find_post bo ?c (lastIndex s) 0 ?bm (r', st', bm')"
      using FindFreeRegions_spec [OF c, of bo "lastIndex s" 0 ?bm] f2 by simp
    from p1 None have bm: "bm = ?bm"
      and no1: "\<forall>q. lastIndex s \<le> q \<longrightarrow> q + ?c \<le> ?lim \<longrightarrow> \<not> free_run bo ?bm q ?c"
      by (auto simp: find_post_def)
    show ?thesis
    proof (cases r')
      case (Some p)
      note found = found_nonnull [OF inv p2 [unfolded Some] c last]
      from p2 Some have "bm' = bitmap_set_range bo ?bm p (p + ?c) True" "st' = p + ?c"
        "free_run bo ?bm p ?c" by (auto simp: find_post_def)
      with found f1 f2 None Some False lim last bm show ?thesis
        by (auto simp: alloc_result_def BitmapAllocator_AllocatePages_def found_pointer_def)
    next
      case None2: None
      have st': "st' = lastIndex s"
        using FindFreeRegions_exhausted f2 None2 by fastforce
      from p2 None2 have "bm' = ?bm"
        and no2: "\<forall>q. q + ?c \<le> lastIndex s \<longrightarrow> \<not> free_run bo ?bm q ?c"
        by (auto simp: find_post_def)
      with f1 f2 None None2 False lim last bm st' no1 show ?thesis
        by (auto simp: alloc_result_def BitmapAllocator_AllocatePages_def found_pointer_def)
    qed
  qed
qed

lemma bma_free_frames_set_range:
  assumes "hi \<le> bits (m_PageBitmap s)"
  shows "bma_free_frames bo bits (s\<lparr>m_PageBitmap := bitmap_set_range bo (m_PageBitmap s) lo hi v\<rparr>) =
           (if v then bma_free_frames bo bits s - {lo ..< hi} else bma_free_frames bo bits s \<union> {lo ..< hi})"
  using assms by (auto simp: bma_free_frames_def Get_set_range split: if_splits)

lemma bma_inv_set_range:
  assumes "bma_inv bo bits s" and "0 < lo" and "hi \<le> bits (m_PageBitmap s)"
  shows "bma_inv bo bits (s\<lparr>m_PageBitmap := bitmap_set_range bo (m_PageBitmap s) lo hi v\<rparr>)"
  using assms by (simp add: bma_inv_def Get_set_range)

lemma AllocatePages_takes:
  assumes inv: "bma_inv bo bits s" and res: "BitmapAllocator_AllocatePages bo n s = (p, s')"
    and "p \<noteq> 0"
  shows "frames_of (m_PageSize s) p n \<subseteq> bma_free_frames bo bits s"
    and "bma_free_frames bo bits s' = bma_free_frames bo bits s - frames_of (m_PageSize s) p n"
    and "bma_inv bo bits s'" and "bma_managed bits s' = bma_managed bits s"
    and "m_PageSize s' = m_PageSize s" and "m_UsedMemory s' = m_UsedMemory s + n * m_PageSize s"
    and "unat (m_PageSize s) dvd unat p" and "n \<noteq> 0"
proof -
  from AllocatePages_result [OF inv, of n] res assms(3) obtain k where
    k: "0 < k" "k + unat n \<le> bits (m_PageBitmap s)" "unat (p div m_PageSize s) = k"
      "free_run bo (m_PageBitmap s) k (unat n)" "p = of_nat k * m_PageSize s" "n \<noteq> 0" and
    s': "s' = s\<lparr>lastIndex := k + unat n,
           m_PageBitmap := bitmap_set_range bo (m_PageBitmap s) k (k + unat n) True,
           m_UsedMemory := m_UsedMemory s + n * m_PageSize s\<rparr>"
    by (auto simp: alloc_result_def)
  have frames: "frames_of (m_PageSize s) p n = {k ..< k + unat n}"
    using k(3) by (simp add: frames_of_def)
  show "frames_of (m_PageSize s) p n \<subseteq> bma_free_frames bo bits s"
    using k frames by (auto simp: bma_free_frames_def dest: free_runD)
  show "bma_free_frames bo bits s' = bma_free_frames bo bits s - frames_of (m_PageSize s) p n"
    using bma_free_frames_set_range [OF k(2), of k True] frames s' by (simp add: bma_free_frames_def)
  show "bma_inv bo bits s'"
    using bma_inv_set_range [OF inv k(1,2), of True] k(2) s' by (simp add: bma_inv_def)
  show "bma_managed bits s' = bma_managed bits s" "m_PageSize s' = m_PageSize s"
    "m_UsedMemory s' = m_UsedMemory s + n * m_PageSize s"
    using s' by (simp_all add: bma_managed_def)
  show "n \<noteq> 0" by (rule k)
  then have "k < unat (m_UsableMemoryTop s div m_PageSize s)" "m_PageSize s \<noteq> 0"
    using k(2) inv unat_gt_0 [of n] by (auto simp: bma_inv_def)
  then show "unat (m_PageSize s) dvd unat p"
    using page_pointer(1) k(5) by (metis dvd_triv_right)
qed

lemma AllocatePages_null:
  assumes "bma_inv bo bits s" and "BitmapAllocator_AllocatePages bo n s = (0, s')"
  shows "\<exists>l \<le> bits (m_PageBitmap s). s' = s\<lparr>lastIndex := l\<rparr>"
  using AllocatePages_result [OF assms(1), of n] assms(2) by (simp add: alloc_result_def)

lemma FreePages_gives:
  assumes inv: "bma_inv bo bits s" and p: "p \<noteq> 0"
    and fr: "frames_of (m_PageSize s) p n \<subseteq> bma_managed bits s"
  defines "s' \<equiv> BitmapAllocator_FreePages bo p n s"
  shows "bma_free_frames bo bits s' = bma_free_frames bo bits s \<union> frames_of (m_PageSize s) p n"
    and "bma_inv bo bits s'" and "bma_managed bits s' = bma_managed bits s"
    and "m_PageSize s' = m_PageSize s"
    and "m_UsedMemory s' = m_UsedMemory s - n * m_PageSize s"
proof -
  let ?k = "unat (p div m_PageSize s)"
  have *: "bma_free_frames bo bits s' = bma_free_frames bo bits s \<union> frames_of (m_PageSize s) p n \<and>
    bma_inv bo bits s' \<and> bma_managed bits s' = bma_managed bits s \<and> m_PageSize s' = m_PageSize s \<and>
    m_UsedMemory s' = m_UsedMemory s - n * m_PageSize s"
  proof (cases "n = 0")
    case True
    with inv show ?thesis by (simp add: s'_def BitmapAllocator_FreePages_def frames_of_def)
  next
    case False
    then have n: "0 < unat n" by (simp add: unat_gt_0)
    have "?k \<in> bma_managed bits s" "?k + unat n - 1 \<in> bma_managed bits s"
      using fr n by (auto simp: frames_of_def)
    then have k: "0 < ?k" "?k + unat n \<le> bits (m_PageBitmap s)"
      using n by (auto simp: bma_managed_def)
    have "?k + unat n < 2 ^ 64"
      using k(2) inv unat_lt64 [of "m_UsableMemoryTop s div m_PageSize s"] by (simp add: bma_inv_def)
    then have hi: "unat (p div m_PageSize s + n) = ?k + unat n" by (simp add: unat_add_nowrap)
    have s': "s' = s\<lparr>m_PageBitmap := bitmap_set_range bo (m_PageBitmap s) ?k (?k + unat n) False,
        m_UsedMemory := m_UsedMemory s - n * m_PageSize s\<rparr>"
      using False p hi by (simp add: s'_def BitmapAllocator_FreePages_def Let_def)
    show ?thesis
      using bma_free_frames_set_range [OF k(2), of ?k False] bma_inv_set_range [OF inv k, of False] s'
      by (simp add: bma_free_frames_def bma_inv_def bma_managed_def frames_of_def)
  qed
  then show "bma_free_frames bo bits s' = bma_free_frames bo bits s \<union> frames_of (m_PageSize s) p n"
    "bma_inv bo bits s'" "bma_managed bits s' = bma_managed bits s" "m_PageSize s' = m_PageSize s"
    "m_UsedMemory s' = m_UsedMemory s - n * m_PageSize s"
    by blast+
qed

end

sublocale prism_bitmap \<subseteq> bma: page_frame_allocator
  "bma_inv bo bits" "BitmapAllocator_AllocatePages bo" "BitmapAllocator_FreePages bo"
  "bma_free_frames bo bits" "bma_managed bits" m_PageSize
proof unfold_locales
  fix s :: "'bm BitmapAllocator"
  assume inv: "bma_inv bo bits s"
  show "bma_free_frames bo bits s \<subseteq> bma_managed bits s"
    using inv by (auto simp: bma_free_frames_def bma_managed_def bma_inv_def intro: gr0I)
  fix n p s'
  {
    assume res: "BitmapAllocator_AllocatePages bo n s = (p, s')"
    show "bma_inv bo bits s' \<and> bma_managed bits s' = bma_managed bits s \<and> m_PageSize s' = m_PageSize s"
      using AllocatePages_takes [OF inv res] AllocatePages_null [OF inv, of n s'] res inv
      by (cases "p = 0") (auto simp: bma_inv_def bma_managed_def)
    assume "p \<noteq> 0"
    then show "frames_of (m_PageSize s) p n \<subseteq> bma_free_frames bo bits s \<and>
      bma_free_frames bo bits s' = bma_free_frames bo bits s - frames_of (m_PageSize s) p n"
      using AllocatePages_takes [OF inv res] by blast
  next
    assume "BitmapAllocator_AllocatePages bo n s = (0, s')"
    then obtain l where "s' = s\<lparr>lastIndex := l\<rparr>"
      using AllocatePages_null [OF inv, of n s'] by blast
    then show "bma_free_frames bo bits s' = bma_free_frames bo bits s"
      by (simp add: bma_free_frames_def)
  next
    assume "p \<noteq> 0" and "frames_of (m_PageSize s) p n \<subseteq> bma_managed bits s"
    note gives = FreePages_gives [OF inv this]
    show "bma_inv bo bits (BitmapAllocator_FreePages bo p n s) \<and>
        bma_managed bits (BitmapAllocator_FreePages bo p n s) = bma_managed bits s \<and>
        m_PageSize (BitmapAllocator_FreePages bo p n s) = m_PageSize s"
      using gives by blast
    show "bma_free_frames bo bits (BitmapAllocator_FreePages bo p n s) =
        bma_free_frames bo bits s \<union> frames_of (m_PageSize s) p n"
      by (rule gives)
  }
qed

context prism_bitmap
begin

lemmas bma_live_blocks = bma.live_blocks
lemmas bma_free_managed = bma.free_managed

end

section \<open>Initialisation\<close>

text \<open>What the second pass of \<^verbatim>\<open>Initialize\<close> needs of a zone: whole pages, inside the bitmap.\<close>

definition zone_aligned :: "MemoryZone \<Rightarrow> bool" where
  "zone_aligned z \<longleftrightarrow> zone_ok z \<and> 4096 dvd unat (zone_Base z) \<and> 4096 dvd unat (zone_Length z)"

text \<open>The frames a usable zone contributes; frame \<open>0\<close> stays reserved.\<close>

definition zone_frames :: "MemoryZone \<Rightarrow> nat set" where
  "zone_frames z = (if zone_Type z = eUsable
     then {j. 0 < j \<and> j * 4096 \<in> span (zone_Base z) (zone_Length z)} else {})"

lemma div_4096_range:
  assumes "(4096::nat) dvd b" and "4096 dvd n"
  shows "j * 4096 \<in> {b ..< b + n} \<longleftrightarrow> b div 4096 \<le> j \<and> j < (b + n) div 4096"
  using assms by (auto elim!: dvdE simp: dvd_def)

context prism_bitmap
begin

lemma free_zone_clears:
  assumes "zone_aligned z" and "4096 dvd unat page"
    and "(unat (zone_Base z) + unat (zone_Length z)) div 4096 \<le> bits bm"
  shows "\<exists>bm'. BitmapAllocator_free_zone bo 0x1000 z page bm = Some bm' \<and> bits bm' = bits bm \<and>
    (\<forall>j < bits bm. bm_GetIndex bo bm' j \<longleftrightarrow> bm_GetIndex bo bm j \<and>
       \<not> ((unat (zone_Base z) + unat page) div 4096 \<le> j \<and>
          j < (unat (zone_Base z) + unat (zone_Length z)) div 4096))"
  using assms(2,3)
proof (induction "unat (zone_Length z) - unat page" arbitrary: page bm rule: less_induct)
  case less
  show ?case
  proof (cases "page < zone_Length z")
    case False
    then have "unat (zone_Length z) \<le> unat page" by (simp add: word_le_nat_alt not_less)
    then have "(unat (zone_Base z) + unat (zone_Length z)) div 4096
        \<le> (unat (zone_Base z) + unat page) div 4096" by (intro div_le_mono) simp
    with False show ?thesis by (subst BitmapAllocator_free_zone.simps) auto
  next
    case True
    let ?b = "unat (zone_Base z)" and ?n = "unat (zone_Length z)" and ?p = "unat page"
    let ?i = "(?b + ?p) div 4096"
    from True have lt: "?p < ?n" by (simp add: word_less_nat_alt)
    have al: "4096 dvd ?b" "4096 dvd ?n" and ok: "?b + ?n < 2 ^ 64"
      using assms(1) by (auto simp: zone_aligned_def zone_ok_def nowrap_def)
    have step: "?p + 4096 \<le> ?n" using lt al(2) less.prems(1) by (auto elim!: dvdE)
    then have up: "unat (page + 0x1000) = ?p + 4096"
      using ok by (subst unat_add_nowrap) auto
    have idx: "unat ((zone_Base z + page) div 0x1000) = ?i"
      using ok lt by (simp add: unat_div unat_add_nowrap)
    have i: "?i < bits bm"
      using less.prems(2) lt step al less.prems(1) by (auto elim!: dvdE)
    let ?bm = "bm_SetIndex bo bm ?i False"
    have "\<exists>bm'. BitmapAllocator_free_zone bo 0x1000 z (page + 0x1000) ?bm = Some bm' \<and> bits bm' = bits ?bm \<and>
      (\<forall>j < bits ?bm. bm_GetIndex bo bm' j \<longleftrightarrow> bm_GetIndex bo ?bm j \<and>
         \<not> ((?b + unat (page + 0x1000)) div 4096 \<le> j \<and> j < (?b + ?n) div 4096))"
      using less.prems up step by (intro less.hyps) (auto simp: bits_SetIndex)
    moreover have "(?b + unat (page + 0x1000)) div 4096 = ?i + 1" using up by simp
    ultimately obtain bm' where bm': "BitmapAllocator_free_zone bo 0x1000 z (page + 0x1000) ?bm = Some bm'"
      "bits bm' = bits bm" and get: "\<forall>j < bits bm. bm_GetIndex bo bm' j \<longleftrightarrow> bm_GetIndex bo ?bm j \<and>
         \<not> (?i + 1 \<le> j \<and> j < (?b + ?n) div 4096)"
      by (auto simp: bits_SetIndex)
    have "?i < (?b + ?n) div 4096" using step al less.prems(1) by (auto elim!: dvdE)
    then have "\<forall>j < bits bm. bm_GetIndex bo bm' j \<longleftrightarrow> bm_GetIndex bo bm j \<and>
         \<not> (?i \<le> j \<and> j < (?b + ?n) div 4096)"
      using get i by (auto simp: Get_SetIndex)
    with bm' True idx show ?thesis by (subst BitmapAllocator_free_zone.simps) auto
  qed
qed

lemma free_zones_clears:
  assumes "\<forall>z\<in>set zs. zone_aligned z \<and>
    (zone_Type z = eUsable \<longrightarrow> (unat (zone_Base z) + unat (zone_Length z)) div 4096 \<le> bits bm)"
  shows "\<exists>bm'. BitmapAllocator_free_zones bo 0x1000 zs bm = Some bm' \<and> bits bm' = bits bm \<and>
    (\<forall>j < bits bm. bm_GetIndex bo bm' j \<longleftrightarrow> bm_GetIndex bo bm j \<and> (\<forall>z\<in>set zs. j \<notin> zone_frames z))"
  using assms
proof (induction zs arbitrary: bm)
  case Nil
  then show ?case by simp
next
  case (Cons z zs)
  show ?case
  proof (cases "zone_Type z = eUsable")
    case False
    with Cons show ?thesis by (simp add: zone_frames_def)
  next
    case True
    let ?start = "if zone_Base z = 0 then 4096 else 0 :: usize"
    let ?b = "unat (zone_Base z)" and ?n = "unat (zone_Length z)"
    have z: "zone_aligned z" "(?b + ?n) div 4096 \<le> bits bm" using Cons.prems True by auto
    have "4096 dvd unat ?start" by simp
    then obtain bm1 where bm1: "BitmapAllocator_free_zone bo 0x1000 z ?start bm = Some bm1" "bits bm1 = bits bm"
      and get1: "\<forall>j < bits bm. bm_GetIndex bo bm1 j \<longleftrightarrow> bm_GetIndex bo bm j \<and>
        \<not> ((?b + unat ?start) div 4096 \<le> j \<and> j < (?b + ?n) div 4096)"
      using free_zone_clears [OF z(1) _ z(2), of ?start] by blast
    have al: "4096 dvd ?b" "4096 dvd ?n" using z(1) by (auto simp: zone_aligned_def)
    have "(?b + unat ?start) div 4096 \<le> j \<and> j < (?b + ?n) div 4096 \<longleftrightarrow> j \<in> zone_frames z" for j
      using div_4096_range [OF al, of j] True al(1) unat_eq_0 [of "zone_Base z"]
      by (auto simp: zone_frames_def span_def elim!: dvdE intro: gr0I)
    with get1 have get1: "\<forall>j < bits bm. bm_GetIndex bo bm1 j \<longleftrightarrow> bm_GetIndex bo bm j \<and> j \<notin> zone_frames z"
      by simp
    obtain bm2 where "BitmapAllocator_free_zones bo 0x1000 zs bm1 = Some bm2" "bits bm2 = bits bm1"
      "\<forall>j < bits bm1. bm_GetIndex bo bm2 j \<longleftrightarrow> bm_GetIndex bo bm1 j \<and> (\<forall>z\<in>set zs. j \<notin> zone_frames z)"
      using Cons.IH [of bm1] Cons.prems bm1(2) by auto
    with bm1 get1 True show ?thesis by auto
  qed
qed

end

lemma scan_zones:
  fixes s :: "'bm BitmapAllocator" and zs :: MemoryMap
  defines "s' \<equiv> fold BitmapAllocator_scan_zone zs s"
  shows "m_PageSize s' = m_PageSize s" and "lastIndex s' = lastIndex s"
    and "m_MemoryTop s \<le> m_MemoryTop s'" and "m_UsableMemoryTop s \<le> m_UsableMemoryTop s'"
    and "\<forall>z\<in>set zs. zone_Base z + zone_Length z \<le> m_MemoryTop s'"
    and "\<forall>z\<in>set zs. zone_Type z = eUsable \<longrightarrow> zone_Base z + zone_Length z \<le> m_UsableMemoryTop s'"
    and "m_TotalMemory s' - m_UsedMemory s' =
      m_TotalMemory s - m_UsedMemory s + (\<Sum>z\<leftarrow>filter (\<lambda>z. zone_Type z = eUsable) zs. zone_Length z)"
proof -
  have "m_PageSize s' = m_PageSize s \<and> lastIndex s' = lastIndex s \<and>
    m_MemoryTop s \<le> m_MemoryTop s' \<and> m_UsableMemoryTop s \<le> m_UsableMemoryTop s' \<and>
    (\<forall>z\<in>set zs. zone_Base z + zone_Length z \<le> m_MemoryTop s') \<and>
    (\<forall>z\<in>set zs. zone_Type z = eUsable \<longrightarrow> zone_Base z + zone_Length z \<le> m_UsableMemoryTop s') \<and>
    m_TotalMemory s' - m_UsedMemory s' =
      m_TotalMemory s - m_UsedMemory s + (\<Sum>z\<leftarrow>filter (\<lambda>z. zone_Type z = eUsable) zs. zone_Length z)"
    unfolding s'_def
  proof (induction zs arbitrary: s)
    case Nil
    then show ?case by simp
  next
    case (Cons z zs)
    let ?s = "BitmapAllocator_scan_zone z s"
    have "m_PageSize ?s = m_PageSize s" "lastIndex ?s = lastIndex s"
      "m_MemoryTop ?s = max (m_MemoryTop s) (zone_Base z + zone_Length z)"
      "m_UsableMemoryTop s \<le> m_UsableMemoryTop ?s"
      "zone_Type z = eUsable \<longrightarrow> zone_Base z + zone_Length z \<le> m_UsableMemoryTop ?s"
      "m_TotalMemory ?s - m_UsedMemory ?s =
         m_TotalMemory s - m_UsedMemory s + (if zone_Type z = eUsable then zone_Length z else 0)"
      by (simp_all add: BitmapAllocator_scan_zone_def Let_def split: MemoryZoneType.split)
    with Cons.IH [of ?s] show ?case by (auto simp: algebra_simps intro: order_trans)
  qed
  then show "m_PageSize s' = m_PageSize s" "lastIndex s' = lastIndex s"
    "m_MemoryTop s \<le> m_MemoryTop s'" "m_UsableMemoryTop s \<le> m_UsableMemoryTop s'"
    "\<forall>z\<in>set zs. zone_Base z + zone_Length z \<le> m_MemoryTop s'"
    "\<forall>z\<in>set zs. zone_Type z = eUsable \<longrightarrow> zone_Base z + zone_Length z \<le> m_UsableMemoryTop s'"
    "m_TotalMemory s' - m_UsedMemory s' =
      m_TotalMemory s - m_UsedMemory s + (\<Sum>z\<leftarrow>filter (\<lambda>z. zone_Type z = eUsable) zs. zone_Length z)"
    by blast+
qed

text \<open>The members before \<^verbatim>\<open>Initialize\<close>: zero-initialised, with any bitmap.\<close>

definition BitmapAllocator_fresh :: "'bm \<Rightarrow> 'bm BitmapAllocator" where
  "BitmapAllocator_fresh bm = \<lparr>m_PageBitmap = bm, m_MemoryTop = 0, m_UsableMemoryTop = 0,
     m_PageSize = 0, m_UsableMemorySize = 0, m_TotalMemory = 0, m_UsedMemory = 0, lastIndex = 0\<rparr>"

section \<open>Properties\<close>

text \<open>A small machine for concrete runs: four page frames, frame \<open>0\<close> reserved.\<close>

definition four_frames :: "bool list BitmapAllocator" where
  "four_frames = \<lparr>m_PageBitmap = [True, False, False, False], m_MemoryTop = 0x4000,
     m_UsableMemoryTop = 0x4000, m_PageSize = 0x1000, m_UsableMemorySize = 0x4000,
     m_TotalMemory = 0x4000, m_UsedMemory = 0, lastIndex = 0\<rparr>"

lemma four_frames_inv: "bma_inv list_bitmap length four_frames"
  by (simp add: bma_inv_def four_frames_def list_bitmap_def unat_div)

text \<open>
  Claim C1. A successful \<^verbatim>\<open>AllocatePages(n)\<close> returns the page-aligned address of \<open>n\<close>
  frames that were all free, marks exactly these used and leaves every other frame alone, adds
  \<open>n\<close> pages to the used memory, and keeps the allocator's invariant.
\<close>

theorem AllocatePages_hands_out_free_frames:
  assumes "prism_bitmap bo bits" and "bma_inv bo bits s"
    and "BitmapAllocator_AllocatePages bo n s = (p, s')" and "p \<noteq> 0"
  shows "unat (m_PageSize s) dvd unat p \<and> n \<noteq> 0 \<and>
    frames_of (m_PageSize s) p n \<subseteq> bma_free_frames bo bits s \<and>
    bma_free_frames bo bits s' = bma_free_frames bo bits s - frames_of (m_PageSize s) p n \<and>
    m_UsedMemory s' = m_UsedMemory s + n * m_PageSize s \<and> bma_inv bo bits s'"
  using prism_bitmap.AllocatePages_takes [OF assms] by blast

theorem AllocatePages_hands_out_free_frames_witness:
  "\<exists>s'. BitmapAllocator_AllocatePages list_bitmap 2 four_frames = (0x1000, s') \<and>
        bma_free_frames list_bitmap length s' = bma_free_frames list_bitmap length four_frames - {1, 2} \<and>
        m_UsedMemory s' = 0x2000"
proof -
  have run: "BitmapAllocator_AllocatePages list_bitmap 2 four_frames =
      (0x1000, four_frames\<lparr>m_PageBitmap := [True, True, True, False], lastIndex := 3,
                            m_UsedMemory := 0x2000\<rparr>)" (is "_ = (_, ?s)")
    by code_simp
  have frames: "frames_of 0x1000 0x1000 2 = {1, 2}" by (auto simp: frames_of_def)
  show ?thesis
    using AllocatePages_hands_out_free_frames [OF list_bm.prism_bitmap_axioms four_frames_inv run]
      run frames by (simp add: four_frames_def)
qed

text \<open>
  Claim C16. \<^verbatim>\<open>AllocatePages(n)\<close> with \<open>n > 0\<close> fails exactly when neither of its two searches
  can succeed: there is no run of \<open>n\<close> free frames that starts at or after the saved position,
  and none that ends at or before it.
\<close>

theorem AllocatePages_fails_iff:
  assumes "prism_bitmap bo bits" and "bma_inv bo bits s" and "n \<noteq> 0"
  shows "fst (BitmapAllocator_AllocatePages bo n s) = 0 \<longleftrightarrow>
    (\<forall>q. lastIndex s \<le> q \<and> q + unat n \<le> bits (m_PageBitmap s) \<or> q + unat n \<le> lastIndex s \<longrightarrow>
         \<not> free_run bo (m_PageBitmap s) q (unat n))"
proof -
  obtain p s' where res: "BitmapAllocator_AllocatePages bo n s = (p, s')"
    by (cases "BitmapAllocator_AllocatePages bo n s")
  note result = prism_bitmap.AllocatePages_result [OF assms(1,2), of n, unfolded res
      prism_bitmap.alloc_result_def [OF assms(1)] prod.case]
  show ?thesis
  proof (cases "p = 0")
    case True
    with result assms(3) res show ?thesis by simp
  next
    case False
    with result obtain k where "k + unat n \<le> bits (m_PageBitmap s)"
      "lastIndex s \<le> k \<or> k + unat n \<le> lastIndex s" "free_run bo (m_PageBitmap s) k (unat n)"
      by auto
    with False res show ?thesis by auto
  qed
qed

theorem AllocatePages_fails_iff_witness:
  "(fst (BitmapAllocator_AllocatePages list_bitmap 4 four_frames) = 0) =
    (\<forall>q. lastIndex four_frames \<le> q \<and> q + unat (4 :: u64) \<le> length (m_PageBitmap four_frames) \<or>
         q + unat (4 :: u64) \<le> lastIndex four_frames \<longrightarrow>
         \<not> free_run list_bitmap (m_PageBitmap four_frames) q (unat (4 :: u64)))
   \<and> fst (BitmapAllocator_AllocatePages list_bitmap 4 four_frames) = 0"
proof -
  have "fst (BitmapAllocator_AllocatePages list_bitmap 4 four_frames) = 0" by code_simp
  then show ?thesis
    using AllocatePages_fails_iff [OF list_bm.prism_bitmap_axioms four_frames_inv, of 4] by simp
qed

text \<open>
  The second search stops at the saved position, so a run that straddles it is missed:
  after two single-page allocations that are freed again, the three frames \<open>1, 2, 3\<close> are free
  and contiguous, and \<^verbatim>\<open>AllocatePages(3)\<close> still returns null.
\<close>

theorem AllocatePages_misses_straddling_run:
  "\<exists>s. pages_run (BitmapAllocator_AllocatePages list_bitmap) (BitmapAllocator_FreePages list_bitmap)
         [AllocOp 1, AllocOp 1, FreeOp 0, FreeOp 0] (four_frames, []) = (s, []) \<and>
       free_run list_bitmap (m_PageBitmap s) 1 3 \<and>
       fst (BitmapAllocator_AllocatePages list_bitmap 3 s) = 0"
proof (intro exI conjI)
  let ?s = "four_frames\<lparr>lastIndex := 3\<rparr>"
  show "pages_run (BitmapAllocator_AllocatePages list_bitmap) (BitmapAllocator_FreePages list_bitmap)
         [AllocOp 1, AllocOp 1, FreeOp 0, FreeOp 0] (four_frames, []) = (?s, [])"
    by code_simp
  show "free_run list_bitmap (m_PageBitmap ?s) 1 3"
    by (auto simp: free_run_def four_frames_def list_bitmap_def numeral_3_eq_3 less_Suc_eq)
  show "fst (BitmapAllocator_AllocatePages list_bitmap 3 ?s) = 0"
    by code_simp
qed

text \<open>
  Claim C17. Freeing the block an allocation returned restores the free frames and the used-memory
  count the allocator had before.
\<close>

theorem AllocatePages_FreePages_roundtrip:
  assumes "prism_bitmap bo bits" and "bma_inv bo bits s"
    and "BitmapAllocator_AllocatePages bo n s = (p, s')" and "p \<noteq> 0"
  shows "bma_free_frames bo bits (BitmapAllocator_FreePages bo p n s') = bma_free_frames bo bits s \<and>
    m_UsedMemory (BitmapAllocator_FreePages bo p n s') = m_UsedMemory s \<and>
    bma_inv bo bits (BitmapAllocator_FreePages bo p n s')"
proof -
  note takes = prism_bitmap.AllocatePages_takes [OF assms]
  have "frames_of (m_PageSize s') p n \<subseteq> bma_managed bits s'"
    using takes prism_bitmap.bma_free_managed [OF assms(1,2)] by auto
  note gives = prism_bitmap.FreePages_gives [OF assms(1) takes(3) assms(4) this]
  with takes show ?thesis by auto
qed

theorem AllocatePages_FreePages_roundtrip_witness:
  "\<exists>s'. BitmapAllocator_AllocatePages list_bitmap 2 four_frames = (0x1000, s') \<and>
     m_UsedMemory (BitmapAllocator_FreePages list_bitmap 0x1000 2 s') = 0"
proof -
  have run: "BitmapAllocator_AllocatePages list_bitmap 2 four_frames =
      (0x1000, four_frames\<lparr>m_PageBitmap := [True, True, True, False], lastIndex := 3,
                            m_UsedMemory := 0x2000\<rparr>)"
    by code_simp
  then show ?thesis
    using AllocatePages_FreePages_roundtrip [OF list_bm.prism_bitmap_axioms four_frames_inv run]
    by (simp add: four_frames_def)
qed

text \<open>
  Claim C2. Over any sequence of allocations and of frees of blocks still owned, the live blocks
  never overlap and all their frames stay marked used.
\<close>

theorem live_blocks_never_overlap:
  assumes "prism_bitmap bo bits" and "bma_inv bo bits s"
    and "pages_run (BitmapAllocator_AllocatePages bo) (BitmapAllocator_FreePages bo) ops (s, [])
         = (s', own)"
  shows "bma_inv bo bits s' \<and> live_disjoint (m_PageSize s') own \<and>
    (\<forall>(p, n)\<in>set own. p \<noteq> 0 \<and>
       frames_of (m_PageSize s') p n \<subseteq> bma_managed bits s' - bma_free_frames bo bits s')"
  by (rule prism_bitmap.bma_live_blocks [OF assms])

theorem live_blocks_never_overlap_witness:
  "\<exists>s'. pages_run (BitmapAllocator_AllocatePages list_bitmap) (BitmapAllocator_FreePages list_bitmap)
         [AllocOp 1, AllocOp 2, FreeOp 1, AllocOp 1] (four_frames, [])
         = (s', [(0x1000, 1), (0x2000, 2)]) \<and>
       live_disjoint (m_PageSize s') [(0x1000, 1), (0x2000, 2)]"
proof -
  have run: "pages_run (BitmapAllocator_AllocatePages list_bitmap) (BitmapAllocator_FreePages list_bitmap)
         [AllocOp 1, AllocOp 2, FreeOp 1, AllocOp 1] (four_frames, [])
      = (four_frames\<lparr>m_PageBitmap := [True, True, True, True], lastIndex := 2, m_UsedMemory := 0x3000\<rparr>,
         [(0x1000, 1), (0x2000, 2)])"
    by code_simp
  then show ?thesis
    using live_blocks_never_overlap [OF list_bm.prism_bitmap_axioms four_frames_inv run] by blast
qed

text \<open>
  Claim C18. Given page-aligned zones that do not run past the end of the address space and a
  usable zone that reaches beyond the first page, \<^verbatim>\<open>Initialize\<close> ends and succeeds; it leaves
  free exactly the whole frames of the usable zones other than frame \<open>0\<close>, establishes the
  allocator's invariant, and reports as free memory the total length of the usable zones.
\<close>

theorem Initialize_frees_usable_frames:
  assumes "prism_bitmap bo bits" and "isPowerOfTwo 0x1000"
    and zones: "\<forall>z\<in>set memoryMap. zone_aligned z"
    and "z0 \<in> set memoryMap" "zone_Type z0 = eUsable" "4096 \<le> unat (zone_Base z0) + unat (zone_Length z0)"
  shows "\<exists>s'. BitmapAllocator_Initialize bo isPowerOfTwo memoryMap 0x1000 (BitmapAllocator_fresh bm0)
            = Some (Inr (), s') \<and> bma_inv bo bits s' \<and>
          bma_free_frames bo bits s' = (\<Union>z\<in>set memoryMap. zone_frames z) \<and>
          BitmapAllocator_FreeMemorySize s' =
            (\<Sum>z\<leftarrow>filter (\<lambda>z. zone_Type z = eUsable) memoryMap. zone_Length z)"
proof -
  define s where "s = fold BitmapAllocator_scan_zone memoryMap ((BitmapAllocator_fresh bm0)\<lparr>m_PageSize := 0x1000\<rparr>)"
  note scan = scan_zones [where zs = memoryMap and s = "(BitmapAllocator_fresh bm0)\<lparr>m_PageSize := 0x1000\<rparr>",
      folded s_def]
  have ends: "unat (zone_Base z + zone_Length z) = unat (zone_Base z) + unat (zone_Length z)"
    if "z \<in> set memoryMap" for z
    using zones that by (auto simp: zone_aligned_def zone_ok_def nowrap_end)
  define cnt where "cnt = unat (m_UsableMemoryTop s div 0x1000)"
  have inside: "(unat (zone_Base z) + unat (zone_Length z)) div 4096 \<le> cnt"
    if "z \<in> set memoryMap" "zone_Type z = eUsable" for z
    using scan(6) that ends [OF that(1)]
    by (auto simp: cnt_def unat_div word_le_nat_alt intro!: div_le_mono)
  have cnt: "0 < cnt" using inside [OF assms(4,5)] assms(6) div_le_mono [OF assms(6), of 4096] by simp
  have mtop: "m_MemoryTop s \<noteq> 0"
    using scan(5) assms(4,6) ends [OF assms(4)] by (force simp: word_le_nat_alt)
  define bm where "bm = bm_SetAll bo (bm_Allocate bo cnt) 0xff"
  have bm: "bits bm = cnt" "\<forall>j<cnt. bm_GetIndex bo bm j" "bm_GetSize bo bm \<noteq> 0"
    using cnt prism_bitmap.bits_Allocate [OF assms(1)] prism_bitmap.bits_SetAll [OF assms(1)]
      prism_bitmap.Get_SetAll [OF assms(1)] prism_bitmap.GetSize_zero [OF assms(1)]
    by (simp_all add: bm_def)
  obtain bm' where bm': "BitmapAllocator_free_zones bo 0x1000 memoryMap bm = Some bm'" "bits bm' = cnt"
    and get: "\<forall>j < cnt. bm_GetIndex bo bm' j \<longleftrightarrow> (\<forall>z\<in>set memoryMap. j \<notin> zone_frames z)"
    using prism_bitmap.free_zones_clears [OF assms(1), of memoryMap bm] zones inside bm by auto
  let ?s = "s\<lparr>m_PageBitmap := bm'\<rparr>"
  have "BitmapAllocator_Initialize bo isPowerOfTwo memoryMap 0x1000 (BitmapAllocator_fresh bm0) = Some (Inr (), ?s)"
    using assms(2) mtop bm(3) bm'(1)
    by (simp add: BitmapAllocator_Initialize_def Let_def flip: s_def cnt_def bm_def)
  moreover have "bma_inv bo bits ?s"
    using scan(1,2) bm'(2) cnt get
    by (auto simp: bma_inv_def cnt_def BitmapAllocator_fresh_def zone_frames_def)
  moreover have "j < cnt" if "z \<in> set memoryMap" "j \<in> zone_frames z" for z j
  proof -
    have al: "4096 dvd unat (zone_Base z)" "4096 dvd unat (zone_Length z)" and use: "zone_Type z = eUsable"
      using zones that by (auto simp: zone_aligned_def zone_frames_def split: if_splits)
    with that div_4096_range [OF al, of j] have "j < (unat (zone_Base z) + unat (zone_Length z)) div 4096"
      by (simp add: zone_frames_def span_def)
    with inside [OF that(1) use] show ?thesis by simp
  qed
  then have "bma_free_frames bo bits ?s = (\<Union>z\<in>set memoryMap. zone_frames z)"
    using get bm'(2) by (auto simp: bma_free_frames_def)
  moreover have "BitmapAllocator_FreeMemorySize ?s =
      (\<Sum>z\<leftarrow>filter (\<lambda>z. zone_Type z = eUsable) memoryMap. zone_Length z)"
    using scan(7) by (simp add: mem_defs BitmapAllocator_fresh_def)
  ultimately show ?thesis by blast
qed

theorem Initialize_frees_usable_frames_witness:
  "\<exists>s'. BitmapAllocator_Initialize list_bitmap (\<lambda>n. n = 0x1000)
          [\<lparr>zone_Base = 0, zone_Length = 0x3000, zone_Type = eUsable\<rparr>] 0x1000 (BitmapAllocator_fresh [])
        = Some (Inr (), s') \<and> bma_inv list_bitmap length s' \<and> BitmapAllocator_FreeMemorySize s' = 0x3000"
  using Initialize_frees_usable_frames [OF list_bm.prism_bitmap_axioms, of "\<lambda>n. n = 0x1000"
      "[\<lparr>zone_Base = 0, zone_Length = 0x3000, zone_Type = eUsable\<rparr>]" _ "[]"]
  by (auto simp: zone_aligned_def zone_ok_def nowrap_def)

end
