(* ===== verification/Physical_Memory.thy ===== *)
theory Physical_Memory
  imports Bitmap_Allocator
begin

text \<open>
  The physical memory manager (\<^verbatim>\<open>Memory/PMM.cpp\<close>, \<^verbatim>\<open>Memory/PMM.hpp\<close>): before
  \<^verbatim>\<open>Initialize\<close> it carves pages off the boot zones, afterwards it forwards to the bitmap
  allocator; \<^verbatim>\<open>CallocatePages\<close> also clears the pages.  Memory contents are a function from
  physical addresses to bytes.
\<close>

section \<open>State and operations\<close>

definition PMM_PAGE_SIZE :: usize where
  "PMM_PAGE_SIZE = 0x1000"

record 'bm PMM =
  s_Initialized :: bool
  s_MemoryMap :: MemoryMap
  s_BitmapAllocator :: "'bm BitmapAllocator"
  phys_memory :: "nat \<Rightarrow> u8"

fun EarlyAllocatePages :: "usize \<Rightarrow> MemoryMap \<Rightarrow> Pointer \<times> MemoryMap" where
  "EarlyAllocatePages count [] = (0, [])"
| "EarlyAllocatePages count (entry # entries) =
     (if zone_Type entry \<noteq> eUsable \<or> zone_Length entry < count * PMM_PAGE_SIZE
      then let (pages, entries') = EarlyAllocatePages count entries in (pages, entry # entries')
      else let (pages, entry') = MemoryZone_Allocate (count * PMM_PAGE_SIZE) entry
           in (pages, entry' # entries))"

definition PMM_EarlyInitialize :: "MemoryMap \<Rightarrow> 'bm PMM \<Rightarrow> 'bm PMM" where
  "PMM_EarlyInitialize memoryMap s = s\<lparr>s_MemoryMap := memoryMap\<rparr>"

text \<open>\<open>None\<close> is a panic or a loop that does not end in the allocator's initialisation.\<close>

definition PMM_Initialize ::
    "'bm bitmap_ops \<Rightarrow> (usize \<Rightarrow> bool) \<Rightarrow> MemoryMap \<Rightarrow> 'bm PMM \<Rightarrow> (bool \<times> 'bm PMM) option" where
  "PMM_Initialize bo isPowerOfTwo memoryMap s =
     (let s = s\<lparr>s_MemoryMap := memoryMap\<rparr>
      in if length (s_MemoryMap s) = 0 then Some (False, s)
         else case BitmapAllocator_Initialize bo isPowerOfTwo (s_MemoryMap s) PMM_PAGE_SIZE
                     (s_BitmapAllocator s) of
                None \<Rightarrow> None
              | Some (Inl e, a) \<Rightarrow> Some (False, s\<lparr>s_BitmapAllocator := a\<rparr>)
              | Some (Inr _, a) \<Rightarrow> Some (True, s\<lparr>s_BitmapAllocator := a, s_Initialized := True\<rparr>))"

definition PMM_AllocatePages :: "'bm bitmap_ops \<Rightarrow> usize \<Rightarrow> 'bm PMM \<Rightarrow> Pointer \<times> 'bm PMM" where
  "PMM_AllocatePages bo count s =
     (if \<not> s_Initialized s then
        let (p, m) = EarlyAllocatePages count (s_MemoryMap s) in (p, s\<lparr>s_MemoryMap := m\<rparr>)
      else let (p, a) = BitmapAllocator_AllocatePages bo count (s_BitmapAllocator s)
           in (p, s\<lparr>s_BitmapAllocator := a\<rparr>))"

text \<open>\<^verbatim>\<open>Memory::Fill\<close> of \<open>n\<close> bytes from a physical address.\<close>

definition memory_fill :: "Pointer \<Rightarrow> u8 \<Rightarrow> usize \<Rightarrow> (nat \<Rightarrow> u8) \<Rightarrow> nat \<Rightarrow> u8" where
  "memory_fill p v n m = (\<lambda>a. if a \<in> span p n then v else m a)"

definition PMM_CallocatePages :: "'bm bitmap_ops \<Rightarrow> usize \<Rightarrow> 'bm PMM \<Rightarrow> Pointer \<times> 'bm PMM" where
  "PMM_CallocatePages bo count s =
     (let (pages, s) = PMM_AllocatePages bo count s
      in if pages = 0 then (0, s)
         else (pages, s\<lparr>phys_memory :=
                 memory_fill pages 0 (PMM_PAGE_SIZE * count) (phys_memory s)\<rparr>))"

text \<open>
  The template \<^verbatim>\<open>CallocatePages<T>\<close> of the header: instantiated at \<^verbatim>\<open>Pointer\<close> it calls
  \<^verbatim>\<open>AllocatePages\<close>, at any other pointer type \<^verbatim>\<open>CallocatePages\<close>.
\<close>

definition PMM_CallocatePages_T ::
    "'bm bitmap_ops \<Rightarrow> bool \<Rightarrow> usize \<Rightarrow> 'bm PMM \<Rightarrow> Pointer \<times> 'bm PMM" where
  "PMM_CallocatePages_T bo isPointerClass count s =
     (if isPointerClass then PMM_AllocatePages bo count s else PMM_CallocatePages bo count s)"

definition PMM_FreePages :: "'bm bitmap_ops \<Rightarrow> Pointer \<Rightarrow> usize \<Rightarrow> 'bm PMM \<Rightarrow> 'bm PMM" where
  "PMM_FreePages bo p count s =
     s\<lparr>s_BitmapAllocator := BitmapAllocator_FreePages bo p count (s_BitmapAllocator s)\<rparr>"

definition PMM_GetMemoryTop :: "'bm PMM \<Rightarrow> usize" where
  "PMM_GetMemoryTop s = BitmapAllocator_MemoryTop (s_BitmapAllocator s)"

definition PMM_GetTotalMemory :: "'bm PMM \<Rightarrow> usize" where
  "PMM_GetTotalMemory s = BitmapAllocator_TotalMemorySize (s_BitmapAllocator s)"

definition PMM_GetUsedMemory :: "'bm PMM \<Rightarrow> usize" where
  "PMM_GetUsedMemory s = BitmapAllocator_UsedMemorySize (s_BitmapAllocator s)"

definition PMM_GetFreeMemory :: "'bm PMM \<Rightarrow> usize" where
  "PMM_GetFreeMemory s = PMM_GetTotalMemory s - PMM_GetUsedMemory s"

section \<open>Early allocation\<close>

text \<open>Zones that neither wrap nor overlap, as the boot loader hands them over.\<close>

definition zones_ok :: "MemoryMap \<Rightarrow> bool" where
  "zones_ok zs \<longleftrightarrow> (\<forall>z\<in>set zs. zone_ok z) \<and>
     sorted_wrt (\<lambda>z z'. zone_span z \<inter> zone_span z' = {}) zs"

text \<open>The memory that early allocation can still hand out.\<close>

definition usable_span :: "MemoryMap \<Rightarrow> nat set" where
  "usable_span zs = (\<Union>z\<in>{z\<in>set zs. zone_Type z = eUsable}. zone_span z)"

lemma usable_span_simps [simp]:
  "usable_span [] = {}"
  "usable_span (z # zs) = (if zone_Type z = eUsable then zone_span z else {}) \<union> usable_span zs"
  by (auto simp: usable_span_def)

text \<open>
  One early allocation: either nothing changes, or a block is cut from the usable memory, and the
  zones stay well formed inside the space they covered.
\<close>

lemma EarlyAllocatePages_step:
  assumes "zones_ok zs" and "EarlyAllocatePages count zs = (p, zs')"
  shows "zones_ok zs' \<and> (\<Union>z\<in>set zs'. zone_span z) \<subseteq> (\<Union>z\<in>set zs. zone_span z) \<and>
    (zs' = zs \<and> p = 0 \<or>
     span p (count * PMM_PAGE_SIZE) \<subseteq> usable_span zs \<and>
     usable_span zs' = usable_span zs - span p (count * PMM_PAGE_SIZE))"
  using assms
proof (induction zs arbitrary: zs')
  case Nil
  then show ?case by simp
next
  case (Cons z zs)
  have z: "zone_ok z" and zs: "zones_ok zs" and disj: "\<forall>z'\<in>set zs. zone_span z \<inter> zone_span z' = {}"
    using Cons.prems(1) by (auto simp: zones_ok_def)
  have apart: "zone_span z \<inter> usable_span zs = {}" using disj by (auto simp: usable_span_def)
  show ?case
  proof (cases "zone_Type z \<noteq> eUsable \<or> zone_Length z < count * PMM_PAGE_SIZE")
    case True
    then obtain zs1 where r: "EarlyAllocatePages count zs = (p, zs1)" and zs': "zs' = z # zs1"
      using Cons.prems(2) by (auto split: prod.splits)
    note IH = Cons.IH [OF zs r]
    moreover have "zone_span z \<inter> zone_span z' = {}" if "z' \<in> set zs1" for z'
      using IH disj that by blast
    ultimately show ?thesis
      using z apart zs' unfolding zones_ok_def by auto
  next
    case False
    let ?n = "count * PMM_PAGE_SIZE"
    from False obtain z1 where r: "MemoryZone_Allocate ?n z = (p, z1)" and zs': "zs' = z1 # zs"
      using Cons.prems(2) by (auto split: prod.splits)
    note carve = MemoryZone_Allocate_carves [OF r _ _ z]
    show ?thesis
      using carve False zs apart disj zs' unfolding zones_ok_def by (auto simp: not_less)
  qed
qed

text \<open>A sequence of early allocations and the blocks it hands out.\<close>

fun early_run :: "usize list \<Rightarrow> MemoryMap \<Rightarrow> (Pointer \<times> usize) list \<times> MemoryMap" where
  "early_run [] zs = ([], zs)"
| "early_run (count # counts) zs =
     (let (p, zs') = EarlyAllocatePages count zs;
          (blocks, zs'') = early_run counts zs'
      in (if p = 0 then blocks else (p, count * PMM_PAGE_SIZE) # blocks, zs''))"

lemma early_run_inside:
  assumes "zones_ok zs" and "early_run counts zs = (blocks, zs')"
  shows "(\<forall>(p, n)\<in>set blocks. span p n \<subseteq> usable_span zs) \<and>
    sorted_wrt (\<lambda>(p, n) (q, m). span p n \<inter> span q m = {}) blocks"
  using assms
proof (induction counts arbitrary: zs blocks)
  case Nil
  then show ?case by simp
next
  case (Cons count counts)
  obtain p zs1 where a: "EarlyAllocatePages count zs = (p, zs1)" by fastforce
  obtain bs where b: "early_run counts zs1 = (bs, zs')"
    and bl: "blocks = (if p = 0 then bs else (p, count * PMM_PAGE_SIZE) # bs)"
    using Cons.prems(2) a by (auto split: prod.splits)
  note step = EarlyAllocatePages_step [OF Cons.prems(1) a]
  with Cons.IH [OF _ b] have IH: "\<forall>(p, n)\<in>set bs. span p n \<subseteq> usable_span zs1"
    "sorted_wrt (\<lambda>(p, n) (q, m). span p n \<inter> span q m = {}) bs" by blast+
  show ?case
  proof (cases "p = 0")
    case True
    have "usable_span zs1 \<subseteq> usable_span zs" using step by blast
    with IH(1) have "\<forall>(p, n)\<in>set bs. span p n \<subseteq> usable_span zs" by blast
    with IH(2) True bl show ?thesis by simp
  next
    case False
    with step have "span p (count * PMM_PAGE_SIZE) \<subseteq> usable_span zs"
      and sub: "usable_span zs1 = usable_span zs - span p (count * PMM_PAGE_SIZE)" by auto
    moreover have "\<forall>(q, m)\<in>set bs. span p (count * PMM_PAGE_SIZE) \<inter> span q m = {}"
      and "\<forall>(q, m)\<in>set bs. span q m \<subseteq> usable_span zs"
      using IH(1) sub by blast+
    ultimately show ?thesis using IH(2) bl False by simp
  qed
qed

section \<open>Properties\<close>

text \<open>
  The blocks that early allocation hands out before the bitmap allocator exists lie in
  the usable boot zones and are pairwise disjoint, for every sequence of requests.
\<close>

theorem early_blocks_disjoint:
  assumes "zones_ok zs" and "early_run counts zs = (blocks, zs')"
  shows "(\<forall>(p, n)\<in>set blocks. span p n \<subseteq> usable_span zs) \<and>
    sorted_wrt (\<lambda>(p, n) (q, m). span p n \<inter> span q m = {}) blocks"
  by (rule early_run_inside [OF assms])

theorem early_blocks_disjoint_witness:
  "early_run [1, 2] [\<lparr>zone_Base = 0x1000, zone_Length = 0x1000, zone_Type = eUsable\<rparr>,
                     \<lparr>zone_Base = 0x8000, zone_Length = 0x4000, zone_Type = eUsable\<rparr>]
     = ([(0x1000, 0x1000), (0x8000, 0x2000)],
        [\<lparr>zone_Base = 0x2000, zone_Length = 0, zone_Type = eUsable\<rparr>,
         \<lparr>zone_Base = 0xa000, zone_Length = 0x2000, zone_Type = eUsable\<rparr>]) \<and>
   span 0x1000 0x1000 \<inter> span 0x8000 0x2000 = {}"
proof -
  have run: "early_run [1, 2] [\<lparr>zone_Base = 0x1000, zone_Length = 0x1000, zone_Type = eUsable\<rparr>,
                     \<lparr>zone_Base = 0x8000, zone_Length = 0x4000, zone_Type = eUsable\<rparr>]
     = ([(0x1000, 0x1000), (0x8000, 0x2000)],
        [\<lparr>zone_Base = 0x2000, zone_Length = 0, zone_Type = eUsable\<rparr>,
         \<lparr>zone_Base = 0xa000, zone_Length = 0x2000, zone_Type = eUsable\<rparr>])"
    by (simp add: PMM_PAGE_SIZE_def MemoryZone_Allocate_def)
  show ?thesis
    using early_blocks_disjoint [OF _ run] run
    by (simp add: zones_ok_def zone_ok_def nowrap_def span_disjoint_iff)
qed

text \<open>
  Once the manager is initialised, a successful \<^verbatim>\<open>CallocatePages\<close> returns frames that
  were free, all bytes of the returned pages read zero, and no other byte of memory changes.
\<close>

theorem CallocatePages_zeroes_fresh_pages:
  assumes "prism_bitmap bo bits" and "s_Initialized s" and "bma_inv bo bits (s_BitmapAllocator s)"
    and "PMM_CallocatePages bo count s = (p, s')" and "p \<noteq> 0"
  shows "frames_of (m_PageSize (s_BitmapAllocator s)) p count
           \<subseteq> bma_free_frames bo bits (s_BitmapAllocator s) \<and>
    (\<forall>a. phys_memory s' a = (if a \<in> span p (PMM_PAGE_SIZE * count) then 0 else phys_memory s a))"
proof -
  obtain a where r: "BitmapAllocator_AllocatePages bo count (s_BitmapAllocator s) = (p, a)"
    and s': "s' = s\<lparr>s_BitmapAllocator := a,
      phys_memory := memory_fill p 0 (PMM_PAGE_SIZE * count) (phys_memory s)\<rparr>"
    using assms(2,4,5)
    by (auto simp: PMM_CallocatePages_def PMM_AllocatePages_def split: prod.splits if_splits)
  show ?thesis
    using prism_bitmap.AllocatePages_takes(1) [OF assms(1,3) r assms(5)] s'
    by (simp add: memory_fill_def)
qed

theorem CallocatePages_zeroes_fresh_pages_witness:
  "let s = \<lparr>s_Initialized = True, s_MemoryMap = [], s_BitmapAllocator = four_frames,
            phys_memory = (\<lambda>_. 0xaa)\<rparr>;
       s' = snd (PMM_CallocatePages list_bitmap 1 s)
   in fst (PMM_CallocatePages list_bitmap 1 s) = 0x1000 \<and>
      phys_memory s' 0x1fff = 0 \<and> phys_memory s' 0x2000 = 0xaa"
proof -
  let ?s = "\<lparr>s_Initialized = True, s_MemoryMap = [], s_BitmapAllocator = four_frames,
             phys_memory = (\<lambda>_. 0xaa)\<rparr>"
  have "BitmapAllocator_AllocatePages list_bitmap 1 four_frames =
      (0x1000, four_frames\<lparr>m_PageBitmap := [True, True, False, False], lastIndex := 2,
                            m_UsedMemory := 0x1000\<rparr>)" by code_simp
  then have p: "fst (PMM_CallocatePages list_bitmap 1 ?s) = 0x1000"
    by (simp add: PMM_CallocatePages_def PMM_AllocatePages_def)
  then obtain s' where r: "PMM_CallocatePages list_bitmap 1 ?s = (0x1000, s')"
    by (metis prod.collapse)
  have "\<forall>a. phys_memory s' a = (if a \<in> span 0x1000 (PMM_PAGE_SIZE * 1) then 0 else phys_memory ?s a)"
    using CallocatePages_zeroes_fresh_pages [OF list_bm.prism_bitmap_axioms _ _ r] four_frames_inv
    by simp
  then have "phys_memory s' 0x1fff = 0" "phys_memory s' 0x2000 = 0xaa"
    by (simp_all add: mem_span PMM_PAGE_SIZE_def)
  with p r show ?thesis by (simp add: Let_def)
qed

text \<open>
  The header's \<^verbatim>\<open>CallocatePages<Pointer>\<close> does not clear the pages it returns: it
  forwards to \<^verbatim>\<open>AllocatePages\<close>, and memory is left as it was.
\<close>

theorem CallocatePages_Pointer_not_cleared:
  "phys_memory (snd (PMM_CallocatePages_T bo True count s)) = phys_memory s"
  by (simp add: PMM_CallocatePages_T_def PMM_AllocatePages_def split: prod.split)

end
