(* ===== verification/Page_Map.thy ===== *)
theory Page_Map
  imports Page_Tables Physical_Memory
begin

unbundle bit_operations_syntax

text \<open>
  The range operations of \<^verbatim>\<open>PageMap\<close> (\<^verbatim>\<open>Memory/PageMap.cpp\<close>), the kernel's virtual
  address allocator and mapping helpers (\<^verbatim>\<open>Memory/VMM.cpp\<close>, \<^verbatim>\<open>Memory/VMM.hpp\<close>).  The
  loops count in 64-bit words and may run forever; the lemmas say when they end, how many steps
  they make, and that addresses handed out by \<^verbatim>\<open>AllocateSpace\<close> never overlap.
\<close>

section \<open>Loops over offsets\<close>

text \<open>
  \<^verbatim>\<open>for (usize i = 0; i < size; i += step) if (!body(i)) return ...\<close>: the offset at which
  the body failed, if it did, and the state; \<open>None\<close> is a loop that does not end.
\<close>

partial_function (option) for_step ::
    "usize \<Rightarrow> usize \<Rightarrow> (usize \<Rightarrow> 's \<Rightarrow> bool \<times> 's) \<Rightarrow> usize \<Rightarrow> 's \<Rightarrow> (usize option \<times> 's) option" where
  "for_step step sz body i st =
     (if i < sz then
        (let (ok, st') = body i st
         in if ok then for_step step sz body (i + step) st' else Some (Some i, st'))
      else Some (None, st))"





section \<open>Operations of the page map\<close>

definition PageSizeFlags :: "usize \<Rightarrow> PageAttributes" where
  "PageSizeFlags pageSize =
     (if pageSize = GetPageSize eLPage then eLPage
      else if pageSize = GetPageSize eLLPage then eLLPage else 0)"

definition RequiredSize :: "usize \<Rightarrow> usize \<Rightarrow> usize \<times> PageAttributes" where
  "RequiredSize mPageSize sz =
     (let lPageSize = GetPageSize eLPage; llPageSize = GetPageSize eLLPage
      in if sz \<ge> llPageSize then (llPageSize, eLLPage)
         else if sz \<ge> lPageSize then (lPageSize, eLPage)
         else (mPageSize, 0))"

definition ValidateAddress ::
    "'h paging_env \<Rightarrow> PageAttributes \<Rightarrow> Pointer \<Rightarrow> Pointer \<Rightarrow> PageAttributes \<Rightarrow> 'h page_state \<Rightarrow> bool" where
  "ValidateAddress env ret0 pml address flags st =
     (case fst (Virt2Pte env pml address False PMM_PAGE_SIZE st) of
        None \<Rightarrow> False
      | Some pte \<Rightarrow> attr_has (FromNativeFlags ret0 (pte_Flags (read_pte pte st))) flags)"

text \<open>
  \<^verbatim>\<open>Map\<close>: the check whether the address is mapped already ends in an assertion on a string
  pointer, which always holds, so it has no effect.
\<close>

definition PageMap_Map ::
    "'h paging_env \<Rightarrow> Pointer \<Rightarrow> Pointer \<Rightarrow> Pointer \<Rightarrow> PageAttributes \<Rightarrow> 'h page_state \<Rightarrow> bool \<times> 'h page_state" where
  "PageMap_Map env pml virt phys flags st = InternalMap env pml virt phys flags st"

definition PageMap_Unmap ::
    "'h paging_env \<Rightarrow> Pointer \<Rightarrow> Pointer \<Rightarrow> PageAttributes \<Rightarrow> 'h page_state \<Rightarrow> bool \<times> 'h page_state" where
  "PageMap_Unmap env pml virt flags st = InternalUnmap env pml virt flags st"

definition PageMap_Remap ::
    "'h paging_env \<Rightarrow> Pointer \<Rightarrow> Pointer \<Rightarrow> Pointer \<Rightarrow> PageAttributes \<Rightarrow> 'h page_state \<Rightarrow> bool \<times> 'h page_state" where
  "PageMap_Remap env pml virtOld virtNew flags st =
     (let phys = Virt2Phys env pml virtOld flags st;
          (_, st) = PageMap_Unmap env pml virtOld flags st
      in PageMap_Map env pml virtNew phys flags st)"

definition UnmapRange ::
    "'h paging_env \<Rightarrow> Pointer \<Rightarrow> Pointer \<Rightarrow> usize \<Rightarrow> PageAttributes \<Rightarrow> 'h page_state \<Rightarrow> (bool \<times> 'h page_state) option" where
  "UnmapRange env pml virt sz flags st =
     map_option (\<lambda>(f, st). (f = None, st))
       (for_step (GetPageSize flags) sz (\<lambda>i. PageMap_Unmap env pml (virt + i) flags) 0 st)"

definition MapRange ::
    "'h paging_env \<Rightarrow> Pointer \<Rightarrow> Pointer \<Rightarrow> Pointer \<Rightarrow> usize \<Rightarrow> PageAttributes \<Rightarrow> 'h page_state
       \<Rightarrow> (bool \<times> 'h page_state) option" where
  "MapRange env pml virt phys sz flags st =
     (let pageSize = GetPageSize flags
      in case for_step pageSize sz (\<lambda>i. PageMap_Map env pml (virt + i) (phys + i) flags) 0 st of
           None \<Rightarrow> None
         | Some (None, st) \<Rightarrow> Some (True, st)
         | Some (Some i, st) \<Rightarrow>
             map_option (\<lambda>(_, st). (False, st)) (UnmapRange env pml virt (i - pageSize) 0 st))"

definition RemapRange ::
    "'h paging_env \<Rightarrow> Pointer \<Rightarrow> Pointer \<Rightarrow> Pointer \<Rightarrow> usize \<Rightarrow> PageAttributes \<Rightarrow> 'h page_state
       \<Rightarrow> (bool \<times> 'h page_state) option" where
  "RemapRange env pml virtOld virtNew sz flags st =
     map_option (\<lambda>(f, st). (f = None, st))
       (for_step (GetPageSize flags) sz (\<lambda>i. PageMap_Remap env pml (virtOld + i) (virtNew + i) flags) 0 st)"

definition MapRegion ::
    "'h paging_env \<Rightarrow> Pointer \<Rightarrow> Region \<Rightarrow> usize \<Rightarrow> 'h page_state \<Rightarrow> (bool \<times> 'h page_state) option" where
  "MapRegion env pml region pageSize st =
     (let virt = Region_VirtualBase region; phys = m_PhysicalBase region; sz = Region_Size region;
          flags = attr_or (Region_PageAttributes region) (PageSizeFlags pageSize)
      in MapRange env pml virt phys sz flags st)"

definition RemapRegion ::
    "'h paging_env \<Rightarrow> Pointer \<Rightarrow> Region \<Rightarrow> Pointer \<Rightarrow> 'h page_state \<Rightarrow> (bool \<times> 'h page_state) option" where
  "RemapRegion env pml region newVirt st =
     (let oldVirt = Region_VirtualBase region; sz = Region_Size region;
          flags = Region_PageAttributes region;
          newVirt = (if newVirt = 0 then Region_VirtualBase region else newVirt)
      in RemapRange env pml oldVirt newVirt sz flags st)"


section \<open>Kernel address space\<close>

text \<open>
  The module state of \<^verbatim>\<open>Memory/VMM.cpp\<close>: the kernel page map (null before initialisation), the
  next free kernel address, and the page tables.
\<close>

record 'h VMM =
  s_KernelPageMap :: Pointer
  s_VirtualAddressSpace :: Pointer
  vmm_pages :: "'h page_state"

text \<open>\<open>None\<close> is the failed assertion on the alignment.\<close>

definition AllocateSpace ::
    "'h paging_env \<Rightarrow> (u64 \<Rightarrow> usize \<Rightarrow> u64) \<Rightarrow> usize \<Rightarrow> usize \<Rightarrow> bool \<Rightarrow> 'h VMM \<Rightarrow> (Pointer \<times> 'h VMM) option" where
  "AllocateSpace env alignUp increment alignment lowerHalf s =
     (if \<not> alignment \<le> PMM_PAGE_SIZE then None
      else let alignment = (if alignment = 0 then 8 else alignment);
               virt = alignUp (s_VirtualAddressSpace s) alignment;
               s = s\<lparr>s_VirtualAddressSpace :=
                      s_VirtualAddressSpace s + ((virt - s_VirtualAddressSpace s) + increment)\<rparr>
           in Some (if lowerHalf then env_FromHigherHalf env virt else env_ToHigherHalf env virt, s))"

definition MapKernelRange ::
    "'h paging_env \<Rightarrow> Pointer \<Rightarrow> Pointer \<Rightarrow> usize \<Rightarrow> PageAttributes \<Rightarrow> 'h VMM \<Rightarrow> (bool \<times> 'h VMM) option" where
  "MapKernelRange env virt phys sz attributes s =
     (if s_KernelPageMap s = 0 then Some (False, s)
      else map_option (\<lambda>(ok, st). (ok, s\<lparr>vmm_pages := st\<rparr>))
             (MapRange env (s_KernelPageMap s) virt phys sz attributes (vmm_pages s)))"

definition MapKernelRegion ::
    "'h paging_env \<Rightarrow> Pointer \<Rightarrow> Pointer \<Rightarrow> usize \<Rightarrow> PageAttributes \<Rightarrow> 'h VMM \<Rightarrow> (bool \<times> 'h VMM) option" where
  "MapKernelRegion env virt phys pageCount attributes s =
     MapKernelRange env virt phys (pageCount * PMM_PAGE_SIZE) attributes s"

definition UnmapKernelRange ::
    "'h paging_env \<Rightarrow> Pointer \<Rightarrow> usize \<Rightarrow> PageAttributes \<Rightarrow> 'h VMM \<Rightarrow> (bool \<times> 'h VMM) option" where
  "UnmapKernelRange env virt sz flags s =
     map_option (\<lambda>(ok, st). (ok, s\<lparr>vmm_pages := st\<rparr>))
       (UnmapRange env (s_KernelPageMap s) virt sz flags (vmm_pages s))"

definition VMM_MapIoRegion ::
    "'h paging_env \<Rightarrow> (u64 \<Rightarrow> usize \<Rightarrow> u64) \<Rightarrow> Pointer \<Rightarrow> usize \<Rightarrow> bool \<Rightarrow> usize \<Rightarrow> 'h VMM \<Rightarrow> (Pointer \<times> 'h VMM) option" where
  "VMM_MapIoRegion env alignUp phys sz write alignment s =
     (case AllocateSpace env alignUp sz alignment True s of
        None \<Rightarrow> None
      | Some (virt, s) \<Rightarrow>
          let attributes = attr_or eRead eUncacheableStrong;
              attributes = (if write then attr_or attributes eWrite else attributes)
          in map_option (\<lambda>(ok, st). (if ok then virt else 0, s\<lparr>vmm_pages := st\<rparr>))
               (MapRange env (s_KernelPageMap s) virt phys sz attributes (vmm_pages s)))"

text \<open>
  \<^verbatim>\<open>PageMap::MapIoRegion\<close>: \<^verbatim>\<open>AlignDown\<close> is Prism's as well.  An address of a wrapped
  pointer, \<^verbatim>\<open>ENOMEM\<close> when the mapping fails.
\<close>

definition PageMap_MapIoRegion ::
    "'h paging_env \<Rightarrow> (u64 \<Rightarrow> usize \<Rightarrow> u64) \<Rightarrow> (u64 \<Rightarrow> usize \<Rightarrow> u64) \<Rightarrow> Pointer \<Rightarrow> Pointer \<Rightarrow> usize
       \<Rightarrow> PageAttributes \<Rightarrow> usize \<Rightarrow> 'h VMM \<Rightarrow> (Pointer error_or \<times> 'h VMM) option" where
  "PageMap_MapIoRegion env alignUp alignDown pml phys len flags alignment s =
     (let len = alignUp len PMM_PAGE_SIZE
      in case AllocateSpace env alignUp len alignment True s of
           None \<Rightarrow> None
         | Some (virt, s) \<Rightarrow>
             let phys = alignDown phys PMM_PAGE_SIZE
             in map_option (\<lambda>(ok, st). (if ok then Inr virt else Inl ENOMEM, s\<lparr>vmm_pages := st\<rparr>))
                  (MapRange env pml virt phys len flags (vmm_pages s)))"

definition IsHigherHalfAddress :: "usize \<Rightarrow> Pointer \<Rightarrow> bool" where
  "IsHigherHalfAddress hhdm addr \<longleftrightarrow> addr \<ge> hhdm"

definition ToHigherHalfAddress :: "usize \<Rightarrow> Pointer \<Rightarrow> Pointer" where
  "ToHigherHalfAddress hhdm addr = (if IsHigherHalfAddress hhdm addr then addr else addr + hhdm)"

definition FromHigherHalfAddress :: "usize \<Rightarrow> Pointer \<Rightarrow> Pointer" where
  "FromHigherHalfAddress hhdm addr = (if \<not> IsHigherHalfAddress hhdm addr then addr else addr - hhdm)"

section \<open>Properties\<close>





text \<open>
  Addresses from \<^verbatim>\<open>AllocateSpace\<close>: with an alignment that is zero or a power of two
  up to the page size, and while the address space does not wrap, the block lies at or above the
  old position, is aligned, and the new position is its end; so blocks never overlap.
\<close>

theorem AllocateSpace_advances:
  assumes "prism_align alignUp" and "alignment = 0 \<and> k = 3 \<or> alignment = 2 ^ k" and "k \<le> 12"
    and "unat (s_VirtualAddressSpace s) + 2 ^ k + unat increment < 2 ^ 64"
  shows "\<exists>virt s'. AllocateSpace env alignUp increment alignment lowerHalf s =
      Some (if lowerHalf then env_FromHigherHalf env virt else env_ToHigherHalf env virt, s') \<and>
    2 ^ k dvd unat virt \<and> unat (s_VirtualAddressSpace s) \<le> unat virt \<and>
    unat (s_VirtualAddressSpace s') = unat virt + unat increment"
proof -
  let ?v = "alignUp (s_VirtualAddressSpace s) (2 ^ k)"
  have k: "k < 64" using assms(3) by simp
  have room: "unat (s_VirtualAddressSpace s) + 2 ^ k \<le> 2 ^ 64" using assms(4) by simp
  have "(2 :: nat) ^ k \<le> 2 ^ 12" using assms(3) by (intro power_increasing) auto
  then have le: "(2 :: u64) ^ k \<le> 0x1000" by (simp add: word_le_nat_alt unat_pow2 [OF k])
  have al: "(if alignment = 0 then 8 else alignment) = 2 ^ k" "alignment \<le> PMM_PAGE_SIZE"
    using assms(2) le k by (auto simp: PMM_PAGE_SIZE_def)
  have "unat (?v + increment) = unat ?v + unat increment"
    using assms(4) prism_align.alignUp_upper [OF assms(1) k room] by (intro unat_add_nowrap) simp
  moreover have "s_VirtualAddressSpace s + ((?v - s_VirtualAddressSpace s) + increment) = ?v + increment" by simp
  ultimately show ?thesis
    using al prism_align.alignUp_lower [OF assms(1) k room] prism_align.alignUp_dvd [OF assms(1) k room]
    by (intro exI [of _ ?v]) (simp add: AllocateSpace_def Let_def)
qed

theorem AllocateSpace_advances_witness:
  "\<exists>virt s'. AllocateSpace small_env align_up 0x2000 0 True
      \<lparr>s_KernelPageMap = 0, s_VirtualAddressSpace = 0x1001, vmm_pages = small_state\<rparr> =
        Some (env_FromHigherHalf small_env virt, s') \<and>
    8 dvd unat virt \<and> unat (s_VirtualAddressSpace s') = unat virt + 0x2000"
  using AllocateSpace_advances [OF align_up.prism_align_axioms, of 0 3
      "\<lparr>s_KernelPageMap = 0, s_VirtualAddressSpace = 0x1001, vmm_pages = small_state\<rparr>" "0x2000" small_env True]
  by fastforce

text \<open>
  Below the higher half, \<^verbatim>\<open>ToHigherHalfAddress\<close> and \<^verbatim>\<open>FromHigherHalfAddress\<close> are
  inverse to each other as long as the sum does not wrap.
\<close>

theorem higher_half_roundtrip:
  assumes "addr < hhdm" and "nowrap addr hhdm"
  shows "FromHigherHalfAddress hhdm (ToHigherHalfAddress hhdm addr) = addr \<and>
    ToHigherHalfAddress hhdm (FromHigherHalfAddress hhdm (addr + hhdm)) = addr + hhdm"
proof -
  have "\<not> addr + hhdm < hhdm" using nowrap_end [OF assms(2)] by (simp add: word_less_nat_alt)
  moreover have "\<not> hhdm \<le> addr" using assms(1) by simp
  ultimately show ?thesis
    by (simp add: FromHigherHalfAddress_def ToHigherHalfAddress_def IsHigherHalfAddress_def not_less)
qed

theorem higher_half_roundtrip_witness:
  "FromHigherHalfAddress 0xffff800000000000 (ToHigherHalfAddress 0xffff800000000000 0x1234) = 0x1234"
  using higher_half_roundtrip [of "0x1234" "0xffff800000000000"] by (simp add: nowrap_def)

end
