(* ===== verification/INodes.thy ===== *)
theory INodes
  imports Kernel_Prelude "HOL-Library.AList"
begin

unbundle bit_operations_syntax

text \<open>
  Inodes as every filesystem has them (\<^verbatim>\<open>VFS/INode.cpp\<close>, \<^verbatim>\<open>VFS/INode.hpp\<close>): file modes
  (\<^verbatim>\<open>API/Posix/sys/stat.h\<close>), time stamps (\<^verbatim>\<open>API/Posix/time.h\<close>), metadata and the
  operations that only touch these.  The lemmas describe the permission check and the operations
  on modes and owners.
\<close>

section \<open>Time stamps\<close>

text \<open>\<^verbatim>\<open>time_t\<close> is a signed 64-bit number; comparisons are of the signed values.\<close>

record timespec =
  tv_sec :: "64 word"
  tv_nsec :: "64 word"

definition timespec_zero :: timespec where
  "timespec_zero = \<lparr>tv_sec = 0, tv_nsec = 0\<rparr>"

definition timespec_bool :: "timespec \<Rightarrow> bool" where
  "timespec_bool t \<longleftrightarrow> tv_sec t \<noteq> 0 \<or> tv_nsec t \<noteq> 0"

definition timespec_sub :: "timespec \<Rightarrow> timespec \<Rightarrow> timespec" where
  "timespec_sub t other =
     (let rest = (\<lambda>t. if sint (tv_sec other) > sint (tv_sec t) then timespec_zero
                      else t\<lparr>tv_sec := tv_sec t - tv_sec other\<rparr>)
      in if sint (tv_nsec other) > sint (tv_nsec t)
         then let t = t\<lparr>tv_nsec := 999999999 - (tv_nsec other - tv_nsec t)\<rparr>
              in if tv_sec t = 0 then timespec_zero else rest (t\<lparr>tv_sec := tv_sec t - 1\<rparr>)
         else rest (t\<lparr>tv_nsec := tv_nsec t - tv_nsec other\<rparr>))"

section \<open>Modes\<close>

type_synonym mode_t = u32

definition S_ISVTX :: mode_t where "S_ISVTX = 0x200"
definition S_ISGID :: mode_t where "S_ISGID = 0x400"
definition S_ISUID :: mode_t where "S_ISUID = 0x800"
definition S_IFIFO :: mode_t where "S_IFIFO = 0x1000"
definition S_IFCHR :: mode_t where "S_IFCHR = 0x2000"
definition S_IFDIR :: mode_t where "S_IFDIR = 0x4000"
definition S_IFREG :: mode_t where "S_IFREG = 0x8000"
definition S_IFLNK :: mode_t where "S_IFLNK = 0xA000"
definition S_IFSOCK :: mode_t where "S_IFSOCK = 0xC000"
definition S_IFMT :: mode_t where "S_IFMT = 0xF000"
definition S_IWUSR :: mode_t where "S_IWUSR = 0x80"
definition S_IWGRP :: mode_t where "S_IWGRP = 0x10"
definition S_IWOTH :: mode_t where "S_IWOTH = 0x02"
definition W_OK :: mode_t where "W_OK = 2"

lemmas mode_defs [vfs_defs] = S_ISVTX_def S_ISGID_def S_ISUID_def S_IFIFO_def S_IFCHR_def S_IFDIR_def
  S_IFREG_def S_IFLNK_def S_IFSOCK_def S_IFMT_def S_IWUSR_def S_IWGRP_def S_IWOTH_def W_OK_def

definition S_ISCHR :: "mode_t \<Rightarrow> bool" where "S_ISCHR mode \<longleftrightarrow> mode AND S_IFMT = S_IFCHR"
definition S_ISDIR :: "mode_t \<Rightarrow> bool" where "S_ISDIR mode \<longleftrightarrow> mode AND S_IFMT = S_IFDIR"
definition S_ISFIFO :: "mode_t \<Rightarrow> bool" where "S_ISFIFO mode \<longleftrightarrow> mode AND S_IFMT = S_IFIFO"
definition S_ISREG :: "mode_t \<Rightarrow> bool" where "S_ISREG mode \<longleftrightarrow> mode AND S_IFMT = S_IFREG"
definition S_ISLNK :: "mode_t \<Rightarrow> bool" where "S_ISLNK mode \<longleftrightarrow> mode AND S_IFMT = S_IFLNK"
definition S_ISSOCK :: "mode_t \<Rightarrow> bool" where "S_ISSOCK mode \<longleftrightarrow> mode AND S_IFMT = S_IFSOCK"

definition IF2DT :: "mode_t \<Rightarrow> u32" where
  "IF2DT mode = drop_bit 12 (mode AND S_IFMT)"

lemmas mode_test_defs [vfs_defs] = S_ISCHR_def S_ISDIR_def S_ISFIFO_def S_ISREG_def S_ISLNK_def S_ISSOCK_def
  IF2DT_def

section \<open>Metadata\<close>

record Metadata =
  ID :: u64
  Mode :: mode_t
  Size :: usize
  LinkCount :: usize
  BlockSize :: usize
  BlockCount :: usize
  RootDeviceID :: u64
  DeviceID :: u64
  UID :: u32
  GID :: u32
  AccessTime :: timespec
  ModificationTime :: timespec
  ChangeTime :: timespec

record Credentials =
  UserID :: u32
  GroupID :: u32
  EffectiveUserID :: u32
  EffectiveGroupID :: u32

definition Metadata_default :: Metadata where
  "Metadata_default = \<lparr>ID = - 1, Mode = 0, Size = 0, LinkCount = 0, BlockSize = 0, BlockCount = 0,
     RootDeviceID = 0, DeviceID = 0, UID = 0, GID = 0, AccessTime = timespec_zero,
     ModificationTime = timespec_zero, ChangeTime = timespec_zero\<rparr>"

text \<open>The constructor with a name and a filesystem takes the effective ids of the current process.\<close>

definition INode_make :: "Credentials option \<Rightarrow> Metadata" where
  "INode_make process =
     (case process of
        None \<Rightarrow> Metadata_default
      | Some creds \<Rightarrow> Metadata_default\<lparr>UID := EffectiveUserID creds, GID := EffectiveGroupID creds\<rparr>)"

record stat =
  st_dev :: u64
  st_ino :: u64
  st_nlink :: u64
  st_mode :: mode_t
  st_uid :: u32
  st_gid :: u32
  st_rdev :: u64
  st_size :: u64
  st_blksize :: u64
  st_blocks :: u64
  st_atim :: timespec
  st_mtim :: timespec
  st_ctim :: timespec

definition INode_Stats :: "Metadata \<Rightarrow> stat" where
  "INode_Stats m = \<lparr>st_dev = DeviceID m, st_ino = ID m, st_nlink = LinkCount m, st_mode = Mode m,
     st_uid = UID m, st_gid = GID m, st_rdev = RootDeviceID m, st_size = Size m,
     st_blksize = BlockSize m, st_blocks = BlockCount m, st_atim = AccessTime m,
     st_mtim = ModificationTime m, st_ctim = ChangeTime m\<rparr>"

definition INode_Mode :: "Metadata \<Rightarrow> mode_t" where
  "INode_Mode m = Mode m AND NOT S_IFMT"

definition INode_IsCharDevice :: "Metadata \<Rightarrow> bool" where "INode_IsCharDevice m = S_ISCHR (Mode m)"
definition INode_IsFifo :: "Metadata \<Rightarrow> bool" where "INode_IsFifo m = S_ISFIFO (Mode m)"
definition INode_IsDirectory :: "Metadata \<Rightarrow> bool" where "INode_IsDirectory m = S_ISDIR (Mode m)"
definition INode_IsRegular :: "Metadata \<Rightarrow> bool" where "INode_IsRegular m = S_ISREG (Mode m)"
definition INode_IsSymlink :: "Metadata \<Rightarrow> bool" where "INode_IsSymlink m = S_ISLNK (Mode m)"
definition INode_IsSocket :: "Metadata \<Rightarrow> bool" where "INode_IsSocket m = S_ISSOCK (Mode m)"

lemmas inode_test_defs [vfs_defs] = INode_IsCharDevice_def INode_IsFifo_def INode_IsDirectory_def
  INode_IsRegular_def INode_IsSymlink_def INode_IsSocket_def

definition INode_ReadOnly :: "Metadata \<Rightarrow> bool" where "INode_ReadOnly m = False"
definition INode_Immutable :: "Metadata \<Rightarrow> bool" where "INode_Immutable m = False"

definition INode_CanWrite :: "Metadata \<Rightarrow> Credentials \<Rightarrow> bool" where
  "INode_CanWrite m creds =
     (if EffectiveUserID creds = 0 \<or> Mode m AND S_IWOTH \<noteq> 0 then True
      else if EffectiveUserID creds = UID m \<and> Mode m AND S_IWUSR \<noteq> 0 then True
      else GID m = EffectiveGroupID creds \<and> Mode m AND S_IWGRP \<noteq> 0)"

definition INode_CheckPermissions :: "mode_t \<Rightarrow> Metadata \<Rightarrow> usize error_or" where
  "INode_CheckPermissions acc m =
     (if acc AND W_OK \<noteq> 0 \<and> INode_ReadOnly m \<and>
         (INode_IsRegular m \<or> INode_IsDirectory m \<or> INode_IsSymlink m) then Inl EROFS
      else if acc AND W_OK \<noteq> 0 \<and> INode_Immutable m then Inl EACCES
      else Inr 0)"

text \<open>Operations on metadata and the dirty flag.\<close>

definition INode_SetOwner :: "u32 \<Rightarrow> u32 \<Rightarrow> Metadata \<times> bool \<Rightarrow> Metadata \<times> bool" where
  "INode_SetOwner uid gid = (\<lambda>(m, dirty).
     if uid = UID m \<and> gid = GID m then (m, dirty) else (m\<lparr>UID := uid, GID := gid\<rparr>, True))"

definition INode_ChangeMode :: "mode_t \<Rightarrow> Metadata \<times> bool \<Rightarrow> Metadata \<times> bool" where
  "INode_ChangeMode mode = (\<lambda>(m, dirty). (m\<lparr>Mode := Mode m OR (mode AND 0x1ff)\<rparr>, True))"

definition INode_UpdateTimestamps :: "timespec \<Rightarrow> timespec \<Rightarrow> timespec \<Rightarrow> Metadata \<times> bool \<Rightarrow> Metadata \<times> bool" where
  "INode_UpdateTimestamps atime mtime ctime = (\<lambda>(m, dirty).
     let m = (if timespec_bool atime then m\<lparr>AccessTime := atime\<rparr> else m);
         m = (if timespec_bool mtime then m\<lparr>ModificationTime := mtime\<rparr> else m);
         m = (if timespec_bool ctime then m\<lparr>ChangeTime := ctime\<rparr> else m)
     in (m, True))"

text \<open>
  \<^verbatim>\<open>IsEmpty\<close>: the iterator sets \<^verbatim>\<open>hasEntries\<close> at the first name other than the dots and
  stops the traversal; the names are those \<^verbatim>\<open>TraverseDirectories\<close> visits.
\<close>

fun INode_IsEmpty :: "string list \<Rightarrow> bool" where
  "INode_IsEmpty [] = False"
| "INode_IsEmpty (name # names) =
     (if name \<noteq> ''.'' \<and> name \<noteq> ''..'' then True else INode_IsEmpty names)"

section \<open>Properties\<close>

text \<open>
  \<^verbatim>\<open>CanWrite\<close> grants access exactly to the superuser, to everybody when the mode has
  the write bit for others, to the owner with the owner's write bit, and to the group with the
  group's write bit.
\<close>

theorem CanWrite_iff:
  "INode_CanWrite m creds \<longleftrightarrow> EffectiveUserID creds = 0 \<or> bit (Mode m) 1 \<or>
     EffectiveUserID creds = UID m \<and> bit (Mode m) 7 \<or> EffectiveGroupID creds = GID m \<and> bit (Mode m) 4"
  using and_exp_eq_0_iff_not_bit [of "Mode m" 1] and_exp_eq_0_iff_not_bit [of "Mode m" 7]
    and_exp_eq_0_iff_not_bit [of "Mode m" 4]
  by (auto simp: INode_CanWrite_def vfs_defs)

text \<open>
  \<^verbatim>\<open>ChangeMode\<close> only ever adds permissions: every mode bit that was set stays set,
  so no permission can be withdrawn.
\<close>

theorem ChangeMode_never_clears:
  "bit (Mode m) k \<Longrightarrow> bit (Mode (fst (INode_ChangeMode mode (m, dirty)))) k"
  by (simp add: INode_ChangeMode_def bit_simps)

theorem ChangeMode_never_clears_witness:
  "bit (Mode (fst (INode_ChangeMode 0 (Metadata_default\<lparr>Mode := 0x81b6\<rparr>, False)))) 1"
  using ChangeMode_never_clears [of "Metadata_default\<lparr>Mode := 0x81b6\<rparr>" 1 0 False] by simp

text \<open>
  \<^verbatim>\<open>IsEmpty\<close> answers the opposite of its name: true exactly when the directory has
  an entry other than the dots.
\<close>

theorem IsEmpty_iff_has_entries:
  "INode_IsEmpty names \<longleftrightarrow> (\<exists>name\<in>set names. name \<noteq> ''.'' \<and> name \<noteq> ''..'')"
  by (induction names) auto

text \<open>
  The directory entry type computed from \<^verbatim>\<open>INode::Mode()\<close> is always
  \<^verbatim>\<open>DT_UNKNOWN\<close>, since \<^verbatim>\<open>Mode()\<close> has the type bits removed.
\<close>

theorem type_of_Mode_unknown: "IF2DT (INode_Mode m) = 0"
  by (simp add: IF2DT_def INode_Mode_def and.assoc S_IFMT_def)

text \<open>
  Subtracting a time stamp with more nanoseconds borrows one second, and loses one
  nanosecond: the result is exact except that it is one nanosecond short.
\<close>

theorem timespec_sub_borrow_loses_nanosecond:
  assumes "0 \<le> sint (tv_nsec t)" "sint (tv_nsec t) < sint (tv_nsec u)" "sint (tv_nsec u) < 1000000000"
    and "sint (tv_sec u) < sint (tv_sec t)" "0 \<le> sint (tv_sec u)"
  shows "sint (tv_sec (timespec_sub t u)) * 1000000000 + sint (tv_nsec (timespec_sub t u)) =
    (sint (tv_sec t) * 1000000000 + sint (tv_nsec t)) - (sint (tv_sec u) * 1000000000 + sint (tv_nsec u)) - 1"
proof -
  let ?n = "999999999 - (tv_nsec u - tv_nsec t) :: 64 word"
  have d: "sint (tv_nsec u - tv_nsec t) = sint (tv_nsec u) - sint (tv_nsec t)"
    by (rule sint_sub_inside) (use assms in auto)
  have n: "sint ?n = 999999999 - (sint (tv_nsec u) - sint (tv_nsec t))"
    using assms d by (subst sint_sub_inside) auto
  have s1: "sint (tv_sec t - 1) = sint (tv_sec t) - 1"
    using assms sint_lt64 [of "tv_sec t"] by (subst sint_sub_inside) auto
  have s2: "sint (tv_sec t - 1 - tv_sec u) = sint (tv_sec t) - 1 - sint (tv_sec u)"
    using assms s1 sint_lt64 [of "tv_sec t"] by (subst sint_sub_inside) auto
  have "tv_sec t \<noteq> 0" using assms by auto
  then show ?thesis
    using assms n s1 s2 by (simp add: timespec_sub_def Let_def)
qed

theorem timespec_sub_borrow_loses_nanosecond_witness:
  "sint (tv_nsec (timespec_sub \<lparr>tv_sec = 5, tv_nsec = 0\<rparr> \<lparr>tv_sec = 2, tv_nsec = 1\<rparr>)) +
   sint (tv_sec (timespec_sub \<lparr>tv_sec = 5, tv_nsec = 0\<rparr> \<lparr>tv_sec = 2, tv_nsec = 1\<rparr>)) * 1000000000 = 2999999998"
  using timespec_sub_borrow_loses_nanosecond [of "\<lparr>tv_sec = 5, tv_nsec = 0\<rparr>" "\<lparr>tv_sec = 2, tv_nsec = 1\<rparr>"] by simp

end
