(* ===== verification/Synth_Fs.thy ===== *)
theory Synth_Fs
  imports INodes
begin

unbundle bit_operations_syntax

text \<open>
  The in-memory filesystem: \<^verbatim>\<open>VFS/SynthFsINode.cpp\<close> and \<^verbatim>\<open>VFS/TmpFs/TmpFs.cpp\<close>, with the
  directory entries they bind (\<^verbatim>\<open>VFS/DirectoryEntry.hpp\<close>).  Objects live in stores and are
  named by their index.  The lemmas relate a directory to the map from names to inodes that it
  stands for, and a file to its bytes: what is written is read back, and nothing else changes.
\<close>

section \<open>Objects and state\<close>

text \<open>
  \<^verbatim>\<open>DirectoryEntryFlags\<close> is a set of bits; \<^verbatim>\<open>operator&\<close> tests for a common one.
  \<^verbatim>\<open>UnorderedMap\<close> is an association list, whose order stands for the iteration order.
\<close>

type_synonym DirectoryEntryFlags = u32

definition eNegative :: DirectoryEntryFlags where "eNegative = 0"
definition eDirectory :: DirectoryEntryFlags where "eDirectory = 2"
definition eRegular :: DirectoryEntryFlags where "eRegular = 4"
definition eSpecial :: DirectoryEntryFlags where "eSpecial = 5"
definition eSymlink :: DirectoryEntryFlags where "eSymlink = 6"
definition eEntryTypeMask :: DirectoryEntryFlags where "eEntryTypeMask = 7"
definition eMountPoint :: DirectoryEntryFlags where "eMountPoint = 0x20"

lemmas de_flag_defs [vfs_defs] = eNegative_def eDirectory_def eRegular_def eSpecial_def eSymlink_def
  eEntryTypeMask_def eMountPoint_def

record DirectoryEntry =
  de_Name :: string
  de_Flags :: DirectoryEntryFlags
  de_INode :: "nat option"
  de_Populated :: bool
  de_DirOffset :: usize
  de_Parent :: "nat option"
  de_MountGate :: "nat option"
  de_Children :: "(string \<times> nat) list"

record SynthFsINode =
  in_Name :: string
  in_Parent :: "nat option"
  in_Filesystem :: nat
  in_Metadata :: Metadata
  in_Dirty :: bool
  in_Buffer :: "u8 list"
  in_Children :: "(string \<times> nat) list"
  in_Target :: string
  in_Freed :: bool

record TmpFs =
  fs_DeviceID :: u64
  fs_NextINodeIndex :: u64
  fs_MaxINodeCount :: usize
  fs_FreeINodeCount :: usize
  fs_BlockSize :: usize
  fs_BytesLimit :: usize
  fs_MaxBlockCount :: usize
  fs_UsedBlockCount :: usize
  fs_MaxSize :: usize
  fs_RootEntry :: "nat option"
  fs_Root :: "nat option"

text \<open>
  What the code asks of its surroundings: the clock, the credentials of the current process, the
  amount of memory, Prism's \<^verbatim>\<open>DivRoundUp\<close>, and the value of the bytes a Prism \<^verbatim>\<open>Buffer\<close> has
  gained after \<^verbatim>\<open>Resize\<close>.
\<close>

record vfs_env =
  ve_now :: timespec
  ve_process :: "Credentials option"
  ve_totalMemory :: usize
  ve_divRoundUp :: "usize \<Rightarrow> usize \<Rightarrow> usize"
  ve_fill :: u8

record vfs =
  vfs_inodes :: "SynthFsINode list"
  vfs_dentries :: "DirectoryEntry list"
  vfs_filesystems :: "TmpFs list"
  vfs_mounts :: "(nat \<times> nat) list"
  s_RootDirectoryEntry :: "nat option"

abbreviation inode_at :: "vfs \<Rightarrow> nat \<Rightarrow> SynthFsINode" where
  "inode_at v i \<equiv> vfs_inodes v ! i"

abbreviation dentry_at :: "vfs \<Rightarrow> nat \<Rightarrow> DirectoryEntry" where
  "dentry_at v d \<equiv> vfs_dentries v ! d"

abbreviation fs_at :: "vfs \<Rightarrow> nat \<Rightarrow> TmpFs" where
  "fs_at v f \<equiv> vfs_filesystems v ! f"

definition upd_inode :: "nat \<Rightarrow> (SynthFsINode \<Rightarrow> SynthFsINode) \<Rightarrow> vfs \<Rightarrow> vfs" where
  "upd_inode i f v = v\<lparr>vfs_inodes := (vfs_inodes v)[i := f (inode_at v i)]\<rparr>"

definition upd_meta :: "nat \<Rightarrow> (Metadata \<Rightarrow> Metadata) \<Rightarrow> vfs \<Rightarrow> vfs" where
  "upd_meta i f = upd_inode i (\<lambda>n. n\<lparr>in_Metadata := f (in_Metadata n)\<rparr>)"

definition upd_dentry :: "nat \<Rightarrow> (DirectoryEntry \<Rightarrow> DirectoryEntry) \<Rightarrow> vfs \<Rightarrow> vfs" where
  "upd_dentry d f v = v\<lparr>vfs_dentries := (vfs_dentries v)[d := f (dentry_at v d)]\<rparr>"

definition upd_fs :: "nat \<Rightarrow> (TmpFs \<Rightarrow> TmpFs) \<Rightarrow> vfs \<Rightarrow> vfs" where
  "upd_fs k f v = v\<lparr>vfs_filesystems := (vfs_filesystems v)[k := f (fs_at v k)]\<rparr>"

text \<open>\<^verbatim>\<open>CreateRef<DirectoryEntry>(parent, name)\<close>.\<close>

definition new_dentry :: "nat option \<Rightarrow> string \<Rightarrow> vfs \<Rightarrow> nat \<times> vfs" where
  "new_dentry parent name v =
     (length (vfs_dentries v),
      v\<lparr>vfs_dentries := vfs_dentries v @ [\<lparr>de_Name = name, de_Flags = eNegative, de_INode = None,
        de_Populated = False, de_DirOffset = 0, de_Parent = parent, de_MountGate = None, de_Children = []\<rparr>]\<rparr>)"

section \<open>Directory entries\<close>

definition DirectoryEntry_SetParent :: "nat \<Rightarrow> nat option \<Rightarrow> vfs \<Rightarrow> vfs" where
  "DirectoryEntry_SetParent d entry = upd_dentry d (\<lambda>e. e\<lparr>de_Parent := entry\<rparr>)"

definition DirectoryEntry_SetMountGate :: "nat \<Rightarrow> nat option \<Rightarrow> vfs \<Rightarrow> vfs" where
  "DirectoryEntry_SetMountGate d mountPoint = upd_dentry d (\<lambda>e.
     let e = e\<lparr>de_MountGate := mountPoint\<rparr>;
         e = (if de_Flags e AND eEntryTypeMask = 0 then e\<lparr>de_Flags := de_Flags e OR eDirectory\<rparr> else e)
     in e\<lparr>de_Flags := de_Flags e OR eMountPoint\<rparr>)"

definition Bind_flags :: "Metadata \<Rightarrow> DirectoryEntryFlags \<Rightarrow> DirectoryEntryFlags" where
  "Bind_flags m flags =
     (let flags = (if INode_IsDirectory m then flags OR eDirectory else flags);
          flags = (if INode_IsRegular m then flags OR eRegular else flags);
          flags = (if INode_IsSymlink m then flags OR eSymlink else flags)
      in if INode_IsCharDevice m \<or> INode_IsSocket m \<or> INode_IsFifo m then flags OR eSpecial else flags)"

definition DirectoryEntry_Bind :: "nat \<Rightarrow> nat \<Rightarrow> vfs \<Rightarrow> vfs" where
  "DirectoryEntry_Bind d inode v =
     upd_dentry d (\<lambda>e. e\<lparr>de_INode := Some inode,
       de_Flags := Bind_flags (in_Metadata (inode_at v inode)) (de_Flags e)\<rparr>) v"

definition DirectoryEntry_InsertChild :: "nat \<Rightarrow> nat \<Rightarrow> vfs \<Rightarrow> vfs" where
  "DirectoryEntry_InsertChild d entry v =
     upd_dentry d (\<lambda>e. e\<lparr>de_Children := AList.update (de_Name (dentry_at v entry)) entry (de_Children e)\<rparr>) v"

definition DirectoryEntry_RemoveChild :: "nat \<Rightarrow> nat \<Rightarrow> vfs \<Rightarrow> vfs" where
  "DirectoryEntry_RemoveChild d entry v =
     upd_dentry d (\<lambda>e. e\<lparr>de_Children := AList.delete (de_Name (dentry_at v entry)) (de_Children e)\<rparr>) v"

definition DirectoryEntry_IsMountPoint :: "DirectoryEntry \<Rightarrow> bool" where
  "DirectoryEntry_IsMountPoint e \<longleftrightarrow> de_Flags e AND eMountPoint \<noteq> 0"

definition DirectoryEntry_IsDirectory :: "DirectoryEntry \<Rightarrow> bool" where
  "DirectoryEntry_IsDirectory e \<longleftrightarrow> de_Flags e AND eDirectory \<noteq> 0"

definition DirectoryEntry_IsRegular :: "DirectoryEntry \<Rightarrow> bool" where
  "DirectoryEntry_IsRegular e \<longleftrightarrow> de_Flags e AND eRegular \<noteq> 0"

definition DirectoryEntry_IsSpecial :: "DirectoryEntry \<Rightarrow> bool" where
  "DirectoryEntry_IsSpecial e \<longleftrightarrow> de_Flags e AND eSpecial \<noteq> 0"

section \<open>TmpFs\<close>

definition Filesystem_ShouldUpdateATime :: bool where
  "Filesystem_ShouldUpdateATime = True"

definition DIRECTORY_ENTRY_SIZE :: usize where "DIRECTORY_ENTRY_SIZE = 20"

definition GetDefaultSize :: usize where "GetDefaultSize = 0x1000"

text \<open>
  The constructor.  \<^verbatim>\<open>IsDirectory() ?: DIRECTORY_ENTRY_SIZE * 2\<close> is the condition itself,
  that is 1, for a directory.
\<close>

definition SynthFsINode_make :: "vfs_env \<Rightarrow> string \<Rightarrow> nat \<Rightarrow> u64 \<Rightarrow> u64 \<Rightarrow> mode_t \<Rightarrow> SynthFsINode" where
  "SynthFsINode_make env name fs deviceID nid mode =
     (let m = (INode_make (ve_process env))\<lparr>ID := nid, Mode := mode\<rparr>;
          m = m\<lparr>Size := (if INode_IsDirectory m then 1 else DIRECTORY_ENTRY_SIZE * 2),
                LinkCount := 1 + (if INode_IsDirectory m then 1 else 0),
                BlockSize := 0x1000, BlockCount := 0, RootDeviceID := deviceID, DeviceID := 0\<rparr>;
          m = (case ve_process env of None \<Rightarrow> m | Some creds \<Rightarrow> m\<lparr>GID := GroupID creds, UID := UserID creds\<rparr>);
          m = m\<lparr>AccessTime := ve_now env, ModificationTime := ve_now env, ChangeTime := ve_now env\<rparr>
      in \<lparr>in_Name = name, in_Parent = None, in_Filesystem = fs, in_Metadata = m, in_Dirty = False,
          in_Buffer = [], in_Children = [], in_Target = [], in_Freed = False\<rparr>)"

definition TmpFs_AllocateNode :: "vfs_env \<Rightarrow> nat \<Rightarrow> string \<Rightarrow> mode_t \<Rightarrow> vfs \<Rightarrow> nat error_or \<times> vfs" where
  "TmpFs_AllocateNode env k name mode v =
     (let fs = fs_at v k
      in if fs_NextINodeIndex fs \<ge> fs_MaxINodeCount fs then (Inl ENOSPC, v)
         else if fs_FreeINodeCount fs = 0 then (Inl ENOSPC, v)
         else let inode = SynthFsINode_make env name k (fs_DeviceID fs) (fs_NextINodeIndex fs) mode;
                  i = length (vfs_inodes v);
                  v = v\<lparr>vfs_inodes := vfs_inodes v @ [inode]\<rparr>;
                  v = upd_fs k (\<lambda>f. f\<lparr>fs_NextINodeIndex := fs_NextINodeIndex f + 1,
                                      fs_FreeINodeCount := fs_FreeINodeCount f - 1\<rparr>) v
              in (Inr i, v))"

definition TmpFs_FreeINode :: "nat \<Rightarrow> nat \<Rightarrow> vfs \<Rightarrow> vfs" where
  "TmpFs_FreeINode k inode v =
     upd_fs k (\<lambda>f. f\<lparr>fs_FreeINodeCount := fs_FreeINodeCount f + 1\<rparr>)
       (upd_inode inode (\<lambda>n. n\<lparr>in_Freed := True\<rparr>) v)"

definition TmpFs_Mount :: "vfs_env \<Rightarrow> nat \<Rightarrow> vfs \<Rightarrow> nat error_or \<times> vfs" where
  "TmpFs_Mount env k v =
     (let v = upd_fs k (\<lambda>f. f\<lparr>fs_BlockSize := 0x1000, fs_BytesLimit := ve_totalMemory env div 2,
                fs_MaxBlockCount := 0x10000, fs_UsedBlockCount := 0,
                fs_MaxINodeCount := ve_totalMemory env div 0x1000 div 2,
                fs_FreeINodeCount := ve_totalMemory env div 0x1000 div 2,
                fs_MaxSize := ve_totalMemory env div 2\<rparr>) v;
          (e, v) = new_dentry None ''/'' v;
          v = upd_fs k (\<lambda>f. f\<lparr>fs_RootEntry := Some e\<rparr>) v
      in case TmpFs_AllocateNode env k ''/'' (0x1a4 OR S_IFDIR) v of
           (Inl err, v) \<Rightarrow> (Inl err, v)
         | (Inr i, v) \<Rightarrow>
             let v = upd_fs k (\<lambda>f. f\<lparr>fs_Root := Some i\<rparr>) v;
                 v = upd_meta i (\<lambda>m. m\<lparr>ID := 2\<rparr>) v;
                 v = DirectoryEntry_Bind e i v;
                 v = DirectoryEntry_SetParent e (Some e) v
             in (Inr e, v))"

section \<open>Directories\<close>

text \<open>The names, inode numbers and types \<^verbatim>\<open>TraverseDirectories\<close> passes to its iterator.\<close>

definition Synth_TraverseDirectories :: "nat \<Rightarrow> vfs \<Rightarrow> (string \<times> nat \<times> u64 \<times> u32) list" where
  "Synth_TraverseDirectories i v =
     map (\<lambda>(offset, name, child). (name, offset, ID (in_Metadata (inode_at v child)),
                                   IF2DT (INode_Mode (in_Metadata (inode_at v child)))))
       (enumerate 0 (in_Children (inode_at v i)))"

definition Synth_Lookup :: "nat \<Rightarrow> nat \<Rightarrow> vfs \<Rightarrow> nat error_or \<times> vfs" where
  "Synth_Lookup i entry v =
     (case map_of (in_Children (inode_at v i)) (de_Name (dentry_at v entry)) of
        Some child \<Rightarrow> (Inr entry, DirectoryEntry_Bind entry child v)
      | None \<Rightarrow> (Inl ENOENT, v))"

definition Synth_InsertChild :: "nat \<Rightarrow> nat \<Rightarrow> string \<Rightarrow> vfs \<Rightarrow> vfs" where
  "Synth_InsertChild i inode name = upd_inode i (\<lambda>n. n\<lparr>in_Children := AList.update name inode (in_Children n)\<rparr>)"

definition buffer_resize :: "u8 \<Rightarrow> usize \<Rightarrow> u8 list \<Rightarrow> u8 list" where
  "buffer_resize fill n xs = take (unat n) xs @ replicate (unat n - length xs) fill"

definition atime_of :: "vfs_env \<Rightarrow> timespec" where
  "atime_of env = (if Filesystem_ShouldUpdateATime then ve_now env else timespec_zero)"

text \<open>The assignments to the new inode, to the directory, and to the new inode again.\<close>

definition init_created :: "vfs_env \<Rightarrow> nat \<Rightarrow> mode_t \<Rightarrow> u64 \<Rightarrow> SynthFsINode \<Rightarrow> SynthFsINode" where
  "init_created env dir mode dev n =
     (let n = n\<lparr>in_Parent := Some dir\<rparr>;
          n = (if S_ISREG mode
               then n\<lparr>in_Metadata := (in_Metadata n)\<lparr>Size := GetDefaultSize\<rparr>,
                      in_Buffer := buffer_resize (ve_fill env) GetDefaultSize (in_Buffer n)\<rparr>
               else n)
      in n\<lparr>in_Metadata := (in_Metadata n)\<lparr>DeviceID := dev\<rparr>\<rparr>)"

definition touch :: "timespec \<Rightarrow> timespec \<Rightarrow> timespec \<Rightarrow> SynthFsINode \<Rightarrow> SynthFsINode" where
  "touch atime mtime ctime n =
     (let (m, dirty) = INode_UpdateTimestamps atime mtime ctime (in_Metadata n, in_Dirty n)
      in n\<lparr>in_Metadata := m, in_Dirty := dirty\<rparr>)"

definition grow_dir :: "vfs_env \<Rightarrow> usize \<Rightarrow> SynthFsINode \<Rightarrow> SynthFsINode" where
  "grow_dir env delta n =
     touch (atime_of env) (ve_now env) (ve_now env) (n\<lparr>in_Metadata := (in_Metadata n)\<lparr>Size := Size (in_Metadata n) + delta\<rparr>\<rparr>)"

definition inherit_gid :: "Metadata \<Rightarrow> SynthFsINode \<Rightarrow> SynthFsINode" where
  "inherit_gid d n =
     (if INode_Mode d AND S_ISGID \<noteq> 0
      then let m = (in_Metadata n)\<lparr>GID := GID d\<rparr>
           in n\<lparr>in_Metadata := (if INode_IsDirectory m then m\<lparr>Mode := Mode m OR S_ISGID\<rparr> else m)\<rparr>
      else n)"

definition Synth_CreateNode :: "vfs_env \<Rightarrow> nat \<Rightarrow> nat \<Rightarrow> mode_t \<Rightarrow> u64 \<Rightarrow> vfs \<Rightarrow> nat error_or \<times> vfs" where
  "Synth_CreateNode env dir entry mode dev v =
     (let name = de_Name (dentry_at v entry)
      in if name \<in> fst ` set (in_Children (inode_at v dir)) then (Inl EEXIST, v)
         else case TmpFs_AllocateNode env (in_Filesystem (inode_at v dir)) name mode v of
           (Inl err, v) \<Rightarrow> (Inl err, v)
         | (Inr inode, v) \<Rightarrow>
             let v = upd_inode inode (init_created env dir mode dev) v;
                 v = upd_inode dir (grow_dir env DIRECTORY_ENTRY_SIZE) v;
                 v = Synth_InsertChild dir inode name v;
                 v = upd_inode inode (inherit_gid (in_Metadata (inode_at v dir))) v;
                 v = DirectoryEntry_Bind entry inode v
             in (Inr entry, v))"

definition Synth_CreateFile :: "vfs_env \<Rightarrow> nat \<Rightarrow> nat \<Rightarrow> mode_t \<Rightarrow> vfs \<Rightarrow> nat error_or \<times> vfs" where
  "Synth_CreateFile env dir entry mode v = Synth_CreateNode env dir entry ((mode AND NOT S_IFMT) OR S_IFREG) 0 v"

definition Synth_CreateDirectory :: "vfs_env \<Rightarrow> nat \<Rightarrow> nat \<Rightarrow> mode_t \<Rightarrow> vfs \<Rightarrow> nat error_or \<times> vfs" where
  "Synth_CreateDirectory env dir entry mode v =
     (case Synth_CreateNode env dir entry ((mode AND NOT S_IFMT) OR S_IFDIR) 0 v of
        (Inl err, v) \<Rightarrow> (Inl err, v)
      | (Inr _, v) \<Rightarrow> (Inr entry, upd_meta dir (\<lambda>m. m\<lparr>LinkCount := LinkCount m + 1\<rparr>) v))"

definition Synth_Symlink :: "vfs_env \<Rightarrow> nat \<Rightarrow> nat \<Rightarrow> string \<Rightarrow> vfs \<Rightarrow> nat error_or \<times> vfs" where
  "Synth_Symlink env dir entry targetPath v =
     (case Synth_CreateNode env dir entry (0x1ff OR S_IFLNK) 0 v of
        (Inl err, v) \<Rightarrow> (Inl err, v)
      | (Inr dentry, v) \<Rightarrow>
          (Inr dentry, upd_inode (the (de_INode (dentry_at v dentry))) (\<lambda>n. n\<lparr>in_Target := targetPath\<rparr>) v))"

text \<open>The assignments \<^verbatim>\<open>Link\<close> and \<^verbatim>\<open>Unlink\<close> make to the inode.\<close>

definition relink :: "timespec \<Rightarrow> usize \<Rightarrow> Metadata \<Rightarrow> Metadata" where
  "relink now delta m = m\<lparr>ChangeTime := now, LinkCount := LinkCount m + delta\<rparr>"

definition Synth_Link :: "vfs_env \<Rightarrow> nat \<Rightarrow> nat \<Rightarrow> nat \<Rightarrow> vfs \<Rightarrow> nat error_or \<times> vfs" where
  "Synth_Link env dir oldEntry entry v =
     (let inode = the (de_INode (dentry_at v oldEntry))
      in if INode_IsDirectory (in_Metadata (inode_at v inode)) then (Inl EPERM, v)
         else let v = upd_inode dir (grow_dir env DIRECTORY_ENTRY_SIZE) v;
                  v = upd_meta inode (relink (ve_now env) 1) v;
                  v = DirectoryEntry_Bind entry inode v
              in (Inr entry, v))"

definition Synth_ReadLink :: "nat \<Rightarrow> vfs \<Rightarrow> string error_or" where
  "Synth_ReadLink i v = Inr (in_Target (inode_at v i))"

definition Synth_Rename :: "nat \<Rightarrow> nat \<Rightarrow> string \<Rightarrow> vfs \<Rightarrow> vfs" where
  "Synth_Rename i newParent newName v =
     Synth_InsertChild newParent i newName (upd_inode i (\<lambda>n. n\<lparr>in_Name := newName\<rparr>) v)"

text \<open>\<open>None\<close> is the failed assertion that the entry has a parent.\<close>

definition Synth_Unlink :: "vfs_env \<Rightarrow> nat \<Rightarrow> nat \<Rightarrow> vfs \<Rightarrow> vfs option" where
  "Synth_Unlink env dir entry v =
     (let name = de_Name (dentry_at v entry)
      in if name \<notin> fst ` set (in_Children (inode_at v dir)) then Some v
         else let inode = the (de_INode (dentry_at v entry));
                  v = upd_inode dir (grow_dir env (- DIRECTORY_ENTRY_SIZE)) v;
                  v = upd_meta inode (relink (ve_now env) (- 1)) v;
                  m = in_Metadata (inode_at v inode);
                  v = (if LinkCount m = (if INode_IsDirectory m then 1 else 0)
                       then TmpFs_FreeINode (in_Filesystem (inode_at v dir)) inode
                              (upd_inode dir (\<lambda>n. n\<lparr>in_Children := AList.delete name (in_Children n)\<rparr>) v)
                       else v)
              in case de_Parent (dentry_at v entry) of
                   None \<Rightarrow> None
                 | Some parent \<Rightarrow> Some (DirectoryEntry_RemoveChild parent entry v))"

definition Synth_RmDir :: "vfs_env \<Rightarrow> nat \<Rightarrow> nat \<Rightarrow> vfs \<Rightarrow> (unit error_or \<times> vfs) option" where
  "Synth_RmDir env dir entry v =
     (let inode = the (de_INode (dentry_at v entry))
      in if in_Children (inode_at v inode) \<noteq> [] then Some (Inl ENOTEMPTY, v)
         else map_option (\<lambda>v. (Inr (), v))
                (Synth_Unlink env dir entry (upd_meta dir (\<lambda>m. m\<lparr>LinkCount := LinkCount m - 1\<rparr>) v)))"

section \<open>Files\<close>

definition ResizeBuffer :: "vfs_env \<Rightarrow> nat \<Rightarrow> usize \<Rightarrow> vfs \<Rightarrow> vfs" where
  "ResizeBuffer env i newSize = upd_inode i (\<lambda>n.
     let buf = buffer_resize (ve_fill env) newSize (in_Buffer n)
     in n\<lparr>in_Buffer := buf,
          in_Metadata := (in_Metadata n)\<lparr>Size := of_nat (length buf), BlockCount := ve_divRoundUp env newSize 512\<rparr>\<rparr>)"

text \<open>
  Access to a Prism \<^verbatim>\<open>Buffer\<close>; \<open>None\<close> is an access beyond its end.
\<close>

definition buffer_read :: "usize \<Rightarrow> usize \<Rightarrow> u8 list \<Rightarrow> u8 list option" where
  "buffer_read offset n xs =
     (if unat offset + unat n \<le> length xs then Some (take (unat n) (drop (unat offset) xs)) else None)"

definition buffer_write :: "usize \<Rightarrow> u8 list \<Rightarrow> u8 list \<Rightarrow> u8 list option" where
  "buffer_write offset bytes xs =
     (if unat offset + length bytes \<le> length xs
      then Some (take (unat offset) xs @ bytes @ drop (unat offset + length bytes) xs) else None)"

text \<open>The bytes read; their number is the value returned.\<close>

definition Synth_Read :: "vfs_env \<Rightarrow> nat \<Rightarrow> usize \<Rightarrow> usize \<Rightarrow> vfs \<Rightarrow> (u8 list \<times> vfs) option" where
  "Synth_Read env i offset bytes v =
     (if sint offset < 0 then None
      else let bytes = min bytes (of_nat (length (in_Buffer (inode_at v i))) - offset);
               v = (if Filesystem_ShouldUpdateATime
                    then upd_inode i (touch (ve_now env) timespec_zero timespec_zero) v else v)
           in case buffer_read offset bytes (in_Buffer (inode_at v i)) of
                None \<Rightarrow> None
              | Some out \<Rightarrow> Some (out, v))"

text \<open>\<open>None\<close> is a loop that does not end.\<close>

partial_function (option) grow_capacity :: "usize \<Rightarrow> usize \<Rightarrow> usize option" where
  "grow_capacity need newCapacity =
     (if need > newCapacity then grow_capacity need (newCapacity * 2) else Some newCapacity)"

definition Synth_Write :: "vfs_env \<Rightarrow> nat \<Rightarrow> u8 list \<Rightarrow> usize \<Rightarrow> vfs \<Rightarrow> (usize \<times> vfs) option" where
  "Synth_Write env i buffer offset v =
     (if sint offset < 0 then None
      else let bytes = of_nat (length buffer);
               sz = of_nat (length (in_Buffer (inode_at v i)));
               newCapacity = (if sz \<noteq> 0 then sz else 0x1000)
           in case grow_capacity (offset + bytes) newCapacity of
                None \<Rightarrow> None
              | Some newCapacity \<Rightarrow>
                  let v = ResizeBuffer env i newCapacity v
                  in case buffer_write offset buffer (in_Buffer (inode_at v i)) of
                       None \<Rightarrow> None
                     | Some buf \<Rightarrow>
                         let v = upd_inode i (\<lambda>n. n\<lparr>in_Buffer := buf\<rparr>) v;
                             v = (if Filesystem_ShouldUpdateATime
                                  then upd_inode i (touch (ve_now env) (ve_now env) timespec_zero) v else v)
                         in Some (bytes, v))"

definition Synth_Truncate :: "vfs_env \<Rightarrow> nat \<Rightarrow> usize \<Rightarrow> vfs \<Rightarrow> usize error_or \<times> vfs" where
  "Synth_Truncate env i sz v =
     (if sz = of_nat (length (in_Buffer (inode_at v i))) then (Inr 0, v)
      else let v = ResizeBuffer env i sz v;
               v = upd_inode i (touch (atime_of env) (ve_now env) (ve_now env)) v
           in (Inr 0, v))"

definition Synth_FlushMetadata :: "nat \<Rightarrow> vfs \<Rightarrow> vfs" where
  "Synth_FlushMetadata i = upd_inode i (\<lambda>n. n\<lparr>in_Dirty := False\<rparr>)"

section \<open>Reading the stores\<close>

lemma inode_at_upd [simp]:
  "vfs_inodes (upd_inode i f v) ! j = (if j = i \<and> i < length (vfs_inodes v) then f (inode_at v i) else inode_at v j)"
  "length (vfs_inodes (upd_inode i f v)) = length (vfs_inodes v)"
  "vfs_dentries (upd_inode i f v) = vfs_dentries v" "vfs_filesystems (upd_inode i f v) = vfs_filesystems v"
  by (auto simp: upd_inode_def nth_list_update list_update_beyond)

lemma dentry_at_upd [simp]:
  "vfs_dentries (upd_dentry d g v) ! e = (if e = d \<and> d < length (vfs_dentries v) then g (dentry_at v d) else dentry_at v e)"
  "length (vfs_dentries (upd_dentry d g v)) = length (vfs_dentries v)"
  "vfs_inodes (upd_dentry d g v) = vfs_inodes v" "vfs_filesystems (upd_dentry d g v) = vfs_filesystems v"
  by (auto simp: upd_dentry_def nth_list_update list_update_beyond)

lemma fs_at_upd [simp]:
  "vfs_filesystems (upd_fs k h v) ! l = (if l = k \<and> k < length (vfs_filesystems v) then h (fs_at v k) else fs_at v l)"
  "length (vfs_filesystems (upd_fs k h v)) = length (vfs_filesystems v)"
  "vfs_inodes (upd_fs k h v) = vfs_inodes v" "vfs_dentries (upd_fs k h v) = vfs_dentries v"
  by (auto simp: upd_fs_def nth_list_update list_update_beyond)

lemmas store_defs [vfs_defs] = upd_meta_def Synth_InsertChild_def
  DirectoryEntry_Bind_def DirectoryEntry_RemoveChild_def DirectoryEntry_InsertChild_def
  DirectoryEntry_SetParent_def TmpFs_FreeINode_def ResizeBuffer_def

lemma UpdateTimestamps_keeps:
  "Size (fst (INode_UpdateTimestamps a b c x)) = Size (fst x)" "Mode (fst (INode_UpdateTimestamps a b c x)) = Mode (fst x)"
  "LinkCount (fst (INode_UpdateTimestamps a b c x)) = LinkCount (fst x)" "GID (fst (INode_UpdateTimestamps a b c x)) = GID (fst x)"
  by (cases x; simp add: INode_UpdateTimestamps_def Let_def)+

lemma touch_keeps [simp]:
  "Size (in_Metadata (touch a b c n)) = Size (in_Metadata n)" "Mode (in_Metadata (touch a b c n)) = Mode (in_Metadata n)"
  "LinkCount (in_Metadata (touch a b c n)) = LinkCount (in_Metadata n)" "in_Children (touch a b c n) = in_Children n"
  "in_Buffer (touch a b c n) = in_Buffer n" "in_Filesystem (touch a b c n) = in_Filesystem n"
  by (simp_all add: touch_def split_beta UpdateTimestamps_keeps)

lemma grow_dir_keeps [simp]:
  "Size (in_Metadata (grow_dir env d n)) = Size (in_Metadata n) + d" "Mode (in_Metadata (grow_dir env d n)) = Mode (in_Metadata n)"
  "LinkCount (in_Metadata (grow_dir env d n)) = LinkCount (in_Metadata n)" "in_Children (grow_dir env d n) = in_Children n"
  "in_Filesystem (grow_dir env d n) = in_Filesystem n"
  by (simp_all add: grow_dir_def)

lemma S_ISDIR_setgid: "S_ISDIR (m OR S_ISGID) = S_ISDIR m"
  by (simp add: vfs_defs bit.conj_disj_distrib2)

lemma created_keeps [simp]:
  "in_Children (init_created env dir mode dev n) = in_Children n"
  "Mode (in_Metadata (init_created env dir mode dev n)) = Mode (in_Metadata n)"
  "LinkCount (in_Metadata (init_created env dir mode dev n)) = LinkCount (in_Metadata n)"
  "Size (in_Metadata (init_created env dir mode dev n)) = (if S_ISREG mode then 0x1000 else Size (in_Metadata n))"
  "in_Children (inherit_gid d n) = in_Children n" "LinkCount (in_Metadata (inherit_gid d n)) = LinkCount (in_Metadata n)"
  "Size (in_Metadata (inherit_gid d n)) = Size (in_Metadata n)"
  "S_ISDIR (Mode (in_Metadata (inherit_gid d n))) = S_ISDIR (Mode (in_Metadata n))"
  by (simp_all add: init_created_def inherit_gid_def Let_def GetDefaultSize_def S_ISDIR_setgid)

lemma make_fields [simp]:
  "in_Children (SynthFsINode_make env name k dev i mode) = []"
  "Mode (in_Metadata (SynthFsINode_make env name k dev i mode)) = mode"
  "LinkCount (in_Metadata (SynthFsINode_make env name k dev i mode)) = (if S_ISDIR mode then 2 else 1)"
  by (simp_all add: SynthFsINode_make_def Let_def INode_IsDirectory_def INode_make_def split: option.split)

section \<open>Growing a buffer\<close>

lemma grow_capacity_ends:
  assumes "c \<noteq> 0" and "unat need \<le> 2 ^ 63"
  shows "\<exists>c' k. grow_capacity need c = Some c' \<and> need \<le> c' \<and> unat c' = unat c * 2 ^ k"
  using assms(1)
proof (induction "unat need - unat c" arbitrary: c rule: less_induct)
  case less
  show ?case
  proof (cases "need > c")
    case True
    then have lt: "unat c < unat need" by (simp add: word_less_nat_alt)
    then have dbl: "unat (c * 2) = unat c * 2" using assms(2) by (subst unat_mult_nowrap) auto
    have "0 < unat c" using less.prems by (simp add: unat_gt_0)
    then have "unat need - unat (c * 2) < unat need - unat c" "c * 2 \<noteq> 0"
      using dbl lt by (auto simp flip: unat_gt_0)
    from less.hyps [OF this] obtain c' k
      where "grow_capacity need (c * 2) = Some c'" "need \<le> c'" "unat c' = unat c * 2 ^ Suc k"
      using dbl by (auto simp: mult_ac)
    then show ?thesis using True
      by (intro exI [of _ c'] exI [of _ "Suc k"]) (subst grow_capacity.simps, simp)
  next
    case False
    then show ?thesis by (intro exI [of _ c] exI [of _ 0]) (subst grow_capacity.simps, auto)
  qed
qed

lemma length_buffer_resize [simp]: "length (buffer_resize f n xs) = unat n"
  by (simp add: buffer_resize_def)

lemma nth_buffer_resize: "k < length xs \<Longrightarrow> length xs \<le> unat n \<Longrightarrow> buffer_resize f n xs ! k = xs ! k"
  by (simp add: buffer_resize_def nth_append)

lemma buffer_write_read:
  assumes "buffer_write off bs xs = Some ys" and "length bs < 2 ^ 64"
  shows "buffer_read off (of_nat (length bs)) ys = Some bs" and "length ys = length xs"
    and "k < length xs \<Longrightarrow> k < unat off \<or> unat off + length bs \<le> k \<Longrightarrow> ys ! k = xs ! k"
proof -
  have ys: "ys = take (unat off) xs @ bs @ drop (unat off + length bs) xs" and le: "unat off + length bs \<le> length xs"
    using assms(1) by (auto simp: buffer_write_def split: if_splits)
  then show len: "length ys = length xs" by simp
  have "unat (of_nat (length bs) :: usize) = length bs" using assms(2) by (simp add: unat_of_nat)
  then show "buffer_read off (of_nat (length bs)) ys = Some bs"
    using le len by (simp add: buffer_read_def ys)
  show "ys ! k = xs ! k" if "k < length xs" "k < unat off \<or> unat off + length bs \<le> k"
    using that le by (auto simp: ys nth_append)
qed

section \<open>Creating and removing names\<close>

text \<open>A filesystem that still has an inode to give, and valid ids.\<close>

definition can_create :: "nat \<Rightarrow> nat \<Rightarrow> vfs \<Rightarrow> bool" where
  "can_create dir entry v \<longleftrightarrow> dir < length (vfs_inodes v) \<and> entry < length (vfs_dentries v) \<and>
     in_Filesystem (inode_at v dir) < length (vfs_filesystems v) \<and>
     fs_NextINodeIndex (fs_at v (in_Filesystem (inode_at v dir))) < fs_MaxINodeCount (fs_at v (in_Filesystem (inode_at v dir))) \<and>
     fs_FreeINodeCount (fs_at v (in_Filesystem (inode_at v dir))) \<noteq> 0"

abbreviation dir_map :: "vfs \<Rightarrow> nat \<Rightarrow> string \<rightharpoonup> nat" where
  "dir_map v dir \<equiv> map_of (in_Children (inode_at v dir))"

lemma dir_map_None: "name \<notin> fst ` set (in_Children (inode_at v dir)) \<longleftrightarrow> dir_map v dir name = None"
  by (simp add: map_of_eq_None_iff)

lemma CreateNode_succeeds:
  assumes "can_create dir entry v" and "dir_map v dir (de_Name (dentry_at v entry)) = None"
  obtains v' where "Synth_CreateNode env dir entry mode dev v = (Inr entry, v')"
    and "dir_map v' dir = (dir_map v dir)(de_Name (dentry_at v entry) \<mapsto> length (vfs_inodes v))"
    and "length (vfs_inodes v') = Suc (length (vfs_inodes v))" "length (vfs_dentries v') = length (vfs_dentries v)"
    and "de_INode (dentry_at v' entry) = Some (length (vfs_inodes v))" "de_Name (dentry_at v' entry) = de_Name (dentry_at v entry)"
    and "de_Parent (dentry_at v' entry) = de_Parent (dentry_at v entry)"
    and "\<And>j. j < length (vfs_inodes v) \<Longrightarrow> j \<noteq> dir \<Longrightarrow> inode_at v' j = inode_at v j"
    and "in_Filesystem (inode_at v' dir) = in_Filesystem (inode_at v dir)"
    and "Size (in_Metadata (inode_at v' dir)) = Size (in_Metadata (inode_at v dir)) + 20"
    and "LinkCount (in_Metadata (inode_at v' dir)) = LinkCount (in_Metadata (inode_at v dir))"
    and "in_Children (inode_at v' (length (vfs_inodes v))) = []"
    and "LinkCount (in_Metadata (inode_at v' (length (vfs_inodes v)))) = (if S_ISDIR mode then 2 else 1)"
    and "S_ISREG mode \<longrightarrow> Size (in_Metadata (inode_at v' (length (vfs_inodes v)))) = 0x1000"
    and "INode_IsDirectory (in_Metadata (inode_at v' (length (vfs_inodes v)))) = S_ISDIR mode"
    and "vfs_filesystems v' = vfs_filesystems (upd_fs (in_Filesystem (inode_at v dir))
       (\<lambda>f. f\<lparr>fs_NextINodeIndex := fs_NextINodeIndex f + 1, fs_FreeINodeCount := fs_FreeINodeCount f - 1\<rparr>) v)"
proof -
  let ?N = "length (vfs_inodes v)" and ?k = "in_Filesystem (inode_at v dir)" and ?nm = "de_Name (dentry_at v entry)"
  have k: "dir < ?N" "entry < length (vfs_dentries v)" "\<not> fs_MaxINodeCount (fs_at v ?k) \<le> fs_NextINodeIndex (fs_at v ?k)"
    "fs_FreeINodeCount (fs_at v ?k) \<noteq> 0" using assms(1) by (auto simp: can_create_def)
  define n0 where "n0 = SynthFsINode_make env ?nm ?k (fs_DeviceID (fs_at v ?k)) (fs_NextINodeIndex (fs_at v ?k)) mode"
  define v1 where "v1 = upd_fs ?k (\<lambda>f. f\<lparr>fs_NextINodeIndex := fs_NextINodeIndex f + 1,
       fs_FreeINodeCount := fs_FreeINodeCount f - 1\<rparr>) (v\<lparr>vfs_inodes := vfs_inodes v @ [n0]\<rparr>)"
  define v2 where "v2 = upd_inode ?N (init_created env dir mode dev) v1"
  define v3 where "v3 = upd_inode dir (grow_dir env DIRECTORY_ENTRY_SIZE) v2"
  define v4 where "v4 = Synth_InsertChild dir ?N ?nm v3"
  define v5 where "v5 = upd_inode ?N (inherit_gid (in_Metadata (inode_at v4 dir))) v4"
  define v6 where "v6 = DirectoryEntry_Bind entry ?N v5"
  have al: "TmpFs_AllocateNode env ?k ?nm mode v = (Inr ?N, v1)"
    using k(3,4) by (simp add: TmpFs_AllocateNode_def n0_def v1_def Let_def)
  have run: "Synth_CreateNode env dir entry mode dev v = (Inr entry, v6)"
    unfolding v6_def v5_def v4_def v3_def v2_def using assms(2)
    by (simp add: Synth_CreateNode_def al Let_def dir_map_None [symmetric] del: inode_at_upd)
  have l1: "vfs_inodes v1 = vfs_inodes v @ [n0]" "vfs_dentries v1 = vfs_dentries v"
    by (simp_all add: v1_def)
  have l5: "length (vfs_inodes v5) = Suc ?N" "vfs_dentries v5 = vfs_dentries v"
    "inode_at v5 dir = (grow_dir env DIRECTORY_ENTRY_SIZE (inode_at v dir))
        \<lparr>in_Children := AList.update ?nm ?N (in_Children (inode_at v dir))\<rparr>"
    "inode_at v5 ?N = inherit_gid (in_Metadata (inode_at v4 dir)) (init_created env dir mode dev n0)"
    "\<And>j. j < ?N \<Longrightarrow> j \<noteq> dir \<Longrightarrow> inode_at v5 j = inode_at v j"
    using k(1) by (simp_all add: v5_def v4_def v3_def v2_def Synth_InsertChild_def l1 nth_append)
  have l6: "vfs_inodes v6 = vfs_inodes v5" "length (vfs_dentries v6) = length (vfs_dentries v)"
    "dentry_at v6 entry = (dentry_at v entry)\<lparr>de_INode := Some ?N,
       de_Flags := Bind_flags (in_Metadata (inode_at v5 ?N)) (de_Flags (dentry_at v entry))\<rparr>"
    using k(2) by (simp_all add: v6_def DirectoryEntry_Bind_def l5(2))
  have fs: "vfs_filesystems v6 = vfs_filesystems v1"
    by (simp add: v6_def v5_def v4_def v3_def v2_def DirectoryEntry_Bind_def Synth_InsertChild_def)
  have fs1: "vfs_filesystems v1 = vfs_filesystems (upd_fs ?k
       (\<lambda>f. f\<lparr>fs_NextINodeIndex := fs_NextINodeIndex f + 1, fs_FreeINodeCount := fs_FreeINodeCount f - 1\<rparr>) v)"
    by (simp add: v1_def upd_fs_def)
  show thesis
    by (rule that [OF run]) (simp_all add: l5 l6 fs fs1 update_conv' n0_def DIRECTORY_ENTRY_SIZE_def INode_IsDirectory_def)
qed

section \<open>Writing and reading back\<close>

lemma Synth_write_read:
  assumes "i < length (vfs_inodes v)" and "length (in_Buffer (inode_at v i)) < 2 ^ 62"
    and "unat offset + length bs \<le> 2 ^ 62"
  shows "\<exists>v'. Synth_Write env i bs offset v = Some (of_nat (length bs), v') \<and>
    map_option fst (Synth_Read env i offset (of_nat (length bs)) v') = Some bs \<and>
    length (in_Buffer (inode_at v i)) \<le> length (in_Buffer (inode_at v' i)) \<and>
    (\<forall>k < length (in_Buffer (inode_at v i)). k < unat offset \<or> unat offset + length bs \<le> k \<longrightarrow>
       in_Buffer (inode_at v' i) ! k = in_Buffer (inode_at v i) ! k) \<and>
    unat (Size (in_Metadata (inode_at v' i))) = length (in_Buffer (inode_at v' i)) \<and>
    (\<forall>j. j \<noteq> i \<longrightarrow> inode_at v' j = inode_at v j)"
proof -
  let ?xs = "in_Buffer (inode_at v i)"
  define c where "c = (if of_nat (length ?xs) \<noteq> (0 :: usize) then of_nat (length ?xs) else 0x1000 :: usize)"
  have ub: "unat (of_nat (length ?xs) :: usize) = length ?xs" "unat (of_nat (length bs) :: usize) = length bs"
    using assms(2,3) by (simp_all add: unat_of_nat)
  have c: "c \<noteq> 0" "length ?xs \<le> unat c" using ub(1) by (auto simp: c_def)
  have off: "unat offset < 2 ^ 63" using assms(3) by simp
  then have nonneg: "\<not> sint offset < 0" by (simp add: sint_unat64)
  have need: "unat (offset + of_nat (length bs)) = unat offset + length bs"
    using assms(3) ub(2) by (subst unat_add_nowrap) simp_all
  obtain c' k where g: "grow_capacity (offset + of_nat (length bs)) c = Some c'" "offset + of_nat (length bs) \<le> c'"
      "unat c' = unat c * 2 ^ k"
    using grow_capacity_ends [OF c(1), of "offset + of_nat (length bs)"] need assms(3) by auto
  have "length ?xs \<le> unat c'" using c(2) g(3) by (metis le_trans mult_le_mono2 mult.right_neutral one_le_numeral one_le_power)
  let ?ys = "buffer_resize (ve_fill env) c' ?xs"
  have room: "unat offset + length bs \<le> length ?ys" using g(2) need by (simp add: word_le_nat_alt)
  then obtain zs where zs: "buffer_write offset bs ?ys = Some zs" by (auto simp: buffer_write_def)
  note wr = buffer_write_read [OF zs]
  have lb: "length bs < 2 ^ 64" using assms(3) by simp
  define v1 where "v1 = ResizeBuffer env i c' v"
  define v' where "v' = upd_inode i (touch (ve_now env) (ve_now env) timespec_zero) (upd_inode i (\<lambda>n. n\<lparr>in_Buffer := zs\<rparr>) v1)"
  have v1: "in_Buffer (inode_at v1 i) = ?ys" using assms(1) by (simp add: v1_def ResizeBuffer_def Let_def)
  have run: "Synth_Write env i bs offset v = Some (of_nat (length bs), v')"
    using nonneg g(1) zs v1
    by (simp add: Synth_Write_def Let_def Filesystem_ShouldUpdateATime_def c_def [symmetric] v1_def [symmetric] v'_def)
  have v': "in_Buffer (inode_at v' i) = zs" "Size (in_Metadata (inode_at v' i)) = of_nat (length ?ys)"
      "\<forall>j. j \<noteq> i \<longrightarrow> inode_at v' j = inode_at v j" "i < length (vfs_inodes v')"
    using assms(1) by (simp_all add: v'_def v1_def vfs_defs Let_def split_beta)
  have lz: "length zs = unat c'" using wr(2) lb by simp
  then have uz: "unat (of_nat (length zs) :: usize) = length zs" by (simp add: unat_of_nat)
  have mn: "min (of_nat (length bs)) (of_nat (length zs) - offset) = (of_nat (length bs) :: usize)"
  proof -
    have "offset \<le> of_nat (length zs)" using room uz lz by (simp add: word_le_nat_alt)
    then have "unat (of_nat (length zs) - offset) = length zs - unat offset" using uz by (simp add: unat_sub_le)
    then have "of_nat (length bs) \<le> (of_nat (length zs) - offset :: usize)"
      using room lz ub(2) by (simp add: word_le_nat_alt)
    then show ?thesis by (simp add: min_def)
  qed
  have rd: "map_option fst (Synth_Read env i offset (of_nat (length bs)) v') = Some bs"
    using v' wr(1) [OF lb] nonneg mn
    by (simp add: Synth_Read_def Let_def Filesystem_ShouldUpdateATime_def)
  have "zs ! k = ?xs ! k" if "k < length ?xs" "k < unat offset \<or> unat offset + length bs \<le> k" for k
    using wr(3) [OF lb, of k] that nth_buffer_resize [OF that(1) \<open>length ?xs \<le> unat c'\<close>] \<open>length ?xs \<le> unat c'\<close> by simp
  with run rd v' lz \<open>length ?xs \<le> unat c'\<close> show ?thesis by simp
qed

lemma Synth_Write_keeps_Mode:
  assumes "Synth_Write env i bs offset v = Some (n, v')"
  shows "Mode (in_Metadata (inode_at v' j)) = Mode (in_Metadata (inode_at v j))"
proof -
  have touch: "Mode (in_Metadata (inode_at (upd_inode k f u) j)) = Mode (in_Metadata (inode_at u j))"
    if "\<And>n. Mode (in_Metadata (f n)) = Mode (in_Metadata n)" for f k u
    using that by simp
  show ?thesis
    using assms
    by (auto simp: Synth_Write_def Let_def ResizeBuffer_def touch simp del: inode_at_upd split: if_splits option.splits)
qed

section \<open>Properties\<close>

text \<open>
  Claim C21. Writing \<open>bs\<close> at an offset, up to 2^62 bytes, ends and returns the number of bytes
  written; reading the same range afterwards returns \<open>bs\<close>, every other byte the file had is
  unchanged, and the size recorded is the length of the buffer.
\<close>

theorem Write_then_Read:
  assumes "i < length (vfs_inodes v)" and "length (in_Buffer (inode_at v i)) < 2 ^ 62"
    and "unat offset + length bs \<le> 2 ^ 62"
  shows "\<exists>v'. Synth_Write env i bs offset v = Some (of_nat (length bs), v') \<and>
    map_option fst (Synth_Read env i offset (of_nat (length bs)) v') = Some bs \<and>
    length (in_Buffer (inode_at v i)) \<le> length (in_Buffer (inode_at v' i)) \<and>
    (\<forall>k < length (in_Buffer (inode_at v i)). k < unat offset \<or> unat offset + length bs \<le> k \<longrightarrow>
       in_Buffer (inode_at v' i) ! k = in_Buffer (inode_at v i) ! k) \<and>
    unat (Size (in_Metadata (inode_at v' i))) = length (in_Buffer (inode_at v' i)) \<and>
    (\<forall>j. j \<noteq> i \<longrightarrow> inode_at v' j = inode_at v j)"
  by (rule Synth_write_read [OF assms])

text \<open>A tmpfs with an empty root directory (inode 0) and two entries that are bound to nothing.\<close>

definition demo_env :: vfs_env where
  "demo_env = \<lparr>ve_now = \<lparr>tv_sec = 7, tv_nsec = 0\<rparr>, ve_process = None, ve_totalMemory = 0x100000,
     ve_divRoundUp = (\<lambda>a b. (a + b - 1) div b), ve_fill = 0\<rparr>"

definition demo_dentry :: "string \<Rightarrow> DirectoryEntry" where
  "demo_dentry name = \<lparr>de_Name = name, de_Flags = eNegative, de_INode = None, de_Populated = False, de_DirOffset = 0,
     de_Parent = Some 0, de_MountGate = None, de_Children = []\<rparr>"

definition demo_vfs :: vfs where
  "demo_vfs = \<lparr>vfs_inodes = [SynthFsINode_make demo_env ''/'' 0 0 2 0x41ed],
     vfs_dentries = [demo_dentry ''/'', demo_dentry ''a'', demo_dentry ''b''],
     vfs_filesystems = [\<lparr>fs_DeviceID = 0, fs_NextINodeIndex = 3, fs_MaxINodeCount = 128, fs_FreeINodeCount = 127,
       fs_BlockSize = 0x1000, fs_BytesLimit = 0x80000, fs_MaxBlockCount = 0x10000, fs_UsedBlockCount = 0,
       fs_MaxSize = 0x80000, fs_RootEntry = Some 0, fs_Root = Some 0\<rparr>],
     vfs_mounts = [], s_RootDirectoryEntry = Some 0\<rparr>"

lemma demo_can_create: "can_create 0 1 demo_vfs" "dir_map demo_vfs 0 name = None" "de_Name (dentry_at demo_vfs 1) = ''a''"
  by (simp_all add: can_create_def demo_vfs_def demo_dentry_def) (simp add: SynthFsINode_make_def Let_def)

text \<open>
  Claim C22. \<^verbatim>\<open>CreateNode\<close> in a directory refines adding a name to a map: it fails with
  \<^verbatim>\<open>EEXIST\<close> and changes nothing when the name is there; otherwise, while the filesystem has
  inodes, the directory maps the name to a new inode and all other names as before, the entry is
  bound to that inode, and no other inode changes.
\<close>

theorem CreateNode_adds_name:
  assumes "can_create dir entry v"
  shows "if dir_map v dir (de_Name (dentry_at v entry)) \<noteq> None
    then Synth_CreateNode env dir entry mode dev v = (Inl EEXIST, v)
    else \<exists>v'. Synth_CreateNode env dir entry mode dev v = (Inr entry, v') \<and>
      dir_map v' dir = (dir_map v dir)(de_Name (dentry_at v entry) \<mapsto> length (vfs_inodes v)) \<and>
      de_INode (dentry_at v' entry) = Some (length (vfs_inodes v)) \<and>
      (\<forall>j < length (vfs_inodes v). j \<noteq> dir \<longrightarrow> inode_at v' j = inode_at v j)"
proof (cases "dir_map v dir (de_Name (dentry_at v entry))")
  case None
  then show ?thesis by (auto intro: CreateNode_succeeds [OF assms None, of env mode dev])
next
  case (Some i)
  then have "\<not> de_Name (dentry_at v entry) \<notin> fst ` set (in_Children (inode_at v dir))"
    using dir_map_None [of "de_Name (dentry_at v entry)" v dir] by simp
  with Some show ?thesis by (simp add: Synth_CreateNode_def)
qed

theorem CreateNode_adds_name_witness:
  "\<exists>v'. Synth_CreateNode demo_env 0 1 0x81a4 0 demo_vfs = (Inr 1, v') \<and> dir_map v' 0 ''a'' = Some 1"
  using CreateNode_adds_name [OF demo_can_create(1), of demo_env "0x81a4" 0] demo_can_create(2,3)
  by (auto simp: demo_vfs_def)

text \<open>
  Claim C23. Unlinking the entry of a freshly created file or directory restores the directory's
  map and size and the filesystem's count of free inodes, and removes the entry from its parent.
\<close>

theorem create_unlink_roundtrip:
  assumes "can_create dir entry v" and "dir_map v dir (de_Name (dentry_at v entry)) = None"
    and "de_Parent (dentry_at v entry) = Some p" and "p < length (vfs_dentries v)"
  shows "\<exists>v1 v2. Synth_CreateNode env dir entry mode dev v = (Inr entry, v1) \<and> Synth_Unlink env dir entry v1 = Some v2 \<and>
    dir_map v2 dir = dir_map v dir \<and>
    Size (in_Metadata (inode_at v2 dir)) = Size (in_Metadata (inode_at v dir)) \<and>
    fs_FreeINodeCount (fs_at v2 (in_Filesystem (inode_at v dir))) = fs_FreeINodeCount (fs_at v (in_Filesystem (inode_at v dir))) \<and>
    map_of (de_Children (dentry_at v2 p)) (de_Name (dentry_at v entry)) = None"
proof -
  let ?N = "length (vfs_inodes v)" and ?k = "in_Filesystem (inode_at v dir)" and ?nm = "de_Name (dentry_at v entry)"
  obtain v1 where c: "Synth_CreateNode env dir entry mode dev v = (Inr entry, v1)"
    "dir_map v1 dir = (dir_map v dir)(?nm \<mapsto> ?N)" "length (vfs_inodes v1) = Suc ?N"
    "length (vfs_dentries v1) = length (vfs_dentries v)" "de_INode (dentry_at v1 entry) = Some ?N"
    "de_Name (dentry_at v1 entry) = ?nm" "de_Parent (dentry_at v1 entry) = Some p"
    "in_Filesystem (inode_at v1 dir) = ?k" "Size (in_Metadata (inode_at v1 dir)) = Size (in_Metadata (inode_at v dir)) + 20"
    "LinkCount (in_Metadata (inode_at v1 ?N)) = (if S_ISDIR mode then 2 else 1)"
    "INode_IsDirectory (in_Metadata (inode_at v1 ?N)) = S_ISDIR mode"
    "vfs_filesystems v1 = vfs_filesystems (upd_fs ?k
       (\<lambda>f. f\<lparr>fs_NextINodeIndex := fs_NextINodeIndex f + 1, fs_FreeINodeCount := fs_FreeINodeCount f - 1\<rparr>) v)"
    by (rule CreateNode_succeeds [OF assms(1,2), of env mode dev]) (use assms(3) in simp)
  have dir: "dir < ?N" "?k < length (vfs_filesystems v)" using assms(1) by (auto simp: can_create_def)
  define v2 where "v2 = upd_inode dir (grow_dir env (- DIRECTORY_ENTRY_SIZE)) v1"
  define v3 where "v3 = upd_meta ?N (relink (ve_now env) (- 1)) v2"
  define v4 where "v4 = upd_inode dir (\<lambda>n. n\<lparr>in_Children := AList.delete ?nm (in_Children n)\<rparr>) v3"
  define v5 where "v5 = TmpFs_FreeINode ?k ?N v4"
  have m: "in_Metadata (inode_at v3 ?N) = relink (ve_now env) (- 1) (in_Metadata (inode_at v1 ?N))"
    "in_Filesystem (inode_at v3 dir) = ?k"
    using dir c(3,8) by (simp_all add: v3_def v2_def upd_meta_def)
  have "?nm \<in> fst ` set (in_Children (inode_at v1 dir))"
    using c(2) dir_map_None [of ?nm v1 dir] by simp
  then have run: "Synth_Unlink env dir entry v1 = Some (DirectoryEntry_RemoveChild p entry v5)"
    using c(5,6,7,10,11) m
    by (simp add: Synth_Unlink_def v2_def [symmetric] v3_def [symmetric] v4_def [symmetric] v5_def [symmetric]
        relink_def INode_IsDirectory_def) (simp add: v5_def v4_def v3_def v2_def TmpFs_FreeINode_def upd_meta_def)
  show ?thesis
    apply (intro exI conjI, rule c(1), rule run)
    using dir c assms(2,4)
    apply (simp_all add: v5_def v4_def v3_def v2_def TmpFs_FreeINode_def upd_meta_def DirectoryEntry_RemoveChild_def
        delete_conv' DIRECTORY_ENTRY_SIZE_def fun_upd_idem)
    done
qed


theorem create_unlink_roundtrip_witness:
  "\<exists>v1 v2. Synth_CreateNode demo_env 0 1 0x81a4 0 demo_vfs = (Inr 1, v1) \<and> Synth_Unlink demo_env 0 1 v1 = Some v2 \<and>
     dir_map v2 0 = dir_map demo_vfs 0"
proof -
  have "de_Parent (dentry_at demo_vfs 1) = Some 0" "0 < length (vfs_dentries demo_vfs)"
    by (simp_all add: demo_vfs_def demo_dentry_def)
  from create_unlink_roundtrip [OF demo_can_create(1,2) this, of demo_env "0x81a4" 0] show ?thesis by blast
qed

text \<open>
  \<^verbatim>\<open>Link\<close> binds the new entry to the old inode and counts the link, but enters the
  new name in no directory: the names of every directory are unchanged.
\<close>

theorem Link_adds_no_name:
  "in_Children (inode_at (snd (Synth_Link env dir oldEntry entry v)) d) = in_Children (inode_at v d)"
  by (simp add: Synth_Link_def Let_def upd_meta_def DirectoryEntry_Bind_def)

text \<open>
  Unlinking one name of a file that has further links only lowers the link count: the
  name stays in the directory.
\<close>

theorem Unlink_keeps_name_of_linked_file:
  assumes "de_INode (dentry_at v entry) = Some i" and "i < length (vfs_inodes v)" and "i \<noteq> dir"
    and "\<not> S_ISDIR (Mode (in_Metadata (inode_at v i)))" and "LinkCount (in_Metadata (inode_at v i)) \<noteq> 1"
    and "Synth_Unlink env dir entry v = Some v'"
  shows "in_Children (inode_at v' dir) = in_Children (inode_at v dir)"
  using assms
  by (auto simp: Synth_Unlink_def Let_def upd_meta_def relink_def INode_IsDirectory_def DirectoryEntry_RemoveChild_def
      split: if_splits option.splits)

definition demo_linked :: vfs where
  "demo_linked =
     (let f = SynthFsINode_make demo_env ''a'' 0 0 3 0x81a4
      in demo_vfs\<lparr>vfs_inodes := [(inode_at demo_vfs 0)\<lparr>in_Children := [(''a'', 1)]\<rparr>,
                                f\<lparr>in_Metadata := (in_Metadata f)\<lparr>LinkCount := 2\<rparr>\<rparr>],
                  vfs_dentries := [demo_dentry ''/'', (demo_dentry ''a'')\<lparr>de_INode := Some 1\<rparr>,
                                   (demo_dentry ''b'')\<lparr>de_INode := Some 1\<rparr>]\<rparr>)"

theorem Unlink_keeps_name_of_linked_file_witness:
  "\<exists>v'. Synth_Unlink demo_env 0 1 demo_linked = Some v' \<and> map fst (in_Children (inode_at v' 0)) = [''a'']"
proof -
  have hyps: "de_INode (dentry_at demo_linked 1) = Some 1" "1 < length (vfs_inodes demo_linked)"
    "LinkCount (in_Metadata (inode_at demo_linked 1)) = 2" "S_ISDIR (Mode (in_Metadata (inode_at demo_linked 1))) = False"
    "map fst (in_Children (inode_at demo_linked 0)) = [''a'']" "Synth_Unlink demo_env 0 1 demo_linked = None \<longleftrightarrow> False"
    by code_simp+
  then obtain v' where v': "Synth_Unlink demo_env 0 1 demo_linked = Some v'" by auto
  show ?thesis
    using Unlink_keeps_name_of_linked_file [OF hyps(1,2) _ _ _ v'] hyps v' by simp
qed

text \<open>
  \<^verbatim>\<open>Rename\<close> enters the new name and keeps the old one.
\<close>

theorem Rename_keeps_old_name:
  assumes "newParent < length (vfs_inodes v)" and "i \<noteq> newParent"
  shows "dir_map (Synth_Rename i newParent newName v) newParent = (dir_map v newParent)(newName \<mapsto> i) \<and>
    (\<forall>d. d \<noteq> newParent \<longrightarrow> dir_map (Synth_Rename i newParent newName v) d = dir_map v d)"
  using assms by (simp add: Synth_Rename_def Synth_InsertChild_def update_conv')

theorem Rename_keeps_old_name_witness:
  "dir_map (Synth_Rename 1 0 ''c'' demo_linked) 0 = (dir_map demo_linked 0)(''c'' \<mapsto> 1)"
proof -
  have "0 < length (vfs_inodes demo_linked)" by code_simp
  from Rename_keeps_old_name [OF this, of 1 "''c''"] show ?thesis by simp
qed

text \<open>
  A regular file has 4096 bytes from its creation on, before anything is written.
\<close>

theorem new_file_has_a_page:
  assumes "can_create dir entry v" and "dir_map v dir (de_Name (dentry_at v entry)) = None"
  shows "\<exists>v'. Synth_CreateFile env dir entry mode v = (Inr entry, v') \<and>
    Size (in_Metadata (inode_at v' (length (vfs_inodes v)))) = 4096"
proof -
  have "S_ISREG ((mode AND NOT S_IFMT) OR S_IFREG)"
    by (simp add: vfs_defs bit.conj_disj_distrib2 and.assoc)
  then show ?thesis
    unfolding Synth_CreateFile_def
    by (metis CreateNode_succeeds [OF assms, of env "(mode AND NOT S_IFMT) OR S_IFREG" 0])
qed

theorem new_file_has_a_page_witness:
  "\<exists>v'. Synth_CreateFile demo_env 0 1 0x1a4 demo_vfs = (Inr 1, v') \<and>
     Size (in_Metadata (inode_at v' (length (vfs_inodes demo_vfs)))) = 4096"
  by (rule new_file_has_a_page [OF demo_can_create(1,2)])

text \<open>
  Reading a positive number of bytes at an offset beyond the end of the file accesses
  the buffer out of bounds: the remaining length wraps.
\<close>

theorem Read_past_end_out_of_bounds:
  assumes "length (in_Buffer (inode_at v i)) < unat offset" and "unat offset < 2 ^ 63" and "bytes \<noteq> 0"
    and "i < length (vfs_inodes v)"
  shows "Synth_Read env i offset bytes v = None"
proof -
  let ?n = "min bytes (of_nat (length (in_Buffer (inode_at v i))) - offset)"
  have un: "unat (of_nat (length (in_Buffer (inode_at v i))) :: usize) = length (in_Buffer (inode_at v i))"
    using assms(1,2) by (simp add: unat_of_nat)
  show ?thesis
    using assms by (simp add: Synth_Read_def sint_unat64 Let_def Filesystem_ShouldUpdateATime_def buffer_read_def)
qed

theorem Read_past_end_out_of_bounds_witness:
  "Synth_Read demo_env 0 1 1 demo_vfs = None"
  by (rule Read_past_end_out_of_bounds) (simp_all add: demo_vfs_def SynthFsINode_make_def Let_def)

theorem Write_then_Read_witness:
  "\<exists>v'. Synth_Write demo_env 0 [1, 2, 3] 4 demo_vfs = Some (3, v') \<and>
     map_option fst (Synth_Read demo_env 0 4 3 v') = Some [1, 2, 3]"
proof -
  have "0 < length (vfs_inodes demo_vfs)" "length (in_Buffer (inode_at demo_vfs 0)) < 2 ^ 62"
    by (simp_all add: demo_vfs_def SynthFsINode_make_def Let_def)
  from Write_then_Read [OF this, of 4 "[1, 2, 3]" demo_env] show ?thesis by auto
qed

text \<open>
  The type bits of directory entry flags overlap: an entry bound to a symbolic link
  counts as a directory and as a regular file, and one bound to a character device counts as a
  regular file.
\<close>

theorem entry_type_flags_overlap:
  assumes "d < length (vfs_dentries v)"
  shows "(INode_IsSymlink (in_Metadata (inode_at v i)) \<longrightarrow>
      DirectoryEntry_IsDirectory (dentry_at (DirectoryEntry_Bind d i v) d) \<and>
      DirectoryEntry_IsRegular (dentry_at (DirectoryEntry_Bind d i v) d)) \<and>
    (INode_IsCharDevice (in_Metadata (inode_at v i)) \<longrightarrow>
      DirectoryEntry_IsRegular (dentry_at (DirectoryEntry_Bind d i v) d))"
proof -
  have "(f OR g) AND m \<noteq> 0" if "g AND m \<noteq> 0" for f g m :: u32
    using that by (simp add: bit.conj_disj_distrib2 or_eq_0_iff)
  then show ?thesis
    using assms
    by (auto simp: DirectoryEntry_IsDirectory_def DirectoryEntry_IsRegular_def DirectoryEntry_Bind_def Bind_flags_def
        Let_def vfs_defs)
qed

end
