(* ===== verification/Path_Resolution.thy ===== *)
theory Path_Resolution
  imports Synth_Fs
begin

unbundle bit_operations_syntax

text \<open>
  Name lookup and path resolution: \<^verbatim>\<open>VFS/DirectoryEntry.cpp\<close>, \<^verbatim>\<open>VFS/MountPoint.cpp\<close>,
  \<^verbatim>\<open>VFS/PathResolver.cpp\<close> and \<^verbatim>\<open>VFS::ResolvePath\<close> of \<^verbatim>\<open>VFS/VFS.cpp\<close>.  A result of
  \<open>None\<close> is a run that does not return: a failed assertion, a null pointer that is followed, or
  a loop that does not end (when no amount of fuel gives a result).
\<close>

section \<open>Prism: paths\<close>

text \<open>
  The operations of Prism's path views that the code calls; they are arguments.
\<close>

record path_ops =
  po_PathSplit :: "string \<Rightarrow> string list"
  po_Split :: "string \<Rightarrow> string list"
  po_ParentPath :: "string \<Rightarrow> string"
  po_BaseName :: "string \<Rightarrow> string"
  po_Absolute :: "string \<Rightarrow> bool"

section \<open>Mounts and parents\<close>

text \<open>A chain of mount gates may be cyclic; \<open>None\<close> is a loop that does not end.\<close>

partial_function (option) FollowMounts :: "nat \<Rightarrow> vfs \<Rightarrow> nat option" where
  "FollowMounts current v =
     (case de_MountGate (dentry_at v current) of
        None \<Rightarrow> Some current
      | Some gate \<Rightarrow> FollowMounts gate v)"

declare FollowMounts.simps [code]

definition RootDirectoryEntry :: "vfs \<Rightarrow> nat option" where
  "RootDirectoryEntry v =
     (case s_RootDirectoryEntry v of None \<Rightarrow> None | Some root \<Rightarrow> FollowMounts root v)"

definition MountPoint_Lookup :: "nat \<Rightarrow> vfs \<Rightarrow> (nat \<times> nat) option" where
  "MountPoint_Lookup entry v = find (\<lambda>(host, fs). host = entry) (vfs_mounts v)"

definition MountPoint_Attach :: "nat \<times> nat \<Rightarrow> vfs \<Rightarrow> vfs" where
  "MountPoint_Attach mountPoint v = v\<lparr>vfs_mounts := vfs_mounts v @ [mountPoint]\<rparr>"

text \<open>The parent pointer, null or not.\<close>

definition GetEffectiveParent :: "nat \<Rightarrow> vfs \<Rightarrow> nat option option" where
  "GetEffectiveParent d v =
     (case RootDirectoryEntry v of
        None \<Rightarrow> None
      | Some root \<Rightarrow>
          (case FollowMounts root v of
             None \<Rightarrow> None
           | Some rootEntry \<Rightarrow>
               if d = rootEntry \<or> d = root then Some (Some d)
               else (case MountPoint_Lookup d v of
                       Some (host, _) \<Rightarrow> Some (de_Parent (dentry_at v host))
                     | None \<Rightarrow> Some (de_Parent (dentry_at v d)))))"

section \<open>Lookup\<close>

definition DirectoryEntry_Lookup :: "nat \<Rightarrow> string \<Rightarrow> vfs \<Rightarrow> nat option \<times> vfs" where
  "DirectoryEntry_Lookup d name v =
     (case map_of (de_Children (dentry_at v d)) name of
        Some entry \<Rightarrow> (Some entry, v)
      | None \<Rightarrow>
          (case de_INode (dentry_at v d) of
             None \<Rightarrow> (None, v)
           | Some inode \<Rightarrow>
               let (entry, v) = new_dentry None name v
               in case Synth_Lookup inode entry v of
                    (Inl _, v) \<Rightarrow> (None, v)
                  | (Inr _, v) \<Rightarrow>
                      let v = DirectoryEntry_SetParent entry (Some d) v;
                          v = DirectoryEntry_InsertChild d entry v
                      in (Some entry, v)))"

definition PopulateDirectoryEntries :: "nat \<Rightarrow> vfs \<Rightarrow> unit error_or \<times> vfs" where
  "PopulateDirectoryEntries d v =
     (if de_Populated (dentry_at v d) then (Inr (), v)
      else case de_INode (dentry_at v d) of
             None \<Rightarrow> (Inl ENOENT, v)
           | Some inode \<Rightarrow>
               let names = map fst (Synth_TraverseDirectories inode v);
                   v = fold (\<lambda>name v. snd (DirectoryEntry_Lookup d name v)) names v
               in (Inr (), upd_dentry d (\<lambda>e. e\<lparr>de_Populated := True\<rparr>) v))"

definition DirectoryEntry_IsSymlink :: "nat \<Rightarrow> vfs \<Rightarrow> bool option" where
  "DirectoryEntry_IsSymlink d v =
     (case de_INode (dentry_at v d) of
        None \<Rightarrow> None
      | Some i \<Rightarrow> Some (INode_IsSymlink (in_Metadata (inode_at v i))))"

section \<open>The path resolver\<close>

datatype PathSegmentType = SegRegular | SegDotDot | SegDot | SegMount

datatype ResolutionState = eUninitialized | eInitialized | eFinished | eLast | eContinue | eTerminated

type_synonym PathLookupFlags = u8

definition LookupRegular :: PathLookupFlags where "LookupRegular = 1"
definition LookupParent :: PathLookupFlags where "LookupParent = 2"
definition LookupFollowLinks :: PathLookupFlags where "LookupFollowLinks = 4"
definition LookupNegativeEntry :: PathLookupFlags where "LookupNegativeEntry = 8"
definition LookupMountPoint :: PathLookupFlags where "LookupMountPoint = 16"

definition lookup_has :: "PathLookupFlags \<Rightarrow> PathLookupFlags \<Rightarrow> bool" where
  "lookup_has lhs rhs \<longleftrightarrow> lhs AND rhs \<noteq> 0"

record Segment =
  seg_Name :: string
  seg_IsLast :: bool
  seg_Type :: PathSegmentType

record PathResolver =
  pr_Root :: "nat option"
  pr_State :: ResolutionState
  pr_Path :: string
  pr_Tokens :: "string list"
  pr_Position :: nat
  pr_SymlinkDepth :: nat
  pr_Flags :: PathLookupFlags
  pr_Segment :: Segment
  pr_Parent :: "nat option"
  pr_DirectoryEntry :: "nat option"
  pr_BaseName :: string

definition SYMLOOP_MAX :: nat where "SYMLOOP_MAX = 40"

definition PathResolver_default :: PathResolver where
  "PathResolver_default = \<lparr>pr_Root = None, pr_State = eUninitialized, pr_Path = ''/'', pr_Tokens = [], pr_Position = 0,
     pr_SymlinkDepth = 0, pr_Flags = LookupRegular,
     pr_Segment = \<lparr>seg_Name = [], seg_IsLast = False, seg_Type = SegRegular\<rparr>,
     pr_Parent = None, pr_DirectoryEntry = None, pr_BaseName = []\<rparr>"

definition Terminate :: "PathResolver \<Rightarrow> PathResolver" where
  "Terminate p = p\<lparr>pr_State := eTerminated, pr_DirectoryEntry := None\<rparr>"

text \<open>\<^verbatim>\<open>Initialize\<close>, as the constructor calls it.\<close>

definition PathResolver_Initialize ::
    "path_ops \<Rightarrow> nat option \<Rightarrow> string \<Rightarrow> vfs \<Rightarrow> (unit error_or \<times> PathResolver) option" where
  "PathResolver_Initialize po root path v =
     (if path = [] then Some (Inl EINVAL, Terminate PathResolver_default)
      else case RootDirectoryEntry v of
        None \<Rightarrow> None
      | Some rootEntry \<Rightarrow>
          let parent = (if po_Absolute po path then Some rootEntry else root);
              p = PathResolver_default\<lparr>pr_Root := (if root = None then Some rootEntry else root),
                    pr_Path := path, pr_Tokens := po_PathSplit po path, pr_Position := 0,
                    pr_Parent := parent, pr_DirectoryEntry := parent, pr_BaseName := ''/''\<rparr>
          in if parent \<noteq> Some rootEntry then
               case parent of
                 None \<Rightarrow> Some (Inr (), p\<lparr>pr_Parent := None, pr_State := eInitialized\<rparr>)
               | Some d \<Rightarrow>
                   (case FollowMounts d v of
                      None \<Rightarrow> None
                    | Some d' \<Rightarrow> Some (Inr (), p\<lparr>pr_Parent := Some d', pr_State := eInitialized\<rparr>))
             else Some (Inr (), p\<lparr>pr_State := eInitialized\<rparr>))"

definition GetNextSegment :: "PathResolver \<Rightarrow> Segment \<times> PathResolver" where
  "GetNextSegment p =
     (let name = pr_Tokens p ! pr_Position p
      in (\<lparr>seg_Name = name, seg_IsLast = (pr_Position p = length (pr_Tokens p) - 1),
           seg_Type = (if name = ''.'' then SegDot else if name = ''..'' then SegDotDot else SegRegular)\<rparr>,
          p\<lparr>pr_Position := pr_Position p + 1\<rparr>))"

definition FollowDots :: "PathResolver \<Rightarrow> vfs \<Rightarrow> PathResolver option" where
  "FollowDots p v =
     (case (if seg_Type (pr_Segment p) = SegDotDot
            then (case pr_DirectoryEntry p of None \<Rightarrow> None | Some d \<Rightarrow> GetEffectiveParent d v)
            else Some (pr_DirectoryEntry p)) of
        None \<Rightarrow> None
      | Some entry \<Rightarrow>
          let p = p\<lparr>pr_DirectoryEntry := entry\<rparr>
          in if seg_IsLast (pr_Segment p) then
               case entry of
                 None \<Rightarrow> None
               | Some d \<Rightarrow>
                   (case GetEffectiveParent d v of
                      None \<Rightarrow> None
                    | Some parent \<Rightarrow>
                        (case (if lookup_has (pr_Flags p) LookupMountPoint then Some d else FollowMounts d v) of
                           None \<Rightarrow> None
                         | Some d' \<Rightarrow> Some (p\<lparr>pr_State := eFinished, pr_Parent := parent, pr_DirectoryEntry := Some d',
                                             pr_BaseName := de_Name (dentry_at v d')\<rparr>)))
             else if pr_Position p = length (pr_Tokens p) - 1 then Some (p\<lparr>pr_State := eLast\<rparr>)
             else Some p)"

record PathResolution =
  res_Parent :: "nat option"
  res_Entry :: "nat option"
  res_BaseName :: string

text \<open>
  \<^verbatim>\<open>FollowSymlink\<close> and the loop around it; \<open>rp\<close> is \<^verbatim>\<open>VFS::ResolvePath\<close>.  It returns the
  resolution and, when there is no entry, what \<^verbatim>\<open>errno\<close> holds.  The depth counter is tested and
  never changed.
\<close>

type_synonym resolve_fn =
  "nat option \<Rightarrow> string \<Rightarrow> bool \<Rightarrow> vfs \<Rightarrow> (PathResolution \<times> errno_t option \<times> vfs) option"

definition FollowSymlink :: "resolve_fn \<Rightarrow> PathResolver \<Rightarrow> vfs \<Rightarrow> (nat error_or \<times> vfs) option" where
  "FollowSymlink rp p v =
     (case pr_DirectoryEntry p of
        None \<Rightarrow> None
      | Some d \<Rightarrow>
          if pr_SymlinkDepth p \<ge> SYMLOOP_MAX - 1 then Some (Inl ELOOP, v)
          else case de_INode (dentry_at v d) of
            None \<Rightarrow> None
          | Some inode \<Rightarrow>
              let target = in_Target (inode_at v inode)
              in if target = [] then Some (Inr d, v)
                 else case rp (de_Parent (dentry_at v d)) target False v of
                   None \<Rightarrow> None
                 | Some (res, _, v) \<Rightarrow>
                     Some (case res_Entry res of None \<Rightarrow> Inl ENOLINK | Some next \<Rightarrow> Inr next, v))"

fun FollowSymlinks :: "resolve_fn \<Rightarrow> nat \<Rightarrow> PathResolver \<Rightarrow> vfs \<Rightarrow> (nat error_or \<times> PathResolver \<times> vfs) option" where
  "FollowSymlinks rp 0 p v = None"
| "FollowSymlinks rp (Suc fuel) p v =
     (case pr_DirectoryEntry p of
        None \<Rightarrow> None
      | Some d \<Rightarrow>
          (case DirectoryEntry_IsSymlink d v of
             None \<Rightarrow> None
           | Some False \<Rightarrow> Some (Inr d, p, v)
           | Some True \<Rightarrow>
               (case FollowSymlink rp p v of
                  None \<Rightarrow> None
                | Some (Inl e, v) \<Rightarrow> Some (Inl e, p, v)
                | Some (Inr d', v) \<Rightarrow> FollowSymlinks rp fuel (p\<lparr>pr_DirectoryEntry := Some d'\<rparr>) v)))"

text \<open>
  \<^verbatim>\<open>Step\<close>: one regular segment.  The loop that enters mount points looks at the flag of the entry
  reached; when it is still set, following the gates changes nothing any more and the loop does not end.
\<close>

definition enter_mounts :: "nat \<Rightarrow> vfs \<Rightarrow> nat option" where
  "enter_mounts d v =
     (if \<not> DirectoryEntry_IsMountPoint (dentry_at v d) then Some d
      else case FollowMounts d v of
             None \<Rightarrow> None
           | Some d' \<Rightarrow> if DirectoryEntry_IsMountPoint (dentry_at v d') then None else Some d')"

definition Step :: "resolve_fn \<Rightarrow> nat \<Rightarrow> PathResolver \<Rightarrow> vfs \<Rightarrow> (unit error_or \<times> PathResolver \<times> vfs) option" where
  "Step rp fuel p v =
     (case pr_DirectoryEntry p of
        None \<Rightarrow> None
      | Some cur \<Rightarrow>
          let p = p\<lparr>pr_Parent := Some cur\<rparr>;
              (found, v) = DirectoryEntry_Lookup cur (seg_Name (pr_Segment p)) v;
              p = p\<lparr>pr_DirectoryEntry := found, pr_BaseName := seg_Name (pr_Segment p)\<rparr>
          in case found of
               None \<Rightarrow> Some (Inl ENOENT, Terminate p, v)
             | Some d \<Rightarrow>
                 if seg_IsLast (pr_Segment p) then
                   if last (pr_Path p) = CHR ''/'' \<and> \<not> DirectoryEntry_IsDirectory (dentry_at v d)
                   then Some (Inl ENOENT, Terminate p, v)
                   else Some (Inr (), p\<lparr>pr_State := eFinished\<rparr>, v)
                 else
                   case enter_mounts d v of
                     None \<Rightarrow> None
                   | Some d \<Rightarrow>
                       let p = p\<lparr>pr_DirectoryEntry := Some d\<rparr>
                       in case DirectoryEntry_IsSymlink d v of
                            None \<Rightarrow> None
                          | Some symlink \<Rightarrow>
                              (case (if symlink then FollowSymlinks rp fuel p v else Some (Inr d, p, v)) of
                                 None \<Rightarrow> None
                               | Some (Inl _, p, v) \<Rightarrow> Some (Inl ENOLINK, Terminate p, v)
                               | Some (Inr d, p, v) \<Rightarrow>
                                   let p = p\<lparr>pr_DirectoryEntry := Some d\<rparr>
                                   in if \<not> DirectoryEntry_IsDirectory (dentry_at v d)
                                      then Some (Inl ENOTDIR, Terminate p, v)
                                      else Some (Inr (), p, v)))"

text \<open>
  The tail of \<^verbatim>\<open>Resolve\<close>: a negative entry must not exist, and a mount point is entered unless
  the caller asked for it.
\<close>

definition Resolve_finish :: "path_ops \<Rightarrow> PathResolver \<Rightarrow> vfs \<Rightarrow> (nat option error_or \<times> PathResolver \<times> vfs) option" where
  "Resolve_finish po p v =
     (case pr_DirectoryEntry p of
        None \<Rightarrow> Some (Inr None, p, v)
      | Some d \<Rightarrow>
          let (existing, v) = (if lookup_has (pr_Flags p) LookupNegativeEntry
                               then DirectoryEntry_Lookup d (po_BaseName po (pr_Path p)) v else (None, v))
          in if existing \<noteq> None then Some (Inl EEXIST, p, v)
             else if DirectoryEntry_IsMountPoint (dentry_at v d) \<and>
                     \<not> (seg_IsLast (pr_Segment p) \<and> lookup_has (pr_Flags p) LookupMountPoint)
             then (case FollowMounts d v of
                     None \<Rightarrow> None
                   | Some d' \<Rightarrow> Some (Inr (Some d'), p\<lparr>pr_DirectoryEntry := Some d'\<rparr>, v))
             else Some (Inr (Some d), p, v))"

text \<open>
  The loop over the segments; each iteration consumes one, \<open>steps\<close> counts those left.  After it, the
  state is \<open>eTerminated\<close> only when there was no last segment, and then \<^verbatim>\<open>errno\<close> was not set by it.
\<close>

fun Resolve_loop :: "path_ops \<Rightarrow> resolve_fn \<Rightarrow> nat \<Rightarrow> nat \<Rightarrow> PathResolver \<Rightarrow> vfs
    \<Rightarrow> (nat option error_or \<times> PathResolver \<times> vfs) option" where
  "Resolve_loop po rp fuel 0 p v =
     (if pr_State p = eTerminated then Some (Inl ENOENT, p\<lparr>pr_DirectoryEntry := None\<rparr>, v) else Resolve_finish po p v)"
| "Resolve_loop po rp fuel (Suc steps) p v =
     (let (segment, p) = GetNextSegment p;
          p = p\<lparr>pr_Segment := segment, pr_State := eTerminated\<rparr>
      in case (if seg_IsLast segment \<and> lookup_has (pr_Flags p) LookupMountPoint then Some (pr_DirectoryEntry p)
               else case pr_DirectoryEntry p of
                      None \<Rightarrow> Some None
                    | Some d \<Rightarrow> map_option Some (FollowMounts d v)) of
           None \<Rightarrow> None
         | Some entry \<Rightarrow>
             let p = p\<lparr>pr_DirectoryEntry := entry\<rparr>
             in if seg_Type segment \<noteq> SegRegular then
                  case FollowDots p v of
                    None \<Rightarrow> None
                  | Some p \<Rightarrow>
                      if pr_State p = eFinished then Resolve_finish po p v
                      else Resolve_loop po rp fuel steps p v
                else case Step rp fuel p v of
                    None \<Rightarrow> None
                  | Some (Inl e, p, v) \<Rightarrow> Some (Inl e, p, v)
                  | Some (Inr _, p, v) \<Rightarrow>
                      if pr_State p = eFinished then Resolve_finish po p v
                      else Resolve_loop po rp fuel steps p v)"

text \<open>\<^verbatim>\<open>Resolve(flags)\<close>; \<open>None\<close> also when the resolver was not initialised.\<close>

definition PathResolver_Resolve :: "path_ops \<Rightarrow> resolve_fn \<Rightarrow> nat \<Rightarrow> PathLookupFlags \<Rightarrow> PathResolver \<Rightarrow> vfs
    \<Rightarrow> (nat option error_or \<times> PathResolver \<times> vfs) option" where
  "PathResolver_Resolve po rp fuel flags p v =
     (if pr_State p \<noteq> eInitialized then None
      else let p = p\<lparr>pr_Flags := flags,
                     pr_Tokens := po_Split po (if lookup_has flags LookupParent then po_ParentPath po (pr_Path p) else pr_Path p)\<rparr>
           in if pr_Path p = ''/'' \<or> pr_Path p = [] then
                let p = p\<lparr>pr_State := eFinished\<rparr>
                in if lookup_has flags LookupNegativeEntry then
                     case pr_DirectoryEntry p of
                       None \<Rightarrow> None
                     | Some d \<Rightarrow>
                         (case DirectoryEntry_Lookup d (po_BaseName po (pr_Path p)) v of
                            (Some _, v) \<Rightarrow> Some (Inl EEXIST, p, v)
                          | (None, v) \<Rightarrow> Some (Inr (Some d), p, v))
                   else Some (Inr (pr_DirectoryEntry p), p, v)
              else Resolve_loop po rp fuel (length (pr_Tokens p) - pr_Position p) p v)"

text \<open>\<^verbatim>\<open>FollowDown\<close>; \<open>None\<close> also when there is no segment left.\<close>

fun FollowDown :: "resolve_fn \<Rightarrow> nat \<Rightarrow> nat \<Rightarrow> PathResolver \<Rightarrow> vfs
    \<Rightarrow> (nat option error_or \<times> PathResolver \<times> vfs) option" where
  "FollowDown rp fuel 0 p v = None"
| "FollowDown rp fuel (Suc steps) p v =
     (let (segment, p) = GetNextSegment p;
          p = p\<lparr>pr_Segment := segment, pr_State := eTerminated\<rparr>
      in if seg_Type segment \<noteq> SegRegular then
           case FollowDots p v of
             None \<Rightarrow> None
           | Some p \<Rightarrow>
               if pr_State p = eFinished then Some (Inr (pr_DirectoryEntry p), p, v)
               else FollowDown rp fuel steps p v
         else case Step rp fuel p v of
             None \<Rightarrow> None
           | Some (Inl e, p, v) \<Rightarrow> Some (Inl e, p, v)
           | Some (Inr _, p, v) \<Rightarrow>
               if pr_State p = eFinished then Some (Inr (pr_DirectoryEntry p), p, v) else Some (Inl ENOENT, p, v))"

text \<open>\<^verbatim>\<open>DirectoryEntry::FollowSymlinks(cnt)\<close>; \<open>Inl\<close> is a null entry with the value of \<^verbatim>\<open>errno\<close>.\<close>

fun DirectoryEntry_FollowSymlinks :: "resolve_fn \<Rightarrow> nat \<Rightarrow> nat \<Rightarrow> nat \<Rightarrow> vfs \<Rightarrow> (nat error_or \<times> vfs) option" where
  "DirectoryEntry_FollowSymlinks rp 0 cnt d v = None"
| "DirectoryEntry_FollowSymlinks rp (Suc fuel) cnt d v =
     (case de_INode (dentry_at v d) of
        None \<Rightarrow> None
      | Some inode \<Rightarrow>
          let target = in_Target (inode_at v inode)
          in if target \<noteq> [] \<and> INode_IsSymlink (in_Metadata (inode_at v inode)) then
               if cnt \<ge> SYMLOOP_MAX - 1 then Some (Inl ELOOP, v)
               else case rp (de_Parent (dentry_at v d)) target True v of
                 None \<Rightarrow> None
               | Some (res, _, v) \<Rightarrow>
                   (case res_Entry res of
                      None \<Rightarrow> Some (Inl ENOENT, v)
                    | Some next \<Rightarrow> DirectoryEntry_FollowSymlinks rp fuel (cnt + 1) next v)
             else Some (Inr d, v))"

fun ResolvePath :: "path_ops \<Rightarrow> nat \<Rightarrow> resolve_fn" where
  "ResolvePath po 0 parent path followLinks v = None"
| "ResolvePath po (Suc fuel) parent path followLinks v =
     (case RootDirectoryEntry v of
        None \<Rightarrow> None
      | Some root \<Rightarrow>
          let parent = (if parent = None \<or> po_Absolute po path then Some root else parent)
          in case PathResolver_Initialize po parent path v of
               None \<Rightarrow> None
             | Some (_, p) \<Rightarrow>
                 (case PathResolver_Resolve po (ResolvePath po fuel) fuel
                         (if followLinks then LookupRegular OR LookupFollowLinks else LookupRegular) p v of
                    None \<Rightarrow> None
                  | Some (r, p, v) \<Rightarrow>
                      let res = \<lparr>res_Parent = pr_Parent p, res_Entry = None, res_BaseName = pr_BaseName p\<rparr>
                      in case pr_DirectoryEntry p of
                           None \<Rightarrow> Some (res, case r of Inl e \<Rightarrow> Some e | Inr _ \<Rightarrow> None, v)
                         | Some entry \<Rightarrow>
                             if followLinks then
                               case DirectoryEntry_FollowSymlinks (ResolvePath po fuel) fuel 0 entry v of
                                 None \<Rightarrow> None
                               | Some (Inl e, v) \<Rightarrow> Some (res, Some e, v)
                               | Some (Inr entry, v) \<Rightarrow> Some (res\<lparr>res_Entry := Some entry\<rparr>, None, v)
                             else Some (res\<lparr>res_Entry := Some entry\<rparr>, None, v)))"
section \<open>The directory entry cache\<close>

text \<open>
  The children an entry caches are entries of their names below it, bound to the inodes the
  directory has under these names.
\<close>

definition child_ok :: "vfs \<Rightarrow> nat \<Rightarrow> string \<Rightarrow> nat \<Rightarrow> bool" where
  "child_ok v d name e \<longleftrightarrow> e < length (vfs_dentries v) \<and> de_Name (dentry_at v e) = name \<and> de_Parent (dentry_at v e) = Some d \<and>
     (case de_INode (dentry_at v d) of
        None \<Rightarrow> False
      | Some i \<Rightarrow> de_INode (dentry_at v e) \<noteq> None \<and> de_INode (dentry_at v e) = dir_map v i name)"

definition dentry_ok :: "vfs \<Rightarrow> nat \<Rightarrow> bool" where
  "dentry_ok v d \<longleftrightarrow> (\<forall>(name, e) \<in> set (de_Children (dentry_at v d)). child_ok v d name e)"

lemma dentry_ok_iff: "dentry_ok v d \<longleftrightarrow> (\<forall>name e. (name, e) \<in> set (de_Children (dentry_at v d)) \<longrightarrow> child_ok v d name e)"
  by (auto simp: dentry_ok_def)

definition dcache_ok :: "vfs \<Rightarrow> bool" where
  "dcache_ok v \<longleftrightarrow> (\<forall>d < length (vfs_dentries v). dentry_ok v d)"

text \<open>What a lookup may change: it creates entries and caches children.\<close>

definition extends :: "vfs \<Rightarrow> vfs \<Rightarrow> bool" where
  "extends v v' \<longleftrightarrow> vfs_inodes v' = vfs_inodes v \<and> vfs_filesystems v' = vfs_filesystems v \<and> vfs_mounts v' = vfs_mounts v \<and>
     s_RootDirectoryEntry v' = s_RootDirectoryEntry v \<and> length (vfs_dentries v) \<le> length (vfs_dentries v') \<and>
     (\<forall>d < length (vfs_dentries v). dentry_at v' d = (dentry_at v d)\<lparr>de_Children := de_Children (dentry_at v' d)\<rparr>)"

lemma extends_refl [simp]: "extends v v"
  by (simp add: extends_def)

lemma extends_trans: "extends u v \<Longrightarrow> extends v w \<Longrightarrow> extends u w"
  unfolding extends_def
proof (elim conjE, intro conjI allI impI, goal_cases)
  case (6 d)
  then have "dentry_at w d = (dentry_at v d)\<lparr>de_Children := de_Children (dentry_at w d)\<rparr>" 
    "dentry_at v d = (dentry_at u d)\<lparr>de_Children := de_Children (dentry_at v d)\<rparr>" by simp_all
  then show ?case by (metis DirectoryEntry.unfold_congs(8) DirectoryEntry.surjective DirectoryEntry.update_convs(8))
qed auto

lemma extends_fields:
  assumes "extends v v'" and "d < length (vfs_dentries v)"
  shows "de_INode (dentry_at v' d) = de_INode (dentry_at v d)" "de_Name (dentry_at v' d) = de_Name (dentry_at v d)"
    "de_Parent (dentry_at v' d) = de_Parent (dentry_at v d)" "de_Flags (dentry_at v' d) = de_Flags (dentry_at v d)"
    "de_MountGate (dentry_at v' d) = de_MountGate (dentry_at v d)"
proof -
  have "dentry_at v' d = (dentry_at v d)\<lparr>de_Children := de_Children (dentry_at v' d)\<rparr>"
    using assms by (simp add: extends_def)
  then obtain c where "dentry_at v' d = (dentry_at v d)\<lparr>de_Children := c\<rparr>" ..
  then show "de_INode (dentry_at v' d) = de_INode (dentry_at v d)" "de_Name (dentry_at v' d) = de_Name (dentry_at v d)"
    "de_Parent (dentry_at v' d) = de_Parent (dentry_at v d)" "de_Flags (dentry_at v' d) = de_Flags (dentry_at v d)"
    "de_MountGate (dentry_at v' d) = de_MountGate (dentry_at v d)" by simp_all
qed

lemma child_ok_extends:
  assumes "extends v v'" "d < length (vfs_dentries v)" "child_ok v d name e"
  shows "child_ok v' d name e"
proof -
  have e: "e < length (vfs_dentries v)" using assms(3) by (simp add: child_ok_def)
  have "vfs_inodes v' = vfs_inodes v" "length (vfs_dentries v) \<le> length (vfs_dentries v')"
    using assms(1) by (simp_all add: extends_def)
  then show ?thesis
    using assms(3) e
    by (auto simp: child_ok_def extends_fields [OF assms(1) assms(2)] extends_fields [OF assms(1) e] split: option.splits
        dest: sym)
qed

text \<open>The three outcomes of \<^verbatim>\<open>DirectoryEntry::Lookup\<close> on a bound entry.\<close>

abbreviation fresh_dentry :: "nat option \<Rightarrow> string \<Rightarrow> DirectoryEntry" where
  "fresh_dentry parent name \<equiv> \<lparr>de_Name = name, de_Flags = eNegative, de_INode = None, de_Populated = False,
     de_DirOffset = 0, de_Parent = parent, de_MountGate = None, de_Children = []\<rparr>"

lemma Lookup_cached: "map_of (de_Children (dentry_at v d)) name = Some e \<Longrightarrow> DirectoryEntry_Lookup d name v = (Some e, v)"
  by (simp add: DirectoryEntry_Lookup_def)

lemma Lookup_absent:
  assumes "map_of (de_Children (dentry_at v d)) name = None" and "de_INode (dentry_at v d) = Some i" "dir_map v i name = None"
  shows "DirectoryEntry_Lookup d name v = (None, v\<lparr>vfs_dentries := vfs_dentries v @ [fresh_dentry None name]\<rparr>)"
  using assms by (simp add: DirectoryEntry_Lookup_def new_dentry_def Synth_Lookup_def nth_append)

lemma Lookup_new:
  assumes "map_of (de_Children (dentry_at v d)) name = None" and "de_INode (dentry_at v d) = Some i" "dir_map v i name = Some c"
    and "d < length (vfs_dentries v)"
  shows "DirectoryEntry_Lookup d name v = (Some (length (vfs_dentries v)),
    v\<lparr>vfs_dentries := (vfs_dentries v)[d := (dentry_at v d)\<lparr>de_Children :=
         AList.update name (length (vfs_dentries v)) (de_Children (dentry_at v d))\<rparr>] @
       [(fresh_dentry (Some d) name)\<lparr>de_INode := Some c, de_Flags := Bind_flags (in_Metadata (inode_at v c)) eNegative\<rparr>]\<rparr>)"
  using assms
  by (simp add: DirectoryEntry_Lookup_def new_dentry_def Synth_Lookup_def nth_append DirectoryEntry_SetParent_def
      DirectoryEntry_InsertChild_def DirectoryEntry_Bind_def upd_dentry_def Let_def list_update_append)

lemma set_AList_update: "set (AList.update k x al) \<subseteq> insert (k, x) (set al)"
  by (induction al) auto

lemma Lookup_spec:
  assumes "dcache_ok v" "d < length (vfs_dentries v)" "de_INode (dentry_at v d) = Some i"
  obtains res v' where "DirectoryEntry_Lookup d name v = (res, v')" "dcache_ok v'" "extends v v'"
    "dir_map v i name = None \<longrightarrow> res = None"
    "\<And>c. dir_map v i name = Some c \<Longrightarrow> \<exists>e. res = Some e \<and> e < length (vfs_dentries v') \<and> de_INode (dentry_at v' e) = Some c \<and>
       de_Parent (dentry_at v' e) = Some d \<and> de_Name (dentry_at v' e) = name \<and> map_of (de_Children (dentry_at v' d)) name = Some e"
    "\<And>x. length (vfs_dentries v) \<le> x \<Longrightarrow> x < length (vfs_dentries v') \<Longrightarrow> de_MountGate (dentry_at v' x) = None \<and>
       (de_INode (dentry_at v' x) = None \<and> de_Flags (dentry_at v' x) = eNegative \<or>
        (\<exists>c. de_INode (dentry_at v' x) = Some c \<and> dir_map v i name = Some c \<and>
             de_Flags (dentry_at v' x) = Bind_flags (in_Metadata (inode_at v c)) eNegative))"
proof (cases "map_of (de_Children (dentry_at v d)) name")
  case (Some e)
  then have "(name, e) \<in> set (de_Children (dentry_at v d))" by (rule map_of_SomeD)
  then have *: "e < length (vfs_dentries v)" "de_Name (dentry_at v e) = name" "de_Parent (dentry_at v e) = Some d"
      "de_INode (dentry_at v e) \<noteq> None" "de_INode (dentry_at v e) = dir_map v i name"
    using assms by (fastforce simp: dcache_ok_def dentry_ok_iff child_ok_def)+
  show thesis by (rule that [OF Lookup_cached [OF Some]]) (use assms * Some in auto)
next
  case None
  let ?N = "length (vfs_dentries v)"
  show thesis
  proof (cases "dir_map v i name")
    case nochild: None
    let ?v = "v\<lparr>vfs_dentries := vfs_dentries v @ [fresh_dentry None name]\<rparr>"
    have ext: "extends v ?v" by (simp add: extends_def nth_append)
    moreover have "dcache_ok ?v"
      using assms(1) child_ok_extends [OF ext] by (auto simp: dcache_ok_def dentry_ok_iff nth_append less_Suc_eq)
    ultimately show thesis
      using that [OF Lookup_absent [OF None assms(3) nochild]] nochild by (simp add: less_Suc_eq)
  next
    case (Some c)
    define f where "f = (fresh_dentry (Some d) name)\<lparr>de_INode := Some c, de_Flags := Bind_flags (in_Metadata (inode_at v c)) eNegative\<rparr>"
    define g where "g = (dentry_at v d)\<lparr>de_Children := AList.update name ?N (de_Children (dentry_at v d))\<rparr>"
    define v' where "v' = v\<lparr>vfs_dentries := (vfs_dentries v)[d := g] @ [f]\<rparr>"
    have at: "dentry_at v' ?N = f" "dentry_at v' d = g" "\<And>e. e < ?N \<Longrightarrow> e \<noteq> d \<Longrightarrow> dentry_at v' e = dentry_at v e"
      "length (vfs_dentries v') = Suc ?N" "vfs_inodes v' = vfs_inodes v"
      using assms(2) by (simp_all add: v'_def nth_append)
    have f: "de_Children f = []" "de_INode f = Some c" "de_Name f = name" "de_Parent f = Some d" by (simp_all add: f_def)
    have g: "de_INode g = Some i" "de_Name g = de_Name (dentry_at v d)" "de_Parent g = de_Parent (dentry_at v d)"
      "de_Children g = AList.update name ?N (de_Children (dentry_at v d))" using assms(3) by (simp_all add: g_def)
    have ext: "extends v v'"
      unfolding extends_def
    proof (intro conjI allI impI)
      show "dentry_at v' e = (dentry_at v e)\<lparr>de_Children := de_Children (dentry_at v' e)\<rparr>" if "e < ?N" for e
        using that at by (cases "e = d") (simp_all add: g_def)
    qed (simp_all add: v'_def)
    have old: "child_ok v' x n e" if "x < ?N" "(n, e) \<in> set (de_Children (dentry_at v x))" for x n e
      using assms(1) that child_ok_extends [OF ext that(1)] by (simp add: dcache_ok_def dentry_ok_iff)
    have ok: "dcache_ok v'"
      unfolding dcache_ok_def
    proof (intro allI impI)
      fix x assume "x < length (vfs_dentries v')"
      then consider "x = ?N" | "x = d" | "x < ?N" "x \<noteq> d" using at(4) by linarith
      then show "dentry_ok v' x"
      proof cases
        case 1
        then show ?thesis by (simp add: dentry_ok_def at f)
      next
        case 2
        have "(n, e) = (name, ?N) \<or> (n, e) \<in> set (de_Children (dentry_at v d))" if "(n, e) \<in> set (de_Children g)" for n e
          using that set_AList_update [of name ?N "de_Children (dentry_at v d)"] by (auto simp: g(4))
        moreover have "child_ok v' d name ?N" using Some by (simp add: child_ok_def at f g)
        moreover have "child_ok v' d n e" if "(n, e) \<in> set (de_Children (dentry_at v d))" for n e
          using old [OF assms(2) that] .
        ultimately show ?thesis unfolding dentry_ok_iff 2 at(2) by blast
      next
        case 3
        then show ?thesis using old by (simp add: dentry_ok_iff at)
      qed
    qed
    show thesis
    proof (rule that [of "Some ?N" v'])
      show "DirectoryEntry_Lookup d name v = (Some ?N, v')"
        using Lookup_new [OF None assms(3) Some assms(2)] by (simp add: v'_def f_def g_def)
    qed (use ok ext Some in \<open>auto simp: at f g(4) update_conv' less_Suc_eq f_def\<close>)
  qed
qed

section \<open>Resolution in a plain tree\<close>

text \<open>
  No mounts and no symbolic links; the flags of an entry are those \<^verbatim>\<open>Bind\<close> has set.
\<close>

definition entry_plain :: "vfs \<Rightarrow> DirectoryEntry \<Rightarrow> bool" where
  "entry_plain v e \<longleftrightarrow> de_MountGate e = None \<and>
     (case de_INode e of
        None \<Rightarrow> de_Flags e = eNegative
      | Some i \<Rightarrow> i < length (vfs_inodes v) \<and> de_Flags e = Bind_flags (in_Metadata (inode_at v i)) eNegative)"

definition inode_plain :: "vfs \<Rightarrow> SynthFsINode \<Rightarrow> bool" where
  "inode_plain v n \<longleftrightarrow> \<not> INode_IsSymlink (in_Metadata n) \<and> (\<forall>(name, c) \<in> set (in_Children n). c < length (vfs_inodes v))"

definition plain :: "vfs \<Rightarrow> bool" where
  "plain v \<longleftrightarrow> dcache_ok v \<and> list_all (entry_plain v) (vfs_dentries v) \<and> list_all (inode_plain v) (vfs_inodes v)"

lemma plainD:
  assumes "plain v"
  shows "dcache_ok v" "d < length (vfs_dentries v) \<Longrightarrow> entry_plain v (dentry_at v d)"
    "i < length (vfs_inodes v) \<Longrightarrow> inode_plain v (inode_at v i)"
  using assms by (auto simp: plain_def list_all_length)

lemma plain_child: "plain v \<Longrightarrow> i < length (vfs_inodes v) \<Longrightarrow> dir_map v i name = Some c \<Longrightarrow> c < length (vfs_inodes v)"
  using plainD(3) [of v i] map_of_SomeD [of "in_Children (inode_at v i)" name c] by (auto simp: inode_plain_def)

lemma plain_bound: "plain v \<Longrightarrow> d < length (vfs_dentries v) \<Longrightarrow> de_INode (dentry_at v d) = Some i \<Longrightarrow> i < length (vfs_inodes v)"
  using plainD(2) [of v d] by (simp add: entry_plain_def)

lemma plain_FollowMounts: "plain v \<Longrightarrow> d < length (vfs_dentries v) \<Longrightarrow> FollowMounts d v = Some d"
  using plainD(2) [of v d] by (subst FollowMounts.simps) (simp add: entry_plain_def)

lemma Bind_flags_bits:
  "Bind_flags m eNegative AND eMountPoint = 0"
  "\<not> INode_IsSymlink m \<Longrightarrow> (Bind_flags m eNegative AND eDirectory \<noteq> 0) = INode_IsDirectory m"
  by (auto simp: Bind_flags_def Let_def vfs_defs)

lemma plain_flags:
  assumes "plain v" "d < length (vfs_dentries v)" "de_INode (dentry_at v d) = Some i"
  shows "\<not> DirectoryEntry_IsMountPoint (dentry_at v d)" "DirectoryEntry_IsSymlink d v = Some False"
    "DirectoryEntry_IsDirectory (dentry_at v d) = INode_IsDirectory (in_Metadata (inode_at v i))"
proof -
  have i: "inode_plain v (inode_at v i)" "de_Flags (dentry_at v d) = Bind_flags (in_Metadata (inode_at v i)) eNegative"
    using plainD(2) [OF assms(1,2)] plainD(3) [OF assms(1)] assms(3) by (simp_all add: entry_plain_def)
  then show "\<not> DirectoryEntry_IsMountPoint (dentry_at v d)" "DirectoryEntry_IsSymlink d v = Some False"
    "DirectoryEntry_IsDirectory (dentry_at v d) = INode_IsDirectory (in_Metadata (inode_at v i))"
    by (simp_all add: DirectoryEntry_IsMountPoint_def DirectoryEntry_IsSymlink_def DirectoryEntry_IsDirectory_def
        inode_plain_def Bind_flags_bits assms(3))
qed

lemma Lookup_plain:
  assumes "plain v" "d < length (vfs_dentries v)" "de_INode (dentry_at v d) = Some i"
  obtains res v' where "DirectoryEntry_Lookup d name v = (res, v')" "plain v'" "extends v v'"
    "dir_map v i name = None \<longrightarrow> res = None"
    "\<forall>c. dir_map v i name = Some c \<longrightarrow> (\<exists>e. res = Some e \<and> e < length (vfs_dentries v') \<and> de_INode (dentry_at v' e) = Some c)"
proof (rule Lookup_spec [OF plainD(1) [OF assms(1)] assms(2,3), of name], goal_cases)
  case (1 res v')
  have inodes: "vfs_inodes v' = vfs_inodes v" using 1(4) by (simp add: extends_def)
  have "entry_plain v' (dentry_at v' x)" if x: "x < length (vfs_dentries v')" for x
  proof (cases "x < length (vfs_dentries v)")
    case True
    then show ?thesis
      using plainD(2) [OF assms(1) True] by (auto simp: entry_plain_def extends_fields [OF 1(4) True] inodes split: option.splits)
  next
    case False
    with 1(7) [of x] x plain_child [OF assms(1) plain_bound [OF assms]] inodes show ?thesis
      by (auto simp: entry_plain_def)
  qed
  moreover have "list_all (inode_plain v') (vfs_inodes v')"
    using assms(1) by (simp add: plain_def inodes inode_plain_def [abs_def])
  ultimately have "plain v'" using 1(3) by (simp add: plain_def list_all_length)
  then show ?case using that [OF 1(2) _ 1(4)] 1(5,6) by blast
qed

text \<open>
  The abstract resolution: names are looked up one after the other in the directories' maps.
\<close>

fun walk :: "vfs \<Rightarrow> nat \<Rightarrow> string list \<Rightarrow> nat error_or" where
  "walk v i [] = Inr i"
| "walk v i (name # names) =
     (case dir_map v i name of
        None \<Rightarrow> Inl ENOENT
      | Some c \<Rightarrow> if names = [] then Inr c
                  else if INode_IsDirectory (in_Metadata (inode_at v c)) then walk v c names else Inl ENOTDIR)"

lemma walk_extends: "extends v v' \<Longrightarrow> walk v' i names = walk v i names"
  by (induction names arbitrary: i) (auto simp: extends_def split: option.split)

lemma Step_plain:
  assumes "plain v" "pr_DirectoryEntry p = Some d" "d < length (vfs_dentries v)" "de_INode (dentry_at v d) = Some i"
    and "last (pr_Path p) \<noteq> CHR ''/''"
  obtains r p' v' where "Step rp fuel p v = Some (r, p', v')" "plain v'" "extends v v'"
    "pr_Flags p' = pr_Flags p" "pr_Path p' = pr_Path p" "pr_Tokens p' = pr_Tokens p" "pr_Position p' = pr_Position p"
    "dir_map v i (seg_Name (pr_Segment p)) = None \<longrightarrow> r = Inl ENOENT \<and> pr_DirectoryEntry p' = None"
    "\<forall>c. dir_map v i (seg_Name (pr_Segment p)) = Some c \<longrightarrow> \<not> seg_IsLast (pr_Segment p) \<longrightarrow>
       \<not> INode_IsDirectory (in_Metadata (inode_at v c)) \<longrightarrow> r = Inl ENOTDIR \<and> pr_DirectoryEntry p' = None"
    "\<forall>c. dir_map v i (seg_Name (pr_Segment p)) = Some c \<longrightarrow>
       seg_IsLast (pr_Segment p) \<or> INode_IsDirectory (in_Metadata (inode_at v c)) \<longrightarrow>
       r = Inr () \<and> pr_State p' = (if seg_IsLast (pr_Segment p) then eFinished else pr_State p) \<and>
       (\<exists>e. pr_DirectoryEntry p' = Some e \<and> e < length (vfs_dentries v') \<and> de_INode (dentry_at v' e) = Some c)"
proof -
  let ?n = "seg_Name (pr_Segment p)"
  obtain res v' where L: "DirectoryEntry_Lookup d ?n v = (res, v')" "plain v'" "extends v v'"
    "dir_map v i ?n = None \<longrightarrow> res = None"
    "\<forall>c. dir_map v i ?n = Some c \<longrightarrow> (\<exists>e. res = Some e \<and> e < length (vfs_dentries v') \<and> de_INode (dentry_at v' e) = Some c)"
    by (rule Lookup_plain [OF assms(1,3,4), of ?n]) (rule that; assumption)
  show thesis
  proof (cases "dir_map v i ?n")
    case None
    then have "Step rp fuel p v = Some (Inl ENOENT, Terminate (p\<lparr>pr_Parent := Some d, pr_DirectoryEntry := None, pr_BaseName := ?n\<rparr>), v')"
      using L(1,4) assms(2) by (simp add: Step_def)
    from that [OF this L(2,3)] None show thesis by (simp add: Terminate_def)
  next
    case (Some c)
    with L(5) obtain e where e: "res = Some e" "e < length (vfs_dentries v')" "de_INode (dentry_at v' e) = Some c" by blast
    have same: "inode_at v' c = inode_at v c" using L(3) by (simp add: extends_def)
    note flags = plain_flags [OF L(2) e(2,3)]
    let ?p = "p\<lparr>pr_Parent := Some d, pr_DirectoryEntry := Some e, pr_BaseName := ?n\<rparr>"
    have run: "Step rp fuel p v =
      (if seg_IsLast (pr_Segment p) then Some (Inr (), ?p\<lparr>pr_State := eFinished\<rparr>, v')
       else if INode_IsDirectory (in_Metadata (inode_at v c)) then Some (Inr (), ?p, v')
       else Some (Inl ENOTDIR, Terminate ?p, v'))"
      using L(1) assms(2,5) e(1) flags by (simp add: Step_def enter_mounts_def Terminate_def same)
    show thesis
    proof (cases "seg_IsLast (pr_Segment p)")
      case True
      have "Step rp fuel p v = Some (Inr (), ?p\<lparr>pr_State := eFinished\<rparr>, v')" using run True by simp
      then show thesis by (rule that [OF _ L(2,3)]) (use True Some e in auto)
    next
      case last: False
      show thesis
      proof (cases "INode_IsDirectory (in_Metadata (inode_at v c))")
        case True
        have "Step rp fuel p v = Some (Inr (), ?p, v')" using run True last by simp
        then show thesis by (rule that [OF _ L(2,3)]) (use True last Some e in auto)
      next
        case False
        have "Step rp fuel p v = Some (Inl ENOTDIR, Terminate ?p, v')" using run False last by simp
        then show thesis by (rule that [OF _ L(2,3)]) (use False last Some e in \<open>auto simp: Terminate_def\<close>)
      qed
    qed
  qed
qed

definition regular_name :: "string \<Rightarrow> bool" where
  "regular_name name \<longleftrightarrow> name \<noteq> ''.'' \<and> name \<noteq> ''..''"

text \<open>
  What resolving \<open>names\<close> below the directory \<open>i\<close> must leave behind.
\<close>

definition resolved :: "vfs \<Rightarrow> nat error_or \<Rightarrow> (nat option error_or \<times> PathResolver \<times> vfs) \<Rightarrow> bool" where
  "resolved v target = (\<lambda>(r, p', v'). plain v' \<and> extends v v' \<and>
     (case target of
        Inl e \<Rightarrow> r = Inl e \<and> pr_DirectoryEntry p' = None
      | Inr c \<Rightarrow> (\<exists>e. r = Inr (Some e) \<and> pr_DirectoryEntry p' = Some e \<and> e < length (vfs_dentries v') \<and>
                      de_INode (dentry_at v' e) = Some c)))"

lemma resolved_trans:
  "extends v v1 \<Longrightarrow> resolved v1 t x \<Longrightarrow> resolved v t x"
  by (auto simp: resolved_def intro: extends_trans)

lemma Resolve_loop_walk:
  assumes "plain v" "pr_DirectoryEntry p = Some d" "d < length (vfs_dentries v)" "de_INode (dentry_at v d) = Some i"
    and "last (pr_Path p) \<noteq> CHR ''/''" "\<not> lookup_has (pr_Flags p) LookupMountPoint" "\<not> lookup_has (pr_Flags p) LookupNegativeEntry"
    and "drop (pr_Position p) (pr_Tokens p) = names" "names \<noteq> []" "list_all regular_name names"
  shows "\<exists>x. Resolve_loop po rp fuel (length names) p v = Some x \<and> resolved v (walk v i names) x"
  using assms
proof (induction names arbitrary: v p d i)
  case (Cons name names)
  let ?pos = "pr_Position p"
  have pos: "?pos < length (pr_Tokens p)" "pr_Tokens p ! ?pos = name" "drop (Suc ?pos) (pr_Tokens p) = names"
    using Cons.prems(8) by (metis drop_all list.distinct(1) not_le, metis Cons_nth_drop_Suc drop_all list.distinct(1) list.inject not_le,
      metis Cons_nth_drop_Suc drop_all list.distinct(1) list.inject not_le)
  have isl: "(?pos = length (pr_Tokens p) - Suc 0) = (names = [])" using pos(1,3) by auto
  have reg: "name \<noteq> ''.''" "name \<noteq> ''..''" "list_all regular_name names" using Cons.prems(10)
    by (simp_all add: regular_name_def [of name])
  define q where "q = p\<lparr>pr_Position := ?pos + 1, pr_Segment := \<lparr>seg_Name = name, seg_IsLast = (names = []), seg_Type = SegRegular\<rparr>,
      pr_State := eTerminated, pr_DirectoryEntry := Some d\<rparr>"
  have q: "pr_DirectoryEntry q = Some d" "last (pr_Path q) \<noteq> CHR ''/''" "seg_Name (pr_Segment q) = name"
    "seg_IsLast (pr_Segment q) = (names = [])" using Cons.prems(5) by (simp_all add: q_def)
  obtain r p' v' where S: "Step rp fuel q v = Some (r, p', v')" "plain v'" "extends v v'"
    "pr_Flags p' = pr_Flags p" "pr_Path p' = pr_Path p" "pr_Tokens p' = pr_Tokens p" "pr_Position p' = Suc ?pos"
    "dir_map v i name = None \<longrightarrow> r = Inl ENOENT \<and> pr_DirectoryEntry p' = None"
    "\<forall>c. dir_map v i name = Some c \<longrightarrow> names \<noteq> [] \<longrightarrow> \<not> INode_IsDirectory (in_Metadata (inode_at v c)) \<longrightarrow>
       r = Inl ENOTDIR \<and> pr_DirectoryEntry p' = None"
    "\<forall>c. dir_map v i name = Some c \<longrightarrow> names = [] \<or> INode_IsDirectory (in_Metadata (inode_at v c)) \<longrightarrow>
       r = Inr () \<and> pr_State p' = (if names = [] then eFinished else eTerminated) \<and>
       (\<exists>e. pr_DirectoryEntry p' = Some e \<and> e < length (vfs_dentries v') \<and> de_INode (dentry_at v' e) = Some c)"
    by (rule Step_plain [OF Cons.prems(1) q(1) Cons.prems(3,4) q(2), of rp fuel, unfolded q(3,4)]) (simp add: q_def)
  have unf: "Resolve_loop po rp fuel (length (name # names)) p v =
    (case Step rp fuel q v of None \<Rightarrow> None
       | Some (Inl e, p, v) \<Rightarrow> Some (Inl e, p, v)
       | Some (Inr _, p, v) \<Rightarrow> if pr_State p = eFinished then Resolve_finish po p v
           else Resolve_loop po rp fuel (length names) p v)"
    using Cons.prems(2,6) pos reg plain_FollowMounts [OF Cons.prems(1,3)]
    by (simp add: GetNextSegment_def q_def isl cong: if_cong)
  show ?case
  proof (cases "dir_map v i name")
    case None
    then show ?thesis using S(1-3,8) unf by (simp add: resolved_def)
  next
    case (Some c)
    consider "names = []" | "names \<noteq> []" "INode_IsDirectory (in_Metadata (inode_at v c))"
      | "names \<noteq> []" "\<not> INode_IsDirectory (in_Metadata (inode_at v c))" by blast
    then show ?thesis
    proof cases
      case 1
      with S(10) Some obtain e where e: "r = Inr ()" "pr_State p' = eFinished" "pr_DirectoryEntry p' = Some e"
        "e < length (vfs_dentries v')" "de_INode (dentry_at v' e) = Some c" by auto
      have "Resolve_finish po p' v' = Some (Inr (Some e), p', v')"
        using e(3) S(4) Cons.prems(7) plain_flags(1) [OF S(2) e(4,5)] by (simp add: Resolve_finish_def)
      with 1 e S(1-3) unf Some show ?thesis by (simp add: resolved_def)
    next
      case 2
      with S(10) Some obtain e where e: "r = Inr ()" "pr_State p' = eTerminated" "pr_DirectoryEntry p' = Some e"
        "e < length (vfs_dentries v')" "de_INode (dentry_at v' e) = Some c" by auto
      have "\<exists>x. Resolve_loop po rp fuel (length names) p' v' = Some x \<and> resolved v' (walk v' c names) x"
        using Cons.IH [OF S(2) e(3-5)] S(4-7) Cons.prems(5-7) pos(3) 2(1) reg(3) by simp
      then show ?thesis
        using 2 e(1,2) S(1,3) unf Some by (auto simp: walk_extends [OF S(3)] intro: resolved_trans)
    next
      case 3
      then show ?thesis using S(1-3) S(9) unf Some by (simp add: resolved_def)
    qed
  qed
qed simp

section \<open>Properties\<close>


text \<open>
  Claim C4. In a tree without mounts and symbolic links, resolving a relative path of ordinary names
  from a directory always ends; it returns the entry bound to the inode that is reached by
  looking the names up one after the other, and fails with \<open>ENOENT\<close> or \<open>ENOTDIR\<close> exactly where
  that walk fails.
\<close>

theorem Resolve_refines_walk:
  assumes "plain v" "RootDirectoryEntry v = Some root" "d < length (vfs_dentries v)" "de_INode (dentry_at v d) = Some i"
    and "path \<noteq> []" "path \<noteq> ''/''" "last path \<noteq> CHR ''/''" "\<not> po_Absolute po path"
    and "po_Split po path \<noteq> []" "list_all regular_name (po_Split po path)"
  shows "\<exists>p x. PathResolver_Initialize po (Some d) path v = Some (Inr (), p) \<and>
    PathResolver_Resolve po rp fuel LookupRegular p v = Some x \<and> resolved v (walk v i (po_Split po path)) x"
proof -
  obtain p where p: "PathResolver_Initialize po (Some d) path v = Some (Inr (), p)" "pr_State p = eInitialized"
    "pr_Path p = path" "pr_Position p = 0" "pr_DirectoryEntry p = Some d"
    using assms(2,5,8) plain_FollowMounts [OF assms(1,3)]
    by (cases "d = root") (auto simp: PathResolver_Initialize_def PathResolver_default_def Let_def)
  let ?q = "p\<lparr>pr_Flags := LookupRegular, pr_Tokens := po_Split po path\<rparr>"
  have fl: "\<not> lookup_has LookupRegular LookupMountPoint" "\<not> lookup_has LookupRegular LookupNegativeEntry"
    "\<not> lookup_has LookupRegular LookupParent"
    by (simp_all add: lookup_has_def LookupRegular_def LookupMountPoint_def LookupNegativeEntry_def LookupParent_def)
  have "PathResolver_Resolve po rp fuel LookupRegular p v = Resolve_loop po rp fuel (length (po_Split po path)) ?q v"
    using p fl assms(5,6) by (simp add: PathResolver_Resolve_def)
  moreover have "\<exists>x. Resolve_loop po rp fuel (length (po_Split po path)) ?q v = Some x \<and> resolved v (walk v i (po_Split po path)) x"
    using Resolve_loop_walk [OF assms(1) _ assms(3,4), of ?q "po_Split po path"] p fl assms(7,9,10) by simp
  ultimately show ?thesis using p(1) by auto
qed

text \<open>Path operations as the tests below need them: names between slashes, empty ones dropped.\<close>

fun split_slash :: "string \<Rightarrow> string \<Rightarrow> string list" where
  "split_slash acc [] = (if acc = [] then [] else [rev acc])"
| "split_slash acc (c # cs) =
     (if c = CHR ''/'' then (if acc = [] then [] else [rev acc]) @ split_slash [] cs else split_slash (c # acc) cs)"

definition demo_paths :: path_ops where
  "demo_paths = \<lparr>po_PathSplit = split_slash [], po_Split = split_slash [],
     po_ParentPath = (\<lambda>p. concat (map (\<lambda>n. CHR ''/'' # n) (butlast (split_slash [] p)))),
     po_BaseName = (\<lambda>p. last (split_slash [] p)), po_Absolute = (\<lambda>p. p \<noteq> [] \<and> hd p = CHR ''/'')\<rparr>"

text \<open>
  A root directory with a directory \<^verbatim>\<open>d\<close> that holds a file \<^verbatim>\<open>f\<close>, and the same with a symbolic
  link \<^verbatim>\<open>d\<close> to itself; entry 1 is that of \<^verbatim>\<open>d\<close>.
\<close>

definition demo_tree :: vfs where
  "demo_tree =
     demo_vfs\<lparr>vfs_inodes := [(inode_at demo_vfs 0)\<lparr>in_Children := [(''d'', 1)]\<rparr>,
         (SynthFsINode_make demo_env ''d'' 0 0 3 0x41ed)\<lparr>in_Children := [(''f'', 2)]\<rparr>,
         SynthFsINode_make demo_env ''f'' 0 0 4 0x81a4],
       vfs_dentries := [(demo_dentry ''/'')\<lparr>de_INode := Some 0, de_Flags := eDirectory\<rparr>],
       s_RootDirectoryEntry := Some 0\<rparr>"

definition demo_loop :: vfs where
  "demo_loop =
     demo_tree\<lparr>vfs_inodes := [inode_at demo_tree 0, (SynthFsINode_make demo_env ''d'' 0 0 3 0xa1ff)\<lparr>in_Target := ''d''\<rparr>],
       vfs_dentries := [(dentry_at demo_tree 0)\<lparr>de_Children := [(''d'', 1)]\<rparr>,
         (demo_dentry ''d'')\<lparr>de_INode := Some 1, de_Parent := Some 0, de_Flags := eSymlink\<rparr>]\<rparr>"

lemma demo_tree_facts:
  "plain demo_tree" "length (vfs_dentries demo_tree) = 1" "de_INode (dentry_at demo_tree 0) = Some 0"
  "po_Split demo_paths ''d/f'' = [''d'', ''f'']" "\<not> po_Absolute demo_paths ''d/f''" "walk demo_tree 0 [''d'', ''f''] = Inr 2"
  by code_simp+

lemma demo_tree_root: "RootDirectoryEntry demo_tree = Some 0"
proof -
  have "s_RootDirectoryEntry demo_tree = Some 0" "de_MountGate (dentry_at demo_tree 0) = None" by code_simp+
  then show ?thesis by (simp add: RootDirectoryEntry_def FollowMounts.simps)
qed


theorem Resolve_refines_walk_witness:
  "\<exists>p x e. PathResolver_Initialize demo_paths (Some 0) ''d/f'' demo_tree = Some (Inr (), p) \<and>
     PathResolver_Resolve demo_paths (\<lambda>_ _ _ _. None) 0 LookupRegular p demo_tree = Some x \<and>
     fst x = Inr (Some e) \<and> de_INode (dentry_at (snd (snd x)) e) = Some 2"
proof -
  have "\<exists>p x. PathResolver_Initialize demo_paths (Some 0) ''d/f'' demo_tree = Some (Inr (), p) \<and>
      PathResolver_Resolve demo_paths (\<lambda>_ _ _ _. None) 0 LookupRegular p demo_tree = Some x \<and>
      resolved demo_tree (walk demo_tree 0 (po_Split demo_paths ''d/f'')) x"
    using demo_tree_facts demo_tree_root
    by (intro Resolve_refines_walk [where root = 0]) (auto simp: regular_name_def)
  then show ?thesis using demo_tree_facts(4,6) by (auto simp: resolved_def)
qed

text \<open>
  The depth limit of symbolic links is tested and never advanced: when the target of a
  link resolves to the link itself, following it does not end, whatever the number of steps.
\<close>

theorem symlink_loop_not_detected:
  assumes "pr_DirectoryEntry p = Some d" and "pr_SymlinkDepth p = 0" and "DirectoryEntry_IsSymlink d v = Some True"
    and "de_INode (dentry_at v d) = Some i" "in_Target (inode_at v i) \<noteq> []"
    and "rp (de_Parent (dentry_at v d)) (in_Target (inode_at v i)) False v = Some (res, en, v)" "res_Entry res = Some d"
  shows "FollowSymlinks rp fuel p v = None"
  using assms(1,2)
proof (induction fuel arbitrary: p)
  case (Suc fuel)
  have "FollowSymlink rp p v = Some (Inr d, v)"
    using Suc.prems assms(4-7) by (simp add: FollowSymlink_def SYMLOOP_MAX_def)
  then show ?case using Suc.IH [of "p\<lparr>pr_DirectoryEntry := Some d\<rparr>"] Suc.prems assms(3) by simp
qed simp

theorem symlink_loop_not_detected_witness:
  "FollowSymlinks (ResolvePath demo_paths 1) 100 (PathResolver_default\<lparr>pr_DirectoryEntry := Some 1\<rparr>) demo_loop = None"
proof (rule symlink_loop_not_detected [where d = 1 and i = 1 and en = None and
      res = "\<lparr>res_Parent = Some 0, res_Entry = Some 1, res_BaseName = ''d''\<rparr>"])
  show "pr_DirectoryEntry (PathResolver_default\<lparr>pr_DirectoryEntry := Some 1\<rparr>) = Some 1"
    "pr_SymlinkDepth (PathResolver_default\<lparr>pr_DirectoryEntry := Some 1\<rparr>) = 0"
    by (simp_all add: PathResolver_default_def)
  show "DirectoryEntry_IsSymlink 1 demo_loop = Some True" "de_INode (dentry_at demo_loop 1) = Some 1"
    "in_Target (inode_at demo_loop 1) \<noteq> []"
    by code_simp+
  show "ResolvePath demo_paths 1 (de_Parent (dentry_at demo_loop 1)) (in_Target (inode_at demo_loop 1)) False demo_loop =
      Some (\<lparr>res_Parent = Some 0, res_Entry = Some 1, res_BaseName = ''d''\<rparr>, None, demo_loop)"
    by code_simp
  show "res_Entry \<lparr>res_Parent = Some 0, res_Entry = Some 1, res_BaseName = ''d''\<rparr> = Some 1" by simp
qed

text \<open>
  \<^verbatim>\<open>..\<close> at the end of a path does not leave a mounted filesystem: from the root of the mounted
  filesystem, whose parent is the entry it is mounted on, the mount gate leads straight back.
\<close>

theorem dotdot_stays_in_mounted_filesystem:
  assumes "RootDirectoryEntry v = Some root" "FollowMounts root v = Some root" "r \<noteq> root" "MountPoint_Lookup r v = None"
    and "de_Parent (dentry_at v r) = Some h" "de_MountGate (dentry_at v h) = Some r" "de_MountGate (dentry_at v r) = None"
    and "pr_DirectoryEntry p = Some r" "seg_Type (pr_Segment p) = SegDotDot" "seg_IsLast (pr_Segment p)"
    and "\<not> lookup_has (pr_Flags p) LookupMountPoint"
  shows "\<exists>p'. FollowDots p v = Some p' \<and> pr_DirectoryEntry p' = Some r"
proof -
  have "GetEffectiveParent r v = Some (Some h)" "GetEffectiveParent h v \<noteq> None"
    using assms by (auto simp: GetEffectiveParent_def split: option.split)
  moreover have "FollowMounts r v = Some r" "FollowMounts h v = Some r"
    using assms(6,7) by (simp_all add: FollowMounts.simps [of r] FollowMounts.simps [of h])
  ultimately show ?thesis using assms(8-11) by (auto simp: FollowDots_def)
qed

text \<open>The root of a second filesystem, entry 2, mounted on \<^verbatim>\<open>/d\<close>, entry 1.\<close>

definition demo_mounted :: vfs where
  "demo_mounted =
     demo_tree\<lparr>vfs_dentries := [(dentry_at demo_tree 0)\<lparr>de_Children := [(''d'', 1)]\<rparr>,
         (demo_dentry ''d'')\<lparr>de_INode := Some 1, de_Parent := Some 0, de_Flags := eDirectory OR eMountPoint, de_MountGate := Some 2\<rparr>,
         (demo_dentry ''/'')\<lparr>de_INode := Some 0, de_Parent := Some 1, de_Flags := eDirectory\<rparr>],
       vfs_mounts := [(1, 0)]\<rparr>"

theorem dotdot_stays_in_mounted_filesystem_witness:
  "\<exists>p'. FollowDots (PathResolver_default\<lparr>pr_DirectoryEntry := Some 2,
     pr_Segment := \<lparr>seg_Name = ''..'', seg_IsLast = True, seg_Type = SegDotDot\<rparr>\<rparr>) demo_mounted = Some p' \<and> pr_DirectoryEntry p' = Some 2"
proof -
  have *: "s_RootDirectoryEntry demo_mounted = Some 0" "de_MountGate (dentry_at demo_mounted 0) = None"
    "MountPoint_Lookup 2 demo_mounted = None" "de_Parent (dentry_at demo_mounted 2) = Some 1"
    "de_MountGate (dentry_at demo_mounted 1) = Some 2" "de_MountGate (dentry_at demo_mounted 2) = None"
    "\<not> lookup_has LookupRegular LookupMountPoint"
    by code_simp+
  have "FollowMounts 0 demo_mounted = Some 0" using *(2) by (simp add: FollowMounts.simps)
  then show ?thesis
    using * by (intro dotdot_stays_in_mounted_filesystem [where root = 0 and h = 1])
      (simp_all add: RootDirectoryEntry_def PathResolver_default_def)
qed

text \<open>
  Resolving the empty path does not return an error: the resolver refuses the path, and
  the assertion that it was initialised fails.
\<close>

theorem ResolvePath_empty_asserts: "ResolvePath po fuel parent [] followLinks v = None"
  by (cases fuel) (simp_all add: PathResolver_Initialize_def PathResolver_Resolve_def Terminate_def split: option.split)

end
