(* ===== verification/Vfs_Operations.thy ===== *)
theory Vfs_Operations
  imports Path_Resolution
begin

unbundle bit_operations_syntax

text \<open>
  The operations of \<^verbatim>\<open>VFS/VFS.cpp\<close>: filesystem drivers, mounting, and creating and linking nodes
  by directory and name or by path.  As before, \<open>None\<close> is a run that does not return.
\<close>

section \<open>Filesystem drivers\<close>

text \<open>
  A driver object has an identity.  Its function pointers act on the state: \<^verbatim>\<open>Instantiate\<close> may be
  null and may return null; the \<^verbatim>\<open>Mount\<close> method of its filesystems takes the source path.
\<close>

record FilesystemDriver =
  drv_Id :: nat
  drv_FilesystemName :: string
  drv_Instantiate :: "(vfs \<Rightarrow> nat option error_or \<times> vfs) option"
  drv_Mount :: "nat \<Rightarrow> string \<Rightarrow> vfs \<Rightarrow> nat option error_or \<times> vfs"

definition Driver_IsLinked :: "FilesystemDriver \<Rightarrow> FilesystemDriver list \<Rightarrow> bool" where
  "Driver_IsLinked driver drivers \<longleftrightarrow> drv_Id driver \<in> set (map drv_Id drivers)"

text \<open>The last driver of the name, as each match overwrites the one before.\<close>

definition FindFilesystemDriver :: "string \<Rightarrow> FilesystemDriver list \<Rightarrow> FilesystemDriver error_or" where
  "FindFilesystemDriver name drivers =
     (case fold (\<lambda>fs found. if drv_FilesystemName fs = name then Some fs else found) drivers None of
        None \<Rightarrow> Inl ENODEV
      | Some found \<Rightarrow> Inr found)"

definition RegisterFilesystem :: "FilesystemDriver \<Rightarrow> FilesystemDriver list \<Rightarrow> unit error_or \<times> FilesystemDriver list" where
  "RegisterFilesystem driver drivers =
     (if Driver_IsLinked driver drivers then (Inl EBUSY, drivers)
      else case FindFilesystemDriver (drv_FilesystemName driver) drivers of
             Inr _ \<Rightarrow> (Inl EEXIST, drivers)
           | Inl _ \<Rightarrow> (Inr (), drivers @ [driver]))"

text \<open>\<open>None\<close> is the failed assertion that the driver is linked.\<close>

definition UnregisterFilesystem ::
    "FilesystemDriver \<Rightarrow> FilesystemDriver list \<Rightarrow> (unit error_or \<times> FilesystemDriver list) option" where
  "UnregisterFilesystem driver drivers =
     (if \<not> Driver_IsLinked driver drivers then None
      else case FindFilesystemDriver (drv_FilesystemName driver) drivers of
             Inl e \<Rightarrow> Some (Inl e, drivers)
           | Inr fs \<Rightarrow> Some (Inr (), filter (\<lambda>d. drv_Id d \<noteq> drv_Id fs) drivers))"

text \<open>The driver is returned with the filesystem: it decides which \<^verbatim>\<open>Mount\<close> is called.\<close>

definition InstantiateFilesystem ::
    "string \<Rightarrow> FilesystemDriver list \<Rightarrow> vfs \<Rightarrow> (nat \<times> FilesystemDriver) error_or \<times> vfs" where
  "InstantiateFilesystem name drivers v =
     (case FindFilesystemDriver name drivers of
        Inl e \<Rightarrow> (Inl e, v)
      | Inr fsDriver \<Rightarrow>
          (case drv_Instantiate fsDriver of
             None \<Rightarrow> (Inl ENODEV, v)
           | Some instantiate \<Rightarrow>
               (case instantiate v of
                  (Inl e, v) \<Rightarrow> (Inl e, v)
                | (Inr None, v) \<Rightarrow> (Inl ENODEV, v)
                | (Inr (Some fs), v) \<Rightarrow> (Inr (fs, fsDriver), v))))"

section \<open>Parents and mounts\<close>

text \<open>A resolver on \<open>root\<close> and \<open>path\<close>, run once.\<close>

definition resolve_with :: "path_ops \<Rightarrow> nat \<Rightarrow> PathLookupFlags \<Rightarrow> nat option \<Rightarrow> string \<Rightarrow> vfs
    \<Rightarrow> (nat option error_or \<times> vfs) option" where
  "resolve_with po fuel flags root path v =
     (case PathResolver_Initialize po root path v of
        None \<Rightarrow> None
      | Some (_, p) \<Rightarrow> map_option (\<lambda>(r, p, v). (r, v)) (PathResolver_Resolve po (ResolvePath po fuel) fuel flags p v))"

text \<open>The argument \<^verbatim>\<open>parent\<close> is not used: every path starts at the root.\<close>

definition ResolveParent :: "path_ops \<Rightarrow> nat \<Rightarrow> nat option \<Rightarrow> string \<Rightarrow> vfs \<Rightarrow> (nat error_or \<times> vfs) option" where
  "ResolveParent po fuel parent path v =
     (case RootDirectoryEntry v of
        None \<Rightarrow> None
      | Some root \<Rightarrow>
          (case resolve_with po fuel LookupParent (Some root) path v of
             None \<Rightarrow> None
           | Some (Inl e, v) \<Rightarrow> Some (Inl e, v)
           | Some (Inr None, v) \<Rightarrow> None
           | Some (Inr (Some directory), v) \<Rightarrow>
               if DirectoryEntry_IsMountPoint (dentry_at v directory)
               then map_option (\<lambda>d. (Inr d, v)) (FollowMounts directory v)
               else Some (Inr directory, v)))"

text \<open>The part of \<^verbatim>\<open>Mount\<close> once the target entry is known.\<close>

definition Mount_on :: "FilesystemDriver \<Rightarrow> nat \<Rightarrow> string \<Rightarrow> nat \<Rightarrow> vfs \<Rightarrow> ((nat \<times> nat) error_or \<times> vfs) option" where
  "Mount_on driver fs sourcePath targetEntry v =
     (case RootDirectoryEntry v of
        None \<Rightarrow> None
      | Some root \<Rightarrow>
          if targetEntry \<noteq> root \<and> \<not> DirectoryEntry_IsDirectory (dentry_at v targetEntry) then Some (Inl ENOTDIR, v)
          else if DirectoryEntry_IsMountPoint (dentry_at v targetEntry) \<or> MountPoint_Lookup targetEntry v \<noteq> None
          then Some (Inl EBUSY, v)
          else case drv_Mount driver fs sourcePath v of
                 (Inl e, v) \<Rightarrow> Some (Inl e, v)
               | (Inr None, v) \<Rightarrow> Some (Inl ENODEV, v)
               | (Inr (Some fsRoot), v) \<Rightarrow>
                   let v = DirectoryEntry_SetParent fsRoot (Some targetEntry) v;
                       v = DirectoryEntry_SetMountGate targetEntry (Some fsRoot) v
                   in Some (Inr (targetEntry, fs), MountPoint_Attach (targetEntry, fs) v))"

definition VFS_Mount :: "path_ops \<Rightarrow> nat \<Rightarrow> FilesystemDriver list \<Rightarrow> nat option \<Rightarrow> string \<Rightarrow> string \<Rightarrow> string \<Rightarrow> vfs
    \<Rightarrow> ((nat \<times> nat) error_or \<times> vfs) option" where
  "VFS_Mount po fuel drivers parent sourcePath target fsName v =
     (case InstantiateFilesystem fsName drivers v of
        (Inl e, v) \<Rightarrow> Some (Inl e, v)
      | (Inr (fs, driver), v) \<Rightarrow>
          if target = [] then Some (Inl EINVAL, v)
          else case resolve_with po fuel (LookupRegular OR LookupMountPoint) parent target v of
                 None \<Rightarrow> None
               | Some (Inl e, v) \<Rightarrow> Some (Inl e, v)
               | Some (Inr None, v) \<Rightarrow> None
               | Some (Inr (Some targetEntry), v) \<Rightarrow> Mount_on driver fs sourcePath targetEntry v)"

definition MountRoot :: "path_ops \<Rightarrow> nat \<Rightarrow> FilesystemDriver list \<Rightarrow> string \<Rightarrow> vfs \<Rightarrow> ((nat \<times> nat) error_or \<times> vfs) option" where
  "MountRoot po fuel drivers filesystemName v =
     (if s_RootDirectoryEntry v \<noteq> None then Some (Inl EEXIST, v)
      else let (root, v) = new_dentry None ''/'' v;
               v = v\<lparr>s_RootDirectoryEntry := Some root\<rparr>
           in VFS_Mount po fuel drivers None [] ''/'' filesystemName v)"

section \<open>Creating nodes\<close>

text \<open>The choice by type that \<^verbatim>\<open>CreateNode\<close> makes.\<close>

definition create_by_type ::
    "vfs_env \<Rightarrow> nat \<Rightarrow> nat \<Rightarrow> mode_t \<Rightarrow> u64 \<Rightarrow> string \<Rightarrow> vfs \<Rightarrow> nat error_or \<times> vfs" where
  "create_by_type env dir entry mode dev target v =
     (if mode AND S_IFMT = S_IFREG then Synth_CreateFile env dir entry mode v
      else if mode AND S_IFMT = S_IFDIR then Synth_CreateDirectory env dir entry mode v
      else if mode AND S_IFMT = S_IFLNK then Synth_Symlink env dir entry target v
      else Synth_CreateNode env dir entry mode dev v)"

text \<open>\<^verbatim>\<open>CreateNode(directory, name, mode, dev, target)\<close>.\<close>

definition VFS_CreateNode_in ::
    "vfs_env \<Rightarrow> nat \<Rightarrow> string \<Rightarrow> mode_t \<Rightarrow> u64 \<Rightarrow> string \<Rightarrow> vfs \<Rightarrow> nat error_or \<times> vfs" where
  "VFS_CreateNode_in env directory name mode dev target v =
     (if \<not> DirectoryEntry_IsDirectory (dentry_at v directory) then (Inl ENOTDIR, v)
      else case DirectoryEntry_Lookup directory name v of
             (Some _, v) \<Rightarrow> (Inl EEXIST, v)
           | (None, v) \<Rightarrow>
               let (entry, v) = new_dentry None name v
               in case de_INode (dentry_at v directory) of
                    None \<Rightarrow> (Inl ENODEV, v)
                  | Some directoryINode \<Rightarrow>
                      (case create_by_type env directoryINode entry mode dev target v of
                         (Inl e, v) \<Rightarrow> (Inl e, v)
                       | (Inr _, v) \<Rightarrow>
                           let v = DirectoryEntry_InsertChild directory entry v;
                               v = DirectoryEntry_SetParent entry (Some directory) v
                           in (Inr entry, v)))"

definition VFS_CreateFile_in :: "vfs_env \<Rightarrow> nat \<Rightarrow> string \<Rightarrow> mode_t \<Rightarrow> vfs \<Rightarrow> nat error_or \<times> vfs" where
  "VFS_CreateFile_in env directory name mode v =
     VFS_CreateNode_in env directory name ((mode AND NOT S_IFMT) OR S_IFREG) 0 [] v"

definition VFS_CreateDirectory_in :: "vfs_env \<Rightarrow> nat \<Rightarrow> string \<Rightarrow> mode_t \<Rightarrow> vfs \<Rightarrow> nat error_or \<times> vfs" where
  "VFS_CreateDirectory_in env directory name mode v =
     VFS_CreateNode_in env directory name ((mode AND NOT S_IFMT) OR S_IFDIR) 0 [] v"

definition VFS_Symlink_in :: "vfs_env \<Rightarrow> nat \<Rightarrow> string \<Rightarrow> string \<Rightarrow> vfs \<Rightarrow> nat error_or \<times> vfs" where
  "VFS_Symlink_in env directory name targetPath v =
     VFS_CreateNode_in env directory name (0x1ff OR S_IFLNK) 0 targetPath v"

text \<open>The variants by path: the operation on the parent directory and the base name.\<close>

definition in_parent :: "path_ops \<Rightarrow> nat \<Rightarrow> string \<Rightarrow> (nat \<Rightarrow> string \<Rightarrow> vfs \<Rightarrow> nat error_or \<times> vfs) \<Rightarrow> vfs
    \<Rightarrow> (nat error_or \<times> vfs) option" where
  "in_parent po fuel path f v =
     (case RootDirectoryEntry v of
        None \<Rightarrow> None
      | Some root \<Rightarrow>
          (case ResolveParent po fuel (Some root) path v of
             None \<Rightarrow> None
           | Some (Inl e, v) \<Rightarrow> Some (Inl e, v)
           | Some (Inr directory, v) \<Rightarrow> Some (f directory (po_BaseName po path) v)))"

definition VFS_CreateNode :: "path_ops \<Rightarrow> nat \<Rightarrow> vfs_env \<Rightarrow> string \<Rightarrow> mode_t \<Rightarrow> u64 \<Rightarrow> vfs \<Rightarrow> (nat error_or \<times> vfs) option" where
  "VFS_CreateNode po fuel env path mode dev =
     in_parent po fuel path (\<lambda>directory name. VFS_CreateNode_in env directory name mode dev [])"

definition VFS_CreateFile :: "path_ops \<Rightarrow> nat \<Rightarrow> vfs_env \<Rightarrow> string \<Rightarrow> mode_t \<Rightarrow> vfs \<Rightarrow> (nat error_or \<times> vfs) option" where
  "VFS_CreateFile po fuel env path mode =
     in_parent po fuel path (\<lambda>directory name. VFS_CreateFile_in env directory name mode)"

definition VFS_CreateDirectory :: "path_ops \<Rightarrow> nat \<Rightarrow> vfs_env \<Rightarrow> string \<Rightarrow> mode_t \<Rightarrow> vfs \<Rightarrow> (nat error_or \<times> vfs) option" where
  "VFS_CreateDirectory po fuel env path mode =
     in_parent po fuel path (\<lambda>directory name. VFS_CreateDirectory_in env directory name mode)"

definition VFS_Symlink :: "path_ops \<Rightarrow> nat \<Rightarrow> vfs_env \<Rightarrow> string \<Rightarrow> string \<Rightarrow> vfs \<Rightarrow> (nat error_or \<times> vfs) option" where
  "VFS_Symlink po fuel env path targetPath =
     in_parent po fuel path (\<lambda>directory name. VFS_Symlink_in env directory name targetPath)"

section \<open>Links\<close>

text \<open>
  \<^verbatim>\<open>Link\<close> on entries.  The name looked up in the new parent is the old one.
\<close>

definition VFS_Link_in :: "vfs_env \<Rightarrow> nat \<Rightarrow> string \<Rightarrow> nat \<Rightarrow> string \<Rightarrow> vfs \<Rightarrow> (nat error_or \<times> vfs) option" where
  "VFS_Link_in env oldParent oldName newParent newName v =
     (case DirectoryEntry_Lookup oldParent oldName v of
        (None, v) \<Rightarrow> Some (Inl ENOENT, v)
      | (Some oldEntry, v) \<Rightarrow>
          if DirectoryEntry_IsDirectory (dentry_at v oldEntry) then Some (Inl EPERM, v)
          else case DirectoryEntry_Lookup newParent oldName v of
                 (Some _, v) \<Rightarrow> Some (Inl EEXIST, v)
               | (None, v) \<Rightarrow>
                   let (newEntry, v) = new_dentry None newName v
                   in case de_INode (dentry_at v newParent) of
                        None \<Rightarrow> None
                      | Some newParentINode \<Rightarrow>
                          (case Synth_Link env newParentINode oldEntry newEntry v of
                             (Inl e, v) \<Rightarrow> Some (Inl e, v)
                           | (Inr _, v) \<Rightarrow>
                               let v = DirectoryEntry_InsertChild newParent newEntry v;
                                   v = DirectoryEntry_SetParent newEntry (Some newParent) v
                               in Some (Inr newEntry, v)))"

definition VFS_Link :: "path_ops \<Rightarrow> nat \<Rightarrow> vfs_env \<Rightarrow> string \<Rightarrow> string \<Rightarrow> vfs \<Rightarrow> (nat error_or \<times> vfs) option" where
  "VFS_Link po fuel env oldPath newPath v =
     (case ResolveParent po fuel None oldPath v of
        None \<Rightarrow> None
      | Some (Inl e, v) \<Rightarrow> Some (Inl e, v)
      | Some (Inr oldParent, v) \<Rightarrow>
          (case ResolveParent po fuel None newPath v of
             None \<Rightarrow> None
           | Some (Inl e, v) \<Rightarrow> Some (Inl e, v)
           | Some (Inr newParent, v) \<Rightarrow>
               VFS_Link_in env oldParent (po_BaseName po oldPath) newParent (po_BaseName po newPath) v))"

section \<open>Finding drivers\<close>

lemma fold_last_match:
  "fold (\<lambda>x found. if P x then Some x else found) xs a = (case filter P xs of [] \<Rightarrow> a | ys \<Rightarrow> Some (last ys))"
  by (induction xs arbitrary: a) (auto split: list.split)

lemma FindFilesystemDriver_absent:
  "name \<notin> drv_FilesystemName ` set ds \<Longrightarrow> FindFilesystemDriver name ds = Inl ENODEV"
proof -
  assume "name \<notin> drv_FilesystemName ` set ds"
  then have "filter (\<lambda>fs. drv_FilesystemName fs = name) ds = []" by (auto simp: filter_empty_conv)
  then show ?thesis by (simp add: FindFilesystemDriver_def fold_last_match)
qed

lemma FindFilesystemDriver_append:
  "FindFilesystemDriver name (ds @ [d]) = (if drv_FilesystemName d = name then Inr d else FindFilesystemDriver name ds)"
  by (simp add: FindFilesystemDriver_def)

lemma FindFilesystemDriver_found: "FindFilesystemDriver name ds = Inl e \<Longrightarrow> name \<notin> drv_FilesystemName ` set ds"
  by (auto simp: FindFilesystemDriver_def fold_last_match filter_empty_conv split: list.splits option.splits)

lemma find_append_last: "find P xs = None \<Longrightarrow> find P (xs @ [x]) = (if P x then Some x else None)"
  by (induction xs) (auto split: if_splits)

section \<open>What creation does\<close>

lemma CreateNode_other_dentries:
  assumes "d \<noteq> entry"
  shows "dentry_at (snd (Synth_CreateNode env dir entry mode dev v)) d = dentry_at v d"
  using assms
  by (simp add: Synth_CreateNode_def TmpFs_AllocateNode_def Let_def DirectoryEntry_Bind_def Synth_InsertChild_def del: inode_at_upd(1))

lemma create_by_type_succeeds:
  assumes "can_create dir entry v" and "dir_map v dir (de_Name (dentry_at v entry)) = None"
  obtains v' where "create_by_type env dir entry mode dev target v = (Inr entry, v')"
    "dir_map v' dir = (dir_map v dir)(de_Name (dentry_at v entry) \<mapsto> length (vfs_inodes v))"
    "\<forall>j < length (vfs_inodes v). j \<noteq> dir \<longrightarrow> dir_map v' j = dir_map v j"
    "length (vfs_dentries v') = length (vfs_dentries v)"
    "de_INode (dentry_at v' entry) = Some (length (vfs_inodes v))" "de_Name (dentry_at v' entry) = de_Name (dentry_at v entry)"
    "\<forall>d. d \<noteq> entry \<longrightarrow> dentry_at v' d = dentry_at v d"
proof -
  let ?N = "length (vfs_inodes v)" and ?nm = "de_Name (dentry_at v entry)"
  have core: "\<exists>v1. Synth_CreateNode env dir entry m de v = (Inr entry, v1) \<and> dir_map v1 dir = (dir_map v dir)(?nm \<mapsto> ?N) \<and>
      (\<forall>j < ?N. j \<noteq> dir \<longrightarrow> dir_map v1 j = dir_map v j) \<and> length (vfs_dentries v1) = length (vfs_dentries v) \<and>
      de_INode (dentry_at v1 entry) = Some ?N \<and> de_Name (dentry_at v1 entry) = ?nm \<and> (\<forall>d. d \<noteq> entry \<longrightarrow> dentry_at v1 d = dentry_at v d)"
    for m de
    by (rule CreateNode_succeeds [OF assms, of env m de])
      (use CreateNode_other_dentries [of _ entry env dir m de v] in auto)
  let ?ok = "\<lambda>v'. dir_map v' dir = (dir_map v dir)(?nm \<mapsto> ?N) \<and>
      (\<forall>j < ?N. j \<noteq> dir \<longrightarrow> dir_map v' j = dir_map v j) \<and> length (vfs_dentries v') = length (vfs_dentries v) \<and>
      de_INode (dentry_at v' entry) = Some ?N \<and> de_Name (dentry_at v' entry) = ?nm \<and> (\<forall>d. d \<noteq> entry \<longrightarrow> dentry_at v' d = dentry_at v d)"
  have upd: "?ok (upd_inode k f v1)" if "?ok v1" "\<And>n. in_Children (f n) = in_Children n" for k f v1
  proof -
    have "in_Children (inode_at (upd_inode k f v1) j) = in_Children (inode_at v1 j)" for j using that(2) by simp
    then show ?thesis using that(1) by (simp del: inode_at_upd(1))
  qed
  have "\<exists>v'. create_by_type env dir entry mode dev target v = (Inr entry, v') \<and> ?ok v'"
  proof -
    consider "mode AND S_IFMT = S_IFREG" | "mode AND S_IFMT \<noteq> S_IFREG" "mode AND S_IFMT = S_IFDIR"
      | "mode AND S_IFMT \<noteq> S_IFREG" "mode AND S_IFMT \<noteq> S_IFDIR" "mode AND S_IFMT = S_IFLNK"
      | "mode AND S_IFMT \<noteq> S_IFREG" "mode AND S_IFMT \<noteq> S_IFDIR" "mode AND S_IFMT \<noteq> S_IFLNK" by blast
    then show ?thesis
    proof cases
      case 1
      then show ?thesis using core by (simp add: create_by_type_def Synth_CreateFile_def)
    next
      case 2
      obtain v1 where v1: "Synth_CreateNode env dir entry ((mode AND NOT S_IFMT) OR S_IFDIR) 0 v = (Inr entry, v1)" "?ok v1"
        using core by blast
      have "create_by_type env dir entry mode dev target v =
          (Inr entry, upd_inode dir (\<lambda>n. n\<lparr>in_Metadata := (in_Metadata n)\<lparr>LinkCount := LinkCount (in_Metadata n) + 1\<rparr>\<rparr>) v1)"
        using 2 v1(1) by (simp add: create_by_type_def Synth_CreateDirectory_def upd_meta_def)
      moreover have "?ok (upd_inode dir (\<lambda>n. n\<lparr>in_Metadata := (in_Metadata n)\<lparr>LinkCount := LinkCount (in_Metadata n) + 1\<rparr>\<rparr>) v1)"
        by (rule upd [OF v1(2)]) simp
      ultimately show ?thesis by blast
    next
      case 3
      obtain v1 where v1: "Synth_CreateNode env dir entry (0x1ff OR S_IFLNK) 0 v = (Inr entry, v1)" "?ok v1"
        using core by blast
      have "create_by_type env dir entry mode dev target v = (Inr entry, upd_inode ?N (\<lambda>n. n\<lparr>in_Target := target\<rparr>) v1)"
        using 3 v1 by (simp add: create_by_type_def Synth_Symlink_def)
      moreover have "?ok (upd_inode ?N (\<lambda>n. n\<lparr>in_Target := target\<rparr>) v1)" by (rule upd [OF v1(2)]) simp
      ultimately show ?thesis by blast
    next
      case 4
      then show ?thesis using core by (simp add: create_by_type_def)
    qed
  qed
  then show thesis using that by blast
qed

section \<open>Properties\<close>

text \<open>
  Registering drivers keeps their names distinct, and is the insertion of a new name into
  the map from names to drivers: the driver is found under its name, all others as before; a refused
  driver leaves the list as it was.
\<close>

theorem RegisterFilesystem_adds_driver:
  assumes "distinct (map drv_FilesystemName ds)"
  shows "case RegisterFilesystem d ds of
      (Inr _, ds') \<Rightarrow> distinct (map drv_FilesystemName ds') \<and> FindFilesystemDriver (drv_FilesystemName d) ds' = Inr d \<and>
        (\<forall>n. n \<noteq> drv_FilesystemName d \<longrightarrow> FindFilesystemDriver n ds' = FindFilesystemDriver n ds)
    | (Inl e, ds') \<Rightarrow> ds' = ds \<and> (e = EBUSY \<and> Driver_IsLinked d ds \<or> e = EEXIST \<and> drv_FilesystemName d \<in> drv_FilesystemName ` set ds)"
proof -
  have "drv_FilesystemName d \<in> drv_FilesystemName ` set ds" if "FindFilesystemDriver (drv_FilesystemName d) ds = Inr x" for x
    using that FindFilesystemDriver_absent [of "drv_FilesystemName d" ds] by force
  then show ?thesis
    using assms FindFilesystemDriver_found [of "drv_FilesystemName d" ds]
    by (auto simp: RegisterFilesystem_def FindFilesystemDriver_append split: sum.split)
qed

definition demo_driver :: "nat \<Rightarrow> string \<Rightarrow> FilesystemDriver" where
  "demo_driver n name = \<lparr>drv_Id = n, drv_FilesystemName = name,
     drv_Instantiate = Some (\<lambda>v. (Inr (Some 0), v)),
     drv_Mount = (\<lambda>fs source v. case TmpFs_Mount demo_env fs v of (Inl e, v) \<Rightarrow> (Inl e, v) | (Inr e, v) \<Rightarrow> (Inr (Some e), v))\<rparr>"

theorem RegisterFilesystem_adds_driver_witness:
  "FindFilesystemDriver ''tmpfs'' (snd (RegisterFilesystem (demo_driver 1 ''tmpfs'') [demo_driver 0 ''devfs''])) = Inr (demo_driver 1 ''tmpfs'')"
  using RegisterFilesystem_adds_driver [of "[demo_driver 0 ''devfs'']" "demo_driver 1 ''tmpfs''"]
  by (simp add: RegisterFilesystem_def Driver_IsLinked_def FindFilesystemDriver_def demo_driver_def)

text \<open>
  Creating a node of any type under a new name in a directory succeeds while the filesystem
  has inodes; the name then leads to the new node in the directory and in the entry cache, the other
  directories keep their names, and creating the name again is refused.
\<close>

theorem CreateNode_then_Lookup:
  assumes "d < length (vfs_dentries v)" "DirectoryEntry_IsDirectory (dentry_at v d)" "de_INode (dentry_at v d) = Some i"
    and "can_create i d v" "map_of (de_Children (dentry_at v d)) name = None" "dir_map v i name = None"
  shows "\<exists>e v'. VFS_CreateNode_in env d name mode dev target v = (Inr e, v') \<and>
    DirectoryEntry_Lookup d name v' = (Some e, v') \<and> de_INode (dentry_at v' e) = Some (length (vfs_inodes v)) \<and>
    dir_map v' i = (dir_map v i)(name \<mapsto> length (vfs_inodes v)) \<and>
    (\<forall>j < length (vfs_inodes v). j \<noteq> i \<longrightarrow> dir_map v' j = dir_map v j) \<and>
    VFS_CreateNode_in env' d name mode' dev' target' v' = (Inl EEXIST, v')"
proof -
  let ?D = "vfs_dentries v @ [fresh_dentry None name, fresh_dentry None name]"
  let ?e = "Suc (length (vfs_dentries v))" and ?N = "length (vfs_inodes v)"
  define v2 where "v2 = v\<lparr>vfs_dentries := ?D\<rparr>"
  have at: "dentry_at v2 d = dentry_at v d" "dentry_at v2 ?e = fresh_dentry None name" "vfs_inodes v2 = vfs_inodes v"
    "length (vfs_dentries v2) = Suc ?e" "vfs_filesystems v2 = vfs_filesystems v"
    using assms(1) by (simp_all add: v2_def nth_append)
  have "can_create i ?e v2" "dir_map v2 i (de_Name (dentry_at v2 ?e)) = None"
    using assms(4,6) at by (simp_all add: can_create_def)
  from create_by_type_succeeds [OF this, of env mode dev target] obtain v3 where
    c: "create_by_type env i ?e mode dev target v2 = (Inr ?e, v3)" "dir_map v3 i = (dir_map v i)(name \<mapsto> ?N)"
      "\<forall>j < ?N. j \<noteq> i \<longrightarrow> dir_map v3 j = dir_map v j" "length (vfs_dentries v3) = Suc ?e"
      "de_INode (dentry_at v3 ?e) = Some ?N" "de_Name (dentry_at v3 ?e) = name" "dentry_at v3 d = dentry_at v d"
    using at assms(1) by (metis DirectoryEntry.select_convs(1) less_Suc_eq less_irrefl)
  let ?v = "DirectoryEntry_SetParent ?e (Some d) (DirectoryEntry_InsertChild d ?e v3)"
  have dd: "dentry_at ?v d = (dentry_at v d)\<lparr>de_Children := AList.update name ?e (de_Children (dentry_at v d))\<rparr>"
    "de_INode (dentry_at ?v ?e) = Some ?N" "vfs_inodes ?v = vfs_inodes v3"
    using assms(1) c(4-7) by (simp_all add: DirectoryEntry_SetParent_def DirectoryEntry_InsertChild_def)
  have "VFS_CreateNode_in env d name mode dev target v = (Inr ?e, ?v)"
    using assms(2,3) Lookup_absent [OF assms(5,3,6)] c(1) at(1)
    by (simp add: VFS_CreateNode_in_def new_dentry_def v2_def)
  moreover have look: "DirectoryEntry_Lookup d name ?v = (Some ?e, ?v)"
    by (rule Lookup_cached) (simp add: dd(1) update_conv')
  moreover have "VFS_CreateNode_in env' d name mode' dev' target' ?v = (Inl EEXIST, ?v)"
    using assms(2) look dd(1) by (simp add: VFS_CreateNode_in_def DirectoryEntry_IsDirectory_def)
  ultimately show ?thesis using c(2,3) dd(2,3) by (intro exI [of _ ?e] exI [of _ ?v]) simp
qed

theorem CreateNode_then_Lookup_witness:
  "\<exists>e v'. VFS_CreateNode_in demo_env 0 ''n'' 0x81a4 0 [] demo_tree = (Inr e, v') \<and> DirectoryEntry_Lookup 0 ''n'' v' = (Some e, v')"
proof -
  have "0 < length (vfs_dentries demo_tree)" "DirectoryEntry_IsDirectory (dentry_at demo_tree 0)"
    "de_INode (dentry_at demo_tree 0) = Some 0" "can_create 0 0 demo_tree"
    "map_of (de_Children (dentry_at demo_tree 0)) ''n'' = None" "dir_map demo_tree 0 ''n'' = None"
    by code_simp+
  from CreateNode_then_Lookup [OF this, of demo_env "0x81a4" 0 "[]" demo_env 0 0 "[]"] show ?thesis by blast
qed

text \<open>
  Claim C38. Mounting a filesystem on a directory that is not a mount point makes the directory lead to
  the root of the filesystem, whose parent becomes the directory; the mount is recorded, and mounting
  on the directory again is refused.
\<close>

theorem Mount_redirects_target:
  assumes "RootDirectoryEntry v = Some root" "DirectoryEntry_IsDirectory (dentry_at v target)"
    and "\<not> DirectoryEntry_IsMountPoint (dentry_at v target)" "MountPoint_Lookup target v = None"
    and "drv_Mount driver fs source v = (Inr (Some fsRoot), v1)"
    and "target < length (vfs_dentries v1)" "fsRoot < length (vfs_dentries v1)" "fsRoot \<noteq> target"
    and "dentry_at v1 target = dentry_at v target" "de_MountGate (dentry_at v1 fsRoot) = None" "vfs_mounts v1 = vfs_mounts v"
  shows "\<exists>v'. Mount_on driver fs source target v = Some (Inr (target, fs), v') \<and>
    FollowMounts target v' = Some fsRoot \<and> de_Parent (dentry_at v' fsRoot) = Some target \<and>
    MountPoint_Lookup target v' = Some (target, fs) \<and>
    (RootDirectoryEntry v' \<noteq> None \<longrightarrow> Mount_on driver' fs' source' target v' = Some (Inl EBUSY, v'))"
proof -
  let ?v = "MountPoint_Attach (target, fs) (DirectoryEntry_SetMountGate target (Some fsRoot)
      (DirectoryEntry_SetParent fsRoot (Some target) v1))"
  have at: "de_MountGate (dentry_at ?v target) = Some fsRoot" "de_MountGate (dentry_at ?v fsRoot) = None"
    "de_Parent (dentry_at ?v fsRoot) = Some target" "vfs_mounts ?v = vfs_mounts v @ [(target, fs)]"
    "de_Flags (dentry_at ?v target) = (let f = de_Flags (dentry_at v target) in
       (if f AND eEntryTypeMask = 0 then f OR eDirectory else f) OR eMountPoint)"
    using assms(6-11)
    by (simp_all add: MountPoint_Attach_def DirectoryEntry_SetMountGate_def DirectoryEntry_SetParent_def upd_dentry_def nth_list_update Let_def)
  have fm: "FollowMounts target ?v = Some fsRoot"
    using at(1,2) by (simp add: FollowMounts.simps [of target] FollowMounts.simps [of fsRoot])
  have lk: "MountPoint_Lookup target ?v = Some (target, fs)"
    using assms(4) at(4) by (simp add: MountPoint_Lookup_def find_append_last)
  have "DirectoryEntry_IsDirectory (dentry_at ?v target)"
    using assms(2) at(5) by (simp add: DirectoryEntry_IsDirectory_def Let_def bit.conj_disj_distrib2 or_eq_0_iff eDirectory_def split: if_splits)
  then have "Mount_on driver' fs' source' target ?v = Some (Inl EBUSY, ?v)" if "RootDirectoryEntry ?v \<noteq> None"
    using that lk by (auto simp: Mount_on_def)
  moreover have "Mount_on driver fs source target v = Some (Inr (target, fs), ?v)"
    using assms(1-5) by (simp add: Mount_on_def)
  ultimately show ?thesis using fm lk at(3) by blast
qed

text \<open>A state with a second entry for a directory, and a fresh filesystem to mount there.\<close>

definition demo_mountable :: vfs where
  "demo_mountable =
     demo_tree\<lparr>vfs_dentries := [(dentry_at demo_tree 0)\<lparr>de_Children := [(''d'', 1)]\<rparr>,
         (demo_dentry ''d'')\<lparr>de_INode := Some 1, de_Parent := Some 0, de_Flags := eDirectory\<rparr>]\<rparr>"

theorem Mount_redirects_target_witness:
  "\<exists>v'. Mount_on (demo_driver 0 ''tmpfs'') 0 [] 1 demo_mountable = Some (Inr (1, 0), v') \<and>
     FollowMounts 1 v' = Some 2 \<and> de_Parent (dentry_at v' 2) = Some 1"
proof -
  let ?v1 = "snd (drv_Mount (demo_driver 0 ''tmpfs'') 0 [] demo_mountable)"
  have *: "s_RootDirectoryEntry demo_mountable = Some 0" "de_MountGate (dentry_at demo_mountable 0) = None"
    "DirectoryEntry_IsDirectory (dentry_at demo_mountable 1)" "\<not> DirectoryEntry_IsMountPoint (dentry_at demo_mountable 1)"
    "MountPoint_Lookup 1 demo_mountable = None" "fst (drv_Mount (demo_driver 0 ''tmpfs'') 0 [] demo_mountable) = Inr (Some 2)"
    "length (vfs_dentries ?v1) = 3" "dentry_at ?v1 1 = dentry_at demo_mountable 1" "de_MountGate (dentry_at ?v1 2) = None"
    "vfs_mounts ?v1 = vfs_mounts demo_mountable"
    by code_simp+
  have "FollowMounts 0 demo_mountable = Some 0" using *(2) by (simp add: FollowMounts.simps)
  then have "RootDirectoryEntry demo_mountable = Some 0" using *(1) by (simp add: RootDirectoryEntry_def)
  moreover have "drv_Mount (demo_driver 0 ''tmpfs'') 0 [] demo_mountable = (Inr (Some 2), ?v1)" using *(6) by (metis prod.collapse)
  ultimately show ?thesis
    using Mount_redirects_target [OF _ *(3-5), of 0 "demo_driver 0 ''tmpfs''" 0 "[]" 2 ?v1 "demo_driver 0 ''tmpfs''" 0 "[]"] *(7-10) by auto
qed

text \<open>
  \<^verbatim>\<open>Link\<close> looks for the old name in the new parent: when the new name exists there and
  the old one does not, linking succeeds and the new name silently leads to the other file.
\<close>

theorem Link_replaces_existing_name:
  assumes "map_of (de_Children (dentry_at v oldParent)) oldName = Some old" "\<not> DirectoryEntry_IsDirectory (dentry_at v old)"
    and "de_INode (dentry_at v old) = Some f" "\<not> INode_IsDirectory (in_Metadata (inode_at v f))"
    and "de_INode (dentry_at v newParent) = Some np" "newParent < length (vfs_dentries v)" "old < length (vfs_dentries v)"
    and "map_of (de_Children (dentry_at v newParent)) oldName = None" "dir_map v np oldName = None"
    and "map_of (de_Children (dentry_at v newParent)) newName = Some x" "x < length (vfs_dentries v)"
  shows "\<exists>e v'. VFS_Link_in env oldParent oldName newParent newName v = Some (Inr e, v') \<and> e \<noteq> x \<and>
    DirectoryEntry_Lookup newParent newName v' = (Some e, v') \<and> de_INode (dentry_at v' e) = Some f"
proof -
  let ?D = "vfs_dentries v @ [fresh_dentry None oldName, fresh_dentry None newName]"
  let ?e = "Suc (length (vfs_dentries v))"
  define v2 where "v2 = v\<lparr>vfs_dentries := ?D\<rparr>"
  have at: "dentry_at v2 newParent = dentry_at v newParent" "dentry_at v2 old = dentry_at v old"
    "dentry_at v2 ?e = fresh_dentry None newName" "vfs_inodes v2 = vfs_inodes v" "length (vfs_dentries v2) = Suc ?e"
    using assms(6,7) by (simp_all add: v2_def nth_append)
  let ?v3 = "DirectoryEntry_Bind ?e f (upd_meta f (relink (ve_now env) 1) (upd_inode np (grow_dir env DIRECTORY_ENTRY_SIZE) v2))"
  have link: "Synth_Link env np old ?e v2 = (Inr ?e, ?v3)"
    using assms(3,4) at by (simp add: Synth_Link_def Let_def)
  let ?v = "DirectoryEntry_SetParent ?e (Some newParent) (DirectoryEntry_InsertChild newParent ?e ?v3)"
  have "VFS_Link_in env oldParent oldName newParent newName v = Some (Inr ?e, ?v)"
    using assms(2,5) Lookup_cached [OF assms(1)] Lookup_absent [OF assms(8,5,9)] link at(1)
    by (simp add: VFS_Link_in_def new_dentry_def v2_def)
  moreover have "de_Children (dentry_at ?v newParent) = AList.update newName ?e (de_Children (dentry_at v newParent))"
    "de_INode (dentry_at ?v ?e) = Some f"
    using assms(6) at by (simp_all add: DirectoryEntry_SetParent_def DirectoryEntry_InsertChild_def DirectoryEntry_Bind_def upd_meta_def)
  moreover from this(1) have "DirectoryEntry_Lookup newParent newName ?v = (Some ?e, ?v)"
    by (intro Lookup_cached) (simp add: update_conv')
  ultimately show ?thesis using assms(11) by (intro exI [of _ ?e] exI [of _ ?v]) simp
qed

text \<open>The root has a file \<^verbatim>\<open>a\<close>, entry 2; its directory \<^verbatim>\<open>d\<close> has a file \<^verbatim>\<open>f\<close>, entry 3.\<close>

definition demo_link :: vfs where
  "demo_link =
     demo_tree\<lparr>vfs_inodes := vfs_inodes demo_tree @ [SynthFsINode_make demo_env ''a'' 0 0 5 0x81a4],
       vfs_dentries := [(dentry_at demo_tree 0)\<lparr>de_Children := [(''d'', 1), (''a'', 2)]\<rparr>,
         (demo_dentry ''d'')\<lparr>de_INode := Some 1, de_Parent := Some 0, de_Flags := eDirectory, de_Children := [(''f'', 3)]\<rparr>,
         (demo_dentry ''a'')\<lparr>de_INode := Some 3, de_Parent := Some 0, de_Flags := eRegular\<rparr>,
         (demo_dentry ''f'')\<lparr>de_INode := Some 2, de_Parent := Some 1, de_Flags := eRegular\<rparr>]\<rparr>"

theorem Link_replaces_existing_name_witness:
  "\<exists>e v'. VFS_Link_in demo_env 0 ''a'' 1 ''f'' demo_link = Some (Inr e, v') \<and> e \<noteq> 3 \<and>
     DirectoryEntry_Lookup 1 ''f'' v' = (Some e, v') \<and> de_INode (dentry_at v' e) = Some 3"
  by (rule Link_replaces_existing_name [where old = 2 and np = 1]) code_simp+

end
