(* ===== verification/File_Descriptors.thy ===== *)
theory File_Descriptors
  imports Vfs_Operations
begin

unbundle bit_operations_syntax

text \<open>
  Open files: \<^verbatim>\<open>VFS/File.cpp\<close>, \<^verbatim>\<open>VFS/FileDescriptor.cpp\<close>, \<^verbatim>\<open>VFS/FileDescriptorTable.cpp\<close>, and
  \<^verbatim>\<open>Open\<close> of \<^verbatim>\<open>VFS/VFS.cpp\<close> with the flags of \<^verbatim>\<open>API/Posix/fcntl.h\<close>.
\<close>

section \<open>Flags\<close>

definition O_RDONLY :: usize where "O_RDONLY = 0"
definition O_WRONLY :: usize where "O_WRONLY = 1"
definition O_RDWR :: usize where "O_RDWR = 2"
definition O_CREAT :: usize where "O_CREAT = 0x100"
definition O_EXCL :: usize where "O_EXCL = 0x200"
definition O_NOCTTY :: usize where "O_NOCTTY = 0x400"
definition O_TRUNC :: usize where "O_TRUNC = 0x1000"
definition O_APPEND :: usize where "O_APPEND = 0x2000"
definition O_NONBLOCK :: usize where "O_NONBLOCK = 0x4000"
definition O_DSYNC :: usize where "O_DSYNC = 0x1000"
definition O_ASYNC :: usize where "O_ASYNC = 0x2000"
definition O_DIRECT :: usize where "O_DIRECT = 0x4000"
definition O_DIRECTORY :: usize where "O_DIRECTORY = 0x10000"
definition O_NOFOLLOW :: usize where "O_NOFOLLOW = 0x20000"
definition O_CLOEXEC :: usize where "O_CLOEXEC = 0x80000"
definition O_PATH :: usize where "O_PATH = 0x200000"
definition O_TMPFILE :: usize where "O_TMPFILE = 0x400000"
definition O_ACCMODE :: usize where "O_ACCMODE = O_PATH OR 3"

lemmas open_flag_defs [vfs_defs] = O_RDONLY_def O_WRONLY_def O_RDWR_def O_CREAT_def O_EXCL_def O_NOCTTY_def O_TRUNC_def
  O_APPEND_def O_NONBLOCK_def O_DSYNC_def O_ASYNC_def O_DIRECT_def O_DIRECTORY_def O_NOFOLLOW_def O_CLOEXEC_def
  O_PATH_def O_TMPFILE_def O_ACCMODE_def

definition SEEK_SET :: usize where "SEEK_SET = 0"
definition SEEK_CUR :: usize where "SEEK_CUR = 1"
definition SEEK_END :: usize where "SEEK_END = 2"

definition off_t_max :: usize where "off_t_max = 0x7fffffffffffffff"

text \<open>\<^verbatim>\<open>FileAccessMode\<close>, a set of bits.\<close>

definition eNoAccess :: u64 where "eNoAccess = 0"
definition eReadAccess :: u64 where "eReadAccess = 1"
definition eWriteAccess :: u64 where "eWriteAccess = 2"

section \<open>Files\<close>

text \<open>
  A \<^verbatim>\<open>File\<close> on an inode, or a device, whose overriding methods are arguments.
\<close>

datatype File = INodeFile nat | DeviceFile nat

record file_methods =
  fm_Read :: "nat \<Rightarrow> usize \<Rightarrow> usize \<Rightarrow> vfs \<Rightarrow> (u8 list error_or \<times> vfs) option"
  fm_Write :: "nat \<Rightarrow> u8 list \<Rightarrow> usize \<Rightarrow> vfs \<Rightarrow> (usize error_or \<times> vfs) option"
  fm_Size :: "nat \<Rightarrow> vfs \<Rightarrow> usize"
  fm_Stat :: "nat \<Rightarrow> vfs \<Rightarrow> stat error_or"
  fm_Truncate :: "nat \<Rightarrow> usize \<Rightarrow> vfs \<Rightarrow> usize error_or \<times> vfs"
  fm_IsDirectory :: "nat \<Rightarrow> bool"
  fm_IsRegular :: "nat \<Rightarrow> bool"
  fm_IsSocket :: "nat \<Rightarrow> bool"
  fm_IsFifo :: "nat \<Rightarrow> bool"

fun File_Size :: "file_methods \<Rightarrow> File \<Rightarrow> vfs \<Rightarrow> usize" where
  "File_Size fm (INodeFile i) v = st_size (INode_Stats (in_Metadata (inode_at v i)))"
| "File_Size fm (DeviceFile k) v = fm_Size fm k v"

fun File_Read :: "file_methods \<Rightarrow> vfs_env \<Rightarrow> File \<Rightarrow> usize \<Rightarrow> usize \<Rightarrow> vfs \<Rightarrow> (u8 list error_or \<times> vfs) option" where
  "File_Read fm env (INodeFile i) count offset v =
     (if INode_IsDirectory (in_Metadata (inode_at v i)) then Some (Inl EISDIR, v)
      else map_option (\<lambda>(out, v). (Inr out, v)) (Synth_Read env i offset count v))"
| "File_Read fm env (DeviceFile k) count offset v = fm_Read fm k count offset v"

fun File_Write :: "file_methods \<Rightarrow> vfs_env \<Rightarrow> File \<Rightarrow> u8 list \<Rightarrow> usize \<Rightarrow> vfs \<Rightarrow> (usize error_or \<times> vfs) option" where
  "File_Write fm env (INodeFile i) buf offset v =
     (if INode_IsDirectory (in_Metadata (inode_at v i)) then Some (Inl EISDIR, v)
      else map_option (\<lambda>(n, v). (Inr n, v)) (Synth_Write env i buf offset v))"
| "File_Write fm env (DeviceFile k) buf offset v = fm_Write fm k buf offset v"

fun File_Stat :: "file_methods \<Rightarrow> File \<Rightarrow> vfs \<Rightarrow> stat error_or" where
  "File_Stat fm (INodeFile i) v = Inr (INode_Stats (in_Metadata (inode_at v i)))"
| "File_Stat fm (DeviceFile k) v = fm_Stat fm k v"

fun File_Truncate :: "file_methods \<Rightarrow> vfs_env \<Rightarrow> File \<Rightarrow> usize \<Rightarrow> vfs \<Rightarrow> usize error_or \<times> vfs" where
  "File_Truncate fm env (INodeFile i) sz v = Synth_Truncate env i sz v"
| "File_Truncate fm env (DeviceFile k) sz v = fm_Truncate fm k sz v"

text \<open>The type tests of \<^verbatim>\<open>File\<close> itself do not ask the inode.\<close>

fun File_IsDirectory :: "file_methods \<Rightarrow> File \<Rightarrow> bool" where
  "File_IsDirectory fm (INodeFile i) = False"
| "File_IsDirectory fm (DeviceFile k) = fm_IsDirectory fm k"

fun File_IsRegular :: "file_methods \<Rightarrow> File \<Rightarrow> bool" where
  "File_IsRegular fm (INodeFile i) = False"
| "File_IsRegular fm (DeviceFile k) = fm_IsRegular fm k"

fun File_IsSocket :: "file_methods \<Rightarrow> File \<Rightarrow> bool" where
  "File_IsSocket fm (INodeFile i) = False"
| "File_IsSocket fm (DeviceFile k) = fm_IsSocket fm k"

fun File_IsFifo :: "file_methods \<Rightarrow> File \<Rightarrow> bool" where
  "File_IsFifo fm (INodeFile i) = False"
| "File_IsFifo fm (DeviceFile k) = fm_IsFifo fm k"

section \<open>Directory records\<close>

record dirent =
  d_ino :: u64
  d_off :: u64
  d_reclen :: "16 word"
  d_type :: u8
  d_name :: string

text \<open>19 bytes of fields and 1024 of name, aligned to 8.\<close>

definition sizeof_dirent :: usize where "sizeof_dirent = 1048"
definition MAXNAMELEN :: usize where "MAXNAMELEN = 1024"
definition DIRENT_LENGTH :: usize where "DIRENT_LENGTH = sizeof_dirent - MAXNAMELEN"

record DirectoryEntries =
  des_Entries :: "dirent list"
  des_Size :: usize
  des_ShouldRegenerate :: bool

definition DirectoryEntries_IsEmpty :: "DirectoryEntries \<Rightarrow> bool" where
  "DirectoryEntries_IsEmpty des \<longleftrightarrow> des_Entries des = []"

definition DirectoryEntries_Clear :: "DirectoryEntries \<Rightarrow> DirectoryEntries" where
  "DirectoryEntries_Clear des = des\<lparr>des_Entries := []\<rparr>"

definition make_dirent :: "(u64 \<Rightarrow> usize \<Rightarrow> u64) \<Rightarrow> string \<Rightarrow> u64 \<Rightarrow> u64 \<Rightarrow> dirent" where
  "make_dirent alignUp name ino type =
     (let reclen = alignUp (DIRENT_LENGTH + of_nat (length name) + 1) 8
      in \<lparr>d_ino = ino, d_off = reclen, d_reclen = ucast reclen, d_type = ucast type, d_name = name\<rparr>)"

definition DirectoryEntries_Push ::
    "(u64 \<Rightarrow> usize \<Rightarrow> u64) \<Rightarrow> string \<Rightarrow> u64 \<Rightarrow> u64 \<Rightarrow> DirectoryEntries \<Rightarrow> DirectoryEntries" where
  "DirectoryEntries_Push alignUp name ino type des =
     (let entry = make_dirent alignUp name ino type
      in des\<lparr>des_Entries := des_Entries des @ [entry], des_Size := des_Size des + ucast (d_reclen entry)\<rparr>)"

text \<open>The record copied, if any, and the number of bytes copied.\<close>

definition CopyAndPop :: "usize \<Rightarrow> DirectoryEntries \<Rightarrow> dirent option \<times> usize \<times> DirectoryEntries" where
  "CopyAndPop capacity des =
     (case des_Entries des of
        [] \<Rightarrow> (None, 0, des)
      | entry # rest \<Rightarrow>
          let entrySize = ucast (d_reclen entry)
          in if capacity < entrySize then (None, 0, des)
             else (Some entry, entrySize, des\<lparr>des_Entries := rest\<rparr>))"

section \<open>File descriptors\<close>

text \<open>The iterator is the position in the children of the entry.\<close>

record FileDescriptor =
  fd_DirectoryEntry :: nat
  fd_File :: "File option"
  fd_AccessMode :: u64
  fd_Offset :: usize
  fd_Flags :: u32
  fd_DescriptionFlags :: u32
  fd_DirEntries :: DirectoryEntries
  fd_DirectoryIterator :: nat

definition description_flags :: "u32 \<Rightarrow> u32" where
  "description_flags flags = ucast (scast flags AND NOT (O_CREAT OR O_DIRECTORY OR O_EXCL OR O_NOCTTY OR O_NOFOLLOW OR O_TRUNC OR O_CLOEXEC))"

definition FileDescriptor_with :: "nat \<Rightarrow> File option \<Rightarrow> u32 \<Rightarrow> u64 \<Rightarrow> FileDescriptor" where
  "FileDescriptor_with dentry file flags accMode =
     \<lparr>fd_DirectoryEntry = dentry, fd_File = file, fd_AccessMode = accMode, fd_Offset = 0,
      fd_Flags = ucast (scast flags AND O_CLOEXEC), fd_DescriptionFlags = description_flags flags,
      fd_DirEntries = \<lparr>des_Entries = [], des_Size = 0, des_ShouldRegenerate = False\<rparr>, fd_DirectoryIterator = 0\<rparr>"

definition FileDescriptor_make :: "nat \<Rightarrow> u32 \<Rightarrow> u64 \<Rightarrow> vfs \<Rightarrow> FileDescriptor \<times> vfs" where
  "FileDescriptor_make dentry flags accMode v =
     (let file = map_option INodeFile (de_INode (dentry_at v dentry));
          v = snd (PopulateDirectoryEntries dentry v)
      in (FileDescriptor_with dentry file flags accMode, v))"

definition FileDescriptor_CanRead :: "FileDescriptor \<Rightarrow> bool" where
  "FileDescriptor_CanRead fd \<longleftrightarrow> fd_AccessMode fd AND eReadAccess \<noteq> 0"

definition FileDescriptor_CanWrite :: "FileDescriptor \<Rightarrow> bool" where
  "FileDescriptor_CanWrite fd \<longleftrightarrow> fd_AccessMode fd AND eWriteAccess \<noteq> 0"

definition FileDescriptor_IsNonBlocking :: "FileDescriptor \<Rightarrow> bool" where
  "FileDescriptor_IsNonBlocking fd \<longleftrightarrow> scast (fd_Flags fd) AND O_NONBLOCK \<noteq> 0"

definition FileDescriptor_CloseOnExec :: "FileDescriptor \<Rightarrow> bool" where
  "FileDescriptor_CloseOnExec fd \<longleftrightarrow> scast (fd_Flags fd) AND O_CLOEXEC \<noteq> 0"

definition SetCloseOnExec :: "bool \<Rightarrow> FileDescriptor \<Rightarrow> FileDescriptor" where
  "SetCloseOnExec closeOnExec fd =
     fd\<lparr>fd_Flags := (if closeOnExec then ucast (scast (fd_Flags fd) OR O_CLOEXEC) else ucast (scast (fd_Flags fd) AND NOT O_CLOEXEC))\<rparr>"

text \<open>The setters and getters of both sets of flags use the same member.\<close>

definition FileDescriptor_SetFlags :: "u32 \<Rightarrow> FileDescriptor \<Rightarrow> FileDescriptor" where
  "FileDescriptor_SetFlags flags fd = fd\<lparr>fd_Flags := flags\<rparr>"

definition GetDescriptionFlags :: "FileDescriptor \<Rightarrow> u32" where
  "GetDescriptionFlags fd = fd_Flags fd"

definition SetDescriptionFlags :: "u32 \<Rightarrow> FileDescriptor \<Rightarrow> FileDescriptor" where
  "SetDescriptionFlags flags fd = fd\<lparr>fd_Flags := flags\<rparr>"

text \<open>The bytes read; an error of the file counts as none.\<close>

definition FileDescriptor_Read :: "file_methods \<Rightarrow> vfs_env \<Rightarrow> FileDescriptor \<Rightarrow> usize \<Rightarrow> usize \<Rightarrow> vfs
    \<Rightarrow> (u8 list error_or \<times> FileDescriptor \<times> vfs) option" where
  "FileDescriptor_Read fm env fd count offset v =
     (if \<not> FileDescriptor_CanRead fd then Some (Inl EBADF, fd, v)
      else case fd_File fd of
        None \<Rightarrow> Some (Inl ENOENT, fd, v)
      | Some file \<Rightarrow>
          if File_IsDirectory fm file then Some (Inl EISDIR, fd, v)
          else let offset = (if sint offset < 0 then fd_Offset fd else offset)
               in case File_Read fm env file count offset v of
                    None \<Rightarrow> None
                  | Some (r, v) \<Rightarrow>
                      let out = (case r of Inl _ \<Rightarrow> [] | Inr out \<Rightarrow> out)
                      in Some (Inr out, fd\<lparr>fd_Offset := offset + of_nat (length out)\<rparr>, v))"

definition FileDescriptor_Write :: "file_methods \<Rightarrow> vfs_env \<Rightarrow> FileDescriptor \<Rightarrow> u8 list \<Rightarrow> usize \<Rightarrow> vfs
    \<Rightarrow> (usize error_or \<times> FileDescriptor \<times> vfs) option" where
  "FileDescriptor_Write fm env fd buf offset v =
     (if \<not> FileDescriptor_CanWrite fd then Some (Inl EBADF, fd, v)
      else case fd_File fd of
        None \<Rightarrow> Some (Inl ENOENT, fd, v)
      | Some file \<Rightarrow>
          let offset = (if sint offset < 0 then fd_Offset fd else offset)
          in case File_Write fm env file buf offset v of
               None \<Rightarrow> None
             | Some (r, v) \<Rightarrow>
                 let bytesWritten = (case r of Inl _ \<Rightarrow> 0 | Inr n \<Rightarrow> n)
                 in Some (Inr bytesWritten, fd\<lparr>fd_Offset := offset + bytesWritten\<rparr>, v))"

definition FileDescriptor_Stat :: "file_methods \<Rightarrow> FileDescriptor \<Rightarrow> vfs \<Rightarrow> stat error_or" where
  "FileDescriptor_Stat fm fd v = (case fd_File fd of None \<Rightarrow> Inl ENOENT | Some file \<Rightarrow> File_Stat fm file v)"

text \<open>\<open>None\<close> is a null file that is followed.\<close>

definition FileDescriptor_Seek :: "file_methods \<Rightarrow> FileDescriptor \<Rightarrow> u32 \<Rightarrow> usize \<Rightarrow> vfs \<Rightarrow> (usize error_or \<times> FileDescriptor) option" where
  "FileDescriptor_Seek fm fd whence offset v =
     (case fd_File fd of
        None \<Rightarrow> None
      | Some file \<Rightarrow> Some (
          let moved = (\<lambda>n. (Inr n, fd\<lparr>fd_Offset := n\<rparr>))
          in if File_IsSocket fm file \<or> File_IsFifo fm file then (Inl ESPIPE, fd)
             else if scast whence = SEEK_SET then
               if sint offset < 0 then (Inl EINVAL, fd) else moved offset
             else if scast whence = SEEK_CUR then
               let newOffset = fd_Offset fd + offset
               in if sint newOffset \<ge> sint off_t_max then (Inl EOVERFLOW, fd)
                  else if sint newOffset < 0 then (Inl EINVAL, fd)
                  else moved newOffset
             else if scast whence = SEEK_END then
               if fd_Offset fd + File_Size fm file v > off_t_max then (Inl EOVERFLOW, fd)
               else moved (File_Size fm file v + offset)
             else (Inl EINVAL, fd)))"

definition FileDescriptor_Truncate :: "file_methods \<Rightarrow> vfs_env \<Rightarrow> FileDescriptor \<Rightarrow> usize \<Rightarrow> vfs \<Rightarrow> (usize error_or \<times> vfs) option" where
  "FileDescriptor_Truncate fm env fd sz v =
     (case fd_File fd of
        None \<Rightarrow> None
      | Some file \<Rightarrow> Some (
          if File_IsDirectory fm file then (Inl EISDIR, v)
          else if fd_AccessMode fd AND eWriteAccess = 0 \<or> \<not> File_IsRegular fm file then (Inl EBADF, v)
          else File_Truncate fm env file sz v))"

section \<open>Reading directories\<close>

text \<open>
  The loop of \<^verbatim>\<open>GenerateDirEntries\<close> over the children of \<open>current\<close>.  A child without an inode is
  skipped without advancing the iterator: the loop does not end.
\<close>

partial_function (option) GenerateDirEntries_loop ::
    "(u64 \<Rightarrow> usize \<Rightarrow> u64) \<Rightarrow> nat \<Rightarrow> vfs \<Rightarrow> nat \<Rightarrow> usize \<Rightarrow> DirectoryEntries \<Rightarrow> (nat \<times> usize \<times> DirectoryEntries) option" where
  "GenerateDirEntries_loop alignUp current v it off des =
     (if it \<ge> length (de_Children (dentry_at v current)) then Some (it, off, des)
      else let entry = snd (de_Children (dentry_at v current) ! it)
           in case de_INode (dentry_at v entry) of
                None \<Rightarrow> GenerateDirEntries_loop alignUp current v it (off + 1) des
              | Some inode \<Rightarrow>
                  (case (if off = 0 then map_option (\<lambda>i. (i, ''.'', it)) (de_INode (dentry_at v current))
                         else if off = 1 then
                           (case GetEffectiveParent current v of
                              None \<Rightarrow> None
                            | Some parent \<Rightarrow>
                                map_option (\<lambda>i. (i, ''..'', it))
                                  (de_INode (dentry_at v (case parent of None \<Rightarrow> current | Some p \<Rightarrow> p))))
                         else Some (inode, de_Name (dentry_at v entry), it + 1)) of
                     None \<Rightarrow> None
                   | Some x \<Rightarrow>
                       (let (inode, name, it) = x;
                            stats = INode_Stats (in_Metadata (inode_at v inode))
                        in GenerateDirEntries_loop alignUp current v it (off + 1)
                             (DirectoryEntries_Push alignUp name (st_ino stats) (ucast (IF2DT (st_mode stats))) des))))"

text \<open>
  \<^verbatim>\<open>GenerateDirEntries\<close> on an entry that mounts and links lead nowhere else from, as \<^verbatim>\<open>Open\<close>
  stores it; the iterator of another entry's children is not given a meaning.
\<close>

definition GenerateDirEntries :: "(u64 \<Rightarrow> usize \<Rightarrow> u64) \<Rightarrow> resolve_fn \<Rightarrow> nat \<Rightarrow> FileDescriptor \<Rightarrow> vfs \<Rightarrow> (FileDescriptor \<times> vfs) option" where
  "GenerateDirEntries alignUp rp fuel fd v =
     (let des = DirectoryEntries_Clear (fd_DirEntries fd)
      in case FollowMounts (fd_DirectoryEntry fd) v of
           None \<Rightarrow> None
         | Some d \<Rightarrow>
             (case DirectoryEntry_FollowSymlinks rp fuel 0 d v of
                None \<Rightarrow> None
              | Some (Inl _, _) \<Rightarrow> None
              | Some (Inr current, v) \<Rightarrow>
                  if current \<noteq> fd_DirectoryEntry fd then None
                  else let (it, off) = (if fd_DirectoryIterator fd = length (de_Children (dentry_at v current)) then (0, 0)
                                        else (fd_DirectoryIterator fd, fd_Offset fd))
                       in map_option (\<lambda>(it, off, des). (fd\<lparr>fd_DirectoryIterator := it, fd_Offset := off, fd_DirEntries := des\<rparr>, v))
                            (GenerateDirEntries_loop alignUp current v it off des)))"

text \<open>
  The copying loop of \<^verbatim>\<open>GetDirEntries\<close>; the records written are listed with the offset in the
  caller's buffer.
\<close>

function GetDirEntries_loop :: "usize \<Rightarrow> usize \<Rightarrow> usize \<Rightarrow> (usize \<times> dirent) list \<Rightarrow> DirectoryEntries
    \<Rightarrow> usize \<times> (usize \<times> dirent) list \<times> DirectoryEntries" where
  "GetDirEntries_loop len offset bytes out des =
     (if offset < len then
        case CopyAndPop (len - offset) des of
          (None, copied, des') \<Rightarrow> (offset, out, des')
        | (Some entry, copied, des') \<Rightarrow>
            if copied = 0 then (offset, out @ [(offset, entry)], des')
            else GetDirEntries_loop len (offset + copied) offset (out @ [(offset, entry)]) des'
      else (bytes, out, des))"
  by pat_completeness auto

termination
  by (relation "measure (\<lambda>(len, offset, bytes, out, des). length (des_Entries des))")
    (auto simp: CopyAndPop_def Let_def split: list.splits if_splits)

declare GetDirEntries_loop.simps [simp del]

definition GetDirEntries :: "(u64 \<Rightarrow> usize \<Rightarrow> u64) \<Rightarrow> resolve_fn \<Rightarrow> nat \<Rightarrow> usize \<Rightarrow> FileDescriptor \<Rightarrow> vfs
    \<Rightarrow> (usize error_or \<times> (usize \<times> dirent) list \<times> FileDescriptor \<times> vfs) option" where
  "GetDirEntries alignUp rp fuel maxSize fd v =
     (if \<not> DirectoryEntry_IsDirectory (dentry_at v (fd_DirectoryEntry fd)) then Some (Inl ENOTDIR, [], fd, v)
      else case (if DirectoryEntries_IsEmpty (fd_DirEntries fd) then GenerateDirEntries alignUp rp fuel fd v else Some (fd, v)) of
        None \<Rightarrow> None
      | Some (fd, v) \<Rightarrow>
          (case des_Entries (fd_DirEntries fd) of
             [] \<Rightarrow> Some (Inr 0, [], fd, v)
           | front # _ \<Rightarrow>
               let des = fd_DirEntries fd;
                   len = sum_list (map (\<lambda>e. ucast (d_reclen e)) (des_Entries des));
                   len = min maxSize len - sizeof_dirent
               in if ucast (d_reclen front) > maxSize then Some (Inl EINVAL, [], fd, v)
                  else let atEnd = des_ShouldRegenerate des;
                           (bytes, out, des) = GetDirEntries_loop len 0 0 [] (des\<lparr>des_ShouldRegenerate := False\<rparr>);
                           des = (if DirectoryEntries_IsEmpty des then des\<lparr>des_ShouldRegenerate := True\<rparr> else des)
                       in Some (Inr (if atEnd then 0 else bytes), out, fd\<lparr>fd_DirEntries := des\<rparr>, v)))"

text \<open>
  \<^verbatim>\<open>DirectoryEntry::TraverseDirectories\<close>: the children from the stored offset on are passed to the
  iterator, here a function on a state that also tells whether to go on; \<open>index\<close> counts the children.
\<close>

fun Traverse_loop :: "vfs \<Rightarrow> (string \<Rightarrow> usize \<Rightarrow> u64 \<Rightarrow> u32 \<Rightarrow> 's \<Rightarrow> bool \<times> 's) \<Rightarrow> (string \<times> nat) list \<Rightarrow> usize \<Rightarrow> usize \<Rightarrow> 's
    \<Rightarrow> usize \<times> 's" where
  "Traverse_loop v iterator [] index dirOffset s = (dirOffset, s)"
| "Traverse_loop v iterator ((name, entry) # rest) index dirOffset s =
     (case de_INode (dentry_at v entry) of
        None \<Rightarrow> Traverse_loop v iterator rest (index + 1) dirOffset s
      | Some inode \<Rightarrow>
          if index < dirOffset then Traverse_loop v iterator rest (index + 1) dirOffset s
          else let stats = INode_Stats (in_Metadata (inode_at v inode));
                   (continue, s) = iterator (de_Name (dentry_at v entry)) dirOffset (st_ino stats) (IF2DT (st_mode stats)) s
               in if continue then Traverse_loop v iterator rest (index + 1) (dirOffset + 1) s else (dirOffset, s))"

definition DirectoryEntry_TraverseDirectories ::
    "nat \<Rightarrow> (string \<Rightarrow> usize \<Rightarrow> u64 \<Rightarrow> u32 \<Rightarrow> 's \<Rightarrow> bool \<times> 's) \<Rightarrow> 's \<Rightarrow> vfs \<Rightarrow> 's \<times> vfs" where
  "DirectoryEntry_TraverseDirectories d iterator s v =
     (let v = snd (PopulateDirectoryEntries d v);
          children = de_Children (dentry_at v d);
          (dirOffset, s) = Traverse_loop v iterator children 0 (de_DirOffset (dentry_at v d)) s;
          dirOffset = (if dirOffset = of_nat (length children) then 0 else dirOffset)
      in (s, upd_dentry d (\<lambda>e. e\<lparr>de_DirOffset := dirOffset\<rparr>) v))"

section \<open>Opening\<close>

definition INode_ValidatePermissions :: "Metadata \<Rightarrow> u32 \<Rightarrow> bool" where
  "INode_ValidatePermissions m acc = True"

text \<open>The last part of \<^verbatim>\<open>OpenDirectoryEntry\<close>, on the entry found or created.\<close>

definition Open_check :: "path_ops \<Rightarrow> nat \<Rightarrow> usize \<Rightarrow> nat \<Rightarrow> vfs \<Rightarrow> (nat error_or \<times> vfs) option" where
  "Open_check po fuel flags dentry v =
     (case FollowMounts dentry v of
        None \<Rightarrow> None
      | Some d \<Rightarrow>
          (case DirectoryEntry_FollowSymlinks (ResolvePath po fuel) fuel 0 d v of
             None \<Rightarrow> None
           | Some (Inl _, _) \<Rightarrow> None
           | Some (Inr dentry, v) \<Rightarrow>
               (case DirectoryEntry_IsSymlink dentry v of
                  None \<Rightarrow> None
                | Some symlink \<Rightarrow>
                    let acc = flags AND O_ACCMODE;
                        isDirectory = DirectoryEntry_IsDirectory (dentry_at v dentry)
                    in Some (if symlink then (Inl ELOOP, v)
                             else if flags AND O_DIRECTORY \<noteq> 0 \<and> \<not> isDirectory then (Inl ENOTDIR, v)
                             else if isDirectory \<and> (acc AND O_WRONLY \<noteq> 0 \<or> acc AND O_RDWR \<noteq> 0) then (Inl EISDIR, v)
                             else (Inr dentry, v)))))"

text \<open>\<open>mask\<close> of the process: \<open>umask\<close>.\<close>

definition OpenDirectoryEntry ::
    "path_ops \<Rightarrow> nat \<Rightarrow> vfs_env \<Rightarrow> mode_t \<Rightarrow> nat option \<Rightarrow> string \<Rightarrow> usize \<Rightarrow> mode_t \<Rightarrow> vfs \<Rightarrow> (nat error_or \<times> vfs) option" where
  "OpenDirectoryEntry po fuel env umask parent path flags mode v =
     (let acc = flags AND O_ACCMODE;
          mode = mode AND NOT (0x1ff OR S_ISVTX OR S_ISUID OR S_ISGID)
      in if flags AND O_TMPFILE \<noteq> 0 then
           Some (if flags AND O_DIRECTORY = 0 then Inl EINVAL
                 else if acc \<noteq> O_WRONLY \<and> acc \<noteq> O_RDWR then Inl EINVAL else Inl ENOSYS, v)
         else if flags AND O_PATH \<noteq> 0 \<and> flags AND NOT (O_DIRECTORY OR O_NOFOLLOW OR O_PATH OR O_CLOEXEC) \<noteq> 0
         then Some (Inl EINVAL, v)
         else case resolve_with po fuel LookupParent parent path v of
             None \<Rightarrow> None
           | Some (Inl e, v) \<Rightarrow> Some (Inl e, v)
           | Some (Inr directory, v) \<Rightarrow>
               (case ResolvePath po fuel parent path (flags AND O_NOFOLLOW = 0) v of
                  None \<Rightarrow> None
                | Some (res, errno, v) \<Rightarrow>
                    (case res_Entry res of
                       Some dentry \<Rightarrow>
                         if flags AND O_EXCL \<noteq> 0 then Some (Inl EEXIST, v) else Open_check po fuel flags dentry v
                     | None \<Rightarrow>
                         if errno \<noteq> Some ENOENT \<or> flags AND O_CREAT = 0 then Some (Inl ENOENT, v)
                         else case directory of
                             None \<Rightarrow> None
                           | Some dir \<Rightarrow>
                               (case de_INode (dentry_at v dir) of
                                  None \<Rightarrow> None
                                | Some dirINode \<Rightarrow>
                                    if \<not> INode_ValidatePermissions (in_Metadata (inode_at v dirINode)) 5 then Some (Inl EACCES, v)
                                    else case VFS_CreateFile_in env dir (po_BaseName po path) (mode AND NOT umask) v of
                                           (Inl e, v) \<Rightarrow> Some (Inl e, v)
                                         | (Inr dentry, v) \<Rightarrow> Open_check po fuel flags dentry v))))"

definition Open_access :: "usize \<Rightarrow> u64 error_or" where
  "Open_access flags =
     (let acc = flags AND O_ACCMODE;
          mode = (if acc = O_RDONLY then Inr eReadAccess
                  else if acc = O_WRONLY then Inr eWriteAccess
                  else if acc = O_RDWR then Inr (eReadAccess OR eWriteAccess)
                  else Inl EINVAL)
      in case mode of
           Inl e \<Rightarrow> Inl e
         | Inr m \<Rightarrow> Inr (if flags AND O_PATH \<noteq> 0 then eNoAccess else m))"

text \<open>\<^verbatim>\<open>devices\<close> is \<^verbatim>\<open>DevTmpFs::Lookup\<close>.\<close>

definition VFS_Open ::
    "path_ops \<Rightarrow> nat \<Rightarrow> vfs_env \<Rightarrow> mode_t \<Rightarrow> (u64 \<Rightarrow> nat option) \<Rightarrow> nat option \<Rightarrow> string \<Rightarrow> usize \<Rightarrow> mode_t \<Rightarrow> vfs
      \<Rightarrow> (FileDescriptor error_or \<times> vfs) option" where
  "VFS_Open po fuel env umask devices parent path flags mode v =
     (case OpenDirectoryEntry po fuel env umask parent path flags mode v of
        None \<Rightarrow> None
      | Some (Inl e, v) \<Rightarrow> Some (Inl e, v)
      | Some (Inr dentry, v) \<Rightarrow>
          (case Open_access flags of
             Inl e \<Rightarrow> Some (Inl e, v)
           | Inr accMode \<Rightarrow>
               let plainFile = (let (fd, v) = FileDescriptor_make dentry (ucast flags) accMode v in Some (Inr fd, v))
               in case de_INode (dentry_at v dentry) of
                    None \<Rightarrow> plainFile
                  | Some inode \<Rightarrow>
                      if \<not> INode_IsCharDevice (in_Metadata (inode_at v inode)) then plainFile
                      else case devices (DeviceID (in_Metadata (inode_at v inode))) of
                             None \<Rightarrow> plainFile
                           | Some device \<Rightarrow> Some (Inr (FileDescriptor_with dentry (Some (DeviceFile device)) (ucast flags) accMode), v)))"

section \<open>The table of descriptors\<close>

record 'f FileDescriptorTable =
  m_Table :: "(u32 \<times> 'f) list"
  m_NextIndex :: u32

definition FileDescriptorTable_empty :: "'f FileDescriptorTable" where
  "FileDescriptorTable_empty = \<lparr>m_Table = [], m_NextIndex = 3\<rparr>"

definition Table_Insert :: "'f \<Rightarrow> u32 \<Rightarrow> 'f FileDescriptorTable \<Rightarrow> u32 \<times> 'f FileDescriptorTable" where
  "Table_Insert fd desired t =
     (let fdNum = (if sint desired \<ge> 0 \<and> map_of (m_Table t) desired = None then desired else m_NextIndex t)
      in (fdNum, t\<lparr>m_Table := AList.update fdNum fd (m_Table t), m_NextIndex := m_NextIndex t + 1\<rparr>))"

definition Table_IsValid :: "u32 \<Rightarrow> 'f FileDescriptorTable \<Rightarrow> bool" where
  "Table_IsValid fd t \<longleftrightarrow> map_of (m_Table t) fd \<noteq> None"

definition Table_GetFd :: "u32 \<Rightarrow> 'f FileDescriptorTable \<Rightarrow> 'f option" where
  "Table_GetFd fd t = (if \<not> Table_IsValid fd t then None else map_of (m_Table t) fd)"

definition Table_Erase :: "u32 \<Rightarrow> 'f FileDescriptorTable \<Rightarrow> unit error_or \<times> 'f FileDescriptorTable" where
  "Table_Erase fdNum t =
     (if Table_GetFd fdNum t = None then (Inl EBADF, t)
      else (Inr (), t\<lparr>m_Table := AList.delete fdNum (m_Table t)\<rparr>))"

definition Table_Clear :: "'f FileDescriptorTable \<Rightarrow> 'f FileDescriptorTable" where
  "Table_Clear t = t\<lparr>m_Table := [], m_NextIndex := 3\<rparr>"

definition OpenStdioStreams :: "nat \<Rightarrow> vfs \<Rightarrow> FileDescriptor FileDescriptorTable \<Rightarrow> vfs \<times> FileDescriptor FileDescriptorTable" where
  "OpenStdioStreams ttyNode v t =
     (let (f0, v) = FileDescriptor_make ttyNode 0 eReadAccess v; t = snd (Table_Insert f0 0 t);
          (f1, v) = FileDescriptor_make ttyNode 0 eWriteAccess v; t = snd (Table_Insert f1 1 t);
          (f2, v) = FileDescriptor_make ttyNode 0 eWriteAccess v; t = snd (Table_Insert f2 2 t)
      in (v, t))"

section \<open>Copying and listing directory records\<close>

fun place :: "usize \<Rightarrow> dirent list \<Rightarrow> (usize \<times> dirent) list" where
  "place offset [] = []"
| "place offset (e # es) = (offset, e) # place (offset + ucast (d_reclen e)) es"

definition reclens :: "dirent list \<Rightarrow> nat" where
  "reclens es = sum_list (map (\<lambda>e. unat (d_reclen e)) es)"

lemma unat_ucast_reclen [simp]: "unat (ucast (w :: 16 word) :: usize) = unat w"
proof -
  have "unat w < 2 ^ 64" using unsigned_less [of w, where 'a = nat] by simp
  then show ?thesis by (simp add: unsigned_ucast_eq take_bit_nat_eq_self)
qed

lemma GetDirEntries_loop_all:
  assumes "unat offset + reclens es < unat len" and "\<forall>e \<in> set es. d_reclen e \<noteq> 0"
  shows "GetDirEntries_loop len offset bytes out (des\<lparr>des_Entries := es\<rparr>) =
    (offset + of_nat (reclens es), out @ place offset es, des\<lparr>des_Entries := []\<rparr>)"
  using assms
proof (induction es arbitrary: offset bytes out)
  case Nil
  then have "offset < len" by (simp add: word_less_nat_alt reclens_def)
  then show ?case by (subst GetDirEntries_loop.simps) (simp add: CopyAndPop_def reclens_def)
next
  case (Cons e es)
  let ?r = "ucast (d_reclen e) :: usize"
  have r: "unat ?r = unat (d_reclen e)" "?r \<noteq> 0"
    using Cons.prems(2) by (simp, metis list.set_intros(1) unat_eq_0 unat_ucast_reclen)
  have sum: "reclens (e # es) = unat ?r + reclens es" by (simp add: reclens_def)
  have lt: "offset < len" using Cons.prems(1) by (simp add: word_less_nat_alt)
  have bound: "unat len < 2 ^ 64" using unsigned_less [of len, where 'a = nat] by simp
  have add: "unat (offset + ?r) = unat offset + unat ?r"
    using Cons.prems(1) sum bound by (subst unat_add_nowrap) simp_all
  have "\<not> len - offset < ?r"
    using Cons.prems(1) sum lt by (simp add: word_less_nat_alt unat_sub_if_size word_size)
  then have "GetDirEntries_loop len offset bytes out (des\<lparr>des_Entries := e # es\<rparr>) =
      GetDirEntries_loop len (offset + ?r) offset (out @ [(offset, e)]) (des\<lparr>des_Entries := es\<rparr>)"
    using lt r(2) by (subst GetDirEntries_loop.simps) (simp add: CopyAndPop_def)
  also have "\<dots> = (offset + ?r + of_nat (reclens es), (out @ [(offset, e)]) @ place (offset + ?r) es, des\<lparr>des_Entries := []\<rparr>)"
    using Cons.prems add sum by (intro Cons.IH) auto
  also have "offset + ?r + of_nat (reclens es) = offset + of_nat (reclens (e # es))" by (simp add: sum)
  finally show ?case by simp
qed

lemma place_last:
  assumes "es \<noteq> []" "unat offset + reclens es < 2 ^ 64"
  shows "\<exists>o' e. (o', e) \<in> set (place offset es) \<and> unat o' + unat (d_reclen e) = unat offset + reclens es"
  using assms
proof (induction es arbitrary: offset)
  case (Cons e es)
  let ?r = "ucast (d_reclen e) :: usize"
  have sum: "reclens (e # es) = unat (d_reclen e) + reclens es" by (simp add: reclens_def)
  show ?case
  proof (cases "es = []")
    case False
    have "unat (offset + ?r) = unat offset + unat (d_reclen e)"
      using Cons.prems(2) sum by (subst unat_add_nowrap) simp_all
    then show ?thesis using Cons.IH [OF False, of "offset + ?r"] Cons.prems(2) sum by (auto simp: add.assoc)
  qed (simp add: reclens_def)
qed simp



section \<open>Properties\<close>

text \<open>
  What is written through a descriptor at an offset is read back through it after seeking
  there; the position moves past the bytes both times.
\<close>

theorem descriptor_write_seek_read:
  assumes "FileDescriptor_CanRead fd" "FileDescriptor_CanWrite fd" "fd_File fd = Some (INodeFile i)" "i < length (vfs_inodes v)"
    and "\<not> INode_IsDirectory (in_Metadata (inode_at v i))" "length (in_Buffer (inode_at v i)) < 2 ^ 62"
    and "unat offset + length bs \<le> 2 ^ 62"
  shows "\<exists>fd1 v1 fd2 fd3 v3. FileDescriptor_Write fm env fd bs offset v = Some (Inr (of_nat (length bs)), fd1, v1) \<and>
    fd_Offset fd1 = offset + of_nat (length bs) \<and>
    FileDescriptor_Seek fm fd1 0 offset v1 = Some (Inr offset, fd2) \<and>
    FileDescriptor_Read fm env fd2 (of_nat (length bs)) (- 1) v1 = Some (Inr bs, fd3, v3) \<and>
    fd_Offset fd3 = offset + of_nat (length bs)"
proof -
  have off: "\<not> sint offset < 0" using assms(7) by (simp add: sint_unat64)
  obtain v1 where w: "Synth_Write env i bs offset v = Some (of_nat (length bs), v1)"
    "map_option fst (Synth_Read env i offset (of_nat (length bs)) v1) = Some bs" "Mode (in_Metadata (inode_at v1 i)) = Mode (in_Metadata (inode_at v i))"
    using Synth_write_read [OF assms(4,6,7), of env] Synth_Write_keeps_Mode [of env i bs offset v] by fastforce
  from w(2) obtain v3 where r: "Synth_Read env i offset (of_nat (length bs)) v1 = Some (bs, v3)" by auto
  have nd: "\<not> INode_IsDirectory (in_Metadata (inode_at v1 i))" using assms(5) w(3) by (simp add: INode_IsDirectory_def)
  let ?fd1 = "fd\<lparr>fd_Offset := offset + of_nat (length bs)\<rparr>" and ?fd2 = "fd\<lparr>fd_Offset := offset\<rparr>"
  have "FileDescriptor_Write fm env fd bs offset v = Some (Inr (of_nat (length bs)), ?fd1, v1)"
    using assms(2,3,5) off w(1) by (simp add: FileDescriptor_Write_def Let_def)
  moreover have "FileDescriptor_Seek fm ?fd1 0 offset v1 = Some (Inr offset, ?fd2)"
    using assms(3) off by (simp add: FileDescriptor_Seek_def SEEK_SET_def)
  moreover have "FileDescriptor_Read fm env ?fd2 (of_nat (length bs)) (- 1) v1 = Some (Inr bs, ?fd1, v3)"
    using assms(1,3) nd off r by (simp add: FileDescriptor_Read_def FileDescriptor_CanRead_def Let_def)
  ultimately show ?thesis by fastforce
qed


text \<open>
  \<^verbatim>\<open>GetDirEntries\<close> writes beyond the caller's buffer: when the buffer is shorter than the
  listing and both are shorter than one \<^verbatim>\<open>dirent\<close>, the length to copy wraps and the whole listing is
  copied.
\<close>

theorem GetDirEntries_overruns_buffer:
  assumes "DirectoryEntry_IsDirectory (dentry_at v (fd_DirectoryEntry fd))" "des_Entries (fd_DirEntries fd) = es" "es \<noteq> []"
    and "\<forall>e \<in> set es. d_reclen e \<noteq> 0" "unat (d_reclen (hd es)) \<le> unat maxSize" "unat maxSize < reclens es" "reclens es < 1048"
  shows "\<exists>n out fd'. GetDirEntries alignUp rp fuel maxSize fd v = Some (Inr n, out, fd', v) \<and>
    (\<exists>offset e. (offset, e) \<in> set out \<and> unat maxSize < unat offset + unat (d_reclen e))"
proof -
  let ?des = "fd_DirEntries fd"
  have total: "sum_list (map (\<lambda>e. ucast (d_reclen e)) xs) = (of_nat (reclens xs) :: usize)" for xs
    by (induction xs) (simp_all add: reclens_def)
  define len where "len = min maxSize (of_nat (reclens es)) - sizeof_dirent"
  have "unat (of_nat (reclens es) :: usize) = reclens es" using assms(7) by (simp add: unat_of_nat)
  then have "min maxSize (of_nat (reclens es)) = maxSize" using assms(6) by (simp add: min_def word_le_nat_alt)
  then have "unat len = 2 ^ 64 + unat maxSize - 1048"
    using assms(6,7) by (simp add: len_def sizeof_dirent_def unat_sub_if_size word_size)
  then have big: "unat (0 :: usize) + reclens es < unat len" using assms(7) by simp
  have "?des\<lparr>des_ShouldRegenerate := False\<rparr> = (?des\<lparr>des_ShouldRegenerate := False\<rparr>)\<lparr>des_Entries := es\<rparr>" using assms(2) by simp
  with GetDirEntries_loop_all [OF big assms(4), of 0 "[]" "?des\<lparr>des_ShouldRegenerate := False\<rparr>"]
  have loop: "GetDirEntries_loop len 0 0 [] (?des\<lparr>des_ShouldRegenerate := False\<rparr>) =
      (of_nat (reclens es), place 0 es, ?des\<lparr>des_ShouldRegenerate := False, des_Entries := []\<rparr>)" by simp
  obtain f r where fr: "es = f # r" using assms(3) by (cases es) auto
  have "\<not> ucast (d_reclen f) > maxSize" using assms(5) fr by (simp add: word_less_nat_alt)
  moreover have L: "min maxSize (ucast (d_reclen f) + (\<Sum>e\<leftarrow>r. ucast (d_reclen e))) - sizeof_dirent = len"
    using total [of es] fr by (simp add: len_def)
  ultimately have "\<exists>n fd'. GetDirEntries alignUp rp fuel maxSize fd v = Some (Inr n, place 0 es, fd', v)"
    using assms(1,2) loop L fr by (simp add: GetDirEntries_def DirectoryEntries_IsEmpty_def Let_def)
  moreover have "\<exists>offset e. (offset, e) \<in> set (place 0 es) \<and> unat maxSize < unat offset + unat (d_reclen e)"
    using place_last [OF assms(3), of 0] assms(6,7) by fastforce
  ultimately show ?thesis by blast
qed

text \<open>Device methods that are never called below, descriptors for the file and for a directory.\<close>

definition demo_methods :: file_methods where
  "demo_methods = \<lparr>fm_Read = (\<lambda>_ _ _ _. None), fm_Write = (\<lambda>_ _ _ _. None), fm_Size = (\<lambda>_ _. 0), fm_Stat = (\<lambda>_ _. Inl ENOSYS),
     fm_Truncate = (\<lambda>_ _ v. (Inl ENOSYS, v)), fm_IsDirectory = (\<lambda>_. False), fm_IsRegular = (\<lambda>_. False),
     fm_IsSocket = (\<lambda>_. False), fm_IsFifo = (\<lambda>_. False)\<rparr>"

definition demo_fd :: FileDescriptor where
  "demo_fd = FileDescriptor_with 0 (Some (INodeFile 2)) 0 (eReadAccess OR eWriteAccess)"

theorem descriptor_write_seek_read_witness:
  "\<exists>fd1 v1 fd2 fd3 v3. FileDescriptor_Write demo_methods demo_env demo_fd [1, 2, 3] 7 demo_tree = Some (Inr 3, fd1, v1) \<and>
     FileDescriptor_Seek demo_methods fd1 0 7 v1 = Some (Inr 7, fd2) \<and>
     FileDescriptor_Read demo_methods demo_env fd2 3 (- 1) v1 = Some (Inr [1, 2, 3], fd3, v3)"
proof -
  have "FileDescriptor_CanRead demo_fd" "FileDescriptor_CanWrite demo_fd" "fd_File demo_fd = Some (INodeFile 2)"
    "2 < length (vfs_inodes demo_tree)" "\<not> INode_IsDirectory (in_Metadata (inode_at demo_tree 2))"
    "length (in_Buffer (inode_at demo_tree 2)) = 0"
    by code_simp+
  then show ?thesis
    using descriptor_write_seek_read [of demo_fd 2 demo_tree 7 "[1, 2, 3]" demo_methods demo_env] by auto
qed


definition demo_listing :: "dirent list" where
  "demo_listing = [make_dirent align_up ''.'' 2 4, make_dirent align_up ''..'' 2 4, make_dirent align_up ''f'' 3 8]"

theorem GetDirEntries_overruns_buffer_witness:
  "\<exists>n out fd' offset e. GetDirEntries align_up (\<lambda>_ _ _ _. None) 1 40
       ((FileDescriptor_with 0 (Some (INodeFile 0)) 0 1)\<lparr>fd_DirEntries := \<lparr>des_Entries = demo_listing, des_Size = 96, des_ShouldRegenerate = False\<rparr>\<rparr>)
       demo_tree = Some (Inr n, out, fd', demo_tree) \<and> (offset, e) \<in> set out \<and> 40 < unat offset + unat (d_reclen e)"
proof -
  have "DirectoryEntry_IsDirectory (dentry_at demo_tree 0)" "demo_listing \<noteq> []" "\<forall>e \<in> set demo_listing. d_reclen e \<noteq> 0"
    "unat (d_reclen (hd demo_listing)) \<le> 40" "reclens demo_listing = 96"
    by code_simp+
  then show ?thesis
    using GetDirEntries_overruns_buffer [of demo_tree "(FileDescriptor_with 0 (Some (INodeFile 0)) 0 1)\<lparr>fd_DirEntries :=
        \<lparr>des_Entries = demo_listing, des_Size = 96, des_ShouldRegenerate = False\<rparr>\<rparr>" demo_listing 40 align_up "\<lambda>_ _ _ _. None" 1]
    by (simp add: FileDescriptor_with_def)
qed

text \<open>
  Seeking from the start or the current position never makes a non-negative position
  negative, but seeking from the end does not check the result: a seek before the start of the file
  succeeds, and the next read at the current position fails the assertion of the filesystem.
\<close>

theorem seek_before_start_then_read_asserts:
  assumes "FileDescriptor_CanRead fd" "fd_File fd = Some (INodeFile i)" "\<not> INode_IsDirectory (in_Metadata (inode_at v i))"
    and "fd_Offset fd + Size (in_Metadata (inode_at v i)) \<le> off_t_max" "sint (Size (in_Metadata (inode_at v i)) + offset) < 0"
  shows "\<exists>fd'. FileDescriptor_Seek fm fd 2 offset v = Some (Inr (Size (in_Metadata (inode_at v i)) + offset), fd') \<and>
    FileDescriptor_Read fm env fd' count (- 1) v = None \<and>
    (\<forall>whence o' n fd'. whence \<noteq> 2 \<longrightarrow> 0 \<le> sint (fd_Offset fd) \<longrightarrow> FileDescriptor_Seek fm fd whence o' v = Some (Inr n, fd') \<longrightarrow>
       0 \<le> sint (fd_Offset fd'))"
proof -
  let ?n = "Size (in_Metadata (inode_at v i)) + offset"
  have "FileDescriptor_Seek fm fd 2 offset v = Some (Inr ?n, fd\<lparr>fd_Offset := ?n\<rparr>)"
    using assms(2,4) by (simp add: FileDescriptor_Seek_def SEEK_SET_def SEEK_CUR_def SEEK_END_def INode_Stats_def)
  moreover have "FileDescriptor_Read fm env (fd\<lparr>fd_Offset := ?n\<rparr>) count (- 1) v = None"
    using assms(1,2,3,5) by (simp add: FileDescriptor_Read_def FileDescriptor_CanRead_def Synth_Read_def)
  moreover have "0 \<le> sint (fd_Offset fd')"
    if "whence \<noteq> 2" "0 \<le> sint (fd_Offset fd)" "FileDescriptor_Seek fm fd whence o' v = Some (Inr n, fd')" for whence o' n fd'
  proof -
    have "(scast whence :: usize) \<noteq> SEEK_END"
    proof
      assume "(scast whence :: usize) = SEEK_END"
      then have "sint (scast whence :: usize) = sint (2 :: u32)" by (simp add: SEEK_END_def)
      then have "sint whence = sint (2 :: u32)" by (simp add: sint_up_scast is_up)
      then show False using that(1) by (blast intro: signed_word_eqI)
    qed
    then show ?thesis using that(2,3) assms(2) by (auto simp: FileDescriptor_Seek_def Let_def split: if_splits)
  qed
  ultimately show ?thesis by blast
qed

theorem seek_before_start_then_read_asserts_witness:
  "\<exists>fd'. FileDescriptor_Seek demo_methods demo_fd 2 (- 100) demo_tree = Some (Inr (- 60), fd') \<and>
     FileDescriptor_Read demo_methods demo_env fd' 1 (- 1) demo_tree = None"
proof -
  have "FileDescriptor_CanRead demo_fd" "fd_File demo_fd = Some (INodeFile 2)" "\<not> INode_IsDirectory (in_Metadata (inode_at demo_tree 2))"
    "fd_Offset demo_fd + Size (in_Metadata (inode_at demo_tree 2)) \<le> off_t_max"
    "sint (Size (in_Metadata (inode_at demo_tree 2)) + - 100) < 0" "Size (in_Metadata (inode_at demo_tree 2)) + - 100 = - 60"
    by code_simp+
  then show ?thesis
    using seek_before_start_then_read_asserts [of demo_fd 2 demo_tree "- 100" demo_methods demo_env 1] by auto
qed

text \<open>
  \<^verbatim>\<open>ftruncate\<close> fails with \<open>EBADF\<close> on every file of a filesystem, writable or not: a \<^verbatim>\<open>File\<close>
  never says that it is regular.
\<close>

theorem Truncate_always_EBADF:
  "fd_File fd = Some (INodeFile i) \<Longrightarrow> FileDescriptor_Truncate fm env fd sz v = Some (Inl EBADF, v)"
  by (simp add: FileDescriptor_Truncate_def)

theorem Truncate_always_EBADF_witness:
  "FileDescriptor_Truncate demo_methods demo_env demo_fd 0 demo_tree = Some (Inl EBADF, demo_tree)"
  by (rule Truncate_always_EBADF [of _ 2]) (simp add: demo_fd_def FileDescriptor_with_def)

text \<open>
  An \<^verbatim>\<open>open\<close> with \<^verbatim>\<open>O_PATH\<close> never succeeds: \<^verbatim>\<open>O_ACCMODE\<close> contains that bit, and
  no access mode does.
\<close>

theorem O_PATH_open_fails:
  assumes "flags AND O_PATH \<noteq> 0"
  shows "case VFS_Open po fuel env umask devices parent path flags mode v of None \<Rightarrow> True | Some (r, v') \<Rightarrow> \<exists>e. r = Inl e"
proof -
  have "flags AND O_ACCMODE \<noteq> x" if "x = O_RDONLY \<or> x = O_WRONLY \<or> x = O_RDWR" for x
  proof
    assume "flags AND O_ACCMODE = x"
    then have "flags AND (O_ACCMODE AND O_PATH) = x AND O_PATH" by (simp add: and.assoc [symmetric])
    then show False using that assms by (auto simp: vfs_defs)
  qed
  then have "Open_access flags = Inl EINVAL" by (auto simp: Open_access_def Let_def)
  then show ?thesis by (auto simp: VFS_Open_def split: option.split sum.split)
qed

theorem O_PATH_open_fails_witness:
  "case VFS_Open demo_paths 2 demo_env 0 (\<lambda>_. None) None ''/d'' 0x200000 0 demo_tree of None \<Rightarrow> True | Some (r, v') \<Rightarrow> \<exists>e. r = Inl e"
  by (rule O_PATH_open_fails) (simp add: vfs_defs)

text \<open>
  The flags of an open file are lost: no descriptor is non-blocking after \<^verbatim>\<open>open\<close>, and
  changing the status flags overwrites the close-on-exec flag.
\<close>

theorem status_flags_lost:
  "\<not> FileDescriptor_IsNonBlocking (FileDescriptor_with dentry file flags accMode) \<and>
   FileDescriptor_CloseOnExec (SetDescriptionFlags s fd) = (scast s AND O_CLOEXEC \<noteq> 0)"
proof -
  have "(scast (ucast (scast flags AND O_CLOEXEC :: usize) :: u32) :: usize) AND O_NONBLOCK = 0"
  proof -
    have "(ucast (scast flags AND O_CLOEXEC :: usize) :: u32) = ucast (scast flags :: usize) AND 0x80000"
      by (simp add: unsigned_and_eq O_CLOEXEC_def)
    then show ?thesis by (simp add: signed_and_eq and.assoc O_NONBLOCK_def)
  qed
  then show ?thesis
    by (simp add: FileDescriptor_IsNonBlocking_def FileDescriptor_CloseOnExec_def FileDescriptor_with_def SetDescriptionFlags_def)
qed

section \<open>The table\<close>

text \<open>As long as no particular number is asked for, all numbers in use are below the next one.\<close>

definition table_ok :: "'f FileDescriptorTable \<Rightarrow> bool" where
  "table_ok t \<longleftrightarrow> (\<forall>n \<in> fst ` set (m_Table t). n < m_NextIndex t)"

text \<open>
  While numbers are only handed out by the table, a new descriptor gets a number that is
  not in use, is found under it, and disturbs no other; closing frees exactly the number closed, and
  the invariant is kept.
\<close>

theorem table_hands_out_fresh_numbers:
  assumes "table_ok t" "m_NextIndex t \<noteq> - 1" "sint desired < 0"
  shows "case Table_Insert fd desired t of (n, t') \<Rightarrow>
      \<not> Table_IsValid n t \<and> Table_GetFd n t' = Some fd \<and> (\<forall>m. m \<noteq> n \<longrightarrow> Table_GetFd m t' = Table_GetFd m t) \<and> table_ok t' \<and>
      (case Table_Erase n t' of (r, t'') \<Rightarrow> r = Inr () \<and> table_ok t'' \<and> (\<forall>m. Table_GetFd m t'' = Table_GetFd m t))"
proof -
  let ?n = "m_NextIndex t"
  have absent: "map_of (m_Table t) ?n = None"
    using assms(1) by (auto simp: table_ok_def map_of_eq_None_iff)
  have nx: "?n < ?n + 1" using assms(2) by (simp add: not_le [symmetric] inc_less_eq_self_iff_eq)
  let ?t = "t\<lparr>m_Table := AList.update ?n fd (m_Table t), m_NextIndex := ?n + 1\<rparr>"
  have ins: "Table_Insert fd desired t = (?n, ?t)" using assms(3) by (simp add: Table_Insert_def Let_def)
  have get: "Table_GetFd m u = map_of (m_Table u) m" for m and u :: "'a FileDescriptorTable"
    by (simp add: Table_GetFd_def Table_IsValid_def)
  have ok: "table_ok ?t"
    using assms(1) nx by (auto simp: table_ok_def dom_update intro: less_trans)
  have "fst ` set (AList.delete ?n (m_Table ?t)) \<subseteq> fst ` set (m_Table ?t)" by (rule dom_delete_subset)
  with ok have "table_ok (?t\<lparr>m_Table := AList.delete ?n (m_Table ?t)\<rparr>)"
    unfolding table_ok_def by (metis (no_types, lifting) FileDescriptorTable.select_convs(1,2) FileDescriptorTable.surjective FileDescriptorTable.update_convs(1) subsetD)
  moreover have "Table_Erase ?n ?t = (Inr (), ?t\<lparr>m_Table := AList.delete ?n (m_Table ?t)\<rparr>)"
    by (simp add: Table_Erase_def get update_conv')
  moreover have "(map_of (AList.delete ?n (AList.update ?n fd (m_Table t)))) m = map_of (m_Table t) m" for m
    using absent by (simp add: delete_conv' update_conv')
  ultimately show ?thesis using ins ok absent by (simp add: get Table_IsValid_def update_conv')
qed

theorem table_hands_out_fresh_numbers_witness:
  "case Table_Insert True (- 1) FileDescriptorTable_empty of (n, t') \<Rightarrow> Table_GetFd n t' = Some True \<and> \<not> Table_IsValid n (FileDescriptorTable_empty :: bool FileDescriptorTable)"
  using table_hands_out_fresh_numbers [of FileDescriptorTable_empty "- 1" True]
  by (simp add: FileDescriptorTable_empty_def table_ok_def split_beta)

text \<open>
  A number asked for explicitly, as \<^verbatim>\<open>dup2\<close> does, is not skipped later: the table hands it
  out again and the descriptor that had it is lost.
\<close>

theorem desired_number_is_overwritten:
  "\<exists>t1 t2. Table_Insert a 4 FileDescriptorTable_empty = (4, t1) \<and> Table_GetFd 4 t1 = Some a \<and>
     Table_Insert b (- 1) t1 = (4, t2) \<and> Table_GetFd 4 t2 = Some b"
  by (simp add: Table_Insert_def FileDescriptorTable_empty_def Table_GetFd_def Table_IsValid_def)

end
