(* ===== verification/Unicode_Text.thy ===== *)
theory Unicode_Text
  imports Kernel_Prelude
begin

text \<open>
  Characters: \<^verbatim>\<open>Library/Unicode.hpp\<close>.  The translation of code points to code page 437, and
  the width of a character with the binary search in the table of combining characters.
\<close>

section \<open>Code page 437\<close>

text \<open>The cases of the switch: the pictures of the control codes, and the upper half.\<close>

definition cp437_controls :: "(int \<times> int) list" where
  "cp437_controls = [
    (0x263a, 1), (0x263b, 2), (0x2665, 3), (0x2666, 4), (0x2663, 5), (0x2660, 6), (0x2022, 7), (0x25d8, 8),
    (0x25cb, 9), (0x25d9, 10), (0x2642, 11), (0x2640, 12), (0x266a, 13), (0x266b, 14), (0x263c, 15),
    (0x25ba, 16), (0x25c4, 17), (0x2195, 18), (0x203c, 19), (0x00b6, 20), (0x00a7, 21), (0x25ac, 22),
    (0x21a8, 23), (0x2191, 24), (0x2193, 25), (0x2192, 26), (0x2190, 27), (0x221f, 28), (0x2194, 29),
    (0x25b2, 30), (0x25bc, 31)]"

definition cp437_upper :: "(int \<times> int) list" where
  "cp437_upper = [
    (0x2302, 127), (0x00c7, 128), (0x00fc, 129), (0x00e9, 130), (0x00e2, 131), (0x00e4, 132), (0x00e0, 133),
    (0x00e5, 134), (0x00e7, 135), (0x00ea, 136), (0x00eb, 137), (0x00e8, 138), (0x00ef, 139), (0x00ee, 140),
    (0x00ec, 141), (0x00c4, 142), (0x00c5, 143), (0x00c9, 144), (0x00e6, 145), (0x00c6, 146), (0x00f4, 147),
    (0x00f6, 148), (0x00f2, 149), (0x00fb, 150), (0x00f9, 151), (0x00ff, 152), (0x00d6, 153), (0x00dc, 154),
    (0x00a2, 155), (0x00a3, 156), (0x00a5, 157), (0x20a7, 158), (0x0192, 159), (0x00e1, 160), (0x00ed, 161),
    (0x00f3, 162), (0x00fa, 163), (0x00f1, 164), (0x00d1, 165), (0x00aa, 166), (0x00ba, 167), (0x00bf, 168),
    (0x2310, 169), (0x00ac, 170), (0x00bd, 171), (0x00bc, 172), (0x00a1, 173), (0x00ab, 174), (0x00bb, 175),
    (0x2591, 176), (0x2592, 177), (0x2593, 178), (0x2502, 179), (0x2524, 180), (0x2561, 181), (0x2562, 182),
    (0x2556, 183), (0x2555, 184), (0x2563, 185), (0x2551, 186), (0x2557, 187), (0x255d, 188), (0x255c, 189),
    (0x255b, 190), (0x2510, 191), (0x2514, 192), (0x2534, 193), (0x252c, 194), (0x251c, 195), (0x2500, 196),
    (0x253c, 197), (0x255e, 198), (0x255f, 199), (0x255a, 200), (0x2554, 201), (0x2569, 202), (0x2566, 203),
    (0x2560, 204), (0x2550, 205), (0x256c, 206), (0x2567, 207), (0x2568, 208), (0x2564, 209), (0x2565, 210),
    (0x2559, 211), (0x2558, 212), (0x2552, 213), (0x2553, 214), (0x256b, 215), (0x256a, 216), (0x2518, 217),
    (0x250c, 218), (0x2588, 219), (0x2584, 220), (0x258c, 221), (0x2590, 222), (0x2580, 223), (0x03b1, 224),
    (0x00df, 225), (0x0393, 226), (0x03c0, 227), (0x03a3, 228), (0x03c3, 229), (0x00b5, 230), (0x03c4, 231),
    (0x03a6, 232), (0x0398, 233), (0x03a9, 234), (0x03b4, 235), (0x221e, 236), (0x03c6, 237), (0x03b5, 238),
    (0x2229, 239), (0x2261, 240), (0x00b1, 241), (0x2265, 242), (0x2264, 243), (0x2320, 244), (0x2321, 245),
    (0x00f7, 246), (0x2248, 247), (0x00b0, 248), (0x2219, 249), (0x00b7, 250), (0x221a, 251), (0x207f, 252),
    (0x00b2, 253), (0x25a0, 254)]"

definition ToCodePage437 :: "u64 \<Rightarrow> u32" where
  "ToCodePage437 codePoint =
     (case map_of (cp437_controls @ cp437_upper) (uint codePoint) of Some c \<Rightarrow> word_of_int c | None \<Rightarrow> - 1)"

section \<open>Widths\<close>

record Interval =
  First :: u32
  Last :: u32

text \<open>
  \<^verbatim>\<open>std::lower_bound\<close> with the comparison of \<^verbatim>\<open>Interval\<close>: the number of intervals that end
  before \<open>ucs\<close>, by halving the range \<open>[first, first + len)\<close>.
\<close>

function lower_bound :: "Interval list \<Rightarrow> u32 \<Rightarrow> nat \<Rightarrow> nat \<Rightarrow> nat" where
  "lower_bound table ucs first len =
     (if len = 0 then first
      else let half = len div 2; middle = first + half
           in if Last (table ! middle) < ucs then lower_bound table ucs (middle + 1) (len - half - 1)
              else lower_bound table ucs first half)"
  by pat_completeness auto

termination
  by (relation "measure (\<lambda>(table, ucs, first, len). len)") (auto simp: Let_def)

declare lower_bound.simps [simp del]

definition IsInCombining :: "u32 \<Rightarrow> Interval list \<Rightarrow> bool" where
  "IsInCombining ucs table =
     (let it = lower_bound table ucs 0 (length table)
      in if it = length table then False else First (table ! it) \<le> ucs \<and> ucs \<le> Last (table ! it))"

definition interval_of :: "int \<times> int \<Rightarrow> Interval" where
  "interval_of = (\<lambda>(a, b). \<lparr>First = word_of_int a, Last = word_of_int b\<rparr>)"

definition combining_ranges :: "(int \<times> int) list" where
  "combining_ranges = [
    (0x0300, 0x036f), (0x0483, 0x0486), (0x0488, 0x0489), (0x0591, 0x05bd), (0x05bf, 0x05bf),
    (0x05c1, 0x05c2), (0x05c4, 0x05c5), (0x05c7, 0x05c7), (0x0600, 0x0603), (0x0610, 0x0615),
    (0x064b, 0x065e), (0x0670, 0x0670), (0x06d6, 0x06e4), (0x06e7, 0x06e8), (0x06ea, 0x06ed),
    (0x070f, 0x070f), (0x0711, 0x0711), (0x0730, 0x074a), (0x07a6, 0x07b0), (0x07eb, 0x07f3),
    (0x0901, 0x0902), (0x093c, 0x093c), (0x0941, 0x0948), (0x094d, 0x094d), (0x0951, 0x0954),
    (0x0962, 0x0963), (0x0981, 0x0981), (0x09bc, 0x09bc), (0x09c1, 0x09c4), (0x09cd, 0x09cd),
    (0x09e2, 0x09e3), (0x0a01, 0x0a02), (0x0a3c, 0x0a3c), (0x0a41, 0x0a42), (0x0a47, 0x0a48),
    (0x0a4b, 0x0a4d), (0x0a70, 0x0a71), (0x0a81, 0x0a82), (0x0abc, 0x0abc), (0x0ac1, 0x0ac5),
    (0x0ac7, 0x0ac8), (0x0acd, 0x0acd), (0x0ae2, 0x0ae3), (0x0b01, 0x0b01), (0x0b3c, 0x0b3c),
    (0x0b3f, 0x0b3f), (0x0b41, 0x0b43), (0x0b4d, 0x0b4d), (0x0b56, 0x0b56), (0x0b82, 0x0b82),
    (0x0bc0, 0x0bc0), (0x0bcd, 0x0bcd), (0x0c3e, 0x0c40), (0x0c46, 0x0c48), (0x0c4a, 0x0c4d),
    (0x0c55, 0x0c56), (0x0cbc, 0x0cbc), (0x0cbf, 0x0cbf), (0x0cc6, 0x0cc6), (0x0ccc, 0x0ccd),
    (0x0ce2, 0x0ce3), (0x0d41, 0x0d43), (0x0d4d, 0x0d4d), (0x0dca, 0x0dca), (0x0dd2, 0x0dd4),
    (0x0dd6, 0x0dd6), (0x0e31, 0x0e31), (0x0e34, 0x0e3a), (0x0e47, 0x0e4e), (0x0eb1, 0x0eb1),
    (0x0eb4, 0x0eb9), (0x0ebb, 0x0ebc), (0x0ec8, 0x0ecd), (0x0f18, 0x0f19), (0x0f35, 0x0f35),
    (0x0f37, 0x0f37), (0x0f39, 0x0f39), (0x0f71, 0x0f7e), (0x0f80, 0x0f84), (0x0f86, 0x0f87),
    (0x0f90, 0x0f97), (0x0f99, 0x0fbc), (0x0fc6, 0x0fc6), (0x102d, 0x1030), (0x1032, 0x1032),
    (0x1036, 0x1037), (0x1039, 0x1039), (0x1058, 0x1059), (0x1160, 0x11ff), (0x135f, 0x135f),
    (0x1712, 0x1714), (0x1732, 0x1734), (0x1752, 0x1753), (0x1772, 0x1773), (0x17b4, 0x17b5),
    (0x17b7, 0x17bd), (0x17c6, 0x17c6), (0x17c9, 0x17d3), (0x17dd, 0x17dd), (0x180b, 0x180d),
    (0x18a9, 0x18a9), (0x1920, 0x1922), (0x1927, 0x1928), (0x1932, 0x1932), (0x1939, 0x193b),
    (0x1a17, 0x1a18), (0x1b00, 0x1b03), (0x1b34, 0x1b34), (0x1b36, 0x1b3a), (0x1b3c, 0x1b3c),
    (0x1b42, 0x1b42), (0x1b6b, 0x1b73), (0x1dc0, 0x1dca), (0x1dfe, 0x1dff), (0x200b, 0x200f),
    (0x202a, 0x202e), (0x2060, 0x2063), (0x206a, 0x206f), (0x20d0, 0x20ef), (0x302a, 0x302f),
    (0x3099, 0x309a), (0xa806, 0xa806), (0xa80b, 0xa80b), (0xa825, 0xa826), (0xfb1e, 0xfb1e),
    (0xfe00, 0xfe0f), (0xfe20, 0xfe23), (0xfeff, 0xfeff), (0xfff9, 0xfffb), (0x10a01, 0x10a03),
    (0x10a05, 0x10a06), (0x10a0c, 0x10a0f), (0x10a38, 0x10a3a), (0x10a3f, 0x10a3f), (0x1d167, 0x1d169),
    (0x1d173, 0x1d182), (0x1d185, 0x1d18b), (0x1d1aa, 0x1d1ad), (0x1d242, 0x1d244), (0xe0001, 0xe0001),
    (0xe0020, 0xe007f), (0xe0100, 0xe01ef)]"

definition combining :: "Interval list" where
  "combining = map interval_of combining_ranges"

text \<open>The wide characters.\<close>

definition wide :: "u32 \<Rightarrow> bool" where
  "wide ucs \<longleftrightarrow> 0x1100 \<le> ucs \<and>
     (ucs \<le> 0x115f \<or> ucs = 0x2329 \<or> ucs = 0x232a \<or> (0x2e80 \<le> ucs \<and> ucs \<le> 0xa4cf \<and> ucs \<noteq> 0x303f) \<or>
      (0xac00 \<le> ucs \<and> ucs \<le> 0xd7a3) \<or> (0xf900 \<le> ucs \<and> ucs \<le> 0xfaff) \<or> (0xfe10 \<le> ucs \<and> ucs \<le> 0xfe19) \<or>
      (0xfe30 \<le> ucs \<and> ucs \<le> 0xfe6f) \<or> (0xff00 \<le> ucs \<and> ucs \<le> 0xff60) \<or> (0xffe0 \<le> ucs \<and> ucs \<le> 0xffe6) \<or>
      (0x20000 \<le> ucs \<and> ucs \<le> 0x2fffd) \<or> (0x30000 \<le> ucs \<and> ucs \<le> 0x3fffd))"

definition GetWidth :: "u32 \<Rightarrow> u32" where
  "GetWidth ucs =
     (if ucs = 0 then 0
      else if ucs < 32 \<or> (0x7f \<le> ucs \<and> ucs < 0xa0) then 1
      else if IsInCombining ucs combining then 0
      else 1 + (if wide ucs then 1 else 0))"

section \<open>The search\<close>

fun separated :: "Interval list \<Rightarrow> bool" where
  "separated [] = True"
| "separated [t] = (First t \<le> Last t)"
| "separated (s # t # ts) = (First s \<le> Last s \<and> Last s < First t \<and> separated (t # ts))"

lemma separated_Cons:
  "separated (s # ts) \<Longrightarrow> separated ts \<and> First s \<le> Last s \<and> (\<forall>t \<in> set ts. Last s < First t)"
proof (induction ts arbitrary: s)
  case (Cons t ts)
  then have "Last s < First t" "First t \<le> Last t" "\<forall>u \<in> set ts. Last t < First u" by auto
  then show ?case using Cons.prems by (auto intro: less_trans le_less_trans)
qed simp

lemma separated_nonempty: "separated table \<Longrightarrow> j < length table \<Longrightarrow> First (table ! j) \<le> Last (table ! j)"
  by (induction table arbitrary: j) (auto simp: nth_Cons dest!: separated_Cons split: nat.split)

lemma separated_mono: "separated table \<Longrightarrow> i < j \<Longrightarrow> j < length table \<Longrightarrow> Last (table ! i) < First (table ! j)"
proof (induction table arbitrary: i j)
  case (Cons s ts)
  then obtain k where k: "j = Suc k" "k < length ts" by (cases j) auto
  show ?case using Cons separated_Cons [OF Cons.prems(1)] k by (cases i) auto
qed simp

lemma lower_bound_spec:
  assumes "\<forall>i j. i < j \<longrightarrow> j < length table \<longrightarrow> Last (table ! i) \<le> Last (table ! j)" "first + len \<le> length table"
    and "\<forall>i < first. Last (table ! i) < ucs" "\<forall>i. first + len \<le> i \<longrightarrow> i < length table \<longrightarrow> ucs \<le> Last (table ! i)"
  shows "lower_bound table ucs first len \<le> length table \<and> (\<forall>i < lower_bound table ucs first len. Last (table ! i) < ucs) \<and>
    (\<forall>i. lower_bound table ucs first len \<le> i \<longrightarrow> i < length table \<longrightarrow> ucs \<le> Last (table ! i))"
  using assms(2-4)
proof (induction len arbitrary: first rule: less_induct)
  case (less len)
  show ?case
  proof (cases "len = 0")
    case True
    then show ?thesis using less.prems by (simp add: lower_bound.simps)
  next
    case False
    let ?m = "first + len div 2"
    have m: "?m < length table" "?m < first + len" using less.prems(1) False by auto
    show ?thesis
    proof (cases "Last (table ! ?m) < ucs")
      case True
      have "Last (table ! i) < ucs" if "i < ?m + 1" for i
      proof (cases "i = ?m")
        case False
        then have "i < ?m" using that by simp
        then have "Last (table ! i) \<le> Last (table ! ?m)" using assms(1) m(1) by blast
        then show ?thesis using True by (rule le_less_trans)
      qed (use True in simp)
      moreover have "?m + 1 + (len - len div 2 - 1) = first + len" using False by presburger
      ultimately have "lower_bound table ucs (?m + 1) (len - len div 2 - 1) \<le> length table \<and>
          (\<forall>i < lower_bound table ucs (?m + 1) (len - len div 2 - 1). Last (table ! i) < ucs) \<and>
          (\<forall>i. lower_bound table ucs (?m + 1) (len - len div 2 - 1) \<le> i \<longrightarrow> i < length table \<longrightarrow> ucs \<le> Last (table ! i))"
        using less.prems False by (intro less.IH) auto
      then show ?thesis using True False by (simp add: lower_bound.simps [of table ucs first len] Let_def)
    next
      case ge: False
      have "ucs \<le> Last (table ! i)" if "?m \<le> i" "i < length table" for i
      proof (cases "i = ?m")
        case False
        then have "Last (table ! ?m) \<le> Last (table ! i)" using that assms(1) by simp
        then show ?thesis using ge by simp
      qed (use ge in simp)
      then have "lower_bound table ucs first (len div 2) \<le> length table \<and>
          (\<forall>i < lower_bound table ucs first (len div 2). Last (table ! i) < ucs) \<and>
          (\<forall>i. lower_bound table ucs first (len div 2) \<le> i \<longrightarrow> i < length table \<longrightarrow> ucs \<le> Last (table ! i))"
        using less.prems(2) m(1) False by (intro less.IH) auto
      then show ?thesis using ge False by (simp add: lower_bound.simps [of table ucs first len] Let_def)
    qed
  qed
qed

lemma separated_Last_mono:
  assumes "separated table"
  shows "\<forall>i j. i < j \<longrightarrow> j < length table \<longrightarrow> Last (table ! i) \<le> Last (table ! j)"
proof (intro allI impI)
  fix i j assume "i < j" "j < length table"
  moreover from this(2) have "First (table ! j) \<le> Last (table ! j)" using assms by (rule separated_nonempty [rotated])
  ultimately show "Last (table ! i) \<le> Last (table ! j)"
    using separated_mono [OF assms, of i j] by (metis less_imp_le order_trans)
qed

section \<open>Properties\<close>

text \<open>
  Claim C40. In every table of separated, increasing intervals the binary search finds a character
  exactly when some interval of the table contains it, and the table of combining characters is
  of this form.
\<close>

theorem IsInCombining_iff_member:
  assumes "separated table"
  shows "IsInCombining ucs table \<longleftrightarrow> (\<exists>t \<in> set table. First t \<le> ucs \<and> ucs \<le> Last t)"
proof -
  let ?k = "lower_bound table ucs 0 (length table)"
  have k: "?k \<le> length table" "\<forall>i < ?k. Last (table ! i) < ucs" "\<forall>i. ?k \<le> i \<longrightarrow> i < length table \<longrightarrow> ucs \<le> Last (table ! i)"
    using lower_bound_spec [OF separated_Last_mono [OF assms], of 0 "length table" ucs] by auto
  have only: "j = ?k" if "j < length table" "First (table ! j) \<le> ucs" "ucs \<le> Last (table ! j)" for j
  proof (rule ccontr)
    assume "j \<noteq> ?k"
    then consider "j < ?k" | "?k < j" by linarith
    then show False
    proof cases
      case 1
      then show ?thesis using k(2) that(3) by (meson leD)
    next
      case 2
      then have "Last (table ! ?k) < First (table ! j)" using separated_mono [OF assms] that(1) by blast
      moreover have "ucs \<le> Last (table ! ?k)" using k(3) 2 that(1) by auto
      ultimately show ?thesis using that(2) by (meson le_less_trans less_le_trans less_irrefl)
    qed
  qed
  show ?thesis
  proof (cases "?k = length table")
    case True
    then have "\<not> (First (table ! j) \<le> ucs \<and> ucs \<le> Last (table ! j))" if "j < length table" for j
      using only [of j] that by auto
    then show ?thesis using True by (auto simp: IsInCombining_def in_set_conv_nth)
  next
    case False
    then have "?k < length table" using k(1) by simp
    then have "(\<exists>j < length table. First (table ! j) \<le> ucs \<and> ucs \<le> Last (table ! j)) \<longleftrightarrow>
        First (table ! ?k) \<le> ucs \<and> ucs \<le> Last (table ! ?k)" using only by blast
    moreover have "(\<exists>t \<in> set table. First t \<le> ucs \<and> ucs \<le> Last t) \<longleftrightarrow>
        (\<exists>j < length table. First (table ! j) \<le> ucs \<and> ucs \<le> Last (table ! j))" by (metis in_set_conv_nth)
    ultimately show ?thesis using False by (simp add: IsInCombining_def Let_def)
  qed
qed

fun ranges_ok :: "(int \<times> int) list \<Rightarrow> bool" where
  "ranges_ok [] = True"
| "ranges_ok [(a, b)] = (0 \<le> a \<and> a \<le> b \<and> b < 0x100000000)"
| "ranges_ok ((a, b) # (c, d) # r) = (0 \<le> a \<and> a \<le> b \<and> b < c \<and> ranges_ok ((c, d) # r))"

lemma ranges_ok_Cons: "ranges_ok ((a, b) # r) \<Longrightarrow> 0 \<le> a \<and> a \<le> b \<and> b < 0x100000000"
  by (induction r arbitrary: a b) force+

lemma ranges_ok_separated: "ranges_ok rs \<Longrightarrow> separated (map interval_of rs)"
proof (induction rs rule: ranges_ok.induct)
  case (2 a b)
  then show ?case by (simp add: interval_of_def word_le_def uint_word_of_int)
next
  case (3 a b c d r)
  then have "0 \<le> a" "a \<le> b" "b < c" "0 \<le> c" "c \<le> d" "d < 0x100000000" using ranges_ok_Cons [of c d r] by auto
  then show ?case using 3 by (simp add: interval_of_def word_le_def word_less_def uint_word_of_int)
qed simp

lemma combining_separated: "separated combining"
  unfolding combining_def by (rule ranges_ok_separated) (simp add: combining_ranges_def)

theorem IsInCombining_iff_member_witness:
  "IsInCombining 0x0300 combining \<longleftrightarrow> (\<exists>t \<in> set combining. First t \<le> 0x0300 \<and> 0x0300 \<le> Last t)"
  by (rule IsInCombining_iff_member [OF combining_separated])

text \<open>
  No two characters share a glyph of code page 437: the translation is injective where it
  is defined, its values are the glyphs 1 to 31 and 127 to 254, and each of these is the image of a
  character.  Printable ASCII is not translated.
\<close>

theorem ToCodePage437_injective:
  "(\<forall>a b. ToCodePage437 a = ToCodePage437 b \<longrightarrow> ToCodePage437 a \<noteq> - 1 \<longrightarrow> a = b) \<and>
   ToCodePage437 ` UNIV = insert (- 1) (set (map word_of_int ([1..31] @ [127..254])))"
proof -
  let ?t = "cp437_controls @ cp437_upper"
  have vals: "map snd ?t = [1..31] @ [127..254]" by code_simp
  have keys: "distinct (map fst ?t)" by code_simp
  have krng: "list_all (\<lambda>k. 0 < k \<and> k < 2 ^ 64) (map fst ?t)" by code_simp
  have dist: "distinct (map snd ?t)" unfolding vals by auto
  have vrng: "1 \<le> c \<and> c \<le> 254" if "(k, c) \<in> set ?t" for k c
  proof -
    have "c \<in> set (map snd ?t)" using that by force
    then show ?thesis unfolding vals by auto
  qed
  have code: "map_of ?t (uint a) = Some c \<Longrightarrow> ToCodePage437 a = word_of_int c" "map_of ?t (uint a) = None \<Longrightarrow> ToCodePage437 a = - 1" for a c
    by (simp_all only: ToCodePage437_def option.case)
  have val: "uint (word_of_int c :: u32) = c" if "(k, c) \<in> set ?t" for k c
    using vrng [OF that] by (simp add: uint_word_of_int)
  have inj: "a = b" if eq: "ToCodePage437 a = ToCodePage437 b" and ne: "ToCodePage437 a \<noteq> - 1" for a b
  proof -
    obtain c d where cd: "map_of ?t (uint a) = Some c" "map_of ?t (uint b) = Some d"
      using eq ne code(2) [of a] code(2) [of b] by fastforce
    then have m: "(uint a, c) \<in> set ?t" "(uint b, d) \<in> set ?t" by (auto dest: map_of_SomeD)
    then have "c = d" using eq code(1) [OF cd(1)] code(1) [OF cd(2)] val by metis
    have "inj_on snd (set ?t)" using dist by (simp only: distinct_map)
    from inj_onD [OF this _ m] \<open>c = d\<close> have "uint a = uint b" by simp
    then show ?thesis by (rule unsigned_word_eqI)
  qed
  have "ToCodePage437 ` UNIV = insert (- 1) (word_of_int ` set (map snd ?t))"
  proof (intro equalityI subsetI)
    fix x assume "x \<in> ToCodePage437 ` UNIV"
    then obtain a where "x = ToCodePage437 a" by blast
    then show "x \<in> insert (- 1) (word_of_int ` set (map snd ?t))"
      using code [of a] by (cases "map_of ?t (uint a)") (force dest: map_of_SomeD)+
  next
    fix x :: u32 assume x: "x \<in> insert (- 1) (word_of_int ` set (map snd ?t))"
    show "x \<in> ToCodePage437 ` UNIV"
    proof (cases "x = - 1")
      case True
      have "map_of ?t (uint (0 :: u64)) = None" using krng by (auto simp: map_of_eq_None_iff list_all_iff)
      then show ?thesis using True code(2) [of 0] by (intro rev_image_eqI [of 0]) simp_all
    next
      case False
      then have "x \<in> word_of_int ` snd ` set ?t" using x by (simp only: insert_iff set_map simp_thms)
      then obtain p where "p \<in> set ?t" "x = word_of_int (snd p)" by blast
      then obtain k c where kc: "(k, c) \<in> set ?t" "x = word_of_int c" by (metis prod.collapse)
      then have "0 < k \<and> k < 2 ^ 64" using krng by (force simp: list_all_iff)
      then have "uint (word_of_int k :: u64) = k" by (simp add: uint_word_of_int)
      then have "map_of ?t (uint (word_of_int k :: u64)) = Some c"
        using map_of_is_SomeI [OF keys kc(1)] by (simp only:)
      from code(1) [OF this] kc(2) show ?thesis by (metis rangeI)
    qed
  qed
  then show ?thesis using inj unfolding vals by (simp del: set_upto)
qed

end
