(* ===== verification/Colors.thy ===== *)
theory Colors
  imports Kernel_Prelude
begin

text \<open>
  Colours: \<^verbatim>\<open>Library/Color.hpp\<close>.  Four channels of eight bits, packed into a 32-bit word,
  and the blending of a foreground over a background.
\<close>

record Color =
  m_Red :: u8
  m_Green :: u8
  m_Blue :: u8
  m_Alpha :: u8

definition RED_BITS_MASK :: u32 where "RED_BITS_MASK = 0x00ff0000"

definition GREEN_BITS_MASK :: u32 where "GREEN_BITS_MASK = 0x0000ff00"

definition BLUE_BITS_MASK :: u32 where "BLUE_BITS_MASK = 0x000000ff"

definition ALPHA_BITS_MASK :: u32 where "ALPHA_BITS_MASK = 0xff000000"

definition RED_BITS_SHIFT :: nat where "RED_BITS_SHIFT = 16"

definition GREEN_BITS_SHIFT :: nat where "GREEN_BITS_SHIFT = 8"

definition BLUE_BITS_SHIFT :: nat where "BLUE_BITS_SHIFT = 0"

definition ALPHA_BITS_SHIFT :: nat where "ALPHA_BITS_SHIFT = 24"

lemmas color_layout = RED_BITS_MASK_def GREEN_BITS_MASK_def BLUE_BITS_MASK_def ALPHA_BITS_MASK_def
  RED_BITS_SHIFT_def GREEN_BITS_SHIFT_def BLUE_BITS_SHIFT_def ALPHA_BITS_SHIFT_def

definition Color_of :: "u32 \<Rightarrow> Color" where
  "Color_of rgba =
     \<lparr>m_Red = ucast (drop_bit RED_BITS_SHIFT (rgba AND RED_BITS_MASK)),
      m_Green = ucast (drop_bit GREEN_BITS_SHIFT (rgba AND GREEN_BITS_MASK)),
      m_Blue = ucast (drop_bit BLUE_BITS_SHIFT (rgba AND BLUE_BITS_MASK)),
      m_Alpha = ucast (drop_bit ALPHA_BITS_SHIFT (rgba AND ALPHA_BITS_MASK))\<rparr>"

definition Color_rgb :: "u8 \<Rightarrow> u8 \<Rightarrow> u8 \<Rightarrow> Color" where
  "Color_rgb r g b = \<lparr>m_Red = r, m_Green = g, m_Blue = b, m_Alpha = 0\<rparr>"

definition Color_with_alpha :: "Color \<Rightarrow> u8 \<Rightarrow> Color" where
  "Color_with_alpha other alpha = other\<lparr>m_Alpha := alpha\<rparr>"

definition RGB :: "Color \<Rightarrow> u32" where
  "RGB c = push_bit RED_BITS_SHIFT (ucast (m_Red c)) OR push_bit GREEN_BITS_SHIFT (ucast (m_Green c)) OR
           push_bit BLUE_BITS_SHIFT (ucast (m_Blue c))"

definition RGBA :: "Color \<Rightarrow> u32" where
  "RGBA c = RGB c OR push_bit ALPHA_BITS_SHIFT (ucast (m_Alpha c))"

definition SetRGB :: "u32 \<Rightarrow> Color \<Rightarrow> Color" where
  "SetRGB rgb c = c\<lparr>m_Red := ucast (drop_bit RED_BITS_SHIFT rgb), m_Green := ucast (drop_bit GREEN_BITS_SHIFT rgb),
                    m_Blue := ucast (drop_bit BLUE_BITS_SHIFT rgb)\<rparr>"

definition SetRGBA :: "u32 \<Rightarrow> Color \<Rightarrow> Color" where
  "SetRGBA rgba c = (SetRGB rgba c)\<lparr>m_Alpha := ucast (drop_bit ALPHA_BITS_SHIFT rgba)\<rparr>"

definition SetRed :: "u8 \<Rightarrow> Color \<Rightarrow> Color" where "SetRed r c = c\<lparr>m_Red := r\<rparr>"

definition SetGreen :: "u8 \<Rightarrow> Color \<Rightarrow> Color" where "SetGreen g c = c\<lparr>m_Green := g\<rparr>"

definition SetBlue :: "u8 \<Rightarrow> Color \<Rightarrow> Color" where "SetBlue b c = c\<lparr>m_Blue := b\<rparr>"

definition SetAlpha :: "u8 \<Rightarrow> Color \<Rightarrow> Color" where "SetAlpha a c = c\<lparr>m_Alpha := a\<rparr>"

text \<open>
  \<^verbatim>\<open>Blend\<close>: one channel, and the colour.  The products and sums are those of
  \<^verbatim>\<open>u32\<close>; the quotient is narrowed to eight bits.
\<close>

definition Blend_channel :: "u8 \<Rightarrow> u8 \<Rightarrow> u8 \<Rightarrow> u8" where
  "Blend_channel foregroundAlpha foreground background =
     (let alpha = 255 - push_bit ALPHA_BITS_SHIFT (ucast foregroundAlpha :: u32);
          inverseAlpha = (ucast foregroundAlpha :: u32) + 1
      in ucast ((alpha * ucast foreground + inverseAlpha * ucast background) div 256))"

definition Blend :: "Color \<Rightarrow> Color \<Rightarrow> Color" where
  "Blend c foreground =
     Color_rgb (Blend_channel (m_Alpha foreground) (m_Red foreground) (m_Red c))
       (Blend_channel (m_Alpha foreground) (m_Green foreground) (m_Green c))
       (Blend_channel (m_Alpha foreground) (m_Blue foreground) (m_Blue c))"

text \<open>The colours of the ANSI palette.\<close>

definition AnsiBlack :: Color where "AnsiBlack = Color_of 0xa0000000"

definition AnsiRed :: Color where "AnsiRed = Color_of 0xa0aa0000"

definition AnsiGreen :: Color where "AnsiGreen = Color_of 0xa000aa00"

definition AnsiYellow :: Color where "AnsiYellow = Color_of 0xa0aa5500"

definition AnsiBlue :: Color where "AnsiBlue = Color_of 0xa00000aa"

definition AnsiMagenta :: Color where "AnsiMagenta = Color_of 0xa0aa00aa"

definition AnsiCyan :: Color where "AnsiCyan = Color_of 0xa000aaaa"

definition AnsiWhite :: Color where "AnsiWhite = Color_of 0xa0aaaaaa"

definition AnsiBrightBlack :: Color where "AnsiBrightBlack = Color_of 0xa0555555"

definition AnsiBrightRed :: Color where "AnsiBrightRed = Color_of 0xa0ff5555"

definition AnsiBrightGreen :: Color where "AnsiBrightGreen = Color_of 0xa055ff55"

definition AnsiBrightYellow :: Color where "AnsiBrightYellow = Color_of 0xa0ffff55"

definition AnsiBrightBlue :: Color where "AnsiBrightBlue = Color_of 0xa05555ff"

definition AnsiBrightMagenta :: Color where "AnsiBrightMagenta = Color_of 0xa0ff55ff"

definition AnsiBrightCyan :: Color where "AnsiBrightCyan = Color_of 0xa055ffff"

definition AnsiBrightWhite :: Color where "AnsiBrightWhite = Color_of 0xa0ffffff"

text \<open>The literals \<^verbatim>\<open>_rgb\<close> and \<^verbatim>\<open>_rgba\<close>.\<close>

definition literal_rgb :: "u64 \<Rightarrow> Color" where
  "literal_rgb rgb = Color_rgb (ucast (drop_bit RED_BITS_SHIFT rgb)) (ucast (drop_bit GREEN_BITS_SHIFT rgb))
     (ucast (drop_bit BLUE_BITS_SHIFT rgb))"

definition literal_rgba :: "u64 \<Rightarrow> Color" where
  "literal_rgba rgba = Color_of (ucast rgba)"

section \<open>Packing\<close>

lemma byte_masks:
  "RED_BITS_MASK = push_bit 16 (mask 8)" "GREEN_BITS_MASK = push_bit 8 (mask 8)"
  "BLUE_BITS_MASK = mask 8" "ALPHA_BITS_MASK = push_bit 24 (mask 8)"
  by (simp_all add: color_layout push_bit_eq_mult mask_eq_exp_minus_1)

lemma bit_u8_high: "8 \<le> k \<Longrightarrow> \<not> bit (b :: u8) k"
  using bit_imp_le_length [of b k] by auto

lemmas color_shifts = RED_BITS_SHIFT_def GREEN_BITS_SHIFT_def BLUE_BITS_SHIFT_def ALPHA_BITS_SHIFT_def
lemmas color_bits = bit_unsigned_iff bit_drop_bit_eq bit_push_bit_iff bit_or_iff bit_and_iff bit_mask_iff bit_u8_high

lemma Color_of_RGBA: "Color_of (RGBA c) = c"
  by (cases c)
    (auto simp: Color_of_def RGBA_def RGB_def byte_masks color_shifts color_bits
      intro!: bit_word_eqI)

lemma RGBA_Color_of: "RGBA (Color_of w) = w"
proof (rule bit_word_eqI)
  fix n assume "n < LENGTH(32)"
  then consider "n < 8" | "8 \<le> n" "n < 16" | "16 \<le> n" "n < 24" | "24 \<le> n" "n < 32" by fastforce
  then show "bit (RGBA (Color_of w)) n = bit w n"
    by cases (auto simp: Color_of_def RGBA_def RGB_def byte_masks color_shifts color_bits)
qed

text \<open>
  The packed form of a colour holds its four channels: packing and unpacking are inverse
  to each other in both directions, and overwriting a colour with a packed one gives the unpacked
  one, whatever it was before.
\<close>

theorem color_packing_roundtrip:
  "Color_of (RGBA c) = c \<and> RGBA (Color_of w) = w \<and> SetRGBA w c = Color_of w"
proof -
  have "SetRGBA w c = Color_of w"
    by (cases c) (auto simp: SetRGBA_def SetRGB_def Color_of_def byte_masks color_shifts color_bits
      intro!: bit_word_eqI)
  then show ?thesis by (simp add: Color_of_RGBA RGBA_Color_of)
qed

section \<open>Blending\<close>

text \<open>
  The weight of the foreground is meant to be \<^verbatim>\<open>255 - alpha\<close>.  The alpha channel is shifted
  by 24 bits first, and a multiple of \<open>2 ^ 24\<close> does not reach the bits 8 to 15 that are kept: the
  foreground always has the weight 255.
\<close>

theorem Blend_channel_ignores_alpha_weight:
  "uint (Blend_channel a f b) = (255 * uint f + (uint a + 1) * uint b) div 256 mod 256"
proof -
  let ?k = "255 * uint f + (uint a + 1) * uint b"
  define m :: u32 where "m = (255 - push_bit 24 (ucast a)) * ucast f + (ucast a + 1) * ucast b"
  have m: "m = word_of_int ((255 - uint a * 2 ^ 24) * uint f + (uint a + 1) * uint b)"
    unfolding m_def push_bit_eq_mult by simp
  have "uint m = (?k - 256 * (65536 * (uint a * uint f))) mod (256 * 16777216)"
    unfolding m uint_word_of_int by (simp add: algebra_simps)
  then have "uint m div 256 = (?k - 256 * (65536 * (uint a * uint f))) div 256 mod 16777216"
    using zmod_zmult2_eq [of 16777216 "?k - 256 * (65536 * (uint a * uint f))" 256] by linarith
  moreover have "(?k - 256 * (65536 * (uint a * uint f))) div 256 = ?k div 256 - 65536 * (uint a * uint f)"
    by linarith
  ultimately have "uint m div 256 = (?k div 256 - 65536 * (uint a * uint f)) mod 16777216"
    by (simp only:)
  then have "uint m div 256 mod 256 = (?k div 256 - 256 * (256 * (uint a * uint f))) mod 256"
    by (simp add: mod_mod_cancel)
  also have "\<dots> = ?k div 256 mod 256"
    using mod_mult_self2 [of "?k div 256" 256 "- (256 * (uint a * uint f))"] by simp
  finally show ?thesis
    by (simp add: Blend_channel_def ALPHA_BITS_SHIFT_def Let_def m_def [symmetric] unsigned_ucast_eq uint_div take_bit_eq_mod)
qed

text \<open>
  So a white pixel under a white foreground of alpha 128 does not stay white: the sum passes 255
  and wraps.  With the weight \<^verbatim>\<open>255 - alpha\<close> it cannot.
\<close>

theorem Blend_white_on_white:
  "Blend_channel 128 255 255 = 126"
  "\<lbrakk>0 \<le> a; a \<le> 255; 0 \<le> f; f \<le> 255; 0 \<le> b; b \<le> 255\<rbrakk> \<Longrightarrow> ((255 - a) * f + (a + 1) * b) div 256 \<le> (255 :: int)"
proof -
  show "Blend_channel 128 255 255 = 126" by code_simp
  assume "0 \<le> a" "a \<le> 255" "0 \<le> f" "f \<le> 255" "0 \<le> b" "b \<le> 255"
  then have "(255 - a) * f \<le> (255 - a) * 255" "(a + 1) * b \<le> (a + 1) * 255"
    by (intro mult_left_mono; linarith)+
  then have "(255 - a) * f + (a + 1) * b \<le> 256 * 255" by (simp add: algebra_simps)
  then show "((255 - a) * f + (a + 1) * b) div 256 \<le> (255 :: int)" by linarith
qed

end
