(* ===== verification/Terminal_Emulator.thy ===== *)
theory Terminal_Emulator
  imports Colors
begin

text \<open>
  The terminal emulator: \<^verbatim>\<open>Drivers/Terminal.hpp\<close> and \<^verbatim>\<open>Drivers/Terminal.cpp\<close>, the state
  machine that reads characters and escape sequences.  Its state is the record \<open>Terminal\<close>, which
  the record of a concrete terminal extends as the derived class does.  The virtual methods are
  the fields of \<open>terminal_ops\<close>, together with the functions of other libraries the class calls.
  Characters are the codes of the source's \<^verbatim>\<open>char\<close>; a comment gives the literal.
\<close>

section \<open>State\<close>

record winsize =
  ws_row :: u16
  ws_col :: u16
  ws_xpixel :: u16
  ws_ypixel :: u16

datatype State =
    eNormal | eEscape | eControlSequenceEntry | eControlSequenceParams | eCsiExpectParameters
  | eOsCommand | eDecPrivate | eDecParameters | eDecCursorMode

definition MAX_ESC_PARAMETER_COUNT :: nat where "MAX_ESC_PARAMETER_COUNT = 16"

text \<open>
  The members of the class.  The lock is not modelled.  \<open>tty_Sent\<close> records the buffers handed to
  \<^verbatim>\<open>TTY::SendBuffer\<close> of the current TTY as replies, in order, while its echo is off.
\<close>

record Terminal =
  m_Initialized :: bool
  m_Size :: winsize
  m_ScrollBottomMargin :: usize
  m_ScrollTopMargin :: usize
  m_State :: State
  m_EscapeValues :: "u32 list"
  m_EscapeValueCount :: nat
  m_TabSize :: u8
  m_DecPrivate :: bool
  m_CursorKeyMode :: bool
  tty_Sent :: "u8 list list"

text \<open>The numbers of the enumerators of \<^verbatim>\<open>AnsiColor\<close>.\<close>

definition AnsiColor_values :: "nat list" where
  "AnsiColor_values = [0, 1, 2, 3, 4, 5, 6, 7, 9, 10, 11, 12, 13, 14, 15, 16, 17, 19]"

definition eDefault :: nat where "eDefault = 9"

definition eDefaultBright :: nat where "eDefaultBright = 19"

text \<open>
  The virtual methods; then \<^verbatim>\<open>StringUtils::IsDigit\<close> of Prism, the position report formatted by
  \<^verbatim>\<open>fmt::format\<close>, and whether \<^verbatim>\<open>TTY::GetCurrent\<close> finds a TTY.
\<close>

record 't terminal_ops =
  op_Clear :: "u32 \<Rightarrow> bool \<Rightarrow> 't \<Rightarrow> 't"
  op_RawPutChar :: "u8 \<Rightarrow> 't \<Rightarrow> 't"
  op_MoveCharacter :: "usize \<Rightarrow> usize \<Rightarrow> usize \<Rightarrow> usize \<Rightarrow> 't \<Rightarrow> 't"
  op_ScrollDown :: "'t \<Rightarrow> 't"
  op_ScrollUp :: "'t \<Rightarrow> 't"
  op_Flush :: "'t \<Rightarrow> 't"
  op_GetCursorPos :: "'t \<Rightarrow> usize \<times> usize"
  op_SetCursorPos :: "usize \<Rightarrow> usize \<Rightarrow> 't \<Rightarrow> 't"
  op_SaveState :: "'t \<Rightarrow> 't"
  op_RestoreState :: "'t \<Rightarrow> 't"
  op_SetTextForeground :: "nat \<Rightarrow> 't \<Rightarrow> 't"
  op_SetTextBackground :: "nat \<Rightarrow> 't \<Rightarrow> 't"
  op_SetTextForegroundRgb :: "Color \<Rightarrow> 't \<Rightarrow> 't"
  op_SetTextBackgroundRgb :: "Color \<Rightarrow> 't \<Rightarrow> 't"
  op_IsDigit :: "u8 \<Rightarrow> bool"
  op_format :: "usize \<Rightarrow> usize \<Rightarrow> u8 list"
  op_has_tty :: bool

type_synonym 'a terminal = "'a Terminal_scheme"
type_synonym 'a vtable = "'a Terminal_scheme terminal_ops"

text \<open>The window size in the arithmetic of the source: widened to \<^verbatim>\<open>usize\<close>.\<close>

definition cols :: "'a terminal \<Rightarrow> usize" where
  "cols t = ucast (ws_col (m_Size t))"

definition rows :: "'a terminal \<Rightarrow> usize" where
  "rows t = ucast (ws_row (m_Size t))"

section \<open>Control sequences\<close>

definition Terminal_Reset :: "'a terminal \<Rightarrow> 'a terminal" where
  "Terminal_Reset t = t\<lparr>m_TabSize := 8, m_EscapeValueCount := 0, m_ScrollTopMargin := 0,
                        m_ScrollBottomMargin := rows t\<rparr>"

text \<open>The loop of \<^verbatim>\<open>ICH\<close>, over the columns from the last one down to the cursor.\<close>

definition ICH :: "'a vtable \<Rightarrow> u64 \<Rightarrow> 'a terminal \<Rightarrow> 'a terminal" where
  "ICH vt count t =
     (let (x, y) = op_GetCursorPos vt t;
          t = fold (\<lambda>i t. op_RawPutChar vt 0x20 (op_SetCursorPos vt (of_nat i) y
                 (op_MoveCharacter vt (of_nat i + count) y (of_nat i) y t)))
                (rev [unat x ..< unat (cols t)]) t
      in op_SetCursorPos vt x y t)"

definition CHA :: "'a vtable \<Rightarrow> u64 \<Rightarrow> 'a terminal \<Rightarrow> 'a terminal" where
  "CHA vt column t =
     (let column = column - 1;
          column = (if cols t \<le> column then cols t - 1 else column);
          y = snd (op_GetCursorPos vt t)
      in op_SetCursorPos vt column y t)"

definition CUP :: "'a vtable \<Rightarrow> 'a terminal \<Rightarrow> 'a terminal" where
  "CUP vt t =
     (let x = ucast (m_EscapeValues t ! 1); y = ucast (m_EscapeValues t ! 0);
          x = (if 0 < x then x - 1 else x);
          x = (if cols t \<le> x then cols t - 1 else x);
          y = (if 0 < y then y - 1 else y);
          y = (if rows t \<le> y then rows t - 1 else y)
      in op_SetCursorPos vt x y t)"

definition ED :: "'a vtable \<Rightarrow> u64 \<Rightarrow> 'a terminal \<Rightarrow> 'a terminal" where
  "ED vt parameter t =
     (let (startX, startY) = op_GetCursorPos vt t;
          displaySize = cols t * rows t;
          currentPos = startY * rows t + startX;
          t = (if m_EscapeValueCount t = 0
               then op_SetCursorPos vt startX startY
                      ((op_RawPutChar vt 0x20 ^^ (unat displaySize - unat currentPos)) t)
               else t)
      in if parameter = 1 then (op_RawPutChar vt 0x20 ^^ unat startX) (op_SetCursorPos vt 0 startY t)
         else if parameter = 2 \<or> parameter = 3 then op_SetCursorPos vt 0 0 (op_Clear vt 0 False t)
         else t)"

definition EL :: "'a vtable \<Rightarrow> u64 \<Rightarrow> 'a terminal \<Rightarrow> 'a terminal" where
  "EL vt parameter t =
     (let (x, y) = op_GetCursorPos vt t;
          startX = (if parameter = 1 \<or> parameter = 2 then 0 else x);
          endX = (if parameter = 1 then x else cols t);
          t = (op_RawPutChar vt 0x20 ^^ (unat endX - unat startX)) (op_SetCursorPos vt startX y t)
      in if parameter \<noteq> 1 then op_SetCursorPos vt x y t else t)"

definition VPA :: "'a vtable \<Rightarrow> u64 \<Rightarrow> 'a terminal \<Rightarrow> 'a terminal" where
  "VPA vt row t =
     (let row = row - 1;
          row = (if rows t \<le> row then rows t - 1 else row);
          x = fst (op_GetCursorPos vt t)
      in op_SetCursorPos vt x row t)"

definition SGR :: "'a vtable \<Rightarrow> u64 \<Rightarrow> 'a terminal \<Rightarrow> 'a terminal" where
  "SGR vt parameter t =
     (let p = unat parameter; color = p mod 10 + (if 90 \<le> p then 10 else 0)
      in if p = 0 then op_SetTextBackground vt eDefault (op_SetTextForeground vt eDefault t)
         else if (30 \<le> p \<and> p \<le> 37) \<or> p = 39 \<or> (90 \<le> p \<and> p \<le> 97) then op_SetTextForeground vt color t
         else if p = 38 \<or> p = 48 then
           if m_EscapeValueCount t < 4 then t
           else let rgb = Color_rgb (ucast (m_EscapeValues t ! 1)) (ucast (m_EscapeValues t ! 2)) (ucast (m_EscapeValues t ! 3))
                in if p = 38 then op_SetTextForegroundRgb vt rgb t else op_SetTextBackgroundRgb vt rgb t
         else if (40 \<le> p \<and> p \<le> 47) \<or> p = 49 \<or> (100 \<le> p \<and> p \<le> 107) then op_SetTextBackground vt color t
         else t)"

text \<open>\<^verbatim>\<open>DecSpecialPrint\<close>: the table of its switch, and the result with the terminal.\<close>

definition dec_special_glyphs :: "(u8 \<times> u8) list" where
  "dec_special_glyphs = [
     (0x60, 0x04), (0x30, 0xdb), (0x2d, 0x18), (0x2c, 0x1b), (0x2e, 0x19), (0x61, 0xb1), (0x66, 0xf8),
     (0x67, 0xf1), (0x68, 0xb0), (0x6a, 0xd9), (0x6b, 0xbf), (0x6c, 0xda), (0x6d, 0xc0), (0x6e, 0xc5),
     (0x71, 0xc4), (0x73, 0x5f), (0x74, 0xc3), (0x75, 0xb4), (0x76, 0xc1), (0x77, 0xc2), (0x78, 0xb3),
     (0x79, 0xf3), (0x7a, 0xf2), (0x7e, 0xfa), (0x5f, 0xff), (0x2b, 0x1a), (0x7b, 0xe3), (0x7d, 0x9c)]"

definition DecSpecialPrint :: "'a vtable \<Rightarrow> u8 \<Rightarrow> 'a terminal \<Rightarrow> bool \<times> 'a terminal" where
  "DecSpecialPrint vt c t =
     (case map_of dec_special_glyphs c of Some g \<Rightarrow> (True, op_RawPutChar vt g t) | None \<Rightarrow> (False, t))"

section \<open>Escape sequences\<close>

definition OnEscapeChar :: "'a vtable \<Rightarrow> u8 \<Rightarrow> 'a terminal \<Rightarrow> 'a terminal" where
  "OnEscapeChar vt c t =
     (let (x, y) = op_GetCursorPos vt t
      in if c = 0x5b \<comment> \<open>[\<close> then
           t\<lparr>m_EscapeValues := replicate MAX_ESC_PARAMETER_COUNT 0, m_EscapeValueCount := 0,
             m_State := eControlSequenceEntry\<rparr>
         else
           (if c = 0x63 \<comment> \<open>c\<close> then op_Clear vt 0xffffffff True (Terminal_Reset t)
            else if c = 0x44 \<comment> \<open>D\<close> then
              if y = m_ScrollBottomMargin t - 1 then op_SetCursorPos vt x (y + 1) (op_ScrollDown vt t)
              else op_SetCursorPos vt x y t
            else if c = 0x45 \<comment> \<open>E\<close> then
              if y = m_ScrollBottomMargin t - 1 then op_SetCursorPos vt 0 (y + 1) (op_ScrollDown vt t)
              else op_SetCursorPos vt 0 y t
            else if c = 0x4d \<comment> \<open>M\<close> then
              if y = m_ScrollTopMargin t then op_SetCursorPos vt 0 (y - 1) (op_ScrollUp vt t)
              else op_SetCursorPos vt 0 y t
            else if c = 0x37 \<comment> \<open>7\<close> then op_SaveState vt t
            else if c = 0x38 \<comment> \<open>8\<close> then op_RestoreState vt t
            else t)\<lparr>m_State := eNormal\<rparr>)"

text \<open>Moving the cursor up by \<open>param\<close> rows, not past the top margin from inside the margins.\<close>

definition cursor_up :: "'a vtable \<Rightarrow> u32 \<Rightarrow> 'a terminal \<Rightarrow> 'a terminal" where
  "cursor_up vt param t =
     (let (x, y) = op_GetCursorPos vt t;
          param = (if y < ucast param then ucast y else param);
          origY = y; destY = y - ucast param;
          willBeScrolled = ((destY \<le> m_ScrollTopMargin t \<and> m_ScrollTopMargin t \<le> origY) \<or>
            (destY \<le> m_ScrollBottomMargin t \<and> m_ScrollBottomMargin t \<le> origY));
          destY = (if willBeScrolled \<and> destY < m_ScrollTopMargin t then m_ScrollTopMargin t else destY)
      in op_SetCursorPos vt x destY t)"

definition cursor_forward :: "'a vtable \<Rightarrow> u32 \<Rightarrow> 'a terminal \<Rightarrow> 'a terminal" where
  "cursor_forward vt param t =
     (let (x, y) = op_GetCursorPos vt t;
          param = (if cols t - 1 < ucast param + x then ucast (cols t - 1 - x) else param)
      in op_SetCursorPos vt (x + ucast param) y t)"

definition cursor_backward :: "'a vtable \<Rightarrow> u32 \<Rightarrow> 'a terminal \<Rightarrow> 'a terminal" where
  "cursor_backward vt param t =
     (let (x, y) = op_GetCursorPos vt t;
          param = (if x < ucast param then ucast x else param)
      in op_SetCursorPos vt (x - ucast param) y t)"

text \<open>The status reports: the reply goes to the current TTY, with its echo off.\<close>

definition device_status :: "'a vtable \<Rightarrow> u32 \<Rightarrow> 'a terminal \<Rightarrow> 'a terminal" where
  "device_status vt param t =
     (let (x, y) = op_GetCursorPos vt t;
          response = (if param = 5 then [0x1b, 0x5b, 0x30, 0x6e] \<comment> \<open>ESC [0n\<close>
                      else if param = 6 then op_format vt x y else [])
      in if op_has_tty vt then t\<lparr>tty_Sent := tty_Sent t @ [response]\<rparr> else t)"

text \<open>
  The switch of \<^verbatim>\<open>OnCsi\<close>.  The sequences the source only logs, and the one whose case starts
  with \<^verbatim>\<open>break\<close>, do nothing; so does an unknown character.
\<close>

definition OnCsi_switch :: "'a vtable \<Rightarrow> u8 \<Rightarrow> 'a terminal \<Rightarrow> 'a terminal" where
  "OnCsi_switch vt c t =
     (let param = m_EscapeValues t ! 0
      in if c = 0x3f \<comment> \<open>?\<close> then t\<lparr>m_DecPrivate := True\<rparr>
         else
           (if c = 0x40 \<comment> \<open>@\<close> then ICH vt (ucast param) t
            else if c = 0x41 \<comment> \<open>A\<close> then cursor_up vt param t
            else if c = 0x43 \<comment> \<open>C\<close> then cursor_forward vt param t
            else if c = 0x44 \<comment> \<open>D\<close> then cursor_backward vt param t
            else if c = 0x47 \<comment> \<open>G\<close> then CHA vt (ucast param) t
            else if c = 0x48 \<comment> \<open>H\<close> then CUP vt t
            else if c = 0x4a \<comment> \<open>J\<close> then ED vt (ucast param) t
            else if c = 0x4b \<comment> \<open>K\<close> then EL vt (ucast param) t
            else if c = 0x64 \<comment> \<open>d\<close> then VPA vt (ucast param) t
            else if c = 0x68 \<or> c = 0x6c \<comment> \<open>h, l\<close> then
              if m_DecPrivate t \<and> 0 < m_EscapeValueCount t \<and> m_EscapeValues t ! 0 = 1
              then t\<lparr>m_CursorKeyMode := (c = 0x68)\<rparr> else t
            else if c = 0x6d \<comment> \<open>m\<close> then SGR vt (ucast param) t
            else if c = 0x6e \<comment> \<open>n\<close> then device_status vt param t
            else t)\<lparr>m_State := eNormal, m_DecPrivate := False\<rparr>)"

text \<open>The access to \<^verbatim>\<open>m_EscapeValues\<close>: \<open>None\<close> is an access past the end of the array.\<close>

definition update_value :: "(u32 \<Rightarrow> u32) \<Rightarrow> 'a terminal \<Rightarrow> 'a terminal option" where
  "update_value f t =
     (let i = m_EscapeValueCount t
      in if i < length (m_EscapeValues t)
         then Some (t\<lparr>m_EscapeValues := (m_EscapeValues t)[i := f (m_EscapeValues t ! i)]\<rparr>)
         else None)"

definition OnCsi :: "'a vtable \<Rightarrow> u8 \<Rightarrow> 'a terminal \<Rightarrow> 'a terminal option" where
  "OnCsi vt c t =
     (if op_IsDigit vt c then
        let t = t\<lparr>m_State := eControlSequenceParams\<rparr>
        in if m_EscapeValueCount t = MAX_ESC_PARAMETER_COUNT then Some t
           else update_value (\<lambda>v. v * 10 + (ucast c - 0x30)) t
      else if m_State t = eControlSequenceParams then
        let t = t\<lparr>m_EscapeValueCount := m_EscapeValueCount t + 1, m_State := eControlSequenceEntry\<rparr>
        in if c = 0x3b \<comment> \<open>;\<close> then Some t else Some (OnCsi_switch vt c t)
      else if c = 0x3b then
        if m_EscapeValueCount t = MAX_ESC_PARAMETER_COUNT then Some t
        else map_option (\<lambda>t. t\<lparr>m_EscapeValueCount := m_EscapeValueCount t + 1\<rparr>) (update_value (\<lambda>v. 1) t)
      else Some (OnCsi_switch vt c t))"

section \<open>Characters\<close>

definition NormalChar :: "'a vtable \<Rightarrow> u64 \<Rightarrow> 'a terminal \<Rightarrow> 'a terminal" where
  "NormalChar vt c t =
     (let (x, y) = op_GetCursorPos vt t
      in if c = 0x00 \<or> c = 0x07 then t
         else if c = 0x08 then
           if x = 0 then t
           else op_SetCursorPos vt (x - 1) y (op_RawPutChar vt 0x20 (op_SetCursorPos vt (x - 1) y t))
         else if c = 0x09 then
           if cols t \<le> x div ucast (m_TabSize t) + 1 then op_SetCursorPos vt (cols t - 1) y t
           else op_SetCursorPos vt ((x div ucast (m_TabSize t) + 1) * ucast (m_TabSize t)) y t
         else if c = 0x0a \<or> c = 0x0b \<or> c = 0x0c then
           if y = m_ScrollBottomMargin t - 1 then op_SetCursorPos vt 0 y (op_ScrollDown vt t)
           else op_SetCursorPos vt 0 (y + 1) t
         else if c = 0x0d then op_SetCursorPos vt 0 y t
         else if c = 0x0e \<or> c = 0x0f then t
         else if c = 0x1a then t\<lparr>m_State := eNormal\<rparr>
         else if c = 0x1b then t\<lparr>m_State := eEscape\<rparr>
         else if c = 0x7f then t
         else if c = 0x9b then t\<lparr>m_State := eControlSequenceEntry\<rparr>
         else if 0x20 \<le> c \<and> c \<le> 0x7e then op_RawPutChar vt (ucast c) t
         else op_RawPutChar vt 0xfe t)"

definition PutCharImpl :: "'a vtable \<Rightarrow> u64 \<Rightarrow> 'a terminal \<Rightarrow> 'a terminal option" where
  "PutCharImpl vt c t =
     (if \<not> m_Initialized t then Some t
      else if m_State t = eEscape then Some (OnEscapeChar vt (ucast c) t)
      else if m_State t = eControlSequenceEntry \<or> m_State t = eControlSequenceParams then OnCsi vt (ucast c) t
      else Some (NormalChar vt c t))"

definition Terminal_PutChar :: "'a vtable \<Rightarrow> u64 \<Rightarrow> 'a terminal \<Rightarrow> 'a terminal option" where
  "Terminal_PutChar vt c t = map_option (op_Flush vt) (PutCharImpl vt c t)"

text \<open>The loop of \<^verbatim>\<open>PrintString\<close>: a \<^verbatim>\<open>char\<close> is signed, and is extended with its sign.\<close>

fun PutChars :: "'a vtable \<Rightarrow> u8 list \<Rightarrow> 'a terminal \<Rightarrow> 'a terminal option" where
  "PutChars vt [] t = Some t"
| "PutChars vt (c # cs) t = Option.bind (PutCharImpl vt (scast c) t) (PutChars vt cs)"

definition PrintString :: "'a vtable \<Rightarrow> u8 list \<Rightarrow> 'a terminal \<Rightarrow> (nat \<times> 'a terminal) option" where
  "PrintString vt str t =
     (if \<not> m_Initialized t then Some (0, t)
      else map_option (\<lambda>t. (length str, op_Flush vt t)) (PutChars vt str t))"

section \<open>The contract of a device\<close>

text \<open>
  What the emulator relies on: the virtual methods leave the members of the base class alone, and
  the cursor is inside the window and can be put anywhere in it.  \<^verbatim>\<open>IsDigit\<close> accepts the decimal
  digits.
\<close>

abbreviation base :: "'a terminal \<Rightarrow> Terminal" where
  "base \<equiv> Terminal.truncate"

lemma base_eqD:
  assumes "base t = base u"
  shows "m_Initialized t = m_Initialized u" "m_Size t = m_Size u" "m_State t = m_State u"
    "m_ScrollBottomMargin t = m_ScrollBottomMargin u" "m_ScrollTopMargin t = m_ScrollTopMargin u"
    "m_EscapeValues t = m_EscapeValues u" "m_EscapeValueCount t = m_EscapeValueCount u"
    "m_DecPrivate t = m_DecPrivate u" "m_TabSize t = m_TabSize u" "cols t = cols u" "rows t = rows u"
  using assms by (simp_all add: Terminal.defs cols_def rows_def)

lemma base_funpow:
  fixes f :: "'a terminal \<Rightarrow> 'a terminal"
  shows "(\<And>t. base (f t) = base t) \<Longrightarrow> base ((f ^^ n) t) = base t"
  by (induction n) simp_all

lemma base_fold:
  fixes f :: "'x \<Rightarrow> 'a terminal \<Rightarrow> 'a terminal"
  shows "(\<And>x t. base (f x t) = base t) \<Longrightarrow> base (fold f xs t) = base t"
  by (induction xs arbitrary: t) simp_all

definition window_ok :: "'a terminal \<Rightarrow> bool" where
  "window_ok t \<longleftrightarrow> 0 < cols t \<and> 0 < rows t"

lemma window_ok_base: "base t = base u \<Longrightarrow> window_ok t = window_ok u"
  by (simp add: window_ok_def base_eqD [of t u])

locale terminal_device =
  fixes vt :: "'a vtable"
  assumes IsDigit: "op_IsDigit vt c \<longleftrightarrow> 0x30 \<le> c \<and> c \<le> 0x39"
    and base_Clear [simp]: "base (op_Clear vt color move t) = base t"
    and base_RawPutChar [simp]: "base (op_RawPutChar vt c t) = base t"
    and base_MoveCharacter [simp]: "base (op_MoveCharacter vt newX newY oldX oldY t) = base t"
    and base_ScrollDown [simp]: "base (op_ScrollDown vt t) = base t"
    and base_ScrollUp [simp]: "base (op_ScrollUp vt t) = base t"
    and base_Flush [simp]: "base (op_Flush vt t) = base t"
    and base_SetCursorPos [simp]: "base (op_SetCursorPos vt x y t) = base t"
    and base_SaveState [simp]: "base (op_SaveState vt t) = base t"
    and base_RestoreState [simp]: "base (op_RestoreState vt t) = base t"
    and base_SetText [simp]: "base (op_SetTextForeground vt a t) = base t" "base (op_SetTextBackground vt a t) = base t"
      "base (op_SetTextForegroundRgb vt rgb t) = base t" "base (op_SetTextBackgroundRgb vt rgb t) = base t"
    and GetCursorPos_SetCursorPos: "x < cols t \<Longrightarrow> y < rows t \<Longrightarrow> op_GetCursorPos vt (op_SetCursorPos vt x y t) = (x, y)"
    and GetCursorPos_cong: "Terminal.more t = Terminal.more u \<Longrightarrow> m_Size t = m_Size u \<Longrightarrow> op_GetCursorPos vt t = op_GetCursorPos vt u"
begin

lemmas base_loops = base_funpow [OF base_RawPutChar]

lemma base_sequences [simp]:
  "base (ICH vt n t) = base t" "base (CHA vt n t) = base t" "base (CUP vt t) = base t"
  "base (ED vt n t) = base t" "base (EL vt n t) = base t" "base (VPA vt n t) = base t" "base (SGR vt n t) = base t"
  "base (cursor_up vt p t) = base t" "base (cursor_forward vt p t) = base t" "base (cursor_backward vt p t) = base t"
  by (simp_all add: ICH_def CHA_def CUP_def ED_def EL_def VPA_def SGR_def cursor_up_def cursor_forward_def
      cursor_backward_def Let_def base_loops base_fold split: prod.splits)

lemma fields_switch:
  "length (m_EscapeValues (OnCsi_switch vt c t)) = length (m_EscapeValues t)"
  "m_Initialized (OnCsi_switch vt c t) = m_Initialized t"
  "m_Size (OnCsi_switch vt c t) = m_Size t"
  "c \<noteq> 0x3f \<Longrightarrow> m_State (OnCsi_switch vt c t) = eNormal"
  "c = 0x3f \<Longrightarrow> OnCsi_switch vt c t = t\<lparr>m_DecPrivate := True\<rparr>"
  by (simp_all add: OnCsi_switch_def Let_def device_status_def base_eqD [OF base_sequences(1)]
      base_eqD [OF base_sequences(2)] base_eqD [OF base_sequences(3)] base_eqD [OF base_sequences(4)]
      base_eqD [OF base_sequences(5)] base_eqD [OF base_sequences(6)] base_eqD [OF base_sequences(7)]
      base_eqD [OF base_sequences(8)] base_eqD [OF base_sequences(9)] base_eqD [OF base_sequences(10)]
      split: prod.splits)

lemma fields_escape:
  "length (m_EscapeValues t) = 16 \<Longrightarrow> length (m_EscapeValues (OnEscapeChar vt c t)) = 16"
  "m_Initialized (OnEscapeChar vt c t) = m_Initialized t"
  "m_State (OnEscapeChar vt c t) = (if c = 0x5b then eControlSequenceEntry else eNormal)"
  "c = 0x5b \<Longrightarrow> m_EscapeValueCount (OnEscapeChar vt c t) = 0"
  by (simp_all add: OnEscapeChar_def Let_def MAX_ESC_PARAMETER_COUNT_def Terminal_Reset_def
      base_eqD [OF base_Clear] base_eqD [OF base_ScrollDown] base_eqD [OF base_ScrollUp]
      base_eqD [OF base_SetCursorPos] base_eqD [OF base_SaveState] base_eqD [OF base_RestoreState]
      split: prod.splits)

lemma fields_normal:
  "m_EscapeValues (NormalChar vt c t) = m_EscapeValues t"
  "m_Initialized (NormalChar vt c t) = m_Initialized t"
  "m_State (NormalChar vt c t) =
     (if c = 0x1a then eNormal else if c = 0x1b then eEscape else if c = 0x9b then eControlSequenceEntry else m_State t)"
  by (simp_all add: NormalChar_def Let_def base_eqD [OF base_ScrollDown] base_eqD [OF base_RawPutChar]
      base_eqD [OF base_SetCursorPos] split: prod.splits)

end

text \<open>A control sequence is being read.\<close>

definition in_csi :: "'a terminal \<Rightarrow> bool" where
  "in_csi t \<longleftrightarrow> m_State t = eControlSequenceEntry \<or> m_State t = eControlSequenceParams"

text \<open>The characters after which the next parameter starts.\<close>

definition separators :: "u8 list \<Rightarrow> nat" where
  "separators cs = length (filter (\<lambda>c. c = 0x3b \<or> c = 0x3f) cs)"

definition values_ok :: "nat \<Rightarrow> 'a terminal \<Rightarrow> bool" where
  "values_ok k t \<longleftrightarrow> length (m_EscapeValues t) = MAX_ESC_PARAMETER_COUNT \<and> (in_csi t \<longrightarrow> m_EscapeValueCount t \<le> k)"

lemma scast_not_csi: "(scast (c :: u8) :: u64) \<noteq> 0x9b"
proof
  assume "(scast c :: u64) = 0x9b"
  then have "sint (scast c :: u64) = sint (0x9b :: u64)" by simp
  then have "sint c = 155" by (simp add: sint_up_scast is_up)
  with sint_less [of c] show False by simp
qed

lemma ucast_scast_u8: "(ucast (scast (c :: u8) :: u64) :: u8) = c"
  by (rule bit_word_eqI) (auto simp: bit_unsigned_iff bit_signed_iff)

context terminal_device
begin

lemma OnCsi_step:
  assumes "values_ok k t" "in_csi t" "k \<le> 16"
  obtains t' where "OnCsi vt c t = Some t'" "values_ok (k + separators [c]) t'" "m_Initialized t' = m_Initialized t"
proof -
  have "\<exists>t'. OnCsi vt c t = Some t' \<and> values_ok (k + separators [c]) t' \<and> m_Initialized t' = m_Initialized t"
  proof (cases "op_IsDigit vt c")
    case True
    then show ?thesis
      using assms by (auto simp: OnCsi_def update_value_def values_ok_def in_csi_def MAX_ESC_PARAMETER_COUNT_def Let_def)
  next
    case False
    then show ?thesis
      using assms fields_switch [of c]
      by (auto simp: OnCsi_def update_value_def values_ok_def in_csi_def MAX_ESC_PARAMETER_COUNT_def separators_def Let_def)
  qed
  then show ?thesis using that by blast
qed

lemma PutCharImpl_step:
  assumes "values_ok k t" "k \<le> 16"
  obtains t' where "PutCharImpl vt (scast c) t = Some t'" "values_ok (k + separators [c]) t'" "m_Initialized t' = m_Initialized t"
proof -
  consider "\<not> m_Initialized t" | "m_Initialized t" "m_State t = eEscape" | "m_Initialized t" "in_csi t"
    | "m_Initialized t" "m_State t \<noteq> eEscape" "\<not> in_csi t" by blast
  then show ?thesis
  proof cases
    case 1
    with assms show ?thesis by (intro that [of t]) (auto simp: PutCharImpl_def values_ok_def)
  next
    case 2
    with assms show ?thesis
      by (intro that [of "OnEscapeChar vt c t"])
        (auto simp: PutCharImpl_def values_ok_def in_csi_def MAX_ESC_PARAMETER_COUNT_def fields_escape ucast_scast_u8)
  next
    case 3
    from OnCsi_step [OF assms(1) this(2) assms(2), of c] obtain t' where
      "OnCsi vt c t = Some t'" "values_ok (k + separators [c]) t'" "m_Initialized t' = m_Initialized t" .
    with 3 show ?thesis by (intro that [of t']) (auto simp: PutCharImpl_def in_csi_def ucast_scast_u8)
  next
    case 4
    with assms show ?thesis
      by (intro that [of "NormalChar vt (scast c) t"])
        (auto simp: PutCharImpl_def values_ok_def in_csi_def fields_normal scast_not_csi split: if_splits)
  qed
qed

lemma PutChars_total:
  "values_ok k t \<Longrightarrow> k + separators cs \<le> 16 \<Longrightarrow>
   \<exists>t'. PutChars vt cs t = Some t' \<and> values_ok (k + separators cs) t' \<and> m_Initialized t' = m_Initialized t"
proof (induction cs arbitrary: k t)
  case Nil
  then show ?case by (simp add: separators_def)
next
  case (Cons c cs)
  have sep: "separators (c # cs) = separators [c] + separators cs" by (simp add: separators_def)
  from Cons.prems sep have "k \<le> 16" "k + separators [c] + separators cs \<le> 16" by simp_all
  from PutCharImpl_step [OF Cons.prems(1) this(1), of c] obtain t' where
    t': "PutCharImpl vt (scast c) t = Some t'" "values_ok (k + separators [c]) t'" "m_Initialized t' = m_Initialized t" .
  from Cons.IH [OF this(2)] \<open>k + separators [c] + separators cs \<le> 16\<close> t' sep show ?case by (auto simp: add.assoc)
qed

end

text \<open>A number in decimal, as a program prints it into a control sequence.\<close>

fun decimal :: "nat \<Rightarrow> u8 list" where
  "decimal n = (if n < 10 then [of_nat (0x30 + n)] else decimal (n div 10) @ [of_nat (0x30 + n mod 10)])"

declare decimal.simps [simp del]

definition digit :: "nat \<Rightarrow> u8" where
  "digit d = of_nat (0x30 + d)"

lemma digit_range:
  assumes "d < 10"
  shows "0x30 \<le> digit d" "digit d \<le> 0x39" "(ucast (digit d) :: u32) - 0x30 = of_nat d"
proof -
  have "unat (digit d) = 0x30 + d" using assms by (simp add: digit_def unat_of_nat del: of_nat_add)
  then show "0x30 \<le> digit d" "digit d \<le> 0x39" using assms by (simp_all add: word_le_nat_alt)
  have "(ucast (digit d) :: u32) = of_nat (unat (digit d))" by simp
  then show "(ucast (digit d) :: u32) - 0x30 = of_nat d" unfolding \<open>unat (digit d) = 0x30 + d\<close> by simp
qed

context terminal_device
begin

lemma PutChars_append: "PutChars vt (a @ b) t = Option.bind (PutChars vt a t) (PutChars vt b)"
  by (induction a arbitrary: t) (auto split: Option.bind_split)

lemma PutChar_digit:
  assumes "m_Initialized t" "in_csi t" "d < 10" "m_EscapeValueCount t < 16" "length (m_EscapeValues t) = 16"
  shows "PutCharImpl vt (scast (digit d)) t =
    Some (t\<lparr>m_State := eControlSequenceParams,
            m_EscapeValues := (m_EscapeValues t)[m_EscapeValueCount t := m_EscapeValues t ! m_EscapeValueCount t * 10 + of_nat d]\<rparr>)"
  using assms digit_range [of d] IsDigit [of "digit d"]
  by (auto simp: PutCharImpl_def OnCsi_def in_csi_def ucast_scast_u8 MAX_ESC_PARAMETER_COUNT_def update_value_def Let_def)

lemma PutChars_decimal:
  assumes "m_Initialized t" "in_csi t" "m_EscapeValueCount t < 16" "length (m_EscapeValues t) = 16"
    "m_EscapeValues t ! m_EscapeValueCount t = 0"
  shows "PutChars vt (decimal n) t =
    Some (t\<lparr>m_State := eControlSequenceParams, m_EscapeValues := (m_EscapeValues t)[m_EscapeValueCount t := of_nat n]\<rparr>)"
proof (induction n rule: decimal.induct)
  case (1 n)
  show ?case
  proof (cases "n < 10")
    case True
    have "decimal n = [digit n]" using True by (simp add: decimal.simps digit_def)
    then show ?thesis using PutChar_digit [OF assms(1,2) True assms(3,4)] assms(5) by simp
  next
    case False
    let ?t = "t\<lparr>m_State := eControlSequenceParams, m_EscapeValues := (m_EscapeValues t)[m_EscapeValueCount t := of_nat (n div 10)]\<rparr>"
    have "decimal n = decimal (n div 10) @ [digit (n mod 10)]" using False by (simp add: decimal.simps [of n] digit_def)
    moreover have "PutCharImpl vt (scast (digit (n mod 10))) ?t =
      Some (t\<lparr>m_State := eControlSequenceParams,
        m_EscapeValues := (m_EscapeValues t)[m_EscapeValueCount t := of_nat (n div 10) * 10 + of_nat (n mod 10)]\<rparr>)"
      using PutChar_digit [of ?t "n mod 10"] assms by (simp add: in_csi_def)
    moreover have "of_nat (n div 10) * 10 + of_nat (n mod 10) = (of_nat n :: u32)"
      by (metis div_mult_mod_eq of_nat_add of_nat_mult of_nat_numeral)
    ultimately show ?thesis using 1 [OF False] by (simp add: PutChars_append)
  qed
qed

end

text \<open>The sequence \<^verbatim>\<open>ESC [ row ; column H\<close>.\<close>

definition cursor_sequence :: "nat \<Rightarrow> nat \<Rightarrow> u8 list" where
  "cursor_sequence r c = [0x1b, 0x5b] @ decimal r @ [0x3b] @ decimal c @ [0x48]"

lemma unat_dimensions: "unat (cols t) < 65536" "unat (rows t) < 65536"
  using unsigned_less [of "ws_col (m_Size t)", where 'a = nat] unsigned_less [of "ws_row (m_Size t)", where 'a = nat]
  by (simp_all add: cols_def rows_def unsigned_ucast_eq take_bit_nat_eq_self)

lemma small_words:
  assumes "k < 65536"
  shows "unat (of_nat k :: u64) = k" "unat (ucast (of_nat k :: u32) :: u64) = k"
  using assms by (simp_all add: unat_of_nat unsigned_ucast_eq take_bit_nat_eq_self)

lemma pred_of_parameter:
  assumes "1 \<le> k" "k < 65536"
  shows "0 < (ucast (of_nat k :: u32) :: u64)" "ucast (of_nat k :: u32) - 1 = (of_nat (k - 1) :: u64)"
proof -
  show pos: "0 < (ucast (of_nat k :: u32) :: u64)" using assms small_words(2) [of k] by (simp add: word_less_nat_alt)
  show "ucast (of_nat k :: u32) - 1 = (of_nat (k - 1) :: u64)"
    using assms pos small_words [of k] small_words [of "k - 1"]
    by (intro unsigned_word_eqI [where 'a = nat]) (simp add: unat_minus_one)
qed

context terminal_device
begin

lemma PutChar_enter_csi:
  assumes "m_Initialized t" "m_State t = eNormal"
  shows "PutChars vt [0x1b, 0x5b] t =
    Some (t\<lparr>m_EscapeValues := replicate 16 0, m_EscapeValueCount := 0, m_State := eControlSequenceEntry\<rparr>)"
  using assms
  by (simp add: PutCharImpl_def NormalChar_def OnEscapeChar_def MAX_ESC_PARAMETER_COUNT_def Let_def split: prod.splits)

lemma PutChar_separator:
  assumes "m_Initialized t" "m_State t = eControlSequenceParams"
  shows "PutCharImpl vt (scast (0x3b :: u8)) t =
    Some (t\<lparr>m_EscapeValueCount := m_EscapeValueCount t + 1, m_State := eControlSequenceEntry\<rparr>)"
  using assms IsDigit [of "0x3b"] by (simp add: PutCharImpl_def OnCsi_def ucast_scast_u8 Let_def)

lemma PutChar_final:
  assumes "m_Initialized t" "m_State t = eControlSequenceParams" "\<not> (0x30 \<le> c \<and> c \<le> 0x39)" "c \<noteq> 0x3b"
  shows "PutCharImpl vt (scast c) t =
    Some (OnCsi_switch vt c (t\<lparr>m_EscapeValueCount := m_EscapeValueCount t + 1, m_State := eControlSequenceEntry\<rparr>))"
  using assms IsDigit [of c] by (auto simp: PutCharImpl_def OnCsi_def ucast_scast_u8 Let_def)

lemma CUP_places_cursor:
  assumes "m_EscapeValues t ! 0 = of_nat r" "m_EscapeValues t ! 1 = of_nat c"
    "1 \<le> r" "r \<le> unat (rows t)" "1 \<le> c" "c \<le> unat (cols t)"
  shows "op_GetCursorPos vt (CUP vt t) = (of_nat (c - 1), of_nat (r - 1))"
proof -
  from assms unat_dimensions [of t] have rc: "r < 65536" "c < 65536" by linarith+
  have lt: "of_nat (c - 1) < cols t" "of_nat (r - 1) < rows t"
    using assms rc small_words [of "c - 1"] small_words [of "r - 1"] by (simp_all add: word_less_nat_alt)
  have "CUP vt t = op_SetCursorPos vt (of_nat (c - 1)) (of_nat (r - 1)) t"
    by (simp only: CUP_def assms(1,2) Let_def pred_of_parameter [OF assms(3) rc(1)] pred_of_parameter [OF assms(5) rc(2)]
        if_True if_not_P [OF lt(1) [folded not_le]] if_not_P [OF lt(2) [folded not_le]])
  then show ?thesis using lt by (simp only: GetCursorPos_SetCursorPos)
qed

lemma cursor_sequence_run:
  assumes "m_Initialized t" "m_State t = eNormal"
    "1 \<le> r" "r \<le> unat (rows t)" "1 \<le> c" "c \<le> unat (cols t)"
  obtains t' where "PutChars vt (cursor_sequence r c) t = Some t'"
    "op_GetCursorPos vt t' = (of_nat (c - 1), of_nat (r - 1))" "m_State t' = eNormal"
proof -
  define t1 where "t1 = t\<lparr>m_EscapeValues := replicate 16 0, m_EscapeValueCount := 0, m_State := eControlSequenceEntry\<rparr>"
  define t2 where "t2 = t1\<lparr>m_State := eControlSequenceParams, m_EscapeValues := (replicate 16 0)[0 := of_nat r]\<rparr>"
  define t3 where "t3 = t2\<lparr>m_EscapeValueCount := 1, m_State := eControlSequenceEntry\<rparr>"
  define t4 where "t4 = t3\<lparr>m_State := eControlSequenceParams, m_EscapeValues := (replicate 16 0)[0 := of_nat r, 1 := of_nat c]\<rparr>"
  define t5 where "t5 = t4\<lparr>m_EscapeValueCount := Suc (Suc 0), m_State := eControlSequenceEntry\<rparr>"
  have 1: "PutChars vt [0x1b, 0x5b] t = Some t1" unfolding t1_def by (rule PutChar_enter_csi [OF assms(1,2)])
  have 2: "PutChars vt (decimal r) t1 = Some t2"
    using PutChars_decimal [of t1 r] assms(1) by (simp add: t1_def t2_def in_csi_def)
  have 3: "PutChars vt [0x3b] t2 = Some t3"
    using PutChar_separator [of t2] assms(1) by (simp add: t1_def t2_def t3_def)
  have 4: "PutChars vt (decimal c) t3 = Some t4"
    using PutChars_decimal [of t3 c] assms(1) by (simp add: t1_def t2_def t3_def t4_def in_csi_def)
  have 5: "PutChars vt [0x48] t4 = Some (OnCsi_switch vt 0x48 t5)"
    using PutChar_final [of t4 "0x48"] assms(1) by (simp add: t1_def t2_def t3_def t4_def t5_def)
  have run: "PutChars vt (cursor_sequence r c) t = Some (OnCsi_switch vt 0x48 t5)"
    by (simp only: cursor_sequence_def PutChars_append 1 2 3 4 5 Option.bind.bind_lunit)
  have dims: "cols t5 = cols t" "rows t5 = rows t" by (simp_all add: t1_def t2_def t3_def t4_def t5_def cols_def rows_def)
  have "op_GetCursorPos vt (CUP vt t5) = (of_nat (c - 1), of_nat (r - 1))"
    using assms dims by (intro CUP_places_cursor) (simp_all add: t5_def t4_def)
  moreover have "OnCsi_switch vt 0x48 t5 = (CUP vt t5)\<lparr>m_State := eNormal, m_DecPrivate := False\<rparr>"
    by (simp add: OnCsi_switch_def Let_def)
  ultimately show ?thesis
    using run by (intro that [of "OnCsi_switch vt 0x48 t5"]) (simp_all add: GetCursorPos_cong [of "CUP vt t5\<lparr>m_State := eNormal, m_DecPrivate := False\<rparr>" "CUP vt t5"])
qed

end

text \<open>
  \<^verbatim>\<open>ED\<close> multiplies the row of the cursor by the number of rows instead of columns.  In a window that is wider than high, below the
  first row, it writes more blanks than there are cells from the cursor to the end of the window, so that the surplus wraps past the
  last row.
\<close>

theorem erase_below_writes_too_much:
  assumes "m_EscapeValueCount t = 0" "op_GetCursorPos vt t = (x, y)" "x < cols t" "0 < y" "y < rows t" "rows t < cols t"
  shows "\<exists>n. ED vt 0 t = op_SetCursorPos vt x y ((op_RawPutChar vt 0x20 ^^ n) t) \<and>
    unat (rows t) * unat (cols t) - (unat y * unat (cols t) + unat x) < n"
proof -
  let ?c = "unat (cols t)" and ?r = "unat (rows t)"
  have n: "unat x < ?c" "0 < unat y" "unat y < ?r" "?r < ?c" using assms(3-6) by (simp_all add: word_less_nat_alt)
  note d = unat_dimensions [of t]
  have "?c * ?r \<le> 65535 * 65535" using d by (intro mult_le_mono) simp_all
  then have size: "unat (cols t * rows t) = ?c * ?r" by (intro unat_mult_nowrap) simp
  have "unat y * ?r \<le> 65535 * 65535" using d n by (intro mult_le_mono) simp_all
  then have "unat (y * rows t) = unat y * ?r" by (intro unat_mult_nowrap) simp
  then have pos: "unat (y * rows t + x) = unat y * ?r + unat x"
    using \<open>unat y * ?r \<le> 65535 * 65535\<close> n d by (subst unat_add_nowrap) simp_all
  have "(unat y + 1) * ?c \<le> ?r * ?c" using n by (intro mult_le_mono1) simp
  then have "unat y * ?c + unat x < ?r * ?c" using n by simp
  moreover have "unat y * ?r < unat y * ?c" using n by simp
  ultimately have "?r * ?c - (unat y * ?c + unat x) < ?c * ?r - (unat y * ?r + unat x)"
    by (subst mult.commute [of ?c ?r]) (rule diff_less_mono2; linarith)
  then show ?thesis using assms(1,2) by (intro exI [of _ "?c * ?r - (unat y * ?r + unat x)"]) (simp add: ED_def size pos Let_def)
qed

section \<open>Invariants of a device\<close>

text \<open>
  An invariant that the methods of the device keep, and that does not speak of the members of the
  parser, is kept by the emulator for every input.
\<close>

lemma funpow_invariant: "(\<And>t. I t \<Longrightarrow> I (f t)) \<Longrightarrow> I t \<Longrightarrow> I ((f ^^ n) t)"
  by (induction n) simp_all

lemma fold_invariant: "(\<And>x t. I t \<Longrightarrow> I (f x t)) \<Longrightarrow> I t \<Longrightarrow> I (fold f xs t)"
  by (induction xs arbitrary: t) simp_all

locale terminal_invariant = terminal_device +
  fixes I :: "'a terminal \<Rightarrow> bool"
  assumes I_cong: "Terminal.more t = Terminal.more u \<Longrightarrow> m_Size t = m_Size u \<Longrightarrow> m_ScrollTopMargin t = m_ScrollTopMargin u \<Longrightarrow>
      m_ScrollBottomMargin t = m_ScrollBottomMargin u \<Longrightarrow> I t = I u"
    and I_Reset: "I t \<Longrightarrow> I (Terminal_Reset t)"
    and I_Clear: "I t \<Longrightarrow> I (op_Clear vt color move t)"
    and I_RawPutChar: "I t \<Longrightarrow> I (op_RawPutChar vt c t)"
    and I_MoveCharacter: "I t \<Longrightarrow> I (op_MoveCharacter vt newX newY oldX oldY t)"
    and I_Scroll: "I t \<Longrightarrow> I (op_ScrollDown vt t)" "I t \<Longrightarrow> I (op_ScrollUp vt t)"
    and I_Flush: "I t \<Longrightarrow> I (op_Flush vt t)"
    and I_SetCursorPos: "I t \<Longrightarrow> I (op_SetCursorPos vt x y t)"
    and I_State: "I t \<Longrightarrow> I (op_SaveState vt t)" "I t \<Longrightarrow> I (op_RestoreState vt t)"
    and I_SetText: "I t \<Longrightarrow> I (op_SetTextForeground vt a t)" "I t \<Longrightarrow> I (op_SetTextBackground vt a t)"
      "I t \<Longrightarrow> I (op_SetTextForegroundRgb vt rgb t)" "I t \<Longrightarrow> I (op_SetTextBackgroundRgb vt rgb t)"
begin

lemmas I_ops = I_Reset I_Clear I_RawPutChar I_MoveCharacter I_Scroll I_Flush I_SetCursorPos I_State I_SetText

lemma I_parser [simp]:
  "I (t\<lparr>m_State := st\<rparr>) = I t" "I (t\<lparr>m_DecPrivate := d\<rparr>) = I t" "I (t\<lparr>m_CursorKeyMode := d\<rparr>) = I t"
  "I (t\<lparr>m_EscapeValues := vs\<rparr>) = I t" "I (t\<lparr>m_EscapeValueCount := n\<rparr>) = I t" "I (t\<lparr>tty_Sent := rs\<rparr>) = I t"
  by (rule I_cong; simp)+

lemma I_sequences:
  assumes "I t"
  shows "I (ICH vt n t)" "I (CHA vt n t)" "I (CUP vt t)" "I (ED vt n t)" "I (EL vt n t)" "I (VPA vt n t)" "I (SGR vt n t)"
    "I (cursor_up vt p t)" "I (cursor_forward vt p t)" "I (cursor_backward vt p t)" "I (device_status vt p t)"
  using assms
  by (auto simp: ICH_def CHA_def CUP_def ED_def EL_def VPA_def SGR_def cursor_up_def cursor_forward_def cursor_backward_def
      device_status_def Let_def intro!: I_ops funpow_invariant [of I] fold_invariant [of I] split: prod.splits)

lemma I_PutCharImpl:
  assumes "I t" "PutCharImpl vt c t = Some t'"
  shows "I t'"
proof -
  have esc: "I (OnEscapeChar vt k t)" for k
    using assms(1) by (auto simp: OnEscapeChar_def Let_def intro!: I_ops split: prod.splits)
  have switch: "I (OnCsi_switch vt k u)" if "I u" for k u
    using that by (auto simp: OnCsi_switch_def Let_def intro!: I_sequences)
  have csi: "I u" if "OnCsi vt k t = Some u" for k u
    using that assms(1) by (auto simp: OnCsi_def update_value_def Let_def intro!: switch split: if_splits)
  have normal: "I (NormalChar vt c t)"
    using assms(1) by (auto simp: NormalChar_def Let_def intro!: I_ops split: prod.splits)
  show ?thesis using assms esc csi normal by (auto simp: PutCharImpl_def split: if_splits)
qed

lemma I_PutChars: "I t \<Longrightarrow> PutChars vt cs t = Some t' \<Longrightarrow> I t'"
proof (induction cs arbitrary: t)
  case (Cons c cs)
  from Cons.prems(2) obtain u where "PutCharImpl vt (scast c) t = Some u" "PutChars vt cs u = Some t'"
    by (auto split: bind_splits)
  with Cons.IH [OF I_PutCharImpl [OF Cons.prems(1)]] show ?case by simp
qed simp

lemma PrintString_safe:
  assumes "I t" "values_ok 0 t" "m_Initialized t" "separators cs \<le> 16"
  obtains t' where "PrintString vt cs t = Some (length cs, t')" "I t'"
proof -
  from PutChars_total [OF assms(2)] assms(4) obtain u where u: "PutChars vt cs t = Some u" by auto
  from I_PutChars [OF assms(1) u] have "I (op_Flush vt u)" by (rule I_Flush)
  with u assms(3) show ?thesis by (intro that [of "op_Flush vt u"]) (simp_all add: PrintString_def)
qed

end

end
