(* ===== verification/Video_Terminal.thy ===== *)
theory Video_Terminal
  imports Terminal_Emulator
begin

text \<open>
  The terminal on a framebuffer: \<^verbatim>\<open>Drivers/Video/VideoTerminal.hpp\<close> and
  \<^verbatim>\<open>Drivers/Video/VideoTerminal.cpp\<close>.  Characters are written to a queue first, and
  \<^verbatim>\<open>Flush\<close> moves them to the grid and draws them.  The pointers of \<^verbatim>\<open>m_Map\<close> into the queue
  are positions in it.  The screen the terminal stands for is the grid overlaid by the queue; the
  operations are shown to update it as a screen.
\<close>

section \<open>State\<close>

record ConsoleState =
  CursorX :: usize
  CursorY :: usize
  TextForeground :: Color
  TextBackground :: Color
  Bold :: usize
  BackgroundBold :: usize
  ReverseVideo :: usize
  Charset :: usize
  Primary :: usize
  ConsoleBackground :: Color

record Character =
  CodePoint :: u32
  Foreground :: Color
  Background :: Color

record QueueItem =
  q_X :: usize
  q_Y :: usize
  q_Character :: Character

text \<open>
  The members of the derived class.  \<open>m_Display\<close> is the picture in the framebuffer, by cells: the
  character that \<^verbatim>\<open>PlotChar\<close> drew last at each position.
\<close>

record VideoTerminal = Terminal +
  m_CurrentState :: ConsoleState
  m_SavedState :: ConsoleState
  m_OldCursorX :: usize
  m_OldCursorY :: usize
  m_Queue :: "QueueItem list"
  m_Map :: "nat option list"
  m_Grid :: "Character list"
  m_Display :: "Character list"

definition DEFAULT_TEXT_FOREGROUND :: Color where "DEFAULT_TEXT_FOREGROUND = Color_of 0x00aaaaaa"

definition DEFAULT_TEXT_BACKGROUND :: Color where "DEFAULT_TEXT_BACKGROUND = Color_of 0xffffffff"

definition DEFAULT_TEXT_FOREGROUND_BRIGHT :: Color where "DEFAULT_TEXT_FOREGROUND_BRIGHT = Color_of 0xa0555555"

definition DEFAULT_TEXT_BACKGROUND_BRIGHT :: Color where "DEFAULT_TEXT_BACKGROUND_BRIGHT = Color_of 0x00aaaaaa"

definition VerifyBounds :: "usize \<Rightarrow> usize \<Rightarrow> VideoTerminal \<Rightarrow> bool" where
  "VerifyBounds x y t \<longleftrightarrow> x < cols t \<and> y < rows t"

text \<open>The position of a cell in the vectors.\<close>

definition cell :: "VideoTerminal \<Rightarrow> usize \<Rightarrow> usize \<Rightarrow> nat" where
  "cell t x y = unat y * unat (cols t) + unat x"

text \<open>The character at a position: the queued one if there is one, the one of the grid otherwise.\<close>

definition char_at :: "VideoTerminal \<Rightarrow> nat \<Rightarrow> Character" where
  "char_at t i = (case m_Map t ! i of Some k \<Rightarrow> q_Character (m_Queue t ! k) | None \<Rightarrow> m_Grid t ! i)"

section \<open>Drawing\<close>

definition PlotChar :: "Character \<Rightarrow> usize \<Rightarrow> usize \<Rightarrow> VideoTerminal \<Rightarrow> VideoTerminal" where
  "PlotChar c xpos ypos t =
     (if \<not> VerifyBounds xpos ypos t then t else t\<lparr>m_Display := (m_Display t)[cell t xpos ypos := c]\<rparr>)"

definition EnqueueChar :: "Character \<Rightarrow> usize \<Rightarrow> usize \<Rightarrow> VideoTerminal \<Rightarrow> VideoTerminal" where
  "EnqueueChar c x y t =
     (if cols t \<le> x \<or> rows t \<le> y then t
      else let i = cell t x y
           in case m_Map t ! i of
                None \<Rightarrow>
                  if m_Grid t ! i = c then t
                  else t\<lparr>m_Queue := m_Queue t @ [\<lparr>q_X = x, q_Y = y, q_Character = c\<rparr>],
                         m_Map := (m_Map t)[i := Some (length (m_Queue t))]\<rparr>
              | Some k \<Rightarrow> t\<lparr>m_Queue := (m_Queue t)[k := (m_Queue t ! k)\<lparr>q_Character := c\<rparr>]\<rparr>)"

definition swapped :: "Character \<Rightarrow> Character" where
  "swapped c = c\<lparr>Foreground := Background c, Background := Foreground c\<rparr>"

definition DrawCursor :: "VideoTerminal \<Rightarrow> VideoTerminal" where
  "DrawCursor t =
     (let x = CursorX (m_CurrentState t); y = CursorY (m_CurrentState t)
      in if \<not> VerifyBounds x y t then t
         else let i = cell t x y; q = m_Map t ! i;
                  t = PlotChar (swapped (char_at t i)) x y t
              in case q of
                   Some k \<Rightarrow> t\<lparr>m_Grid := (m_Grid t)[i := q_Character (m_Queue t ! k)], m_Map := (m_Map t)[i := None]\<rparr>
                 | None \<Rightarrow> t)"

definition flush_item :: "QueueItem \<Rightarrow> VideoTerminal \<Rightarrow> VideoTerminal" where
  "flush_item q t =
     (let offset = cell t (q_X q) (q_Y q)
      in if m_Map t ! offset = None then t
         else (PlotChar (q_Character q) (q_X q) (q_Y q) t)\<lparr>m_Grid := (m_Grid t)[offset := q_Character q],
                m_Map := (m_Map t)[offset := None]\<rparr>)"

text \<open>The queue is popped from its back until it is empty.\<close>

definition Video_Flush :: "VideoTerminal \<Rightarrow> VideoTerminal" where
  "Video_Flush t =
     (let t = DrawCursor t;
          t = fold flush_item (rev (m_Queue t)) (t\<lparr>m_Queue := []\<rparr>);
          oldX = m_OldCursorX t; oldY = m_OldCursorY t;
          x = CursorX (m_CurrentState t); y = CursorY (m_CurrentState t);
          t = (if (oldX \<noteq> x \<or> oldY \<noteq> y) \<and> oldX < cols t \<and> oldY < rows t
               then PlotChar (m_Grid t ! cell t oldX oldY) oldX oldY t else t)
      in t\<lparr>m_OldCursorX := x, m_OldCursorY := y\<rparr>)"

section \<open>Operations on the screen\<close>

definition blank :: "VideoTerminal \<Rightarrow> Character" where
  "blank t = \<lparr>CodePoint = 0x20, Foreground = TextForeground (m_CurrentState t), Background = TextBackground (m_CurrentState t)\<rparr>"

text \<open>A character at a position of the vectors, as the loops compute the place from it.\<close>

definition enqueue_at :: "Character \<Rightarrow> nat \<Rightarrow> VideoTerminal \<Rightarrow> VideoTerminal" where
  "enqueue_at c i t = EnqueueChar c (of_nat (i mod unat (cols t))) (of_nat (i div unat (cols t))) t"

definition Video_Clear :: "u32 \<Rightarrow> bool \<Rightarrow> VideoTerminal \<Rightarrow> VideoTerminal" where
  "Video_Clear color move t =
     (let empty = blank t;
          t = fold (enqueue_at empty) [0 ..< unat (rows t) * unat (cols t)] t
      in if move then t\<lparr>m_CurrentState := (m_CurrentState t)\<lparr>CursorX := 0, CursorY := 0\<rparr>\<rparr> else t)"

definition Video_ScrollDown :: "VideoTerminal \<Rightarrow> VideoTerminal" where
  "Video_ScrollDown t =
     (let c = unat (cols t);
          t = fold (\<lambda>i t. enqueue_at (char_at t i) (i - c) t)
                [(unat (m_ScrollTopMargin t) + 1) * c ..< unat (m_ScrollBottomMargin t) * c] t;
          empty = blank t
      in fold (\<lambda>i. EnqueueChar empty (of_nat i) (m_ScrollBottomMargin t - 1)) [0 ..< c] t)"

definition Video_ScrollUp :: "VideoTerminal \<Rightarrow> VideoTerminal" where
  "Video_ScrollUp t =
     (let c = unat (cols t);
          t = fold (\<lambda>i t. enqueue_at (char_at t i) (i + c) t)
                (rev [unat (m_ScrollTopMargin t) * c ..< (unat (m_ScrollBottomMargin t) - 1) * c]) t;
          empty = blank t
      in fold (\<lambda>i. EnqueueChar empty (of_nat i) (m_ScrollTopMargin t)) [0 ..< c] t)"

definition Video_Scroll :: "int \<Rightarrow> VideoTerminal \<Rightarrow> VideoTerminal" where
  "Video_Scroll count t =
     (if count < 0 then (Video_ScrollUp ^^ nat (- count)) t else (Video_ScrollDown ^^ nat count) t)"

definition Video_RawPutChar :: "u8 \<Rightarrow> VideoTerminal \<Rightarrow> VideoTerminal" where
  "Video_RawPutChar c t =
     (let t = (if CursorX (m_CurrentState t) < cols t then t
               else let t = t\<lparr>m_CurrentState := (m_CurrentState t)\<lparr>CursorX := 0, CursorY := CursorY (m_CurrentState t) + 1\<rparr>\<rparr>;
                        t = (if CursorY (m_CurrentState t) = m_ScrollBottomMargin t
                             then Video_ScrollDown (t\<lparr>m_CurrentState := (m_CurrentState t)\<lparr>CursorY := CursorY (m_CurrentState t) - 1\<rparr>\<rparr>)
                             else t)
                    in if cols t \<le> CursorY (m_CurrentState t)
                       then t\<lparr>m_CurrentState := (m_CurrentState t)\<lparr>CursorY := cols t - 1\<rparr>\<rparr> else t);
          ch = (blank t)\<lparr>CodePoint := ucast c\<rparr>;
          x = CursorX (m_CurrentState t); y = CursorY (m_CurrentState t)
      in EnqueueChar ch x y (t\<lparr>m_CurrentState := (m_CurrentState t)\<lparr>CursorX := x + 1\<rparr>\<rparr>))"

definition Video_MoveCharacter :: "usize \<Rightarrow> usize \<Rightarrow> usize \<Rightarrow> usize \<Rightarrow> VideoTerminal \<Rightarrow> VideoTerminal" where
  "Video_MoveCharacter newX newY oldX oldY t =
     (if cols t \<le> oldX \<or> rows t \<le> oldY \<or> cols t \<le> newX \<or> rows t \<le> newY then t
      else EnqueueChar (char_at t (cell t oldX oldY)) newX newY t)"

section \<open>Cursor, colours and saved state\<close>

definition Video_GetCursorPos :: "VideoTerminal \<Rightarrow> usize \<times> usize" where
  "Video_GetCursorPos t =
     (let x = CursorX (m_CurrentState t); y = CursorY (m_CurrentState t)
      in (if cols t \<le> x then cols t - 1 else x, if rows t \<le> y then rows t - 1 else y))"

definition clamp_coordinate :: "usize \<Rightarrow> usize \<Rightarrow> usize" where
  "clamp_coordinate limit pos = (if limit \<le> pos then if sint (ucast pos :: u32) < 0 then 0 else limit - 1 else pos)"

definition Video_SetCursorPos :: "usize \<Rightarrow> usize \<Rightarrow> VideoTerminal \<Rightarrow> VideoTerminal" where
  "Video_SetCursorPos xpos ypos t =
     t\<lparr>m_CurrentState := (m_CurrentState t)\<lparr>CursorX := clamp_coordinate (cols t) xpos, CursorY := clamp_coordinate (rows t) ypos\<rparr>\<rparr>"

definition Video_SaveState :: "VideoTerminal \<Rightarrow> VideoTerminal" where
  "Video_SaveState t = t\<lparr>m_SavedState := m_CurrentState t\<rparr>"

definition Video_RestoreState :: "VideoTerminal \<Rightarrow> VideoTerminal" where
  "Video_RestoreState t = t\<lparr>m_CurrentState := m_SavedState t\<rparr>"

definition SwapPalette :: "VideoTerminal \<Rightarrow> VideoTerminal" where
  "SwapPalette t = t\<lparr>m_CurrentState := (m_CurrentState t)\<lparr>TextForeground := TextBackground (m_CurrentState t),
     TextBackground := TextForeground (m_CurrentState t)\<rparr>\<rparr>"

definition s_AnsiColors :: "Color list" where
  "s_AnsiColors =
     [AnsiBlack, AnsiRed, AnsiGreen, AnsiYellow, AnsiBlue, AnsiMagenta, AnsiCyan, AnsiWhite,
      Color_of 0x00555555, Color_of 0x00ff5555,
      AnsiBrightBlack, AnsiBrightRed, AnsiBrightGreen, AnsiBrightYellow, AnsiBrightBlue, AnsiBrightMagenta, AnsiBrightCyan, AnsiBrightWhite]"

definition SetTextForegroundRgb :: "Color \<Rightarrow> VideoTerminal \<Rightarrow> VideoTerminal" where
  "SetTextForegroundRgb rgb t = t\<lparr>m_CurrentState := (m_CurrentState t)\<lparr>TextForeground := rgb\<rparr>\<rparr>"

definition SetTextBackgroundRgb :: "Color \<Rightarrow> VideoTerminal \<Rightarrow> VideoTerminal" where
  "SetTextBackgroundRgb rgb t = t\<lparr>m_CurrentState := (m_CurrentState t)\<lparr>TextBackground := rgb\<rparr>\<rparr>"

text \<open>\<open>enum_contains\<close> is \<^verbatim>\<open>magic_enum::enum_contains\<close>, which tells whether a number is an enumerator.\<close>

definition SetTextForeground :: "(nat \<Rightarrow> bool) \<Rightarrow> nat \<Rightarrow> VideoTerminal \<Rightarrow> VideoTerminal" where
  "SetTextForeground enum_contains color t =
     (if color = eDefault then SetTextForegroundRgb DEFAULT_TEXT_FOREGROUND t
      else if color = eDefaultBright then SetTextForegroundRgb DEFAULT_TEXT_FOREGROUND_BRIGHT t
      else if \<not> enum_contains color then t
      else SetTextForegroundRgb (s_AnsiColors ! color) t)"

definition SetTextBackground :: "(nat \<Rightarrow> bool) \<Rightarrow> nat \<Rightarrow> VideoTerminal \<Rightarrow> VideoTerminal" where
  "SetTextBackground enum_contains color t =
     (if color = eDefault then SetTextBackgroundRgb DEFAULT_TEXT_BACKGROUND t
      else if color = eDefaultBright then SetTextBackgroundRgb DEFAULT_TEXT_BACKGROUND_BRIGHT t
      else if \<not> enum_contains color then t
      else SetTextBackgroundRgb (s_AnsiColors ! color) t)"

text \<open>
  \<^verbatim>\<open>Refresh\<close> draws the grid, on a background that is not part of the cells.
  \<^verbatim>\<open>Initialize\<close> runs on a framebuffer with an address, in an object \<open>t\<close> fresh from the allocator; the
  size of the window comes from the font.
\<close>

definition Video_Refresh :: "VideoTerminal \<Rightarrow> VideoTerminal" where
  "Video_Refresh t =
     DrawCursor (fold (\<lambda>i t. PlotChar (m_Grid t ! i) (of_nat (i mod unat (cols t))) (of_nat (i div unat (cols t))) t)
       [0 ..< unat (rows t) * unat (cols t)] t)"

definition Video_Initialize :: "(nat \<Rightarrow> bool) \<Rightarrow> winsize \<Rightarrow> VideoTerminal \<Rightarrow> VideoTerminal" where
  "Video_Initialize enum_contains window t =
     (if m_Initialized t then t
      else let t = SetTextBackground enum_contains eDefault (SetTextForeground enum_contains eDefault t);
               t = t\<lparr>m_Size := window\<rparr>;
               n = unat (rows t) * unat (cols t);
               t = t\<lparr>m_Grid := replicate n (blank t), m_Queue := [], m_Map := replicate n None,
                     m_Display := replicate n (blank t)\<rparr>
           in (Video_Refresh (Terminal_Reset t))\<lparr>m_Initialized := True\<rparr>)"

text \<open>The virtual methods of the derived class, and the functions from elsewhere.\<close>

definition video_ops :: "(nat \<Rightarrow> bool) \<Rightarrow> (u8 \<Rightarrow> bool) \<Rightarrow> (usize \<Rightarrow> usize \<Rightarrow> u8 list) \<Rightarrow> bool \<Rightarrow> VideoTerminal terminal_ops" where
  "video_ops enum_contains isDigit format tty =
     \<lparr>op_Clear = Video_Clear, op_RawPutChar = Video_RawPutChar, op_MoveCharacter = Video_MoveCharacter,
      op_ScrollDown = Video_ScrollDown, op_ScrollUp = Video_ScrollUp, op_Flush = Video_Flush,
      op_GetCursorPos = Video_GetCursorPos, op_SetCursorPos = Video_SetCursorPos,
      op_SaveState = Video_SaveState, op_RestoreState = Video_RestoreState,
      op_SetTextForeground = SetTextForeground enum_contains, op_SetTextBackground = SetTextBackground enum_contains,
      op_SetTextForegroundRgb = SetTextForegroundRgb, op_SetTextBackgroundRgb = SetTextBackgroundRgb,
      op_IsDigit = isDigit, op_format = format, op_has_tty = tty\<rparr>"

section \<open>Cells\<close>

abbreviation cells :: "VideoTerminal \<Rightarrow> nat" where
  "cells t \<equiv> unat (rows t) * unat (cols t)"

lemma dims_update [simp]:
  "cols (t\<lparr>m_CurrentState := a\<rparr>) = cols t" "cols (t\<lparr>m_OldCursorX := v\<rparr>) = cols t" "cols (t\<lparr>m_OldCursorY := v\<rparr>) = cols t"
  "cols (t\<lparr>m_Queue := q\<rparr>) = cols t" "cols (t\<lparr>m_Map := m\<rparr>) = cols t" "cols (t\<lparr>m_Grid := g\<rparr>) = cols t" "cols (t\<lparr>m_Display := g\<rparr>) = cols t"
  "rows (t\<lparr>m_CurrentState := a\<rparr>) = rows t" "rows (t\<lparr>m_OldCursorX := v\<rparr>) = rows t" "rows (t\<lparr>m_OldCursorY := v\<rparr>) = rows t"
  "rows (t\<lparr>m_Queue := q\<rparr>) = rows t" "rows (t\<lparr>m_Map := m\<rparr>) = rows t" "rows (t\<lparr>m_Grid := g\<rparr>) = rows t" "rows (t\<lparr>m_Display := g\<rparr>) = rows t"
  by (simp_all add: cols_def rows_def)

lemma cell_cong: "cols t = cols u \<Longrightarrow> cell t = cell u"
  by (simp add: cell_def fun_eq_iff)

lemma cell_update [simp]:
  "cell (t\<lparr>m_CurrentState := a\<rparr>) = cell t" "cell (t\<lparr>m_OldCursorX := v\<rparr>) = cell t" "cell (t\<lparr>m_OldCursorY := v\<rparr>) = cell t"
  "cell (t\<lparr>m_Queue := q\<rparr>) = cell t" "cell (t\<lparr>m_Map := m\<rparr>) = cell t" "cell (t\<lparr>m_Grid := g\<rparr>) = cell t" "cell (t\<lparr>m_Display := g\<rparr>) = cell t"
  by (rule cell_cong; simp)+

lemma cell_less:
  assumes "x < cols t" "y < rows t"
  shows "cell t x y < cells t"
proof -
  have "unat x < unat (cols t)" "unat y + 1 \<le> unat (rows t)" using assms by (simp_all add: word_less_nat_alt)
  then have "unat y * unat (cols t) + unat x < (unat y + 1) * unat (cols t)" by simp
  also have "\<dots> \<le> cells t" using \<open>unat y + 1 \<le> unat (rows t)\<close> by (rule mult_le_mono1)
  finally show ?thesis by (simp add: cell_def)
qed

lemma cell_inject:
  assumes "x < cols t" "x' < cols t" "cell t x y = cell t x' y'"
  shows "x = x'" "y = y'"
proof -
  have lt: "unat x < unat (cols t)" "unat x' < unat (cols t)" using assms by (simp_all add: word_less_nat_alt)
  from assms(3) have eq: "unat y * unat (cols t) + unat x = unat y' * unat (cols t) + unat x'" by (simp add: cell_def)
  from arg_cong [OF eq, of "\<lambda>n. n mod unat (cols t)"] lt have "unat x = unat x'" by simp
  then show "x = x'" by (rule unsigned_word_eqI)
  from arg_cong [OF eq, of "\<lambda>n. n div unat (cols t)"] lt have "unat y = unat y'" by simp
  then show "y = y'" by (rule unsigned_word_eqI)
qed

lemma place_of_cell:
  assumes "window_ok t" "i < cells t"
  shows "of_nat (i mod unat (cols t)) < cols t" "of_nat (i div unat (cols t)) < rows t"
    "cell t (of_nat (i mod unat (cols t))) (of_nat (i div unat (cols t))) = i"
proof -
  have c: "0 < unat (cols t)" using assms(1) by (simp add: window_ok_def word_less_nat_alt)
  have m: "i mod unat (cols t) < unat (cols t)" "i div unat (cols t) < unat (rows t)"
    using c assms(2) by (simp_all add: less_mult_imp_div_less)
  then have "unat (of_nat (i mod unat (cols t)) :: u64) = i mod unat (cols t)"
    "unat (of_nat (i div unat (cols t)) :: u64) = i div unat (cols t)"
    using unat_dimensions [of t] by (intro small_words; linarith)+
  with m show "of_nat (i mod unat (cols t)) < cols t" "of_nat (i div unat (cols t)) < rows t"
    "cell t (of_nat (i mod unat (cols t))) (of_nat (i div unat (cols t))) = i"
    by (simp_all add: word_less_nat_alt cell_def)
qed

section \<open>The invariant of the queue\<close>

definition queued_at :: "VideoTerminal \<Rightarrow> nat \<Rightarrow> nat \<Rightarrow> bool" where
  "queued_at t i k \<longleftrightarrow> k < length (m_Queue t) \<and> q_X (m_Queue t ! k) < cols t \<and> q_Y (m_Queue t ! k) < rows t \<and>
     cell t (q_X (m_Queue t ! k)) (q_Y (m_Queue t ! k)) = i"

definition video_ok :: "VideoTerminal \<Rightarrow> bool" where
  "video_ok t \<longleftrightarrow> window_ok t \<and> length (m_Map t) = cells t \<and> length (m_Grid t) = cells t \<and> length (m_Display t) = cells t \<and>
     (\<forall>i < cells t. \<forall>k. m_Map t ! i = Some k \<longleftrightarrow> queued_at t i k) \<and>
     (\<forall>k < length (m_Queue t). \<exists>i < cells t. queued_at t i k)"

lemma video_okD:
  assumes "video_ok t"
  shows "window_ok t" "length (m_Map t) = cells t" "length (m_Grid t) = cells t" "length (m_Display t) = cells t"
    "i < cells t \<Longrightarrow> m_Map t ! i = Some k \<longleftrightarrow> queued_at t i k"
  using assms by (simp_all add: video_ok_def)

lemma video_ok_queue: "video_ok t \<Longrightarrow> k < length (m_Queue t) \<Longrightarrow> \<exists>i < cells t. queued_at t i k"
  by (simp add: video_ok_def)

lemma queued_at_unique: "queued_at t i k \<Longrightarrow> queued_at t j k \<Longrightarrow> i = j"
  by (simp add: queued_at_def)

lemma queued_at_less: "queued_at t i k \<Longrightarrow> k < length (m_Queue t)"
  by (simp add: queued_at_def)


text \<open>The terminal \<open>t\<close> shows the screen \<open>s\<close>.\<close>

definition shows_screen :: "VideoTerminal \<Rightarrow> (nat \<Rightarrow> Character) \<Rightarrow> bool" where
  "shows_screen t s \<longleftrightarrow> video_ok t \<and> (\<forall>i < cells t. char_at t i = s i)"

lemma EnqueueChar_ok:
  assumes "video_ok t" "x < cols t" "y < rows t"
  shows "video_ok (EnqueueChar c x y t)"
proof (cases "m_Map t ! cell t x y")
  case (Some k)
  then have e: "EnqueueChar c x y t = t\<lparr>m_Queue := (m_Queue t)[k := (m_Queue t ! k)\<lparr>q_Character := c\<rparr>]\<rparr>"
    using assms by (simp add: EnqueueChar_def Let_def not_le)
  have "queued_at (EnqueueChar c x y t) i j = queued_at t i j" for i j
    by (cases "j = k"; cases "j < length (m_Queue t)") (simp_all add: e queued_at_def)
  then show ?thesis using assms(1) by (simp add: video_ok_def e window_ok_def)
next
  case None
  show ?thesis
  proof (cases "m_Grid t ! cell t x y = c")
    case True
    then show ?thesis using assms None by (simp add: EnqueueChar_def Let_def)
  next
    case False
    then have e: "EnqueueChar c x y t = t\<lparr>m_Queue := m_Queue t @ [\<lparr>q_X = x, q_Y = y, q_Character = c\<rparr>],
        m_Map := (m_Map t)[cell t x y := Some (length (m_Queue t))]\<rparr>"
      using assms None by (simp add: EnqueueChar_def Let_def not_le)
    have q: "queued_at (EnqueueChar c x y t) i j \<longleftrightarrow> queued_at t i j \<or> (j = length (m_Queue t) \<and> i = cell t x y)" for i j
      using assms(2,3) by (auto simp: e queued_at_def nth_append less_Suc_eq)
    note less = cell_less [OF assms(2,3)]
    have empty: "\<not> queued_at t (cell t x y) j" for j using video_okD(5) [OF assms(1) less, of j] None by simp
    have "m_Map (EnqueueChar c x y t) ! i = Some k \<longleftrightarrow> queued_at (EnqueueChar c x y t) i k" if "i < cells t" for i k
    proof (cases "i = cell t x y")
      case True
      then show ?thesis using empty less video_okD(2) [OF assms(1)] by (simp add: q) (auto simp: e)
    next
      case False
      then show ?thesis using video_okD(5) [OF assms(1) that, of k] by (simp add: q) (simp add: e)
    qed
    moreover have "\<exists>i < cells t. queued_at (EnqueueChar c x y t) i k" if "k < Suc (length (m_Queue t))" for k
      using that less video_ok_queue [OF assms(1), of k] by (auto simp: q less_Suc_eq)
    ultimately show ?thesis
      using video_okD(1-4) [OF assms(1)] by (auto simp: video_ok_def window_ok_def e)
  qed
qed

lemma char_at_EnqueueChar:
  assumes "video_ok t" "x < cols t" "y < rows t" "i < cells t"
  shows "char_at (EnqueueChar c x y t) i = (if i = cell t x y then c else char_at t i)"
proof (cases "m_Map t ! cell t x y")
  case (Some k)
  note less = cell_less [OF assms(2,3)]
  from Some have q: "queued_at t (cell t x y) k" using video_okD(5) [OF assms(1) less] by simp
  have e: "EnqueueChar c x y t = t\<lparr>m_Queue := (m_Queue t)[k := (m_Queue t ! k)\<lparr>q_Character := c\<rparr>]\<rparr>"
    using Some assms by (simp add: EnqueueChar_def Let_def not_le)
  show ?thesis
  proof (cases "m_Map t ! i")
    case None
    then show ?thesis using Some by (auto simp: char_at_def e)
  next
    case (Some k')
    then have "queued_at t i k'" using video_okD(5) [OF assms(1,4)] by simp
    then have "i = cell t x y \<longleftrightarrow> k' = k"
      using q queued_at_unique Some \<open>m_Map t ! cell t x y = Some k\<close> by auto
    then show ?thesis using Some queued_at_less [OF q] by (auto simp: char_at_def e)
  qed
next
  case None
  show ?thesis
  proof (cases "m_Grid t ! cell t x y = c")
    case True
    then have "EnqueueChar c x y t = t" using None by (simp add: EnqueueChar_def Let_def)
    then show ?thesis using True None by (simp add: char_at_def)
  next
    case False
    then have e: "EnqueueChar c x y t = t\<lparr>m_Queue := m_Queue t @ [\<lparr>q_X = x, q_Y = y, q_Character = c\<rparr>],
        m_Map := (m_Map t)[cell t x y := Some (length (m_Queue t))]\<rparr>"
      using assms None by (simp add: EnqueueChar_def Let_def not_le)
    have "k < length (m_Queue t)" if "m_Map t ! i = Some k" for k
      using video_okD(5) [OF assms(1,4), of k] that queued_at_less by simp
    then show ?thesis
      using cell_less [OF assms(2,3)] video_okD(2) [OF assms(1)]
      by (auto simp: char_at_def e nth_append split: option.splits)
  qed
qed

text \<open>A character put at a place of the screen.\<close>

definition same_state :: "VideoTerminal \<Rightarrow> VideoTerminal \<Rightarrow> bool" where
  "same_state t u \<longleftrightarrow> base t = base u \<and> m_CurrentState t = m_CurrentState u \<and> m_SavedState t = m_SavedState u \<and>
     m_OldCursorX t = m_OldCursorX u \<and> m_OldCursorY t = m_OldCursorY u \<and> m_Grid t = m_Grid u \<and> m_Display t = m_Display u"

lemma same_state_refl [simp]: "same_state t t"
  by (simp add: same_state_def)

lemma same_state_trans: "same_state t u \<Longrightarrow> same_state u v \<Longrightarrow> same_state t v"
  by (simp add: same_state_def)

lemma same_state_dims: "same_state t u \<Longrightarrow> cols t = cols u \<and> rows t = rows u"
  by (auto simp: same_state_def dest: base_eqD)

lemma EnqueueChar_same_state: "same_state (EnqueueChar c x y t) t"
  by (auto simp: same_state_def EnqueueChar_def Let_def Terminal.defs split: option.splits)

lemma EnqueueChar_outside: "\<not> (x < cols t \<and> y < rows t) \<Longrightarrow> EnqueueChar c x y t = t"
  by (auto simp: EnqueueChar_def not_le)

lemma EnqueueChar_shows:
  assumes "shows_screen t s" "x < cols t" "y < rows t"
  shows "shows_screen (EnqueueChar c x y t) (s(cell t x y := c))"
  using assms EnqueueChar_ok [of t x y c] char_at_EnqueueChar [of t x y _ c]
    same_state_dims [OF EnqueueChar_same_state, of c x y t]
  by (simp add: shows_screen_def)

lemma enqueue_at_shows:
  assumes "shows_screen t s" "i < cells t"
  shows "shows_screen (enqueue_at c i t) (s(i := c))"
proof -
  have "window_ok t" using assms(1) by (simp add: shows_screen_def video_ok_def)
  from EnqueueChar_shows [OF assms(1) place_of_cell(1,2) [OF this assms(2)], of c] place_of_cell(3) [OF this assms(2)]
  show ?thesis by (simp add: enqueue_at_def)
qed

lemma enqueue_at_same_state: "same_state (enqueue_at c i t) t"
  unfolding enqueue_at_def by (rule EnqueueChar_same_state)

text \<open>Loops over the screen, simulated by loops over a function.\<close>

lemma fold_simulates:
  assumes "shows_screen t s"
    and step: "\<forall>i \<in> set is. \<forall>u s. shows_screen u s \<longrightarrow> cols u = cols t \<longrightarrow> rows u = rows t \<longrightarrow>
      shows_screen (f i u) (g i s) \<and> same_state (f i u) u"
  shows "shows_screen (fold f is t) (fold g is s) \<and> same_state (fold f is t) t"
  using assms
proof (induction "is" arbitrary: t s)
  case (Cons i "is")
  then have u: "shows_screen (f i t) (g i s)" "same_state (f i t) t" by auto
  from Cons.IH [OF u(1)] Cons.prems(2) same_state_dims [OF u(2)] same_state_trans [OF _ u(2)]
  show ?case by simp
qed simp

lemma fold_fill: "fold (\<lambda>i s. s(f i := c)) is s j = (if j \<in> f ` set is then c else s j)"
  by (induction "is" arbitrary: s) auto

lemma fold_shift_down:
  fixes k :: nat
  assumes "k \<le> a"
  shows "fold (\<lambda>i s. s(i - k := s i)) [a ..< b] s j = (if a \<le> j + k \<and> j + k < b then s (j + k) else s j)"
proof (induction b arbitrary: j)
  case (Suc b)
  then show ?case using assms by (cases "a \<le> b") (auto simp: not_le)
qed simp

lemma fold_shift_up:
  fixes k :: nat
  shows "fold (\<lambda>i s. s(i + k := s i)) (rev [a ..< b]) s j = (if a + k \<le> j \<and> j < b + k then s (j - k) else s j)"
  by (induction b arbitrary: s) (auto simp: less_Suc_eq)

section \<open>Scrolling\<close>

text \<open>The margins are inside the window, as \<^verbatim>\<open>Reset\<close> leaves them.\<close>

definition margins_ok :: "VideoTerminal \<Rightarrow> bool" where
  "margins_ok t \<longleftrightarrow> m_ScrollTopMargin t < m_ScrollBottomMargin t \<and> m_ScrollBottomMargin t \<le> rows t"

lemma cell_of_nat: "i < unat (cols t) \<Longrightarrow> cell t (of_nat i) y = unat y * unat (cols t) + i \<and> of_nat i < cols t"
  using small_words(1) [of i] unat_dimensions [of t] by (simp add: cell_def word_less_nat_alt)

lemma fold_row_shows:
  assumes "shows_screen t s" "y < rows t"
  shows "shows_screen (fold (\<lambda>i. EnqueueChar c (of_nat i) y) [0 ..< unat (cols t)] t)
      (\<lambda>j. if unat y * unat (cols t) \<le> j \<and> j < (unat y + 1) * unat (cols t) then c else s j)
    \<and> same_state (fold (\<lambda>i. EnqueueChar c (of_nat i) y) [0 ..< unat (cols t)] t) t"
proof -
  let ?k = "unat (cols t)"
  have "shows_screen (fold (\<lambda>i. EnqueueChar c (of_nat i) y) [0 ..< ?k] t) (fold (\<lambda>i s. s(unat y * ?k + i := c)) [0 ..< ?k] s)
    \<and> same_state (fold (\<lambda>i. EnqueueChar c (of_nat i) y) [0 ..< ?k] t) t"
  proof (rule fold_simulates [OF assms(1)], intro ballI allI impI conjI)
    fix i u s assume i: "i \<in> set [0 ..< ?k]" and u: "shows_screen u s" "cols u = cols t" "rows u = rows t"
    show "shows_screen (EnqueueChar c (of_nat i) y u) (s(unat y * ?k + i := c))"
      using EnqueueChar_shows [OF u(1), of "of_nat i" y c] cell_of_nat [of i u y] i u assms(2) by simp
    show "same_state (EnqueueChar c (of_nat i) y u) u" by (rule EnqueueChar_same_state)
  qed
  moreover have "fold (\<lambda>i s. s(unat y * ?k + i := c)) [0 ..< ?k] s =
      (\<lambda>j. if unat y * ?k \<le> j \<and> j < (unat y + 1) * ?k then c else s j)"
  proof
    fix j
    have "j \<in> (\<lambda>i. unat y * ?k + i) ` {0 ..< ?k} \<longleftrightarrow> unat y * ?k \<le> j \<and> j < (unat y + 1) * ?k"
      by (auto simp: image_iff intro: bexI [of _ "j - unat y * ?k"])
    then show "fold (\<lambda>i s. s(unat y * ?k + i := c)) [0 ..< ?k] s j =
      (if unat y * ?k \<le> j \<and> j < (unat y + 1) * ?k then c else s j)" by (simp only: fold_fill set_upt)
  qed
  ultimately show ?thesis by simp
qed

text \<open>Scrolling on the abstract screen: rows \<open>top\<close> to \<open>bottom - 1\<close> move by one row, and a blank row comes in.\<close>

definition scrolled_down :: "nat \<Rightarrow> nat \<Rightarrow> nat \<Rightarrow> Character \<Rightarrow> (nat \<Rightarrow> Character) \<Rightarrow> nat \<Rightarrow> Character" where
  "scrolled_down k top_row bottom c s j =
     (if top_row * k \<le> j \<and> j < (bottom - 1) * k then s (j + k)
      else if (bottom - 1) * k \<le> j \<and> j < bottom * k then c else s j)"

definition scrolled_up :: "nat \<Rightarrow> nat \<Rightarrow> nat \<Rightarrow> Character \<Rightarrow> (nat \<Rightarrow> Character) \<Rightarrow> nat \<Rightarrow> Character" where
  "scrolled_up k top_row bottom c s j =
     (if (top_row + 1) * k \<le> j \<and> j < bottom * k then s (j - k)
      else if top_row * k \<le> j \<and> j < (top_row + 1) * k then c else s j)"

lemma margins_unat:
  assumes "margins_ok t"
  shows "unat (m_ScrollTopMargin t) < unat (m_ScrollBottomMargin t)" "unat (m_ScrollBottomMargin t) \<le> unat (rows t)"
    "unat (m_ScrollBottomMargin t - 1) = unat (m_ScrollBottomMargin t) - 1"
    "m_ScrollBottomMargin t - 1 < rows t" "m_ScrollTopMargin t < rows t"
proof -
  show a: "unat (m_ScrollTopMargin t) < unat (m_ScrollBottomMargin t)" "unat (m_ScrollBottomMargin t) \<le> unat (rows t)"
    using assms by (simp_all add: margins_ok_def word_less_nat_alt word_le_nat_alt)
  then have "m_ScrollBottomMargin t \<noteq> 0" by (metis not_less_zero unat_0)
  then show b: "unat (m_ScrollBottomMargin t - 1) = unat (m_ScrollBottomMargin t) - 1" by (rule unat_minus_one)
  show "m_ScrollBottomMargin t - 1 < rows t" "m_ScrollTopMargin t < rows t" using a b by (simp_all add: word_less_nat_alt)
qed

lemma copy_simulates:
  assumes "shows_screen t s" "\<forall>i \<in> set is. dst i < cells t \<and> i < cells t"
  shows "shows_screen (fold (\<lambda>i t. enqueue_at (char_at t i) (dst i) t) is t) (fold (\<lambda>i s. s(dst i := s i)) is s)
    \<and> same_state (fold (\<lambda>i t. enqueue_at (char_at t i) (dst i) t) is t) t"
proof (rule fold_simulates [OF assms(1)], intro ballI allI impI conjI)
  fix i u s assume i: "i \<in> set is" and u: "shows_screen u s" "cols u = cols t" "rows u = rows t"
  have "char_at u i = s i" using u i assms(2) by (simp add: shows_screen_def)
  then show "shows_screen (enqueue_at (char_at u i) (dst i) u) (s(dst i := s i))"
    using enqueue_at_shows [OF u(1), of "dst i"] u i assms(2) by simp
  show "same_state (enqueue_at (char_at u i) (dst i) u) u" by (rule enqueue_at_same_state)
qed

lemma same_stateD:
  assumes "same_state t u"
  shows "blank t = blank u" "m_ScrollBottomMargin t = m_ScrollBottomMargin u" "m_ScrollTopMargin t = m_ScrollTopMargin u"
    "cols t = cols u" "rows t = rows u" "m_CurrentState t = m_CurrentState u" "base t = base u"
  using assms base_eqD [of t u] by (simp_all add: same_state_def blank_def)

lemma margins_ok_cong: "same_state t u \<Longrightarrow> margins_ok t = margins_ok u"
  by (simp add: margins_ok_def same_stateD [of t u])

lemma ScrollDown_shows:
  assumes "shows_screen t s" "margins_ok t"
  shows "shows_screen (Video_ScrollDown t)
      (scrolled_down (unat (cols t)) (unat (m_ScrollTopMargin t)) (unat (m_ScrollBottomMargin t)) (blank t) s)
    \<and> same_state (Video_ScrollDown t) t"
proof -
  define k where "k = unat (cols t)"
  define T where "T = unat (m_ScrollTopMargin t)"
  define B where "B = unat (m_ScrollBottomMargin t)"
  define u where "u = fold (\<lambda>i t. enqueue_at (char_at t i) (i - k) t) [(T + 1) * k ..< B * k] t"
  define s1 where "s1 = fold (\<lambda>i s. s(i - k := s i)) [(T + 1) * k ..< B * k] s"
  note m = margins_unat [OF assms(2), folded T_def B_def]
  have "B * k \<le> cells t" using m(2) by (simp add: k_def)
  then have "\<forall>i \<in> set ([(T + 1) * k ..< B * k]). i - k < cells t \<and> i < cells t" by (auto simp: less_imp_diff_less)
  from copy_simulates [OF assms(1) this] have u: "shows_screen u s1" "same_state u t"
    by (simp_all only: u_def s1_def)
  note same = same_stateD [OF u(2)]
  have scroll: "Video_ScrollDown t = fold (\<lambda>i. EnqueueChar (blank u) (of_nat i) (m_ScrollBottomMargin u - 1)) [0 ..< unat (cols u)] u"
    unfolding same(4) by (simp only: Video_ScrollDown_def Let_def u_def k_def T_def B_def)
  have "m_ScrollBottomMargin u - 1 < rows u" using m(4) by (simp add: same)
  note row = fold_row_shows [OF u(1) this, of "blank u"]
  have "(\<lambda>j. if unat (m_ScrollBottomMargin u - 1) * unat (cols u) \<le> j \<and> j < (unat (m_ScrollBottomMargin u - 1) + 1) * unat (cols u)
      then blank u else s1 j) = scrolled_down k T B (blank t) s"
  proof
    fix j
    from m(1) obtain B' where B': "B = Suc B'" by (cases B) auto
    have "B * k = B' * k + k" "(T + 1) * k = T * k + k" by (simp_all add: B')
    then show "(if unat (m_ScrollBottomMargin u - 1) * unat (cols u) \<le> j \<and> j < (unat (m_ScrollBottomMargin u - 1) + 1) * unat (cols u)
      then blank u else s1 j) = scrolled_down k T B (blank t) s j"
      using fold_shift_down [of k "(T + 1) * k" "B * k" s j]
      by (auto simp: same m(3) scrolled_down_def s1_def B' k_def [symmetric])
  qed
  with row same_state_trans [OF _ u(2)] show ?thesis by (simp only: scroll k_def [symmetric] T_def [symmetric] B_def [symmetric])
qed

lemma ScrollUp_shows:
  assumes "shows_screen t s" "margins_ok t"
  shows "shows_screen (Video_ScrollUp t)
      (scrolled_up (unat (cols t)) (unat (m_ScrollTopMargin t)) (unat (m_ScrollBottomMargin t)) (blank t) s)
    \<and> same_state (Video_ScrollUp t) t"
proof -
  define k where "k = unat (cols t)"
  define T where "T = unat (m_ScrollTopMargin t)"
  define B where "B = unat (m_ScrollBottomMargin t)"
  define u where "u = fold (\<lambda>i t. enqueue_at (char_at t i) (i + k) t) (rev [T * k ..< (B - 1) * k]) t"
  define s1 where "s1 = fold (\<lambda>i s. s(i + k := s i)) (rev [T * k ..< (B - 1) * k]) s"
  note m = margins_unat [OF assms(2), folded T_def B_def]
  from m(1) obtain B' where B': "B = Suc B'" by (cases B) auto
  have "B * k \<le> cells t" using m(2) by (simp add: k_def)
  then have "\<forall>i \<in> set (rev [T * k ..< (B - 1) * k]). i + k < cells t \<and> i < cells t" by (auto simp: B')
  from copy_simulates [OF assms(1) this] have u: "shows_screen u s1" "same_state u t"
    by (simp_all only: u_def s1_def)
  note same = same_stateD [OF u(2)]
  have scroll: "Video_ScrollUp t = fold (\<lambda>i. EnqueueChar (blank u) (of_nat i) (m_ScrollTopMargin u)) [0 ..< unat (cols u)] u"
    unfolding same(4) by (simp only: Video_ScrollUp_def Let_def u_def k_def T_def B_def)
  have "m_ScrollTopMargin u < rows u" using m(5) by (simp add: same)
  note row = fold_row_shows [OF u(1) this, of "blank u"]
  have "(\<lambda>j. if unat (m_ScrollTopMargin u) * unat (cols u) \<le> j \<and> j < (unat (m_ScrollTopMargin u) + 1) * unat (cols u)
      then blank u else s1 j) = scrolled_up k T B (blank t) s"
  proof
    fix j
    have "B * k = B' * k + k" "(T + 1) * k = T * k + k" by (simp_all add: B')
    then show "(if unat (m_ScrollTopMargin u) * unat (cols u) \<le> j \<and> j < (unat (m_ScrollTopMargin u) + 1) * unat (cols u)
      then blank u else s1 j) = scrolled_up k T B (blank t) s j"
      using fold_shift_up [of k "T * k" "(B - 1) * k" s j]
      by (auto simp: same scrolled_up_def s1_def B' k_def [symmetric] T_def [symmetric])
  qed
  with row same_state_trans [OF _ u(2)] show ?thesis by (simp only: scroll k_def [symmetric] T_def [symmetric] B_def [symmetric])
qed

section \<open>Flushing\<close>

definition item_cell :: "VideoTerminal \<Rightarrow> QueueItem \<Rightarrow> nat" where
  "item_cell t q = cell t (q_X q) (q_Y q)"

definition inside :: "VideoTerminal \<Rightarrow> QueueItem \<Rightarrow> bool" where
  "inside t q \<longleftrightarrow> q_X q < cols t \<and> q_Y q < rows t"

definition pending :: "VideoTerminal \<Rightarrow> QueueItem list \<Rightarrow> nat \<Rightarrow> Character option" where
  "pending t qs = map_of (map (\<lambda>q. (item_cell t q, q_Character q)) qs)"

definition flushed :: "VideoTerminal \<Rightarrow> QueueItem list \<Rightarrow> nat \<Rightarrow> Character \<Rightarrow> Character" where
  "flushed t qs i old = (case pending t qs i of Some c \<Rightarrow> if m_Map t ! i = None then old else c | None \<Rightarrow> old)"

definition sized :: "VideoTerminal \<Rightarrow> bool" where
  "sized t \<longleftrightarrow> length (m_Map t) = cells t \<and> length (m_Grid t) = cells t \<and> length (m_Display t) = cells t"

lemma flush_item_step:
  assumes "sized t" "inside t q"
  shows "sized (flush_item q t)" "base (flush_item q t) = base t" "m_CurrentState (flush_item q t) = m_CurrentState t"
    "m_OldCursorX (flush_item q t) = m_OldCursorX t" "m_OldCursorY (flush_item q t) = m_OldCursorY t"
    "m_SavedState (flush_item q t) = m_SavedState t" "m_Queue (flush_item q t) = m_Queue t"
    "m_Map (flush_item q t) = (m_Map t)[item_cell t q := None]"
    "m_Grid (flush_item q t) = (if m_Map t ! item_cell t q = None then m_Grid t else (m_Grid t)[item_cell t q := q_Character q])"
    "m_Display (flush_item q t) = (if m_Map t ! item_cell t q = None then m_Display t else (m_Display t)[item_cell t q := q_Character q])"
  using assms
  by (auto simp: flush_item_def PlotChar_def VerifyBounds_def inside_def item_cell_def sized_def Let_def Terminal.defs list_update_same_conv
      cell_less intro!: list_update_same_conv [THEN iffD2, symmetric])

lemma fold_flush:
  assumes "sized t" "\<forall>q \<in> set qs. inside t q" "distinct (map (item_cell t) qs)"
  defines "u \<equiv> fold flush_item qs t"
  shows "sized u \<and> base u = base t \<and> m_CurrentState u = m_CurrentState t \<and> m_OldCursorX u = m_OldCursorX t \<and>
    m_OldCursorY u = m_OldCursorY t \<and> m_SavedState u = m_SavedState t \<and> m_Queue u = m_Queue t \<and>
    (\<forall>i < cells t. m_Map u ! i = (if pending t qs i = None then m_Map t ! i else None) \<and>
       m_Grid u ! i = flushed t qs i (m_Grid t ! i) \<and> m_Display u ! i = flushed t qs i (m_Display t ! i))"
  using assms(1-3) unfolding u_def
proof (induction qs arbitrary: t)
  case Nil
  then show ?case by (simp add: pending_def flushed_def)
next
  case (Cons q qs)
  define v where "v = flush_item q t"
  have q: "inside t q" using Cons.prems by simp
  note step = flush_item_step [OF Cons.prems(1) q, folded v_def]
  note dims = base_eqD [OF step(2)]
  have cell: "item_cell v = item_cell t" using cell_cong [OF dims(10)] by (simp add: item_cell_def fun_eq_iff)
  have "inside v = inside t" by (simp add: inside_def fun_eq_iff dims)
  from Cons.IH [of v] Cons.prems step(1) this cell have IH: "sized (fold flush_item qs v) \<and> base (fold flush_item qs v) = base v \<and>
    m_CurrentState (fold flush_item qs v) = m_CurrentState v \<and> m_OldCursorX (fold flush_item qs v) = m_OldCursorX v \<and>
    m_OldCursorY (fold flush_item qs v) = m_OldCursorY v \<and> m_SavedState (fold flush_item qs v) = m_SavedState v \<and>
    m_Queue (fold flush_item qs v) = m_Queue v \<and>
    (\<forall>i < cells t. m_Map (fold flush_item qs v) ! i = (if pending v qs i = None then m_Map v ! i else None) \<and>
       m_Grid (fold flush_item qs v) ! i = flushed v qs i (m_Grid v ! i) \<and>
       m_Display (fold flush_item qs v) ! i = flushed v qs i (m_Display v ! i))" by (simp add: dims)
  have pend: "pending v qs = pending t qs" by (simp add: pending_def cell)
  have new: "pending t qs (item_cell t q) = None"
    using Cons.prems(3) by (auto simp: pending_def map_of_eq_None_iff)
  have less: "item_cell t q < cells t" using q cell_less by (simp add: inside_def item_cell_def)
  have "flushed v qs i (m_Grid v ! i) = flushed t (q # qs) i (m_Grid t ! i) \<and>
    flushed v qs i (m_Display v ! i) = flushed t (q # qs) i (m_Display t ! i) \<and>
    (if pending v qs i = None then m_Map v ! i else None) = (if pending t (q # qs) i = None then m_Map t ! i else None)"
    if "i < cells t" for i
  proof (cases "i = item_cell t q")
    case True
    then show ?thesis using new less Cons.prems(1)
      by (simp add: flushed_def pend step sized_def) (simp add: pending_def)
  next
    case False
    then have "pending t (q # qs) i = pending t qs i" by (simp add: pending_def)
    then show ?thesis using False by (simp add: flushed_def pend step split: option.split)
  qed
  with IH step show ?case by (simp add: v_def [symmetric] dims)
qed

text \<open>The picture shows the grid, except where the cursor was drawn last.\<close>

definition display_ok :: "VideoTerminal \<Rightarrow> bool" where
  "display_ok t \<longleftrightarrow> (\<forall>i < cells t. m_Display t ! i = m_Grid t ! i \<or>
     (m_OldCursorX t < cols t \<and> m_OldCursorY t < rows t \<and> i = cell t (m_OldCursorX t) (m_OldCursorY t)))"

definition at_cursor :: "VideoTerminal \<Rightarrow> nat \<Rightarrow> bool" where
  "at_cursor t i \<longleftrightarrow> VerifyBounds (CursorX (m_CurrentState t)) (CursorY (m_CurrentState t)) t \<and>
     i = cell t (CursorX (m_CurrentState t)) (CursorY (m_CurrentState t))"

lemma queue_items:
  assumes "video_ok t"
  shows "distinct (map (item_cell t) (rev (m_Queue t)))" "\<forall>q \<in> set (rev (m_Queue t)). inside t q"
    "i < cells t \<Longrightarrow> pending t (rev (m_Queue t)) i = map_option (\<lambda>k. q_Character (m_Queue t ! k)) (m_Map t ! i)"
proof -
  have at: "inside t (m_Queue t ! k) \<and> m_Map t ! item_cell t (m_Queue t ! k) = Some k" if "k < length (m_Queue t)" for k
  proof -
    from video_ok_queue [OF assms that] obtain i where i: "i < cells t" "queued_at t i k" by blast
    then have "item_cell t (m_Queue t ! k) = i" "inside t (m_Queue t ! k)" by (simp_all add: item_cell_def queued_at_def inside_def)
    with i video_okD(5) [OF assms] show ?thesis by simp
  qed
  have "distinct (map (item_cell t) (m_Queue t))"
    unfolding distinct_conv_nth by (metis at length_map nth_map option.inject)
  then show dist: "distinct (map (item_cell t) (rev (m_Queue t)))" by (simp add: rev_map [symmetric])
  show "\<forall>q \<in> set (rev (m_Queue t)). inside t q" using at by (auto simp: in_set_conv_nth)
  assume i: "i < cells t"
  let ?as = "map (\<lambda>q. (item_cell t q, q_Character q)) (rev (m_Queue t))"
  have keys: "distinct (map fst ?as)" using dist by (simp add: comp_def)
  show "pending t (rev (m_Queue t)) i = map_option (\<lambda>k. q_Character (m_Queue t ! k)) (m_Map t ! i)"
  proof (cases "m_Map t ! i")
    case None
    then have "i \<notin> item_cell t ` set (m_Queue t)" using at by (fastforce simp: in_set_conv_nth)
    then show ?thesis using None by (auto simp: pending_def map_of_eq_None_iff)
  next
    case (Some k)
    then have "queued_at t i k" using video_okD(5) [OF assms i] by simp
    then have "(i, q_Character (m_Queue t ! k)) \<in> set ?as" by (force simp: queued_at_def item_cell_def)
    then show ?thesis using Some map_of_is_SomeI [OF keys] by (simp add: pending_def)
  qed
qed

lemma DrawCursor_effect:
  assumes "video_ok t"
  shows "sized (DrawCursor t)" "base (DrawCursor t) = base t" "m_CurrentState (DrawCursor t) = m_CurrentState t"
    "m_OldCursorX (DrawCursor t) = m_OldCursorX t" "m_OldCursorY (DrawCursor t) = m_OldCursorY t"
    "m_SavedState (DrawCursor t) = m_SavedState t" "m_Queue (DrawCursor t) = m_Queue t"
    "i < cells t \<Longrightarrow> m_Map (DrawCursor t) ! i = (if at_cursor t i then None else m_Map t ! i)"
    "i < cells t \<Longrightarrow> m_Grid (DrawCursor t) ! i = (if at_cursor t i then char_at t i else m_Grid t ! i)"
    "i < cells t \<Longrightarrow> m_Display (DrawCursor t) ! i = (if at_cursor t i then swapped (char_at t i) else m_Display t ! i)"
  using video_okD(2-4) [OF assms]
  by (auto simp: DrawCursor_def PlotChar_def sized_def at_cursor_def VerifyBounds_def char_at_def Let_def Terminal.defs nth_list_update
      split: option.splits)

lemma Flush_effect:
  assumes "video_ok t" "display_ok t"
  defines "u \<equiv> Video_Flush t"
  shows "base u = base t \<and> m_CurrentState u = m_CurrentState t \<and> m_Queue u = [] \<and> video_ok u \<and> display_ok u \<and>
    (\<forall>i < cells t. m_Map u ! i = None \<and> m_Grid u ! i = char_at t i \<and>
      m_Display u ! i = (if at_cursor t i then swapped (char_at t i) else char_at t i))"
proof -
  define a where "a = DrawCursor t"
  note a = DrawCursor_effect [OF assms(1), folded a_def]
  note da = base_eqD [OF a(2)]
  define b where "b = a\<lparr>m_Queue := []\<rparr>"
  have b: "sized b" "base b = base t" "m_CurrentState b = m_CurrentState t" "m_Map b = m_Map a" "m_Grid b = m_Grid a"
    "m_Display b = m_Display a" "m_OldCursorX b = m_OldCursorX t" "m_OldCursorY b = m_OldCursorY t"
    using a by (simp_all add: b_def sized_def Terminal.defs)
  note db = base_eqD [OF b(2)]
  have icell: "item_cell b = item_cell t" using cell_cong [OF db(10)] by (simp add: item_cell_def fun_eq_iff)
  have ins: "inside b = inside t" by (simp add: inside_def fun_eq_iff db)
  have pend: "pending b = pending t" by (simp add: pending_def icell fun_eq_iff)
  define c where "c = fold flush_item (rev (m_Queue t)) b"
  have c: "sized c" "base c = base t" "m_CurrentState c = m_CurrentState t" "m_Queue c = []"
    "m_OldCursorX c = m_OldCursorX t" "m_OldCursorY c = m_OldCursorY t"
    "\<And>i. i < cells t \<Longrightarrow> m_Map c ! i = (if pending t (rev (m_Queue t)) i = None then m_Map a ! i else None) \<and>
       m_Grid c ! i = flushed b (rev (m_Queue t)) i (m_Grid a ! i) \<and> m_Display c ! i = flushed b (rev (m_Queue t)) i (m_Display a ! i)"
    using fold_flush [of b "rev (m_Queue t)"] queue_items(1,2) [OF assms(1)] b
    by (simp_all add: c_def icell ins pend db) (simp add: b_def)
  note dc = base_eqD [OF c(2)]
  have cell: "cell c = cell t" by (rule cell_cong [OF dc(10)])
  have at: "m_Map c ! i = None \<and> m_Grid c ! i = char_at t i \<and>
      m_Display c ! i = (if at_cursor t i then swapped (char_at t i) else if m_Map t ! i = None then m_Display t ! i else char_at t i)"
    if i: "i < cells t" for i
    using c(7) [OF i] queue_items(3) [OF assms(1) i] a(8-10) [OF i]
    by (auto simp: flushed_def pend b char_at_def split: option.splits if_splits)
  have u: "u = (if (m_OldCursorX t \<noteq> CursorX (m_CurrentState t) \<or> m_OldCursorY t \<noteq> CursorY (m_CurrentState t)) \<and>
        m_OldCursorX t < cols t \<and> m_OldCursorY t < rows t
      then PlotChar (m_Grid c ! cell t (m_OldCursorX t) (m_OldCursorY t)) (m_OldCursorX t) (m_OldCursorY t) c else c)
      \<lparr>m_OldCursorX := CursorX (m_CurrentState t), m_OldCursorY := CursorY (m_CurrentState t)\<rparr>"
    unfolding u_def Video_Flush_def a_def [symmetric] a(7) b_def [symmetric] c_def [symmetric] Let_def
    by (simp only: c(3,5,6) cell dc(10,11))
  have fields: "base u = base t" "m_CurrentState u = m_CurrentState t" "m_Queue u = []" "m_Map u = m_Map c" "m_Grid u = m_Grid c"
    "m_OldCursorX u = CursorX (m_CurrentState t)" "m_OldCursorY u = CursorY (m_CurrentState t)" "length (m_Display u) = cells t"
    using c(1-4) by (simp_all add: u PlotChar_def sized_def dc Terminal.defs)
  note du = base_eqD [OF fields(1)]
  have old: "m_Display t ! i = char_at t i" if "i < cells t" "m_Map t ! i = None"
    "\<not> (m_OldCursorX t < cols t \<and> m_OldCursorY t < rows t \<and> i = cell t (m_OldCursorX t) (m_OldCursorY t))" for i
    using assms(2) that by (auto simp: display_ok_def char_at_def)
  have disp: "m_Display u ! i = (if at_cursor t i then swapped (char_at t i) else char_at t i)" if i: "i < cells t" for i
  proof (cases "(m_OldCursorX t \<noteq> CursorX (m_CurrentState t) \<or> m_OldCursorY t \<noteq> CursorY (m_CurrentState t)) \<and>
        m_OldCursorX t < cols t \<and> m_OldCursorY t < rows t")
    case True
    then have less: "cell t (m_OldCursorX t) (m_OldCursorY t) < cells t" by (intro cell_less) simp_all
    have not_cursor: "\<not> at_cursor t (cell t (m_OldCursorX t) (m_OldCursorY t))"
      using True by (auto simp: at_cursor_def VerifyBounds_def dest: cell_inject)
    have "m_Display u = (m_Display c)[cell t (m_OldCursorX t) (m_OldCursorY t) := char_at t (cell t (m_OldCursorX t) (m_OldCursorY t))]"
      using True at [OF less] by (simp add: u PlotChar_def VerifyBounds_def cell dc)
    then show ?thesis
      using at [OF i] old [OF i] not_cursor less c(1)
      by (cases "i = cell t (m_OldCursorX t) (m_OldCursorY t)") (auto simp: sized_def dc)
  next
    case False
    then have "m_Display u = m_Display c" by (auto simp: u)
    then show ?thesis
      using at [OF i] old [OF i] False by (auto simp: at_cursor_def VerifyBounds_def)
  qed
  have "video_ok u"
    using video_okD(1) [OF assms(1)] c(1) at
    by (simp add: video_ok_def window_ok_def fields du sized_def dc queued_at_def)
  moreover have "display_ok u"
    using disp at by (auto simp: display_ok_def fields du at_cursor_def VerifyBounds_def cell_cong [OF du(10)])
  ultimately show ?thesis using fields at disp by simp
qed

section \<open>The invariant, kept by every operation\<close>

definition video_inv :: "VideoTerminal \<Rightarrow> bool" where
  "video_inv t \<longleftrightarrow> video_ok t \<and> margins_ok t \<and> display_ok t"

lemma video_ok_cong:
  assumes "cols t = cols u" "rows t = rows u" "m_Queue t = m_Queue u" "m_Map t = m_Map u"
    "length (m_Grid t) = length (m_Grid u)" "length (m_Display t) = length (m_Display u)"
  shows "video_ok t = video_ok u"
  using assms cell_cong [OF assms(1)] by (simp add: video_ok_def window_ok_def queued_at_def)

lemma video_inv_cong:
  assumes "cols t = cols u" "rows t = rows u" "m_Queue t = m_Queue u" "m_Map t = m_Map u" "m_Grid t = m_Grid u"
    "m_Display t = m_Display u" "m_OldCursorX t = m_OldCursorX u" "m_OldCursorY t = m_OldCursorY u"
    "m_ScrollTopMargin t = m_ScrollTopMargin u" "m_ScrollBottomMargin t = m_ScrollBottomMargin u"
  shows "video_inv t = video_inv u"
  using assms cell_cong [OF assms(1)] video_ok_cong [of t u] by (simp add: video_inv_def margins_ok_def display_ok_def)

lemma same_state_inv:
  assumes "same_state t u" "video_ok t" "video_inv u"
  shows "video_inv t"
proof -
  have "display_ok t"
    using assms same_stateD [OF assms(1)] cell_cong [of t u] by (simp add: video_inv_def display_ok_def same_state_def)
  then show ?thesis using assms margins_ok_cong by (simp add: video_inv_def)
qed

lemma video_inv_current [simp]: "video_inv (t\<lparr>m_CurrentState := a\<rparr>) = video_inv t"
  by (rule video_inv_cong) simp_all

lemma shows_own_screen: "video_ok t \<Longrightarrow> shows_screen t (char_at t)"
  by (simp add: shows_screen_def)

lemma char_at_current [simp]: "char_at (t\<lparr>m_CurrentState := a\<rparr>) = char_at t"
  by (simp add: char_at_def fun_eq_iff split: option.split)

lemma shows_screen_current [simp]: "shows_screen (t\<lparr>m_CurrentState := a\<rparr>) s = shows_screen t s"
  using video_ok_cong [of "t\<lparr>m_CurrentState := a\<rparr>" t] by (simp add: shows_screen_def)

lemma shows_inv: "shows_screen t s \<Longrightarrow> same_state t u \<Longrightarrow> video_inv u \<Longrightarrow> video_inv t"
  by (simp add: shows_screen_def same_state_inv)

lemma inv_shows: "video_inv t \<Longrightarrow> shows_screen t (char_at t) \<and> margins_ok t"
  by (simp add: video_inv_def shows_own_screen)

lemma EnqueueChar_inv:
  assumes "video_inv t"
  shows "video_inv (EnqueueChar c x y t)"
proof (cases "x < cols t \<and> y < rows t")
  case True
  then show ?thesis
    using EnqueueChar_shows [of t "char_at t" x y c] inv_shows [OF assms] shows_inv [OF _ EnqueueChar_same_state assms] by blast
qed (use assms in \<open>simp add: EnqueueChar_outside\<close>)

lemma ScrollDown_inv: "video_inv t \<Longrightarrow> video_inv (Video_ScrollDown t)"
  using ScrollDown_shows [of t "char_at t"] inv_shows shows_inv by blast

lemma ScrollUp_inv: "video_inv t \<Longrightarrow> video_inv (Video_ScrollUp t)"
  using ScrollUp_shows [of t "char_at t"] inv_shows shows_inv by blast

lemma Clear_shows:
  assumes "shows_screen t s"
  shows "shows_screen (Video_Clear color move t) (\<lambda>j. blank t)"
    "same_state (Video_Clear color False t) t"
proof -
  have "shows_screen (fold (enqueue_at (blank t)) [0 ..< cells t] t) (fold (\<lambda>i s. s(i := blank t)) [0 ..< cells t] s)
    \<and> same_state (fold (enqueue_at (blank t)) [0 ..< cells t] t) t"
    by (rule fold_simulates [OF assms]) (simp add: enqueue_at_shows enqueue_at_same_state)
  then have a: "shows_screen (fold (enqueue_at (blank t)) [0 ..< cells t] t) (\<lambda>j. blank t)"
    "same_state (fold (enqueue_at (blank t)) [0 ..< cells t] t) t"
    using same_stateD(4,5) [of "fold (enqueue_at (blank t)) [0 ..< cells t] t" t]
    by (simp_all add: shows_screen_def fold_fill [of "\<lambda>i. i", simplified])
  then show "shows_screen (Video_Clear color move t) (\<lambda>j. blank t)" "same_state (Video_Clear color False t) t"
    by (simp_all add: Video_Clear_def Let_def)
qed

lemma Clear_inv: "video_inv t \<Longrightarrow> video_inv (Video_Clear color move t)"
proof -
  assume t: "video_inv t"
  then have "video_inv (Video_Clear color False t)"
    using Clear_shows [of t "char_at t" color] inv_shows shows_inv by blast
  then show ?thesis by (simp add: Video_Clear_def Let_def split: if_splits)
qed

lemma RawPutChar_inv: "video_inv t \<Longrightarrow> video_inv (Video_RawPutChar c t)"
  by (auto simp: Video_RawPutChar_def Let_def intro!: EnqueueChar_inv ScrollDown_inv)

lemma MoveCharacter_inv: "video_inv t \<Longrightarrow> video_inv (Video_MoveCharacter newX newY oldX oldY t)"
  by (auto simp: Video_MoveCharacter_def intro!: EnqueueChar_inv)

lemma Flush_inv: "video_inv t \<Longrightarrow> video_inv (Video_Flush t)"
  using Flush_effect [of t] base_eqD [of "Video_Flush t" t] by (auto simp: video_inv_def margins_ok_def)

lemma SetCursorPos_inv: "video_inv t \<Longrightarrow> video_inv (Video_SetCursorPos x y t)"
  by (simp add: Video_SetCursorPos_def)

lemma Save_Restore_inv: "video_inv t \<Longrightarrow> video_inv (Video_SaveState t)" "video_inv t \<Longrightarrow> video_inv (Video_RestoreState t)"
  using video_inv_cong [of "t\<lparr>m_SavedState := m_CurrentState t\<rparr>" t]
  by (simp_all add: Video_SaveState_def Video_RestoreState_def cols_def rows_def)

lemma SetText_inv:
  "video_inv t \<Longrightarrow> video_inv (SetTextForegroundRgb rgb t)" "video_inv t \<Longrightarrow> video_inv (SetTextBackgroundRgb rgb t)"
  "video_inv t \<Longrightarrow> video_inv (SetTextForeground contains a t)" "video_inv t \<Longrightarrow> video_inv (SetTextBackground contains a t)"
  by (simp_all add: SetTextForegroundRgb_def SetTextBackgroundRgb_def SetTextForeground_def SetTextBackground_def)

section \<open>The terminal as a device of the emulator\<close>

lemma base_current [simp]: "base (t\<lparr>m_CurrentState := a\<rparr>) = base t"
  by (simp add: Terminal.defs)

lemma base_EnqueueChar: "base (EnqueueChar c x y t) = base t"
  using same_stateD(7) [OF EnqueueChar_same_state] .

lemma base_enqueue_at: "base (enqueue_at c i t) = base t"
  using same_stateD(7) [OF enqueue_at_same_state] .

lemma base_screen_loops:
  "base (Video_ScrollDown t) = base t" "base (Video_ScrollUp t) = base t" "base (Video_Clear color move t) = base t"
  by (simp_all add: Video_ScrollDown_def Video_ScrollUp_def Video_Clear_def Let_def base_fold base_EnqueueChar base_enqueue_at)

lemma base_PlotChar: "base (PlotChar c x y t) = base t"
  by (simp add: PlotChar_def Terminal.defs)

lemma base_Flush: "base (Video_Flush t) = base t"
proof -
  have item: "base (flush_item q t) = base t" for q t
    using base_PlotChar [of "q_Character q" "q_X q" "q_Y q" t] by (simp add: flush_item_def Let_def Terminal.defs)
  have cursor: "base (DrawCursor t) = base t" for t
    by (simp add: DrawCursor_def Let_def PlotChar_def Terminal.defs split: option.splits)
  have "base (fold flush_item qs (DrawCursor t\<lparr>m_Queue := []\<rparr>)) = base t" for qs
    by (simp add: base_fold item) (simp add: Terminal.defs cursor [unfolded Terminal.defs])
  then show ?thesis by (simp add: Video_Flush_def Let_def PlotChar_def Terminal.defs)
qed

lemma base_RawPutChar: "base (Video_RawPutChar c t) = base t"
  by (simp add: Video_RawPutChar_def Let_def base_EnqueueChar base_screen_loops)

lemma base_state_ops:
  "base (Video_SaveState t) = base t" "base (Video_RestoreState t) = base t" "base (Video_SetCursorPos x y t) = base t"
  "base (Video_MoveCharacter newX newY oldX oldY t) = base t"
  "base (SetTextForegroundRgb rgb t) = base t" "base (SetTextBackgroundRgb rgb t) = base t"
  "base (SetTextForeground contains a t) = base t" "base (SetTextBackground contains a t) = base t"
  by (simp_all add: Video_RestoreState_def Video_SetCursorPos_def Video_MoveCharacter_def base_EnqueueChar SetTextForegroundRgb_def
      SetTextBackgroundRgb_def SetTextForeground_def SetTextBackground_def) (simp add: Video_SaveState_def Terminal.defs)

lemma video_more:
  fixes t u :: VideoTerminal
  assumes "Terminal.more t = Terminal.more u"
  shows "m_CurrentState t = m_CurrentState u" "m_Queue t = m_Queue u" "m_Map t = m_Map u" "m_Grid t = m_Grid u"
    "m_Display t = m_Display u" "m_OldCursorX t = m_OldCursorX u" "m_OldCursorY t = m_OldCursorY u"
  using assms by (cases t; cases u; simp)+

lemma Reset_inv:
  assumes "video_inv t"
  shows "video_inv (Terminal_Reset t)"
proof -
  have dims: "cols (Terminal_Reset t) = cols t" "rows (Terminal_Reset t) = rows t"
    by (simp_all only: cols_def rows_def Terminal_Reset_def) simp_all
  have "window_ok t" using assms by (simp add: video_inv_def video_ok_def)
  then have "margins_ok (Terminal_Reset t)"
    unfolding margins_ok_def dims by (simp add: Terminal_Reset_def window_ok_def)
  moreover have "video_ok (Terminal_Reset t) = video_ok t" by (rule video_ok_cong) (simp_all add: dims, simp_all add: Terminal_Reset_def)
  moreover have "display_ok (Terminal_Reset t) = display_ok t"
    using cell_cong [OF dims(1)] by (simp add: display_ok_def dims) (simp add: Terminal_Reset_def)
  ultimately show ?thesis using assms by (simp add: video_inv_def)
qed

lemma video_device:
  assumes "\<forall>c. isDigit c \<longleftrightarrow> 0x30 \<le> c \<and> c \<le> 0x39"
  shows "terminal_invariant (video_ops contains isDigit format tty) video_inv"
proof
  fix t u :: VideoTerminal
  assume e: "Terminal.more t = Terminal.more u" "m_Size t = m_Size u"
  then show "op_GetCursorPos (video_ops contains isDigit format tty) t = op_GetCursorPos (video_ops contains isDigit format tty) u"
    by (simp add: video_ops_def Video_GetCursorPos_def video_more [OF e(1)] cols_def rows_def cong: if_cong)
  assume "m_ScrollTopMargin t = m_ScrollTopMargin u" "m_ScrollBottomMargin t = m_ScrollBottomMargin u"
  with e show "video_inv t = video_inv u" by (intro video_inv_cong) (simp_all add: video_more [OF e(1)] cols_def rows_def)
qed (use assms in \<open>auto simp: video_ops_def base_screen_loops base_RawPutChar base_Flush base_state_ops Reset_inv Clear_inv RawPutChar_inv
    MoveCharacter_inv ScrollDown_inv ScrollUp_inv Flush_inv SetCursorPos_inv Save_Restore_inv SetText_inv
    Video_GetCursorPos_def Video_SetCursorPos_def clamp_coordinate_def\<close>)

section \<open>Properties\<close>

text \<open>The libraries' functions, for concrete runs.\<close>

definition ascii_digit :: "u8 \<Rightarrow> bool" where
  "ascii_digit c \<longleftrightarrow> 0x30 \<le> c \<and> c \<le> 0x39"

definition position_report :: "usize \<Rightarrow> usize \<Rightarrow> u8 list" where
  "position_report x y = [0x1b, 0x5b] @ decimal (unat x) @ [0x3b] @ decimal (unat y)"

interpretation video: terminal_invariant
  "video_ops (\<lambda>a. a \<in> set AnsiColor_values) ascii_digit position_report True" video_inv
  by (rule video_device) (simp add: ascii_digit_def)

lemma plot_fold:
  assumes "window_ok t" "length (m_Display t) = cells t" "n \<le> cells t"
  defines "u \<equiv> fold (\<lambda>i t. PlotChar (m_Grid t ! i) (of_nat (i mod unat (cols t))) (of_nat (i div unat (cols t))) t) [0 ..< n] t"
  shows "u = t\<lparr>m_Display := map (\<lambda>i. if i < n then m_Grid t ! i else m_Display t ! i) [0 ..< cells t]\<rparr>"
  using assms(3) unfolding u_def
proof (induction n)
  case 0
  show ?case using assms(2) by (simp add: map_nth [of "m_Display t", unfolded assms(2)])
next
  case (Suc n)
  let ?d = "\<lambda>n. map (\<lambda>i. if i < n then m_Grid t ! i else m_Display t ! i) [0 ..< cells t]"
  have n: "n < cells t" using Suc.prems by simp
  have "(?d n)[n := m_Grid t ! n] = ?d (Suc n)"
    using n by (intro nth_equalityI) (auto simp: nth_list_update)
  then show ?case
    using Suc place_of_cell [OF assms(1) n] by (simp add: PlotChar_def VerifyBounds_def)
qed

text \<open>An object in zeroed memory, and a terminal on a window of the given size.\<close>

definition zero_state :: ConsoleState where
  "zero_state = \<lparr>CursorX = 0, CursorY = 0, TextForeground = Color_of 0, TextBackground = Color_of 0, Bold = 0, BackgroundBold = 0,
     ReverseVideo = 0, Charset = 0, Primary = 0, ConsoleBackground = Color_of 0\<rparr>"

definition zeroed :: VideoTerminal where
  "zeroed = \<lparr>m_Initialized = False, m_Size = \<lparr>ws_row = 0, ws_col = 0, ws_xpixel = 0, ws_ypixel = 0\<rparr>, m_ScrollBottomMargin = 0,
     m_ScrollTopMargin = 0, m_State = eNormal, m_EscapeValues = replicate 16 0, m_EscapeValueCount = 0, m_TabSize = 8,
     m_DecPrivate = False, m_CursorKeyMode = False, tty_Sent = [], m_CurrentState = zero_state, m_SavedState = zero_state,
     m_OldCursorX = 0, m_OldCursorY = 0, m_Queue = [], m_Map = [], m_Grid = [], m_Display = []\<rparr>"

definition demo_video :: "u16 \<Rightarrow> u16 \<Rightarrow> VideoTerminal" where
  "demo_video r c = Video_Initialize (\<lambda>a. a \<in> set AnsiColor_values) \<lparr>ws_row = r, ws_col = c, ws_xpixel = 0, ws_ypixel = 0\<rparr> zeroed"

abbreviation demo_ops :: "VideoTerminal terminal_ops" where
  "demo_ops \<equiv> video_ops (\<lambda>a. a \<in> set AnsiColor_values) ascii_digit position_report True"

definition glyphs :: "VideoTerminal \<Rightarrow> u32 list" where
  "glyphs t = map (\<lambda>i. CodePoint (char_at t i)) [0 ..< unat (rows t) * unat (cols t)]"

lemma Initialize_fields:
  assumes "\<not> m_Initialized t" "0 < ws_row window" "0 < ws_col window"
    "CursorX (m_CurrentState t) = 0" "CursorY (m_CurrentState t) = 0" "m_OldCursorX t = 0" "m_OldCursorY t = 0"
    and u: "u = Video_Initialize contains window t"
    and c: "c = \<lparr>CodePoint = 0x20, Foreground = DEFAULT_TEXT_FOREGROUND, Background = DEFAULT_TEXT_BACKGROUND\<rparr>"
  shows "cols u = ucast (ws_col window) \<and> rows u = ucast (ws_row window) \<and> m_Queue u = [] \<and> m_Map u = replicate (cells u) None \<and>
    m_Grid u = replicate (cells u) c \<and> m_Display u = (replicate (cells u) c)[0 := swapped c] \<and> window_ok u \<and>
    m_OldCursorX u = 0 \<and> m_OldCursorY u = 0 \<and> margins_ok u \<and> m_Initialized u \<and>
    m_EscapeValues u = m_EscapeValues t \<and> m_State u = m_State t \<and> m_CurrentState u =
      (m_CurrentState t)\<lparr>TextForeground := DEFAULT_TEXT_FOREGROUND, TextBackground := DEFAULT_TEXT_BACKGROUND\<rparr>"
proof -
  define n where "n = unat (ws_row window) * unat (ws_col window)"
  define b where "b = t\<lparr>m_CurrentState := (m_CurrentState t)\<lparr>TextForeground := DEFAULT_TEXT_FOREGROUND, TextBackground := DEFAULT_TEXT_BACKGROUND\<rparr>,
      m_Size := window, m_Grid := replicate n c, m_Queue := [], m_Map := replicate n None, m_Display := replicate n c\<rparr>"
  define a where "a = Terminal_Reset b"
  have up: "unat (ucast w :: u64) = unat w" for w :: u16
    using unsigned_less [of w, where 'a = nat] by (simp add: unsigned_ucast_eq take_bit_nat_eq_self)
  have dims: "cols a = ucast (ws_col window)" "rows a = ucast (ws_row window)"
    by (simp_all only: a_def b_def cols_def rows_def Terminal_Reset_def) simp_all
  have n: "cells a = n" by (simp add: dims up n_def)
  have win: "window_ok a"
    using assms(2,3) up [of "ws_row window"] up [of "ws_col window"] by (simp add: window_ok_def dims word_less_nat_alt)
  have pos: "0 < n" using assms(2,3) by (simp add: n_def word_less_nat_alt)
  have fa: "m_Grid a = replicate n c" "m_Map a = replicate n None" "m_Queue a = []" "m_Display a = replicate n c"
    "m_CurrentState a = (m_CurrentState t)\<lparr>TextForeground := DEFAULT_TEXT_FOREGROUND, TextBackground := DEFAULT_TEXT_BACKGROUND\<rparr>"
    "m_OldCursorX a = 0" "m_OldCursorY a = 0" "m_EscapeValues a = m_EscapeValues t" "m_State a = m_State t"
    using assms(6,7) by (simp_all add: a_def Terminal_Reset_def b_def)
  have "map (\<lambda>i. if i < n then m_Grid a ! i else m_Display a ! i) [0 ..< cells a] = replicate n c"
    by (intro nth_equalityI) (simp_all add: n fa)
  then have plots: "fold (\<lambda>i t. PlotChar (m_Grid t ! i) (of_nat (i mod unat (cols t))) (of_nat (i div unat (cols t))) t) [0 ..< cells a] a = a"
    using plot_fold [OF win, of n] n fa(4) by simp
  have blank: "blank (b\<lparr>m_Grid := g, m_Queue := q, m_Map := m, m_Display := d\<rparr>) = c" for g q m d by (simp add: blank_def b_def c)
  have "Video_Initialize contains window t = (Video_Refresh a)\<lparr>m_Initialized := True\<rparr>"
    using assms(1)
    by (simp add: Video_Initialize_def SetTextForeground_def SetTextBackground_def SetTextForegroundRgb_def SetTextBackgroundRgb_def
        eDefault_def Let_def a_def b_def n_def c blank_def cols_def rows_def up)
  then have e: "u = (DrawCursor a)\<lparr>m_Initialized := True\<rparr>" by (simp only: u Video_Refresh_def plots)
  have cur: "cell a 0 0 = 0" by (simp add: cell_def)
  have draw: "DrawCursor a = a\<lparr>m_Display := (m_Display a)[0 := swapped c]\<rparr>"
    using assms(4,5) win pos cur
    by (simp add: DrawCursor_def fa VerifyBounds_def PlotChar_def char_at_def window_ok_def Let_def)
  have d: "cols u = cols a" "rows u = rows a" by (simp_all only: e draw cols_def rows_def) simp_all
  moreover have "margins_ok a" using win by (simp add: margins_ok_def dims window_ok_def) (simp add: a_def b_def Terminal_Reset_def rows_def)
  moreover have "margins_ok u = margins_ok a" "window_ok u = window_ok a"
    by (simp_all add: margins_ok_def window_ok_def d) (simp add: e draw)
  ultimately show ?thesis using win fa n by (simp add: dims) (simp add: e draw fa)
qed

lemma Initialize_inv:
  assumes "\<not> m_Initialized t" "0 < ws_row window" "0 < ws_col window"
    "CursorX (m_CurrentState t) = 0" "CursorY (m_CurrentState t) = 0" "m_OldCursorX t = 0" "m_OldCursorY t = 0"
  shows "video_inv (Video_Initialize contains window t)"
proof -
  define u where "u = Video_Initialize contains window t"
  define c where "c = \<lparr>CodePoint = 0x20, Foreground = DEFAULT_TEXT_FOREGROUND, Background = DEFAULT_TEXT_BACKGROUND\<rparr>"
  note f = Initialize_fields [OF assms u_def c_def]
  have "video_ok u" using f by (simp add: video_ok_def queued_at_def)
  moreover have "display_ok u"
    unfolding display_ok_def
  proof (intro allI impI)
    fix i assume "i < cells u"
    then show "m_Display u ! i = m_Grid u ! i \<or>
      (m_OldCursorX u < cols u \<and> m_OldCursorY u < rows u \<and> i = cell u (m_OldCursorX u) (m_OldCursorY u))"
      using f by (cases i) (auto simp: cell_def window_ok_def)
  qed
  ultimately show ?thesis using f by (simp add: video_inv_def u_def)
qed

lemma demo_video_inv:
  assumes "0 < r" "0 < c"
  shows "video_inv (demo_video r c)" "m_Initialized (demo_video r c)" "m_State (demo_video r c) = eNormal"
    "values_ok 0 (demo_video r c)" "cols (demo_video r c) = ucast c" "rows (demo_video r c) = ucast r"
  using Initialize_inv [of zeroed] Initialize_fields [of zeroed, OF _ _ _ _ _ _ _ refl refl] assms
  by (simp_all add: demo_video_def zeroed_def zero_state_def values_ok_def in_csi_def MAX_ESC_PARAMETER_COUNT_def)



text \<open>
  The bound is sharp: a sequence with a seventeenth parameter writes past the end of \<^verbatim>\<open>m_EscapeValues\<close>.  The test for
  sixteen parameters lets the digits of the last one change the state, and its separator then counts it.
\<close>

definition many_parameters :: "nat \<Rightarrow> u8 list" where
  "many_parameters n = [0x1b, 0x5b] @ concat (replicate n [0x31, 0x3b]) @ [0x31]"

theorem seventeenth_parameter_out_of_bounds:
  "separators (many_parameters 17) = 17 \<and> PrintString demo_ops (many_parameters 17) (demo_video 1 1) = None"
  by code_simp

text \<open>The character a byte becomes on the screen.\<close>

definition glyph_of :: "VideoTerminal \<Rightarrow> u8 \<Rightarrow> Character" where
  "glyph_of t c = (blank t)\<lparr>CodePoint := ucast c\<rparr>"

lemma RawPutChar_inside:
  assumes "shows_screen t s" "CursorX (m_CurrentState t) < cols t" "CursorY (m_CurrentState t) < rows t"
  shows "shows_screen (Video_RawPutChar c t) (s(cell t (CursorX (m_CurrentState t)) (CursorY (m_CurrentState t)) := glyph_of t c))"
    "m_CurrentState (Video_RawPutChar c t) = (m_CurrentState t)\<lparr>CursorX := CursorX (m_CurrentState t) + 1\<rparr>"
    "base (Video_RawPutChar c t) = base t"
proof -
  let ?x = "CursorX (m_CurrentState t)" and ?y = "CursorY (m_CurrentState t)"
  let ?t = "t\<lparr>m_CurrentState := (m_CurrentState t)\<lparr>CursorX := ?x + 1\<rparr>\<rparr>"
  have e: "Video_RawPutChar c t = EnqueueChar (glyph_of t c) ?x ?y ?t"
    using assms(2) by (simp add: Video_RawPutChar_def Let_def glyph_of_def blank_def)
  show "shows_screen (Video_RawPutChar c t) (s(cell t ?x ?y := glyph_of t c))"
    using EnqueueChar_shows [of ?t s ?x ?y "glyph_of t c"] assms by (simp add: e)
  show "m_CurrentState (Video_RawPutChar c t) = (m_CurrentState t)\<lparr>CursorX := ?x + 1\<rparr>"
    using same_stateD(6) [OF EnqueueChar_same_state, of "glyph_of t c" ?x ?y ?t] by (simp add: e)
  show "base (Video_RawPutChar c t) = base t" by (rule base_RawPutChar)
qed

definition printable :: "u8 \<Rightarrow> bool" where
  "printable c \<longleftrightarrow> 0x20 \<le> c \<and> c \<le> 0x7e"

lemma PutChar_printable:
  assumes "printable c" "m_Initialized t" "m_State t = eNormal"
  shows "PutCharImpl (video_ops contains isDigit format tty) (scast c) t = Some (Video_RawPutChar c t)"
proof -
  have lt: "uint c < 128" using assms(1) by (simp add: printable_def word_le_def)
  then have "sint c = uint c" 
    using order_trans [of "- 128" 0 "uint c"] signed_take_bit_int_eq_self [of 7 "uint c"] by (simp add: sint_uint)
  then have "(scast c :: u64) = word_of_int (uint c)" by (metis word_of_int_uint of_int_sint scast_eq)
  then have "uint (scast c :: u64) = uint c mod 2 ^ 64" by (simp only: uint_word_of_int len_bit0 len_num1) simp
  then have "uint (scast c :: u64) = uint c" using lt by (simp add: mod_pos_pos_trivial)
  then have "unat (scast c :: u64) = unat c" by (simp only: unat_eq_nat_uint)
  then have k: "0x20 \<le> (scast c :: u64)" "(scast c :: u64) \<le> 0x7e"
    using assms(1) by (simp_all add: printable_def word_le_nat_alt)
  then have "(scast c :: u64) \<noteq> 0" "(scast c :: u64) \<noteq> 7" "(scast c :: u64) \<noteq> 8" by auto
  with k show ?thesis
    using assms(2,3)
    by (auto simp: PutCharImpl_def NormalChar_def video_ops_def ucast_scast_u8 Let_def split: prod.splits)
qed

text \<open>The text of a line, on the screen \<open>s\<close>, from position \<open>i\<close> on.\<close>

definition with_text :: "VideoTerminal \<Rightarrow> (nat \<Rightarrow> Character) \<Rightarrow> nat \<Rightarrow> u8 list \<Rightarrow> nat \<Rightarrow> Character" where
  "with_text t s i cs j = (if i \<le> j \<and> j < i + length cs then glyph_of t (cs ! (j - i)) else s j)"

lemma PutChars_text:
  assumes "shows_screen t s" "m_Initialized t" "m_State t = eNormal" "\<forall>c \<in> set cs. printable c"
    "unat (CursorX (m_CurrentState t)) + length cs \<le> unat (cols t)" "CursorY (m_CurrentState t) < rows t" "video_inv t"
  shows "\<exists>u. PutChars (video_ops contains isDigit format tty) cs t = Some u \<and> base u = base t \<and> video_inv u \<and>
    shows_screen u (with_text t s (cell t (CursorX (m_CurrentState t)) (CursorY (m_CurrentState t))) cs) \<and>
    m_CurrentState u = (m_CurrentState t)\<lparr>CursorX := CursorX (m_CurrentState t) + of_nat (length cs)\<rparr>"
  using assms
proof (induction cs arbitrary: t s)
  case Nil
  have "with_text t s i [] = s" for i by (auto simp: with_text_def fun_eq_iff)
  then show ?case using Nil by simp
next
  case (Cons c cs)
  let ?x = "CursorX (m_CurrentState t)" and ?y = "CursorY (m_CurrentState t)"
  have x: "?x < cols t" using Cons.prems(5) by (simp add: word_less_nat_alt)
  define v where "v = Video_RawPutChar c t"
  note v = RawPutChar_inside [OF Cons.prems(1) x Cons.prems(6), of c, folded v_def]
  have vinv: "video_inv v" using Cons.prems(7) by (simp add: v_def RawPutChar_inv)
  note dv = base_eqD [OF v(3)]
  have x1: "unat (?x + 1) = unat ?x + 1"
    using Cons.prems(5) unat_dimensions [of t] unat_add_nowrap [of ?x 1] by simp
  have gl: "glyph_of v = glyph_of t" by (simp add: glyph_of_def blank_def v fun_eq_iff)
  have "\<exists>u. PutChars (video_ops contains isDigit format tty) cs v = Some u \<and> base u = base v \<and> video_inv u \<and>
    shows_screen u (with_text v (s(cell t ?x ?y := glyph_of t c)) (cell v (CursorX (m_CurrentState v)) (CursorY (m_CurrentState v))) cs) \<and>
    m_CurrentState u = (m_CurrentState v)\<lparr>CursorX := CursorX (m_CurrentState v) + of_nat (length cs)\<rparr>"
    using Cons.prems by (intro Cons.IH [OF v(1)]) (simp_all add: v(2) dv x1 vinv)
  moreover have "cell v (?x + 1) ?y = Suc (cell t ?x ?y)" using x1 by (simp add: cell_def dv)
  moreover have "with_text v (s(cell t ?x ?y := glyph_of t c)) (Suc (cell t ?x ?y)) cs = with_text t s (cell t ?x ?y) (c # cs)"
    by (auto simp: with_text_def gl fun_eq_iff nth_Cons')
  moreover have "PutCharImpl (video_ops contains isDigit format tty) (scast c) t = Some v"
    using PutChar_printable [of c t] Cons.prems by (simp add: v_def)
  ultimately show ?case by (auto simp: v add.assoc add.commute)
qed

text \<open>
  Claim C29. Text appears as printed: printable characters that fit on the line become the characters of the cells from the cursor on,
  in the current colours; every other cell keeps its character, and the cursor stands behind the text.
\<close>

theorem printed_text_appears:
  assumes "video_inv t" "m_Initialized t" "m_State t = eNormal" "\<forall>c \<in> set cs. printable c"
    "unat (CursorX (m_CurrentState t)) + length cs \<le> unat (cols t)" "CursorY (m_CurrentState t) < rows t"
  shows "\<exists>u. PrintString (video_ops contains isDigit format tty) cs t = Some (length cs, u) \<and>
    (\<forall>j < cells t. m_Grid u ! j =
       with_text t (char_at t) (cell t (CursorX (m_CurrentState t)) (CursorY (m_CurrentState t))) cs j) \<and>
    m_CurrentState u = (m_CurrentState t)\<lparr>CursorX := CursorX (m_CurrentState t) + of_nat (length cs)\<rparr>"
proof -
  from assms(1) have sc: "shows_screen t (char_at t)" by (simp add: inv_shows)
  from PutChars_text [OF sc assms(2-6) assms(1), of contains isDigit format tty] obtain v where
    v: "PutChars (video_ops contains isDigit format tty) cs t = Some v" "base v = base t" "video_inv v"
      "shows_screen v (with_text t (char_at t) (cell t (CursorX (m_CurrentState t)) (CursorY (m_CurrentState t))) cs)"
      "m_CurrentState v = (m_CurrentState t)\<lparr>CursorX := CursorX (m_CurrentState t) + of_nat (length cs)\<rparr>" by blast
  have fl: "base (Video_Flush v) = base v \<and> m_CurrentState (Video_Flush v) = m_CurrentState v \<and>
    (\<forall>i < cells v. m_Grid (Video_Flush v) ! i = char_at v i)"
    using Flush_effect [of v] v(3) by (simp add: video_inv_def)
  then show ?thesis
    using v assms(2) base_eqD [OF v(2)] by (intro exI [of _ "Video_Flush v"]) (simp add: PrintString_def video_ops_def shows_screen_def)
qed

theorem printed_text_appears_witness:
  "\<exists>u. PrintString demo_ops [0x48, 0x69] (demo_video 2 3) = Some (2, u) \<and> CursorX (m_CurrentState u) = 2"
proof -
  have d: "CursorX (m_CurrentState (demo_video 2 3)) = 0" "CursorY (m_CurrentState (demo_video 2 3)) = 0" by code_simp+
  have "\<forall>c \<in> set [0x48, 0x69 :: u8]. printable c" by (simp add: printable_def)
  from printed_text_appears [OF demo_video_inv(1-3) [of 2 3] this, where contains = "\<lambda>a. a \<in> set AnsiColor_values" and
      isDigit = ascii_digit and format = position_report and tty = True]
  have "\<exists>u. PrintString demo_ops [0x48, 0x69] (demo_video 2 3) = Some (length [0x48, 0x69 :: u8], u) \<and>
      m_CurrentState u = (m_CurrentState (demo_video 2 3))\<lparr>CursorX := 0 + of_nat (length [0x48, 0x69 :: u8])\<rparr>"
    unfolding d demo_video_inv(5,6) [of 2 3, simplified] by auto
  then show ?thesis by (auto simp: numeral_2_eq_2)
qed

text \<open>
  A line feed on the last line scrolls: every row moves up by one, the last one becomes blank, and the cursor goes to the
  start of it.  The screen is read through the queue, so this holds before and after the picture is drawn.
\<close>

theorem line_feed_scrolls:
  assumes "video_inv t" "m_Initialized t" "m_State t = eNormal"
    "m_ScrollTopMargin t = 0" "m_ScrollBottomMargin t = rows t" "CursorY (m_CurrentState t) = rows t - 1"
  shows "\<exists>u. PutCharImpl (video_ops contains isDigit format tty) 0x0a t = Some u \<and> video_inv u \<and> Video_GetCursorPos u = (0, rows t - 1) \<and>
    (\<forall>j < cells t. char_at u j = (if j + unat (cols t) < cells t then char_at t (j + unat (cols t)) else blank t))"
proof -
  have win: "window_ok t" using assms(1) by (simp add: video_inv_def video_ok_def)
  then have "rows t \<noteq> 0" "0 < unat (rows t)" by (auto simp: window_ok_def word_less_nat_alt)
  then have last_row: "rows t - 1 < rows t" using unat_minus_one [of "rows t"] by (simp add: word_less_nat_alt)
  define v where "v = Video_ScrollDown t"
  have v: "shows_screen v (scrolled_down (unat (cols t)) 0 (unat (rows t)) (blank t) (char_at t))" "same_state v t"
    using ScrollDown_shows [of t "char_at t"] inv_shows [OF assms(1)] assms(4,5) by (simp_all add: v_def)
  note dv = same_stateD [OF v(2)]
  define u where "u = Video_SetCursorPos 0 (rows t - 1) v"
  have pos: "snd (Video_GetCursorPos t) = rows t - 1" using last_row by (simp add: Video_GetCursorPos_def assms(6) Let_def)
  have "PutCharImpl (video_ops contains isDigit format tty) 0x0a t = Some u"
    using assms(2,3,5) pos by (auto simp: PutCharImpl_def NormalChar_def video_ops_def u_def v_def Let_def split: prod.splits)
  moreover have "video_inv u" using assms(1) by (simp add: u_def v_def SetCursorPos_inv ScrollDown_inv)
  moreover have "Video_GetCursorPos u = (0, rows t - 1)"
    using last_row win by (auto simp: u_def Video_SetCursorPos_def Video_GetCursorPos_def clamp_coordinate_def dv window_ok_def Let_def)
  moreover have "char_at u j = (if j + unat (cols t) < cells t then char_at t (j + unat (cols t)) else blank t)" if j: "j < cells t" for j
  proof -
    obtain r where r: "unat (rows t) = Suc r" using win by (cases "unat (rows t)") (auto simp: window_ok_def word_less_nat_alt)
    have "char_at u j = scrolled_down (unat (cols t)) 0 (unat (rows t)) (blank t) (char_at t) j"
      using v(1) j by (simp add: u_def Video_SetCursorPos_def shows_screen_def dv)
    then show ?thesis using j by (auto simp: scrolled_down_def r)
  qed
  ultimately show ?thesis by blast
qed

theorem line_feed_scrolls_witness:
  "\<exists>u. PutCharImpl demo_ops 0x0a (demo_video 1 3) = Some u \<and> Video_GetCursorPos u = (0, 0)"
proof -
  have d: "m_ScrollTopMargin (demo_video 1 3) = 0" "m_ScrollBottomMargin (demo_video 1 3) = 1" "CursorY (m_CurrentState (demo_video 1 3)) = 0"
    by code_simp+
  then show ?thesis
    using line_feed_scrolls [OF demo_video_inv(1-3) [of 1 3], where contains = "\<lambda>a. a \<in> set AnsiColor_values" and
      isDigit = ascii_digit and format = position_report and tty = True] demo_video_inv(5,6) [of 1 3] by auto
qed

text \<open>
  Claim C30. The sequence \<^verbatim>\<open>ESC [ row ; column H\<close> with decimal numbers inside the window puts the cursor at that place, counted
  from one, whatever the numbers of digits, and leaves the parser in its normal state.
\<close>

theorem cursor_sequence_places_cursor:
  assumes "\<forall>c. isDigit c \<longleftrightarrow> 0x30 \<le> c \<and> c \<le> 0x39" "m_Initialized t" "m_State t = eNormal"
    "1 \<le> r" "r \<le> unat (rows t)" "1 \<le> c" "c \<le> unat (cols t)"
  shows "\<exists>u. PutChars (video_ops contains isDigit format tty) (cursor_sequence r c) t = Some u \<and>
    Video_GetCursorPos u = (of_nat (c - 1), of_nat (r - 1)) \<and> m_State u = eNormal"
proof -
  note dev = terminal_invariant.axioms(1) [OF video_device [OF assms(1), of contains format tty]]
  show ?thesis
    by (rule terminal_device.cursor_sequence_run [OF dev assms(2-7)]) (auto simp: video_ops_def)
qed

theorem cursor_sequence_places_cursor_witness:
  "\<exists>u. PutChars demo_ops (cursor_sequence 10 12) (demo_video 20 40) = Some u \<and> Video_GetCursorPos u = (11, 9)"
proof -
  have "\<forall>c. ascii_digit c \<longleftrightarrow> 0x30 \<le> c \<and> c \<le> 0x39" by (simp add: ascii_digit_def)
  from cursor_sequence_places_cursor [OF this demo_video_inv(2,3) [of 20 40], of 10 12 "\<lambda>a. a \<in> set AnsiColor_values" position_report True]
  show ?thesis using demo_video_inv(5,6) [of 20 40] by auto
qed

section \<open>Deviations\<close>

text \<open>
  \<^verbatim>\<open>CHA\<close> and \<^verbatim>\<open>VPA\<close> subtract one before they test the parameter: without a parameter, which means column or row 1, the
  cursor goes to the last column or row.
\<close>

theorem missing_column_goes_to_last:
  "map_option Video_GetCursorPos (PutChars demo_ops [0x1b, 0x5b, 0x47] (demo_video 2 3)) = Some (2, 0)"
  "map_option Video_GetCursorPos (PutChars demo_ops [0x1b, 0x5b, 0x64] (demo_video 2 3)) = Some (0, 1)"
  by code_simp+

text \<open>
  \<^verbatim>\<open>RawPutChar\<close> compares the row of the cursor with the number of columns after a line wrap: in a window with three rows and one
  column, the text that follows a wrap on the second row overwrites the first one.
\<close>

theorem wrap_in_narrow_window_jumps_up:
  "map_option glyphs (PutChars demo_ops [0x41, 0x42] (demo_video 3 1)) = Some [0x42, 0x20, 0x20]"
  by code_simp

text \<open>
  \<^verbatim>\<open>ESC D\<close> moves the cursor down only on the last line, where it scrolls as well; elsewhere it stays, though the sequence is a line
  feed.
\<close>

theorem index_does_not_move:
  "map_option Video_GetCursorPos (PutChars demo_ops [0x1b, 0x44] (demo_video 2 3)) = Some (0, 0)"
  by code_simp

text \<open>The report of the cursor's position does not end in \<^verbatim>\<open>R\<close>, and names the column first, counted from 0.\<close>

theorem position_report_unterminated:
  "map_option tty_Sent (PutChars demo_ops [0x41, 0x41, 0x1b, 0x5b, 0x36, 0x6e] (demo_video 2 3)) =
     Some [[0x1b, 0x5b, 0x32, 0x3b, 0x30]]"
  by code_simp

end
