(* ===== verification/TTY_Line.thy ===== *)
theory TTY_Line
  imports Terminal_Emulator
begin

text \<open>
  The line discipline: \<^verbatim>\<open>Drivers/TTY.hpp\<close> and \<^verbatim>\<open>Drivers/TTY.cpp\<close>, with the settings of \<^verbatim>\<open>API/Posix/termios.h\<close>.  Keys come in
  through \<^verbatim>\<open>SendBuffer\<close>, are edited into lines in canonical mode, echoed to the terminal, and read by programs.  What the TTY
  does to the terminal, to the log and to processes is recorded in order in a list of effects.  A character is the byte of the
  source's signed \<^verbatim>\<open>char\<close>.
\<close>

section \<open>Settings\<close>

record termios2 =
  c_iflag :: u32
  c_oflag :: u32
  c_cflag :: u32
  c_lflag :: u32
  c_line :: u8
  c_cc :: "u8 list"
  c_ispeed :: u32
  c_ospeed :: u32

definition VINTR :: nat where "VINTR = 0"

definition VQUIT :: nat where "VQUIT = 1"

definition VERASE :: nat where "VERASE = 2"

definition VKILL :: nat where "VKILL = 3"

definition VEOF :: nat where "VEOF = 4"

definition VSUSP :: nat where "VSUSP = 10"

definition VEOL :: nat where "VEOL = 11"

definition VWERASE :: nat where "VWERASE = 14"

definition ISTRIP :: u32 where "ISTRIP = 0x40"

definition INLCR :: u32 where "INLCR = 0x100"

definition IGNCR :: u32 where "IGNCR = 0x200"

definition ICRNL :: u32 where "ICRNL = 0x400"

definition IXON :: u32 where "IXON = 0x2000"

definition OPOST :: u32 where "OPOST = 0x1"

definition ONLCR :: u32 where "ONLCR = 0x4"

definition ONOCR :: u32 where "ONOCR = 0x20"

definition ONLRET :: u32 where "ONLRET = 0x20"

definition B38400 :: u32 where "B38400 = 0x17"

definition CS8 :: u32 where "CS8 = 0x60"

definition CREAD :: u32 where "CREAD = 0x200"

definition HUPCL :: u32 where "HUPCL = 0x2000"

definition ISIG :: u32 where "ISIG = 0x1"

definition ICANON :: u32 where "ICANON = 0x2"

definition ECHO :: u32 where "ECHO = 0x10"

definition ECHOE :: u32 where "ECHOE = 0x20"

definition ECHOK :: u32 where "ECHOK = 0x40"

definition ECHONL :: u32 where "ECHONL = 0x100"

definition NOFLSH :: u32 where "NOFLSH = 0x200"

text \<open>Octal in the source: \<^verbatim>\<open>0001000\<close> and \<^verbatim>\<open>0004000\<close>.\<close>

definition ECHOCTL :: u32 where "ECHOCTL = 0x200"

definition ECHOKE :: u32 where "ECHOKE = 0x800"

definition IEXTEN :: u32 where "IEXTEN = 0x100000"

lemmas termios_defs = VINTR_def VQUIT_def VERASE_def VKILL_def VEOF_def VSUSP_def VEOL_def VWERASE_def ISTRIP_def INLCR_def IGNCR_def
  ICRNL_def IXON_def OPOST_def ONLCR_def ONOCR_def ONLRET_def B38400_def CS8_def CREAD_def HUPCL_def ISIG_def ICANON_def ECHO_def
  ECHOE_def ECHOK_def ECHONL_def NOFLSH_def ECHOCTL_def ECHOKE_def IEXTEN_def

definition TTYDEF_IFLAG :: u32 where "TTYDEF_IFLAG = ICRNL OR IXON"

definition TTYDEF_OFLAG :: u32 where "TTYDEF_OFLAG = OPOST OR ONLCR"

definition TTYDEF_LFLAG :: u32 where
  "TTYDEF_LFLAG = ISIG OR ICANON OR ECHO OR ECHOE OR ECHOK OR ECHOCTL OR ECHOKE OR IEXTEN"

definition TTYDEF_CFLAG :: u32 where "TTYDEF_CFLAG = B38400 OR CS8 OR CREAD OR HUPCL"

definition TTYDEF_SPEED :: u32 where "TTYDEF_SPEED = 38400"

definition CTRL :: "u8 \<Rightarrow> u8" where "CTRL c = c AND 0x1f"

text \<open>
  The control characters the constructor stores, by their index: interrupt, quit, erase, kill, end of file, time, minimum, switch,
  start, stop, suspend, end of line, reprint, discard, word erase, literal next and the second end of line.
\<close>

definition default_cc :: "u8 list" where
  "default_cc = [CTRL 0x43, 0x1c, 0x7f, CTRL 0x55, CTRL 0x44, 0, 1, 0, CTRL 0x51, CTRL 0x53, CTRL 0x5a, 0, CTRL 0x52, CTRL 0x4f,
     CTRL 0x57, CTRL 0x56, 0] @ replicate 15 0"

definition default_termios :: termios2 where
  "default_termios = \<lparr>c_iflag = TTYDEF_IFLAG, c_oflag = TTYDEF_OFLAG, c_cflag = TTYDEF_CFLAG, c_lflag = TTYDEF_LFLAG, c_line = 0,
     c_cc = default_cc, c_ispeed = TTYDEF_SPEED, c_ospeed = TTYDEF_SPEED\<rparr>"

definition flag_set :: "u32 \<Rightarrow> u32 \<Rightarrow> bool" where
  "flag_set flags f \<longleftrightarrow> flags AND f \<noteq> 0"

section \<open>Prism: the circular queue\<close>

text \<open>
  \<^verbatim>\<open>CircularQueue<u8, 4096>\<close> of Prism is an operation record.  The code relies on these laws: \<^verbatim>\<open>Push\<close> adds a byte while there is
  room, \<^verbatim>\<open>Pop\<close> takes the oldest one, \<^verbatim>\<open>PopFront\<close> takes the newest one back, which \<^verbatim>\<open>Back\<close> reads.  Nothing is assumed of a full
  queue, or of taking from an empty one.
\<close>

definition RAW_CAPACITY :: nat where "RAW_CAPACITY = 4096"

record 'q queue_ops =
  cq_empty :: 'q
  cq_Size :: "'q \<Rightarrow> nat"
  cq_Push :: "u8 \<Rightarrow> 'q \<Rightarrow> 'q"
  cq_Pop :: "'q \<Rightarrow> u8 \<times> 'q"
  cq_PopFront :: "'q \<Rightarrow> u8 \<times> 'q"
  cq_Back :: "'q \<Rightarrow> u8"
  cq_Clear :: "'q \<Rightarrow> 'q"

locale prism_queue =
  fixes qo :: "'q queue_ops" and contents :: "'q \<Rightarrow> u8 list"
  assumes contents_empty [simp]: "contents (cq_empty qo) = []"
    and Size_contents [simp]: "cq_Size qo q = length (contents q)"
    and contents_Push: "length (contents q) < RAW_CAPACITY \<Longrightarrow> contents (cq_Push qo c q) = contents q @ [c]"
    and Pop: "contents q = c # cs \<Longrightarrow> fst (cq_Pop qo q) = c \<and> contents (snd (cq_Pop qo q)) = cs"
    and PopFront: "contents q = cs @ [c] \<Longrightarrow> fst (cq_PopFront qo q) = c \<and> contents (snd (cq_PopFront qo q)) = cs"
    and Back: "contents q = cs @ [c] \<Longrightarrow> cq_Back qo q = c"
    and contents_Clear [simp]: "contents (cq_Clear qo q) = []"

definition list_queue :: "u8 list queue_ops" where
  "list_queue = \<lparr>cq_empty = [], cq_Size = length, cq_Push = (\<lambda>c q. q @ [c]), cq_Pop = (\<lambda>q. (hd q, tl q)),
     cq_PopFront = (\<lambda>q. (last q, butlast q)), cq_Back = last, cq_Clear = (\<lambda>q. [])\<rparr>"

interpretation list_queue: prism_queue list_queue "\<lambda>q. q"
  by unfold_locales (simp_all add: list_queue_def)

section \<open>State\<close>

datatype TTY_State = eTTYNormal | eEscapeSequence | eControlSequence | eTTYDecPrivate

text \<open>
  What a TTY does outside itself: a character or a string for its terminal, a line for the log, a signal to a process group or to
  the calling process.
\<close>

datatype effect = PutChar u64 | Print "u8 list" | Log "u8 list" | GroupSignal u32 nat | SignalCurrent nat

text \<open>
  The members of the class.  Of the two events only the number of triggers that no thread has waited for yet is kept, as
  \<^verbatim>\<open>Event::Pending\<close>.
\<close>

record 'q TTY =
  m_Termios :: termios2
  m_ControlSid :: u32
  m_Pgid :: u32
  m_RawBuffer :: 'q
  m_LineQueue :: "u8 list list"
  m_OnAddLine :: nat
  m_RawEvent :: nat
  tty_State :: TTY_State
  effects :: "effect list"

definition TTY_make :: "'q queue_ops \<Rightarrow> 'q TTY" where
  "TTY_make qo = \<lparr>m_Termios = default_termios, m_ControlSid = - 1, m_Pgid = 100, m_RawBuffer = cq_empty qo, m_LineQueue = [],
     m_OnAddLine = 0, m_RawEvent = 0, tty_State = eTTYNormal, effects = []\<rparr>"

definition emit :: "effect \<Rightarrow> 'q TTY \<Rightarrow> 'q TTY" where
  "emit e t = t\<lparr>effects := effects t @ [e]\<rparr>"

definition IsCanonicalMode :: "'q TTY \<Rightarrow> bool" where
  "IsCanonicalMode t = flag_set (c_lflag (m_Termios t)) ICANON"

definition SignalsEnabled :: "'q TTY \<Rightarrow> bool" where
  "SignalsEnabled t = flag_set (c_lflag (m_Termios t)) ISIG"

text \<open>A character of the settings, compared with a signed \<^verbatim>\<open>char\<close>: both are widened to \<^verbatim>\<open>int\<close> first.\<close>

definition is_cc :: "'q TTY \<Rightarrow> u8 \<Rightarrow> nat \<Rightarrow> bool" where
  "is_cc t c i \<longleftrightarrow> sint c = uint (c_cc (m_Termios t) ! i)"

definition IsControl :: "u8 \<Rightarrow> bool" where
  "IsControl c \<longleftrightarrow> sint c < 0x20 \<or> c = 0x7f"

section \<open>Lines and echo\<close>

text \<open>The loop of \<^verbatim>\<open>AddLine\<close>: all bytes, oldest first.\<close>

fun drain :: "'q queue_ops \<Rightarrow> nat \<Rightarrow> 'q \<Rightarrow> u8 list \<times> 'q" where
  "drain qo 0 q = ([], q)"
| "drain qo (Suc n) q = (let (c, q) = cq_Pop qo q; (cs, q) = drain qo n q in (c # cs, q))"

definition AddLine :: "'q queue_ops \<Rightarrow> 'q TTY \<Rightarrow> 'q TTY" where
  "AddLine qo t =
     (let (line, q) = drain qo (cq_Size qo (m_RawBuffer t)) (m_RawBuffer t)
      in t\<lparr>m_LineQueue := m_LineQueue t @ [line], m_RawBuffer := cq_Clear qo q, m_OnAddLine := m_OnAddLine t + 1\<rparr>)"

definition KillLine :: "'q queue_ops \<Rightarrow> 'q TTY \<Rightarrow> 'q TTY" where
  "KillLine qo t = t\<lparr>m_RawBuffer := cq_Clear qo (m_RawBuffer t)\<rparr>"

definition TTY_EnqueueChar :: "'q queue_ops \<Rightarrow> u64 \<Rightarrow> 'q TTY \<Rightarrow> 'q TTY" where
  "TTY_EnqueueChar qo c t = t\<lparr>m_RawBuffer := cq_Push qo (ucast c) (m_RawBuffer t)\<rparr>"

definition FlushInput :: "'q queue_ops \<Rightarrow> 'q TTY \<Rightarrow> 'q TTY" where
  "FlushInput qo t = t\<lparr>m_RawBuffer := cq_Clear qo (m_RawBuffer t)\<rparr>"

definition EchoRaw :: "u64 \<Rightarrow> 'q TTY \<Rightarrow> 'q TTY" where
  "EchoRaw c = emit (PutChar c)"

definition Echo :: "u64 \<Rightarrow> 'q TTY \<Rightarrow> 'q TTY" where
  "Echo c t =
     (if \<not> flag_set (c_oflag (m_Termios t)) OPOST then EchoRaw c t
      else let t = (if c = 0x0a \<and> flag_set (c_oflag (m_Termios t)) ONLCR then EchoRaw 0x0d t else t)
           in if c = 0x0d \<and> flag_set (c_oflag (m_Termios t)) ONLRET then t else EchoRaw c t)"

definition rub_out :: "'q TTY \<Rightarrow> 'q TTY" where
  "rub_out t = EchoRaw 0x08 (EchoRaw 0x20 (EchoRaw 0x08 t))"

definition EraseChar :: "'q queue_ops \<Rightarrow> 'q TTY \<Rightarrow> 'q TTY" where
  "EraseChar qo t =
     (if cq_Size qo (m_RawBuffer t) = 0 then t
      else let (c, q) = cq_PopFront qo (m_RawBuffer t); count = (if IsControl c then 2 else 1);
               t = t\<lparr>m_RawBuffer := q\<rparr>
           in if flag_set (c_lflag (m_Termios t)) (ECHO OR ECHOK) then (rub_out ^^ count) t else t)"

text \<open>The two loops of \<^verbatim>\<open>EraseWord\<close>; each turn takes a byte away, so that as many turns as there are bytes suffice.\<close>

fun erase_while :: "'q queue_ops \<Rightarrow> (u8 \<Rightarrow> bool) \<Rightarrow> nat \<Rightarrow> 'q TTY \<Rightarrow> 'q TTY" where
  "erase_while qo p 0 t = t"
| "erase_while qo p (Suc n) t =
     (if cq_Size qo (m_RawBuffer t) \<noteq> 0 \<and> p (cq_Back qo (m_RawBuffer t)) then erase_while qo p n (EraseChar qo t) else t)"

definition EraseWord :: "'q queue_ops \<Rightarrow> 'q TTY \<Rightarrow> 'q TTY" where
  "EraseWord qo t =
     (let n = cq_Size qo (m_RawBuffer t)
      in erase_while qo (\<lambda>c. c = 0x20) n (erase_while qo (\<lambda>c. c \<noteq> 0x20) n t))"

section \<open>Input\<close>

definition SIGHUP :: nat where "SIGHUP = 1"

definition SIGINT :: nat where "SIGINT = 2"

definition SIGQUIT :: nat where "SIGQUIT = 3"

definition SIGCONT :: nat where "SIGCONT = 18"

definition TTY_SendSignal :: "nat \<Rightarrow> 'q TTY \<Rightarrow> 'q TTY" where
  "TTY_SendSignal signal t = (if m_Pgid t = 0 then t else emit (GroupSignal (m_Pgid t) signal) t)"

text \<open>\<^verbatim>\<open>OnCanonChar\<close>, with whether the character has been dealt with.\<close>

definition OnCanonChar :: "'q queue_ops \<Rightarrow> u8 \<Rightarrow> 'q TTY \<Rightarrow> bool \<times> 'q TTY" where
  "OnCanonChar qo c t =
     (let lflag = c_lflag (m_Termios t)
      in if tty_State t = eEscapeSequence then (True, EchoRaw (scast c) t)
         else if is_cc t c VEOF then (True, AddLine qo t)
         else if is_cc t c VKILL \<and> flag_set lflag ECHOK then (True, KillLine qo t)
         else if (is_cc t c VERASE \<or> c = 0x08) \<and> flag_set lflag ECHOE then (True, EraseChar qo t)
         else if is_cc t c VWERASE \<and> flag_set lflag ECHOE then (True, EraseWord qo t)
         else if c = 0x0a then
           (True, AddLine qo (TTY_EnqueueChar qo (scast c) (if flag_set lflag ECHO \<or> flag_set lflag ECHONL then Echo (scast c) t else t)))
         else if is_cc t c VEOL then (False, AddLine qo t)
         else (False, t))"

text \<open>One character of \<^verbatim>\<open>SendBuffer\<close>: signals, the translation of line ends, and the rest.\<close>

definition signal_of :: "u8 \<Rightarrow> 'q TTY \<Rightarrow> nat option" where
  "signal_of c t =
     (if \<not> SignalsEnabled t then None
      else if is_cc t c VINTR then Some SIGINT
      else if is_cc t c VQUIT then Some SIGQUIT
      else if is_cc t c VSUSP then Some SIGINT
      else None)"

definition translate :: "u8 \<Rightarrow> u32 \<Rightarrow> u8 option" where
  "translate c iflag =
     (if c = 0x0a \<and> flag_set iflag INLCR then Some 0x0d
      else if c = 0x0d then
        if flag_set iflag IGNCR then None else if flag_set iflag ICRNL then Some 0x0a else Some c
      else Some c)"

definition SendChar :: "'q queue_ops \<Rightarrow> u8 \<Rightarrow> 'q TTY \<Rightarrow> 'q TTY" where
  "SendChar qo c t =
     (let iflag = c_iflag (m_Termios t);
          c = (if flag_set iflag ISTRIP then c AND 0x7f else c)
      in case signal_of c t of Some s \<Rightarrow> TTY_SendSignal s t
         | None \<Rightarrow>
           (case translate c iflag of None \<Rightarrow> t
            | Some c \<Rightarrow>
              (let (done, t) = (if IsCanonicalMode t then OnCanonChar qo c t else (False, t))
               in if done then t
                  else let t = TTY_EnqueueChar qo (scast c) t
                       in if flag_set (c_lflag (m_Termios t)) ECHO then Echo (scast c) t else t)))"

text \<open>The source reads the first byte of the buffer even when there is none to send; it is then the zero behind a string literal.\<close>

definition SendBuffer :: "'q queue_ops \<Rightarrow> u8 list \<Rightarrow> 'q TTY \<Rightarrow> 'q TTY" where
  "SendBuffer qo cs t =
     (let t = (if cs \<noteq> [] \<and> hd cs = 0x1b then t\<lparr>tty_State := eEscapeSequence\<rparr> else t);
          t = fold (SendChar qo) cs t
      in t\<lparr>tty_State := eTTYNormal, m_RawEvent := m_RawEvent t + 1\<rparr>)"

section \<open>Reading and writing\<close>

definition SetTermios :: "'q queue_ops \<Rightarrow> termios2 \<Rightarrow> 'q TTY \<Rightarrow> 'q TTY" where
  "SetTermios qo termios t = t\<lparr>m_Termios := termios, m_RawBuffer := cq_Clear qo (m_RawBuffer t)\<rparr>"

text \<open>
  \<^verbatim>\<open>Read\<close>: \<open>None\<close> when the thread blocks on the event.  The bytes are what is stored in the caller's buffer.
\<close>

definition TTY_Read :: "'q queue_ops \<Rightarrow> nat \<Rightarrow> 'q TTY \<Rightarrow> (u8 list \<times> 'q TTY) option" where
  "TTY_Read qo bytes t =
     (if IsCanonicalMode t then
        if m_OnAddLine t = 0 then None
        else let line = hd (m_LineQueue t)
             in Some (take (min bytes (length line)) line, t\<lparr>m_OnAddLine := m_OnAddLine t - 1, m_LineQueue := tl (m_LineQueue t)\<rparr>)
      else if cq_Size qo (m_RawBuffer t) < bytes \<and> m_RawEvent t = 0 then None
      else let t = (if cq_Size qo (m_RawBuffer t) < bytes then t\<lparr>m_RawEvent := m_RawEvent t - 1\<rparr> else t);
               (cs, q) = drain qo (min (cq_Size qo (m_RawBuffer t)) bytes) (m_RawBuffer t)
           in Some (cs, t\<lparr>m_RawBuffer := q\<rparr>))"

definition MLIBC_LOG_SIGNATURE :: "u8 list" where
  "MLIBC_LOG_SIGNATURE = [0x5b, 0x6d, 0x6c, 0x69, 0x62, 0x63, 0x5d, 0x3a, 0x20]"

definition TTY_Write :: "u8 list \<Rightarrow> 'q TTY \<Rightarrow> nat \<times> 'q TTY" where
  "TTY_Write str t =
     (if take (length MLIBC_LOG_SIGNATURE) str = MLIBC_LOG_SIGNATURE
      then (length str, emit (Log (drop (length MLIBC_LOG_SIGNATURE) str)) t)
      else (length str, emit (Print str) t))"

section \<open>Control\<close>

definition IOC :: "u64 \<Rightarrow> u64 \<Rightarrow> u64 \<Rightarrow> u64 \<Rightarrow> u64" where
  "IOC dir type nr size' = push_bit 30 dir OR push_bit 8 type OR nr OR push_bit 16 size'"

text \<open>\<^verbatim>\<open>sizeof(termios2)\<close>: four words, 33 bytes, padding, two words.\<close>

definition sizeof_termios2 :: u64 where "sizeof_termios2 = 60"

definition TCGETS :: u64 where "TCGETS = 0x5401"

definition TCSETS :: u64 where "TCSETS = 0x5402"

definition TCSETSW :: u64 where "TCSETSW = 0x5403"

definition TCSETSF :: u64 where "TCSETSF = 0x5404"

definition TCGETA :: u64 where "TCGETA = 0x5405"

definition TCSETA :: u64 where "TCSETA = 0x5406"

definition TCSETAW :: u64 where "TCSETAW = 0x5407"

definition TCSETAF :: u64 where "TCSETAF = 0x5408"

definition TIOCSCTTY :: u64 where "TIOCSCTTY = 0x540e"

definition TIOCGPGRP :: u64 where "TIOCGPGRP = 0x540f"

definition TIOCSPGRP :: u64 where "TIOCSPGRP = 0x5410"

definition TIOCGWINSZ :: u64 where "TIOCGWINSZ = 0x5413"

definition TIOCSWINSZ :: u64 where "TIOCSWINSZ = 0x5414"

definition TIOCINQ :: u64 where "TIOCINQ = 0x541b"

definition TIOCNOTTY :: u64 where "TIOCNOTTY = 0x5422"

definition TIOCSETD :: u64 where "TIOCSETD = 0x5423"

definition TIOCGETD :: u64 where "TIOCGETD = 0x5424"

definition TIOCGSID :: u64 where "TIOCGSID = 0x5429"

definition TIOCGLCKTRMIOS :: u64 where "TIOCGLCKTRMIOS = 0x5456"

definition TIOCSLCKTRMIOS :: u64 where "TIOCSLCKTRMIOS = 0x5457"

definition TCGETS2 :: u64 where "TCGETS2 = IOC 2 0x54 0x2a sizeof_termios2"

definition TCSETS2 :: u64 where "TCSETS2 = IOC 1 0x54 0x2b sizeof_termios2"

definition TCSETSW2 :: u64 where "TCSETSW2 = IOC 1 0x54 0x2c sizeof_termios2"

definition TCSETSF2 :: u64 where "TCSETSF2 = IOC 1 0x54 0x2d sizeof_termios2"

text \<open>
  The calling process, as far as \<^verbatim>\<open>IoCtl\<close> looks at it: \<open>p_TTY\<close> is its controlling terminal, and tells whether it is this one.
  The argument is what the memory at \<^verbatim>\<open>argp\<close> holds and whether \<^verbatim>\<open>ValidateRead\<close> and \<^verbatim>\<open>ValidateWrite\<close> accept the address.
\<close>

record caller =
  p_Pid :: u32
  p_SessionID :: u32
  p_UserID :: u32
  p_TTY :: "bool option"

record argument =
  arg_null :: bool
  arg_readable :: bool
  arg_writable :: bool
  arg_termios :: termios2
  arg_word :: u32

text \<open>What the call writes to the memory at \<^verbatim>\<open>argp\<close>.\<close>

datatype written = Nothing | Termios termios2 | Winsize winsize | Word32 u32

definition IoCtl :: "'q queue_ops \<Rightarrow> winsize \<Rightarrow> u64 \<Rightarrow> argument \<Rightarrow> 'q TTY \<Rightarrow> caller \<Rightarrow> (errno_t + written) \<times> 'q TTY \<times> caller" where
  "IoCtl qo window request arg t p =
     (if arg_null arg then (Inl EFAULT, t, p)
      else if request = TCGETS \<or> request = TCGETS2 then
        if \<not> arg_writable arg then (Inl EFAULT, t, p) else (Inr (Termios (m_Termios t)), t, p)
      else if request = TCSETS \<or> request = TCSETSW then
        if \<not> arg_readable arg then (Inl EFAULT, t, p) else (Inr Nothing, SetTermios qo (arg_termios arg) t, p)
      else if request = TCSETSF then
        if \<not> arg_readable arg then (Inl EFAULT, t, p) else (Inr Nothing, FlushInput qo (SetTermios qo (arg_termios arg) t), p)
      else if request = TCSETS2 \<or> request = TCSETSW2 \<or> request = TCSETSF2 then
        if \<not> arg_readable arg then (Inl EFAULT, t, p) else (Inr Nothing, t\<lparr>m_Termios := arg_termios arg\<rparr>, p)
      else if request \<in> {TCGETA, TCSETA, TCSETAW, TCSETAF, TIOCGLCKTRMIOS, TIOCSLCKTRMIOS, TIOCSWINSZ} then (Inl ENOSYS, t, p)
      else if request = TIOCGWINSZ then (Inr (Winsize window), t, p)
      else if request = TIOCINQ then (Inr (Word32 (of_nat (cq_Size qo (m_RawBuffer t)))), t, p)
      else if request = TIOCGETD then (Inr (Word32 (ucast (c_line (m_Termios t)))), t, p)
      else if request = TIOCSETD then
        (Inr Nothing, t\<lparr>m_Termios := (m_Termios t)\<lparr>c_line := ucast (arg_word arg)\<rparr>\<rparr>, p)
      else if request = TIOCSCTTY then
        if p_SessionID p \<noteq> p_Pid p \<or> p_TTY p \<noteq> None then (Inl EINVAL, t, p)
        else if m_ControlSid t \<noteq> 0 \<and> p_UserID p \<noteq> 0 then (Inl EPERM, t, p)
        else (Inr Nothing, t\<lparr>m_ControlSid := p_SessionID p\<rparr>, p\<lparr>p_TTY := Some True\<rparr>)
      else if request = TIOCNOTTY then
        if p_TTY p \<noteq> Some True \<or> m_ControlSid t \<noteq> p_SessionID p then (Inl EINVAL, t, p)
        else let t = t\<lparr>m_ControlSid := - 1\<rparr>
             in (Inr Nothing,
                 if p_Pid p = p_SessionID p then emit (SignalCurrent SIGCONT) (emit (SignalCurrent SIGHUP) t) else t,
                 p\<lparr>p_TTY := None\<rparr>)
      else if request = TIOCGPGRP then (Inr (Word32 (m_Pgid t)), t, p)
      else if request = TIOCSPGRP then
        if sint (arg_word arg) < 0 then (Inl EINVAL, t, p) else (Inr Nothing, t\<lparr>m_Pgid := arg_word arg\<rparr>, p)
      else if request = TIOCGSID then (Inr (Word32 (m_ControlSid t)), t, p)
      else (Inl EINVAL, t, p))"

section \<open>Editing\<close>

text \<open>No character of the settings that means something, neither to signals nor to the editor.\<close>

definition plain :: "'q TTY \<Rightarrow> u8 \<Rightarrow> bool" where
  "plain t c \<longleftrightarrow> (\<forall>i \<in> {VINTR, VQUIT, VSUSP, VEOF, VKILL, VERASE, VWERASE, VEOL}. \<not> is_cc t c i)"

definition ordinary :: "'q TTY \<Rightarrow> u8 \<Rightarrow> bool" where
  "ordinary t c \<longleftrightarrow> plain t c \<and> c \<noteq> 0x0a \<and> c \<noteq> 0x0d \<and> c \<noteq> 0x08 \<and> c \<noteq> 0x1b"

text \<open>A TTY that edits lines and echoes, between two buffers.\<close>

definition editing :: "'q TTY \<Rightarrow> bool" where
  "editing t \<longleftrightarrow> IsCanonicalMode t \<and> flag_set (c_lflag (m_Termios t)) ECHO \<and> \<not> flag_set (c_iflag (m_Termios t)) ISTRIP \<and>
     \<not> flag_set (c_iflag (m_Termios t)) INLCR \<and> tty_State t = eTTYNormal \<and> plain t 0x0a"

definition echo_line_end :: "'q TTY \<Rightarrow> effect list" where
  "echo_line_end t = (if flag_set (c_oflag (m_Termios t)) OPOST \<and> flag_set (c_oflag (m_Termios t)) ONLCR then [PutChar 0x0d] else []) @ [PutChar 0x0a]"

lemma scast_u8_eq: "(scast (c :: u8) :: u64) = scast d \<longleftrightarrow> c = d"
  by (metis ucast_scast_u8)

lemma Echo_ordinary:
  fixes c :: u8
  assumes "c \<noteq> 0x0a" "c \<noteq> 0x0d"
  shows "Echo (scast c) t = emit (PutChar (scast c)) t"
proof -
  have "(scast c :: u64) \<noteq> 0x0a" "(scast c :: u64) \<noteq> 0x0d"
    using assms scast_u8_eq [of c "0x0a"] scast_u8_eq [of c "0x0d"] by simp_all
  then show ?thesis by (simp add: Echo_def EchoRaw_def Let_def)
qed

lemma effects_emit [simp]: "effects (emit e t) = effects t @ [e]"
  by (simp add: emit_def)

lemma emit_fields [simp]:
  "m_Termios (emit e t) = m_Termios t" "m_RawBuffer (emit e t) = m_RawBuffer t" "m_LineQueue (emit e t) = m_LineQueue t"
  "m_OnAddLine (emit e t) = m_OnAddLine t" "tty_State (emit e t) = tty_State t" "m_RawEvent (emit e t) = m_RawEvent t"
  "m_Pgid (emit e t) = m_Pgid t" "m_ControlSid (emit e t) = m_ControlSid t"
  by (simp_all add: emit_def)

lemma Echo_fields [simp]:
  "m_Termios (Echo c t) = m_Termios t" "m_RawBuffer (Echo c t) = m_RawBuffer t" "m_LineQueue (Echo c t) = m_LineQueue t"
  "m_OnAddLine (Echo c t) = m_OnAddLine t" "tty_State (Echo c t) = tty_State t" "m_RawEvent (Echo c t) = m_RawEvent t"
  by (auto simp: Echo_def EchoRaw_def Let_def)

lemma SendChar_ordinary:
  assumes "editing t" "ordinary t c"
  shows "SendChar qo c t = emit (PutChar (scast c)) (TTY_EnqueueChar qo (scast c) t)"
proof -
  have "signal_of c t = None" using assms(2) by (simp add: signal_of_def ordinary_def plain_def)
  moreover have "translate c (c_iflag (m_Termios t)) = Some c" using assms(2) by (simp add: translate_def ordinary_def)
  moreover have "OnCanonChar qo c t = (False, t)"
    using assms by (simp add: OnCanonChar_def editing_def ordinary_def plain_def Let_def)
  ultimately show ?thesis
    using assms Echo_ordinary [of c "TTY_EnqueueChar qo (scast c) t"]
    by (simp add: SendChar_def editing_def ordinary_def TTY_EnqueueChar_def Let_def)
qed

lemma SendChar_line_end:
  assumes "editing t"
  shows "SendChar qo 0x0a t = AddLine qo (TTY_EnqueueChar qo 0x0a (t\<lparr>effects := effects t @ echo_line_end t\<rparr>))"
proof -
  have "signal_of 0x0a t = None" using assms by (simp add: signal_of_def editing_def plain_def)
  moreover have "translate 0x0a (c_iflag (m_Termios t)) = Some 0x0a" using assms by (simp add: translate_def editing_def)
  moreover have "Echo 0x0a t = t\<lparr>effects := effects t @ echo_line_end t\<rparr>"
    by (simp add: Echo_def EchoRaw_def emit_def echo_line_end_def Let_def)
  ultimately show ?thesis
    using assms by (simp add: SendChar_def OnCanonChar_def editing_def plain_def Let_def)
qed

context prism_queue
begin

lemma drain_contents:
  "n \<le> length (contents q) \<Longrightarrow> fst (drain qo n q) = take n (contents q) \<and> contents (snd (drain qo n q)) = drop n (contents q)"
proof (induction n arbitrary: q)
  case (Suc n)
  then obtain c cs where c: "contents q = c # cs" by (cases "contents q") auto
  with Pop [OF c] Suc.IH [of "snd (cq_Pop qo q)"] Suc.prems show ?case by (auto simp: split_beta Let_def)
qed simp

lemma AddLine_effect:
  "m_LineQueue (AddLine qo t) = m_LineQueue t @ [contents (m_RawBuffer t)]" "contents (m_RawBuffer (AddLine qo t)) = []"
  "m_OnAddLine (AddLine qo t) = m_OnAddLine t + 1" "m_Termios (AddLine qo t) = m_Termios t" "effects (AddLine qo t) = effects t"
  "tty_State (AddLine qo t) = tty_State t" "m_RawEvent (AddLine qo t) = m_RawEvent t"
  using drain_contents [of "length (contents (m_RawBuffer t))" "m_RawBuffer t"]
  by (simp_all add: AddLine_def split_beta)

lemma editing_enqueue:
  assumes "editing t" "length (contents (m_RawBuffer t)) < RAW_CAPACITY"
    and u_def: "u = emit e (TTY_EnqueueChar qo (scast (c :: u8)) t)"
  shows "editing u" "contents (m_RawBuffer u) = contents (m_RawBuffer t) @ [c]" "m_Termios u = m_Termios t"
    "m_LineQueue u = m_LineQueue t" "m_OnAddLine u = m_OnAddLine t" "effects u = effects t @ [e]" "m_RawEvent u = m_RawEvent t"
  using assms(1,2)
  by (simp_all add: u_def TTY_EnqueueChar_def editing_def plain_def is_cc_def IsCanonicalMode_def contents_Push ucast_scast_u8)

lemma plain_cong: "m_Termios t = m_Termios u \<Longrightarrow> ordinary t = ordinary u"
  by (simp add: ordinary_def plain_def is_cc_def fun_eq_iff)

lemma type_text:
  "editing t \<Longrightarrow> \<forall>c \<in> set cs. ordinary t c \<Longrightarrow> length (contents (m_RawBuffer t)) + length cs \<le> RAW_CAPACITY \<Longrightarrow>
   editing (fold (SendChar qo) cs t) \<and> contents (m_RawBuffer (fold (SendChar qo) cs t)) = contents (m_RawBuffer t) @ cs \<and>
   m_Termios (fold (SendChar qo) cs t) = m_Termios t \<and> m_LineQueue (fold (SendChar qo) cs t) = m_LineQueue t \<and>
   m_OnAddLine (fold (SendChar qo) cs t) = m_OnAddLine t \<and> m_RawEvent (fold (SendChar qo) cs t) = m_RawEvent t \<and>
   effects (fold (SendChar qo) cs t) = effects t @ map (\<lambda>c. PutChar (scast c)) cs"
proof (induction cs arbitrary: t)
  case (Cons c cs)
  define u where "u = emit (PutChar (scast c)) (TTY_EnqueueChar qo (scast c) t)"
  have step: "SendChar qo c t = u" using SendChar_ordinary [OF Cons.prems(1)] Cons.prems(2) by (simp add: u_def)
  have "length (contents (m_RawBuffer t)) < RAW_CAPACITY" using Cons.prems(3) by simp
  note e = editing_enqueue [OF Cons.prems(1) this u_def]
  have "\<forall>c \<in> set cs. ordinary u c" using Cons.prems(2) plain_cong [OF e(3)] by simp
  from Cons.IH [OF e(1) this] Cons.prems(3) e step show ?case by simp
qed simp

lemma type_line:
  assumes "editing t" "\<forall>c \<in> set cs. ordinary t c" "length (contents (m_RawBuffer t)) + length cs < RAW_CAPACITY"
  shows "m_LineQueue (SendBuffer qo (cs @ [0x0a]) t) = m_LineQueue t @ [contents (m_RawBuffer t) @ cs @ [0x0a]]"
    "contents (m_RawBuffer (SendBuffer qo (cs @ [0x0a]) t)) = []"
    "m_OnAddLine (SendBuffer qo (cs @ [0x0a]) t) = m_OnAddLine t + 1"
    "m_Termios (SendBuffer qo (cs @ [0x0a]) t) = m_Termios t"
    "effects (SendBuffer qo (cs @ [0x0a]) t) = effects t @ map (\<lambda>c. PutChar (scast c)) cs @ echo_line_end t"
proof -
  define u where "u = fold (SendChar qo) cs t"
  have u: "editing u" "contents (m_RawBuffer u) = contents (m_RawBuffer t) @ cs" "m_Termios u = m_Termios t" "m_LineQueue u = m_LineQueue t"
    "m_OnAddLine u = m_OnAddLine t" "effects u = effects t @ map (\<lambda>c. PutChar (scast c)) cs"
    using type_text [OF assms(1,2)] assms(3) by (simp_all add: u_def)
  have "hd (cs @ [0x0a]) \<noteq> 0x1b" using assms(2) by (cases cs) (auto simp: ordinary_def)
  then have e: "SendBuffer qo (cs @ [0x0a]) t = (SendChar qo 0x0a u)\<lparr>tty_State := eTTYNormal, m_RawEvent := m_RawEvent (SendChar qo 0x0a u) + 1\<rparr>"
    by (simp add: SendBuffer_def u_def Let_def)
  have room: "length (contents (m_RawBuffer u)) < RAW_CAPACITY" using u(2) assms(3) by simp
  show "m_LineQueue (SendBuffer qo (cs @ [0x0a]) t) = m_LineQueue t @ [contents (m_RawBuffer t) @ cs @ [0x0a]]"
    "contents (m_RawBuffer (SendBuffer qo (cs @ [0x0a]) t)) = []"
    "m_OnAddLine (SendBuffer qo (cs @ [0x0a]) t) = m_OnAddLine t + 1"
    "m_Termios (SendBuffer qo (cs @ [0x0a]) t) = m_Termios t"
    "effects (SendBuffer qo (cs @ [0x0a]) t) = effects t @ map (\<lambda>c. PutChar (scast c)) cs @ echo_line_end t"
    using u room by (simp_all add: e SendChar_line_end AddLine_effect TTY_EnqueueChar_def contents_Push echo_line_end_def)
qed

end

lemma rub_out_fields [simp]:
  "m_Termios ((rub_out ^^ n) t) = m_Termios t" "m_RawBuffer ((rub_out ^^ n) t) = m_RawBuffer t"
  "m_LineQueue ((rub_out ^^ n) t) = m_LineQueue t" "m_OnAddLine ((rub_out ^^ n) t) = m_OnAddLine t"
  "tty_State ((rub_out ^^ n) t) = tty_State t" "m_RawEvent ((rub_out ^^ n) t) = m_RawEvent t"
  by (induction n) (simp_all add: rub_out_def EchoRaw_def)

lemmas rub_out_once [simp] = rub_out_fields [of 1, simplified]

lemma EraseChar_fields [simp]:
  "m_Termios (EraseChar qo t) = m_Termios t" "m_LineQueue (EraseChar qo t) = m_LineQueue t" "m_OnAddLine (EraseChar qo t) = m_OnAddLine t"
  "tty_State (EraseChar qo t) = tty_State t" "m_RawEvent (EraseChar qo t) = m_RawEvent t"
  by (simp_all add: EraseChar_def Let_def split: prod.splits)

lemma erase_while_fields [simp]:
  "m_Termios (erase_while qo p n t) = m_Termios t" "m_LineQueue (erase_while qo p n t) = m_LineQueue t"
  "m_OnAddLine (erase_while qo p n t) = m_OnAddLine t" "tty_State (erase_while qo p n t) = tty_State t"
  by (induction n arbitrary: t) simp_all

context prism_queue
begin

lemma EraseChar_contents: "contents (m_RawBuffer (EraseChar qo t)) = butlast (contents (m_RawBuffer t))"
proof (cases "contents (m_RawBuffer t)" rule: rev_cases)
  case Nil
  then show ?thesis by (simp add: EraseChar_def)
next
  case (snoc cs c)
  with PopFront [OF snoc] show ?thesis by (auto simp: EraseChar_def Let_def split: prod.splits)
qed

lemma erase_while_contents:
  "length (contents (m_RawBuffer t)) \<le> n \<Longrightarrow>
   contents (m_RawBuffer (erase_while qo p n t)) = rev (dropWhile p (rev (contents (m_RawBuffer t))))"
proof (induction n arbitrary: t)
  case (Suc n)
  show ?case
  proof (cases "contents (m_RawBuffer t)" rule: rev_cases)
    case Nil
    then show ?thesis by simp
  next
    case (snoc cs c)
    with Back [OF snoc] Suc.IH [of "EraseChar qo t"] Suc.prems show ?thesis by (simp add: EraseChar_contents)
  qed
qed simp

lemma EraseWord_contents:
  "contents (m_RawBuffer (EraseWord qo t)) =
   rev (dropWhile (\<lambda>c. c = 0x20) (dropWhile (\<lambda>c. c \<noteq> 0x20) (rev (contents (m_RawBuffer t)))))"
proof -
  let ?n = "length (contents (m_RawBuffer t))" and ?u = "erase_while qo (\<lambda>c. c \<noteq> 0x20) (length (contents (m_RawBuffer t))) t"
  have u: "contents (m_RawBuffer ?u) = rev (dropWhile (\<lambda>c. c \<noteq> 0x20) (rev (contents (m_RawBuffer t))))"
    by (rule erase_while_contents) simp
  have "length (contents (m_RawBuffer ?u)) \<le> ?n" unfolding u using length_dropWhile_le [of _ "rev (contents (m_RawBuffer t))"] by simp
  from erase_while_contents [OF this, of "\<lambda>c. c = 0x20"] u show ?thesis by (simp add: EraseWord_def Let_def)
qed

end

text \<open>Printable ASCII is ordinary with the default settings.\<close>

definition ascii :: "u8 \<Rightarrow> bool" where
  "ascii c \<longleftrightarrow> 0x20 \<le> c \<and> c \<le> 0x7e"

lemma ascii_sint: "ascii c \<Longrightarrow> sint c = uint c \<and> 0x20 \<le> uint c \<and> uint c \<le> 0x7e"
  using signed_take_bit_int_eq_self [of 7 "uint c"]
  by (simp add: ascii_def word_le_def sint_uint)

lemmas default_defs = default_termios_def default_cc_def CTRL_def TTYDEF_IFLAG_def TTYDEF_OFLAG_def TTYDEF_LFLAG_def termios_defs

lemma default_tty_flags:
  assumes "m_Termios t = default_termios"
  shows "IsCanonicalMode t" "SignalsEnabled t" "flag_set (c_lflag (m_Termios t)) ECHO" "flag_set (c_lflag (m_Termios t)) ECHOE"
    "flag_set (c_lflag (m_Termios t)) (ECHO OR ECHOK)" "\<not> flag_set (c_iflag (m_Termios t)) ISTRIP" "\<not> flag_set (c_iflag (m_Termios t)) INLCR"
    "flag_set (c_oflag (m_Termios t)) OPOST" "flag_set (c_oflag (m_Termios t)) ONLCR"
  by (simp_all add: assms IsCanonicalMode_def SignalsEnabled_def flag_set_def default_defs)

lemma default_plain:
  assumes "m_Termios t = default_termios"
  shows "plain t c \<longleftrightarrow> sint c \<notin> {3, 0x1c, 0x1a, 4, 0x15, 0x7f, 0x17, 0}"
  by (auto simp: plain_def is_cc_def assms default_defs)

lemma default_settings:
  assumes "m_Termios t = default_termios" "tty_State t = eTTYNormal"
  shows "editing t" "ascii c \<Longrightarrow> ordinary t c"
    "is_cc t 0x7f VERASE" "signal_of 0x7f t = None" "\<not> is_cc t 0x7f VEOF" "\<not> is_cc t 0x7f VKILL"
proof -
  show "editing t" using assms(2) default_tty_flags [OF assms(1)] default_plain [OF assms(1)] by (simp add: editing_def)
  show "ordinary t c" if "ascii c"
  proof -
    have "c \<noteq> 0x0a" "c \<noteq> 0x0d" "c \<noteq> 0x08" "c \<noteq> 0x1b" using that by (auto simp: ascii_def)
    then show ?thesis using ascii_sint [OF that] default_plain [OF assms(1)] by (simp add: ordinary_def) 
  qed
  show "is_cc t 0x7f VERASE" "signal_of 0x7f t = None" "\<not> is_cc t 0x7f VEOF" "\<not> is_cc t 0x7f VKILL"
    by (simp_all add: signal_of_def is_cc_def assms(1) default_defs)
qed

lemma SendChar_erase:
  assumes "m_Termios t = default_termios" "tty_State t = eTTYNormal"
  shows "SendChar qo 0x7f t = EraseChar qo t"
  using default_tty_flags [OF assms(1)] default_settings [OF assms] assms(2)
  by (simp add: SendChar_def OnCanonChar_def translate_def Let_def)

context prism_queue
begin

lemma erase_text:
  "m_Termios t = default_termios \<Longrightarrow> tty_State t = eTTYNormal \<Longrightarrow>
   contents (m_RawBuffer (fold (SendChar qo) (replicate n 0x7f) t)) = take (length (contents (m_RawBuffer t)) - n) (contents (m_RawBuffer t)) \<and>
   m_LineQueue (fold (SendChar qo) (replicate n 0x7f) t) = m_LineQueue t \<and>
   m_OnAddLine (fold (SendChar qo) (replicate n 0x7f) t) = m_OnAddLine t \<and>
   m_Termios (fold (SendChar qo) (replicate n 0x7f) t) = m_Termios t"
proof (induction n arbitrary: t)
  case (Suc n)
  from Suc.IH [of "EraseChar qo t"] Suc.prems show ?case
    by (simp add: SendChar_erase EraseChar_contents butlast_conv_take min_def)
qed simp

end

section \<open>Properties\<close>

lemma TTY_Read_line:
  assumes "IsCanonicalMode t" "m_LineQueue t = line # lines" "m_OnAddLine t = Suc n"
  shows "TTY_Read qo k t = Some (take k line, t\<lparr>m_OnAddLine := n, m_LineQueue := lines\<rparr>)"
proof -
  have "take (min k (length line)) line = take k line" by (simp add: min_def)
  then show ?thesis using assms by (simp add: TTY_Read_def Let_def)
qed

text \<open>
  Claim C31. A line typed on a terminal with any settings for editing and echo is delivered: its characters are appended to what is being edited, the line with its line feed is queued,
  and a program that reads gets it from the start, up to the size of its buffer.  The characters are echoed in order, followed by the
  line end.
\<close>

theorem typed_line_is_read:
  assumes "prism_queue qo contents" "editing t" "\<forall>c \<in> set cs. ordinary t c"
    "length (contents (m_RawBuffer t)) + length cs < RAW_CAPACITY" "m_LineQueue t = []" "m_OnAddLine t = 0"
  shows "\<exists>u. TTY_Read qo n (SendBuffer qo (cs @ [0x0a]) t) = Some (take n (contents (m_RawBuffer t) @ cs @ [0x0a]), u) \<and>
    m_LineQueue u = [] \<and> contents (m_RawBuffer u) = [] \<and>
    effects u = effects t @ map (\<lambda>c. PutChar (scast c)) cs @ echo_line_end t"
proof -
  note line = prism_queue.type_line [OF assms(1-4)]
  have "IsCanonicalMode (SendBuffer qo (cs @ [0x0a]) t)" using assms(2) line(4) by (simp add: editing_def IsCanonicalMode_def)
  from TTY_Read_line [OF this, of "contents (m_RawBuffer t) @ cs @ [0x0a]" "[]" 0 qo n] show ?thesis
    using line assms(5,6) by simp
qed

theorem typed_line_is_read_witness:
  "\<exists>u. TTY_Read list_queue 80 (SendBuffer list_queue ([0x6c, 0x73] @ [0x0a]) (TTY_make list_queue)) = Some ([0x6c, 0x73, 0x0a], u)"
proof -
  have t: "m_Termios (TTY_make list_queue) = default_termios" "tty_State (TTY_make list_queue) = eTTYNormal" by (simp_all add: TTY_make_def)
  have "\<forall>c \<in> set [0x6c, 0x73]. ordinary (TTY_make list_queue) c" using default_settings(2) [OF t] by (simp add: ascii_def)
  from typed_line_is_read [OF list_queue.prism_queue_axioms default_settings(1) [OF t] this, of 80] show ?thesis
    by (auto simp: TTY_make_def list_queue_def RAW_CAPACITY_def)
qed

text \<open>
  Erasing undoes typing: with the default settings, a text followed by as many erase characters leaves the line being edited and the
  queue of lines as they were.
\<close>

theorem erasing_undoes_typing:
  assumes "prism_queue qo contents" "m_Termios t = default_termios" "tty_State t = eTTYNormal" "\<forall>c \<in> set cs. ascii c"
    "length (contents (m_RawBuffer t)) + length cs \<le> RAW_CAPACITY"
  defines "u \<equiv> SendBuffer qo (cs @ replicate (length cs) 0x7f) t"
  shows "contents (m_RawBuffer u) = contents (m_RawBuffer t) \<and> m_LineQueue u = m_LineQueue t \<and> m_OnAddLine u = m_OnAddLine t \<and>
    m_Termios u = m_Termios t"
proof -
  have "\<forall>c \<in> set cs. ordinary t c" using default_settings(2) [OF assms(2,3)] assms(4) by blast
  note typed = prism_queue.type_text [OF assms(1) default_settings(1) [OF assms(2,3)] this assms(5)]
  define v where "v = fold (SendChar qo) cs t"
  have v: "m_Termios v = default_termios" "tty_State v = eTTYNormal" using typed assms(2) by (simp_all add: v_def editing_def)
  have "hd (cs @ replicate (length cs) 0x7f) \<noteq> 0x1b" if "cs \<noteq> []" using assms(4) that by (cases cs) (auto simp: ascii_def)
  then have u: "u = (fold (SendChar qo) (replicate (length cs) 0x7f) v)\<lparr>tty_State := eTTYNormal,
      m_RawEvent := m_RawEvent (fold (SendChar qo) (replicate (length cs) 0x7f) v) + 1\<rparr>"
    by (cases "cs = []") (simp_all add: u_def SendBuffer_def v_def Let_def)
  from prism_queue.erase_text [OF assms(1) v, of "length cs"] typed show ?thesis by (simp add: u v_def)
qed

theorem erasing_undoes_typing_witness:
  "m_RawBuffer (SendBuffer list_queue ([0x61, 0x62] @ replicate (length [0x61, 0x62 :: u8]) 0x7f) (TTY_make list_queue)) = []"
proof -
  have "\<forall>c \<in> set [0x61, 0x62]. ascii c" by (simp add: ascii_def)
  from erasing_undoes_typing [OF list_queue.prism_queue_axioms _ _ this, of "TTY_make list_queue"] show ?thesis
    by (simp add: TTY_make_def list_queue_def RAW_CAPACITY_def)
qed

text \<open>
  Word erase takes the characters back to the last blank, and then the blanks before them; both loops end.
\<close>

theorem EraseWord_drops_word:
  assumes "prism_queue qo contents"
  shows "contents (m_RawBuffer (EraseWord qo t)) =
     rev (dropWhile (\<lambda>c. c = 0x20) (dropWhile (\<lambda>c. c \<noteq> 0x20) (rev (contents (m_RawBuffer t)))))"
  by (rule prism_queue.EraseWord_contents [OF assms])

theorem EraseWord_drops_word_witness:
  "m_RawBuffer (EraseWord list_queue ((TTY_make list_queue)\<lparr>m_RawBuffer := [0x61, 0x20, 0x20, 0x62, 0x63]\<rparr>)) = [0x61]"
  using EraseWord_drops_word [OF list_queue.prism_queue_axioms, of "(TTY_make list_queue)\<lparr>m_RawBuffer := [0x61, 0x20, 0x20, 0x62, 0x63]\<rparr>"]
  by simp

section \<open>The queue of lines\<close>

text \<open>
  The runs of a TTY: keys arrive, programs read without blocking, write and control it, in any order.
\<close>

inductive tty_run :: "'q queue_ops \<Rightarrow> 'q TTY \<Rightarrow> bool" for qo :: "'q queue_ops" where
  tty_start: "tty_run qo (TTY_make qo)"
| tty_keys: "tty_run qo t \<Longrightarrow> tty_run qo (SendBuffer qo cs t)"
| tty_read: "tty_run qo t \<Longrightarrow> TTY_Read qo n t = Some (bs, u) \<Longrightarrow> tty_run qo u"
| tty_write: "tty_run qo t \<Longrightarrow> tty_run qo (snd (TTY_Write bs t))"
| tty_control: "tty_run qo t \<Longrightarrow> IoCtl qo window request arg t p = (result, u, p') \<Longrightarrow> tty_run qo u"


definition counted :: "'q TTY \<Rightarrow> bool" where
  "counted t \<longleftrightarrow> m_OnAddLine t = length (m_LineQueue t)"

lemma counted_fields: "m_OnAddLine t = m_OnAddLine u \<Longrightarrow> m_LineQueue t = m_LineQueue u \<Longrightarrow> counted t = counted u"
  by (simp add: counted_def)

lemma counted_emit [simp]: "counted (emit e t) = counted t"
  by (rule counted_fields) simp_all

lemma counted_AddLine: "counted t \<Longrightarrow> counted (AddLine qo t)"
  by (simp add: counted_def AddLine_def split_beta)

lemma counted_enqueue [simp]: "counted (TTY_EnqueueChar qo c t) = counted t"
  by (rule counted_fields) (simp_all add: TTY_EnqueueChar_def)

lemma counted_Echo [simp]: "counted (Echo c t) = counted t"
  by (rule counted_fields) simp_all

lemma counted_edits [simp]:
  "counted (EchoRaw c t) = counted t" "counted (KillLine qo t) = counted t" "counted (EraseChar qo t) = counted t"
  "counted (EraseWord qo t) = counted t" "counted (TTY_SendSignal s t) = counted t"
  by (simp_all add: EchoRaw_def TTY_SendSignal_def) (rule counted_fields; simp add: KillLine_def EraseWord_def Let_def)+

lemma counted_OnCanonChar: "counted t \<Longrightarrow> counted (snd (OnCanonChar qo c t))"
  by (simp add: OnCanonChar_def Let_def counted_AddLine)

lemma counted_SendChar:
  assumes "counted t"
  shows "counted (SendChar qo c t)"
proof -
  define d where "d = (if flag_set (c_iflag (m_Termios t)) ISTRIP then c AND 0x7f else c)"
  have rest: "counted (case OnCanonChar qo k t of (done, u) \<Rightarrow>
      if done then u
      else if flag_set (c_lflag (m_Termios (TTY_EnqueueChar qo (scast k) u))) ECHO then Echo (scast k) (TTY_EnqueueChar qo (scast k) u)
      else TTY_EnqueueChar qo (scast k) u)" for k
    using counted_OnCanonChar [OF assms, of qo k] by (auto split: prod.split)
  show ?thesis
    unfolding SendChar_def Let_def d_def [symmetric]
    using rest assms by (simp add: Let_def split: option.split)
qed

lemma counted_run: "tty_run qo t \<Longrightarrow> counted t"
proof (induction rule: tty_run.induct)
  case (tty_keys t cs)
  have "counted (fold (SendChar qo) cs u)" if "counted u" for u
    using that by (induction cs arbitrary: u) (simp_all add: counted_SendChar)
  then show ?case using tty_keys.IH by (simp add: SendBuffer_def Let_def counted_def)
next
  case (tty_read t n bs u)
  then show ?case by (auto simp: TTY_Read_def counted_def Let_def split: if_splits prod.splits)
next
  case (tty_control t window request arg p result u p')
  then show ?case by (auto simp: IoCtl_def SetTermios_def FlushInput_def counted_def Let_def split: if_splits)
qed (auto simp: counted_def TTY_make_def TTY_Write_def)

text \<open>
  The event that wakes readers is triggered once for each line in the queue, over every run: a read in canonical mode that does not block finds a line, and never takes one
  from an empty queue.
\<close>

theorem canonical_read_finds_line:
  assumes "tty_run qo t" "IsCanonicalMode t"
  shows "TTY_Read qo n t = None \<and> m_LineQueue t = [] \<or>
    (\<exists>line lines u. m_LineQueue t = line # lines \<and> TTY_Read qo n t = Some (take n line, u) \<and> m_LineQueue u = lines)"
proof (cases "m_LineQueue t")
  case Nil
  then show ?thesis using counted_run [OF assms(1)] assms(2) by (simp add: TTY_Read_def counted_def)
next
  case (Cons line lines)
  then have "m_OnAddLine t = Suc (length lines)" using counted_run [OF assms(1)] by (simp add: counted_def)
  from TTY_Read_line [OF assms(2) Cons this, of qo n] show ?thesis using Cons by simp
qed

theorem canonical_read_finds_line_witness:
  "\<exists>u. TTY_Read list_queue 2 (SendBuffer list_queue [0x61, 0x62, 0x0a] (TTY_make list_queue)) = Some ([0x61, 0x62], u)"
proof -
  let ?t = "SendBuffer list_queue [0x61, 0x62, 0x0a] (TTY_make list_queue)"
  have "m_LineQueue ?t = [[0x61, 0x62, 0x0a]]" "IsCanonicalMode ?t" by code_simp+
  with canonical_read_finds_line [OF tty_run.tty_keys [OF tty_run.tty_start], of list_queue "[0x61, 0x62, 0x0a]" 2] show ?thesis by auto
qed

text \<open>
  A control call that fails changes neither the TTY nor the calling process, whatever the request and the argument.
\<close>

theorem IoCtl_error_no_effect:
  assumes "IoCtl qo window request arg t p = (Inl e, u, p')"
  shows "u = t \<and> p' = p"
  using assms by (auto simp: IoCtl_def Let_def split: if_splits)

theorem IoCtl_error_no_effect_witness:
  "IoCtl list_queue \<lparr>ws_row = 25, ws_col = 80, ws_xpixel = 0, ws_ypixel = 0\<rparr> TIOCSWINSZ
     \<lparr>arg_null = False, arg_readable = True, arg_writable = True, arg_termios = default_termios, arg_word = 0\<rparr> (TTY_make list_queue)
     \<lparr>p_Pid = 1, p_SessionID = 1, p_UserID = 0, p_TTY = None\<rparr> =
   (Inl ENOSYS, TTY_make list_queue, \<lparr>p_Pid = 1, p_SessionID = 1, p_UserID = 0, p_TTY = None\<rparr>)"
proof -
  let ?r = "IoCtl list_queue \<lparr>ws_row = 25, ws_col = 80, ws_xpixel = 0, ws_ypixel = 0\<rparr> TIOCSWINSZ
     \<lparr>arg_null = False, arg_readable = True, arg_writable = True, arg_termios = default_termios, arg_word = 0\<rparr> (TTY_make list_queue)
     \<lparr>p_Pid = 1, p_SessionID = 1, p_UserID = 0, p_TTY = None\<rparr>"
  have "fst ?r = Inl ENOSYS" by code_simp
  then have "?r = (Inl ENOSYS, fst (snd ?r), snd (snd ?r))" by (metis prod.collapse)
  from IoCtl_error_no_effect [OF this] this show ?thesis by metis
qed

section \<open>Deviations\<close>

text \<open>The suspend character interrupts: \<^verbatim>\<open>SendBuffer\<close> sends \<^verbatim>\<open>SIGINT\<close> for it, and not \<^verbatim>\<open>SIGTSTP\<close>.\<close>

theorem suspend_sends_interrupt:
  "effects (SendBuffer list_queue [0x1a] (TTY_make list_queue)) = [GroupSignal 100 SIGINT]"
  by code_simp

text \<open>
  A buffer that starts with an escape character, such as an arrow key or a status report, is echoed to the terminal in canonical mode
  and never reaches a reader.
\<close>

theorem escape_buffer_only_echoed:
  "let t = SendBuffer list_queue [0x1b, 0x5b, 0x41] (TTY_make list_queue)
   in m_RawBuffer t = [] \<and> m_LineQueue t = [] \<and> effects t = [PutChar 0x1b, PutChar 0x5b, PutChar 0x41]"
  by code_simp

text \<open>What a canonical read leaves of a line is lost: the line is removed from the queue, whatever the size of the buffer.\<close>

theorem rest_of_line_is_lost:
  "map_option (\<lambda>(bs, t). (bs, m_LineQueue t)) (TTY_Read list_queue 1 (SendBuffer list_queue [0x61, 0x62, 0x0a] (TTY_make list_queue))) =
     Some ([0x61], [])"
  by code_simp

text \<open>
  The event of raw input is triggered by every buffer, but only a raw read waits for it.  After a line in canonical mode, the first raw
  read returns at once with no bytes, which a program takes for the end of the input.
\<close>

definition raw_termios :: termios2 where
  "raw_termios = default_termios\<lparr>c_lflag := 0\<rparr>"

theorem stale_event_ends_input:
  "map_option fst (TTY_Read list_queue 1 (SetTermios list_queue raw_termios
     (SendBuffer list_queue [0x61, 0x0a] (TTY_make list_queue)))) = Some []"
  by code_simp

text \<open>
  No session can take a fresh TTY unless its user is root: the session of a TTY without one is \<open>-1\<close>, which the test for a free TTY
  does not accept.
\<close>

theorem fresh_tty_not_claimable:
  assumes "p_UserID p \<noteq> 0" "p_SessionID p = p_Pid p" "p_TTY p = None" "\<not> arg_null arg"
  shows "fst (IoCtl qo window TIOCSCTTY arg (TTY_make qo) p) = Inl EPERM"
proof -
  have "TIOCSCTTY \<notin> {TCGETS, TCGETS2, TCSETS, TCSETSW, TCSETSF, TCSETS2, TCSETSW2, TCSETSF2, TCGETA, TCSETA, TCSETAW, TCSETAF,
    TIOCGLCKTRMIOS, TIOCSLCKTRMIOS, TIOCSWINSZ, TIOCGWINSZ, TIOCINQ, TIOCGETD, TIOCSETD}" by code_simp
  then show ?thesis using assms by (simp add: IoCtl_def TTY_make_def)
qed

text \<open>\<^verbatim>\<open>TCSETSF2\<close> keeps the input that \<^verbatim>\<open>TCSETSF\<close> discards.\<close>

theorem TCSETSF2_keeps_input:
  assumes "\<not> arg_null arg" "arg_readable arg"
  shows "m_RawBuffer (fst (snd (IoCtl qo window TCSETSF2 arg t p))) = m_RawBuffer t"
proof -
  have "TCSETSF2 \<notin> {TCGETS, TCGETS2, TCSETS, TCSETSW, TCSETSF}" by code_simp
  then show ?thesis using assms by (simp add: IoCtl_def)
qed

text \<open>Two pairs of flags share a bit: the values are octal numbers of which only some were rewritten in hexadecimal.\<close>

theorem termios_flags_collide: "ECHOCTL = NOFLSH" "ONOCR = ONLRET"
  by (simp_all add: termios_defs)

end
