(* ===== verification/Keyboard.thy ===== *)
theory Keyboard
  imports TTY_Line
begin

text \<open>
  The PS/2 keyboard (\<^verbatim>\<open>Drivers/HID/Ps2KeyboardDevice.cpp\<close>) and its key table (\<^verbatim>\<open>PS2Scancodes.hpp\<close>).  The device receives scan
  codes of set 1 from the controller and sends characters to the current TTY.  Composed with the line discipline of
  \<open>TTY_Line\<close>, the keystrokes of a text are read back as that text.
\<close>

section \<open>Keys\<close>

text \<open>A key code is its number in the enumeration \<^verbatim>\<open>KeyCode\<close>, a 16-bit integer: 49 is F11, 12 the letter A, 1 no key.\<close>

type_synonym KeyCode = "16 word"

datatype Key = Key (KeyCode_of: KeyCode) (CodePoint: u32) (ShiftCodePoint: u32) (CapsLockCodePoint: u32) (ShiftCapsLockCodePoint: u32)

text \<open>The entries of keys 0x47 and 0x48 are those of F11 and F12, whose codes are 0x57 and 0x58.\<close>

definition PS2_Set1_Keys :: "Key list" where
  "PS2_Set1_Keys = [
    Key 1 0 0 0 0, Key 54 0x1b 0x1b 0x1b 0x1b, Key 3 0x31 0x21 0x31 0x21, Key 4 0x32 0x40 0x32 0x40,
    Key 5 0x33 0x23 0x33 0x23, Key 6 0x34 0x24 0x34 0x24, Key 7 0x35 0x25 0x35 0x25, Key 8 0x36 0x5e 0x36 0x5e,
    Key 9 0x37 0x26 0x37 0x26, Key 10 0x38 0x2a 0x38 0x2a, Key 11 0x39 0x28 0x39 0x28, Key 2 0x30 0x29 0x30 0x29,
    Key 69 0x2d 0x5f 0x2d 0x5f, Key 70 0x3d 0x2b 0x3d 0x2b, Key 55 0x8 0x8 0x8 0x8, Key 56 0x9 0x9 0x9 0x9,
    Key 28 0x71 0x51 0x51 0x71, Key 34 0x77 0x57 0x57 0x77, Key 16 0x65 0x45 0x45 0x65, Key 29 0x72 0x52 0x52 0x72,
    Key 31 0x74 0x54 0x54 0x74, Key 36 0x79 0x59 0x59 0x79, Key 32 0x75 0x55 0x55 0x75, Key 20 0x69 0x49 0x49 0x69,
    Key 26 0x6f 0x4f 0x4f 0x6f, Key 27 0x70 0x50 0x50 0x70, Key 72 0x5b 0x7b 0x5b 0x7b, Key 73 0x5d 0x7d 0x5d 0x7d,
    Key 58 0xd 0xd 0xd 0xd, Key 62 0 0 0 0, Key 12 0x61 0x41 0x41 0x61, Key 30 0x73 0x53 0x53 0x73, Key 15 0x64 0x44 0x44 0x64,
    Key 17 0x66 0x46 0x46 0x66, Key 18 0x67 0x47 0x47 0x67, Key 19 0x68 0x48 0x48 0x68, Key 21 0x6a 0x4a 0x4a 0x6a,
    Key 22 0x6b 0x4b 0x4b 0x6b, Key 23 0x6c 0x4c 0x4c 0x6c, Key 74 0x3b 0x3a 0x3b 0x3a, Key 75 0x27 0x22 0x27 0x22,
    Key 38 0x60 0x7e 0x60 0x7e, Key 60 0 0 0 0, Key 79 0x5c 0x7c 0x5c 0x7c, Key 37 0x7a 0x5a 0x5a 0x7a,
    Key 35 0x78 0x58 0x58 0x78, Key 14 0x63 0x43 0x43 0x63, Key 33 0x76 0x56 0x56 0x76, Key 13 0x62 0x42 0x42 0x62,
    Key 25 0x6e 0x4e 0x4e 0x6e, Key 24 0x6d 0x4d 0x4d 0x6d, Key 76 0x2c 0x3c 0x2c 0x3c, Key 77 0x2e 0x3e 0x2e 0x3e,
    Key 78 0x2f 0x3f 0x2f 0x3f, Key 61 0 0 0 0, Key 97 0x2a 0x2a 0x2a 0x2a, Key 64 0 0 0 0,
    Key 68 0x20 0x20 0x20 0x20, Key 57 0 0 0 0, Key 39 0 0 0 0, Key 40 0 0 0 0, Key 41 0 0 0 0, Key 42 0 0 0 0,
    Key 43 0 0 0 0, Key 44 0 0 0 0, Key 45 0 0 0 0, Key 46 0 0 0 0, Key 47 0 0 0 0, Key 48 0 0 0 0, Key 106 0 0 0 0,
    Key 105 0 0 0 0, Key 49 0 0 0 0, Key 50 0 0 0 0
  ]"

definition SCANCODE_MAX :: nat where "SCANCODE_MAX = length PS2_Set1_Keys"

definition eControl :: u32 where "eControl = 1"

definition eAlt :: u32 where "eAlt = 2"

definition eShift :: u32 where "eShift = 4"

definition eCapsLock_mod :: u32 where "eCapsLock_mod = 8"

lemmas modifier_defs = eControl_def eAlt_def eShift_def eCapsLock_mod_def

definition has_modifier :: "u32 \<Rightarrow> u32 \<Rightarrow> bool" where
  "has_modifier m f \<longleftrightarrow> m AND f \<noteq> 0"

section \<open>The device\<close>

datatype ScanCodeSet = eSet1 | eSet2 | eSet3

text \<open>
  The members of the device, and what its handler changes elsewhere: the current TTY, the switch that logs system calls, and how
  often a reboot has been asked for.
\<close>

record 'q keyboard =
  m_ScanCodeSet :: ScanCodeSet
  m_Modifiers :: u32
  m_ExtraScanCode :: bool
  s_CurrentTTY :: "'q TTY option"
  g_LogSyscalls :: bool
  reboots :: nat

definition Emit :: "'q queue_ops \<Rightarrow> u8 list \<Rightarrow> 'q keyboard \<Rightarrow> 'q keyboard" where
  "Emit qo cs k = (case s_CurrentTTY k of None \<Rightarrow> k | Some t \<Rightarrow> k\<lparr>s_CurrentTTY := Some (SendBuffer qo cs t)\<rparr>)"

definition set_modifier :: "bool \<Rightarrow> u32 \<Rightarrow> 'q keyboard \<Rightarrow> 'q keyboard" where
  "set_modifier pressed f k = k\<lparr>m_Modifiers := (if pressed then m_Modifiers k OR f else m_Modifiers k AND NOT f)\<rparr>"

text \<open>
  A code that follows 0xe0; \<open>None\<close> for a code that is then treated like any other.  Whether cursor keys are in application mode and
  whether arrow keys are disabled is asked of the terminal and of the command line.  The literal of the delete key is an octal
  escape for 0x0f followed by a seven.
\<close>

definition extra_key :: "'q queue_ops \<Rightarrow> bool \<Rightarrow> bool \<Rightarrow> u8 \<Rightarrow> 'q keyboard \<Rightarrow> 'q keyboard option" where
  "extra_key qo cursorKeyMode disableArrowKeys raw k =
     (let pressed = (raw AND 0x80 = 0);
          app = (s_CurrentTTY k \<noteq> None \<and> cursorKeyMode);
          arrow = (\<lambda>c. if disableArrowKeys then k else Emit qo [0x1b, if app then 0x4f else 0x5b, c] k)
      in if raw = 0x1d \<or> raw = 0x9d then Some (set_modifier pressed eControl k)
         else if raw = 0x1c then Some (Emit qo [0x0a] k)
         else if raw = 0x35 then Some (Emit qo [0x2f] k)
         else if raw = 0x48 then Some (arrow 0x41)
         else if raw = 0x4b then Some (arrow 0x44)
         else if raw = 0x50 then Some (arrow 0x42)
         else if raw = 0x4d then Some (arrow 0x43)
         else if raw = 0x47 then Some (Emit qo [0x1b, 0x5b, 0x31, 0x7e] k)
         else if raw = 0x4f then Some (Emit qo [0x1b, 0x5b, 0x34, 0x7e] k)
         else if raw = 0x49 then Some (Emit qo [0x1b, 0x5b, 0x35, 0x7e] k)
         else if raw = 0x51 then Some (Emit qo [0x1b, 0x5b, 0x36, 0x7e] k)
         else if raw = 0x53 then Some (Emit qo [0x0f] k)
         else None)"

text \<open>The keys that change the modifiers, and Num Lock, which does nothing; \<open>None\<close> for another key.\<close>

definition modifier_key :: "u8 \<Rightarrow> 'q keyboard \<Rightarrow> 'q keyboard option" where
  "modifier_key raw k =
     (let pressed = (raw AND 0x80 = 0)
      in if raw = 0x45 then Some k
         else if raw \<in> {0x38, 0xb8} then Some (set_modifier pressed eAlt k)
         else if raw \<in> {0x2a, 0x36, 0xaa, 0xb6} then Some (set_modifier pressed eShift k)
         else if raw \<in> {0x1d, 0x9d} then Some (set_modifier pressed eControl k)
         else if raw = 0x3a then Some (set_modifier pressed eCapsLock_mod k)
         else None)"

definition toupper :: "u8 \<Rightarrow> u8" where
  "toupper c = (if 0x61 \<le> c \<and> c \<le> 0x7a then c - 0x20 else c)"

definition key_char :: "u32 \<Rightarrow> Key \<Rightarrow> u8" where
  "key_char m key =
     (let caps = has_modifier m eCapsLock_mod; shift = has_modifier m eShift;
          c = ucast (if \<not> caps \<and> \<not> shift then CodePoint key
                     else if \<not> caps \<and> shift then ShiftCodePoint key
                     else if caps \<and> \<not> shift then CapsLockCodePoint key
                     else ShiftCapsLockCodePoint key)
      in if has_modifier m eControl then toupper c - 0x40 else c)"

definition plain_key :: "'q queue_ops \<Rightarrow> u8 \<Rightarrow> 'q keyboard \<Rightarrow> 'q keyboard" where
  "plain_key qo raw k =
     (if SCANCODE_MAX \<le> unat raw then k
      else let c = key_char (m_Modifiers k) (PS2_Set1_Keys ! unat raw)
           in if raw AND 0x80 \<noteq> 0 then k
              else let both = (has_modifier (m_Modifiers k) eShift \<and> has_modifier (m_Modifiers k) eAlt);
                       k = (if both \<and> c = 0x0d then k\<lparr>reboots := reboots k + 1\<rparr>
                            else if both then k\<lparr>g_LogSyscalls := \<not> g_LogSyscalls k\<rparr> else k)
                   in Emit qo [c] k)"

definition HandleScanCodeSet1Key :: "'q queue_ops \<Rightarrow> bool \<Rightarrow> bool \<Rightarrow> u8 \<Rightarrow> 'q keyboard \<Rightarrow> 'q keyboard" where
  "HandleScanCodeSet1Key qo cursorKeyMode disableArrowKeys raw k =
     (if raw = 0xe0 then k\<lparr>m_ExtraScanCode := True\<rparr>
      else let extra = m_ExtraScanCode k; k = k\<lparr>m_ExtraScanCode := False\<rparr>
           in case (if extra then extra_key qo cursorKeyMode disableArrowKeys raw k else None) of
                Some k \<Rightarrow> k
              | None \<Rightarrow> (case modifier_key raw k of Some k \<Rightarrow> k | None \<Rightarrow> plain_key qo raw k))"

definition HandleScanCodeSet2Key :: "u8 \<Rightarrow> 'q keyboard \<Rightarrow> 'q keyboard" where
  "HandleScanCodeSet2Key raw k = k"

text \<open>A byte from the controller; the third set runs into an assertion.\<close>

definition OnByteReceived :: "'q queue_ops \<Rightarrow> bool \<Rightarrow> bool \<Rightarrow> u8 \<Rightarrow> 'q keyboard \<Rightarrow> 'q keyboard option" where
  "OnByteReceived qo cursorKeyMode disableArrowKeys byte k =
     (case m_ScanCodeSet k of
        eSet1 \<Rightarrow> Some (HandleScanCodeSet1Key qo cursorKeyMode disableArrowKeys byte k)
      | eSet2 \<Rightarrow> Some (HandleScanCodeSet2Key byte k)
      | eSet3 \<Rightarrow> None)"


definition receive :: "'q queue_ops \<Rightarrow> bool \<Rightarrow> bool \<Rightarrow> u8 list \<Rightarrow> 'q keyboard \<Rightarrow> 'q keyboard option" where
  "receive qo ck da bytes k = fold (\<lambda>b ko. Option.bind ko (OnByteReceived qo ck da b)) bytes (Some k)"

section \<open>The modifiers\<close>

lemma Emit_fields [simp]:
  "m_ScanCodeSet (Emit qo cs k) = m_ScanCodeSet k" "m_Modifiers (Emit qo cs k) = m_Modifiers k"
  "m_ExtraScanCode (Emit qo cs k) = m_ExtraScanCode k"
  by (simp_all add: Emit_def split: option.splits)

lemma plain_key_fields [simp]:
  "m_ScanCodeSet (plain_key qo raw k) = m_ScanCodeSet k" "m_Modifiers (plain_key qo raw k) = m_Modifiers k"
  "m_ExtraScanCode (plain_key qo raw k) = m_ExtraScanCode k"
  by (simp_all add: plain_key_def Let_def)

lemma set_modifier_fields [simp]:
  "m_ScanCodeSet (set_modifier pressed f k) = m_ScanCodeSet k" "s_CurrentTTY (set_modifier pressed f k) = s_CurrentTTY k"
  "m_ExtraScanCode (set_modifier pressed f k) = m_ExtraScanCode k"
  by (simp_all add: set_modifier_def)

lemma has_modifier_set:
  "has_modifier (m_Modifiers (set_modifier pressed (push_bit i 1) k)) (push_bit j 1) =
   (if i = j \<and> j < 32 then pressed else has_modifier (m_Modifiers k) (push_bit j 1))"
proof -
  have single: "has_modifier m (push_bit j 1) \<longleftrightarrow> bit m j" for m :: u32 and j
    by (simp add: has_modifier_def push_bit_eq_mult and_exp_eq_0_iff_not_bit)
  show ?thesis unfolding single by (auto simp: set_modifier_def bit_simps dest: bit_imp_le_length)
qed

lemma modifier_bits: "eControl = push_bit 0 1" "eAlt = push_bit 1 1" "eShift = push_bit 2 1" "eCapsLock_mod = push_bit 3 1"
  by (simp_all add: modifier_defs)

lemma modifier_set_cases [simp]:
  "has_modifier (m_Modifiers (set_modifier p eShift k)) eShift = p"
  "has_modifier (m_Modifiers (set_modifier p eControl k)) eShift = has_modifier (m_Modifiers k) eShift"
  "has_modifier (m_Modifiers (set_modifier p eAlt k)) eShift = has_modifier (m_Modifiers k) eShift"
  "has_modifier (m_Modifiers (set_modifier p eCapsLock_mod k)) eShift = has_modifier (m_Modifiers k) eShift"
  "has_modifier (m_Modifiers (set_modifier p eCapsLock_mod k)) eCapsLock_mod = p"
  "has_modifier (m_Modifiers (set_modifier p eControl k)) eCapsLock_mod = has_modifier (m_Modifiers k) eCapsLock_mod"
  "has_modifier (m_Modifiers (set_modifier p eAlt k)) eCapsLock_mod = has_modifier (m_Modifiers k) eCapsLock_mod"
  "has_modifier (m_Modifiers (set_modifier p eShift k)) eCapsLock_mod = has_modifier (m_Modifiers k) eCapsLock_mod"
  unfolding modifier_bits by (simp_all only: has_modifier_set) simp_all

lemma modifiers_extra [simp]: "m_Modifiers (k\<lparr>m_ExtraScanCode := b\<rparr>) = m_Modifiers k"
  by simp

lemma extra_key_modifiers:
  assumes "extra_key qo ck da raw k = Some l"
  shows "m_Modifiers l = m_Modifiers k \<or> (\<exists>p. l = set_modifier p eControl k)" "raw \<notin> {0x2a, 0x36, 0xaa, 0xb6, 0x3a}"
    "m_ScanCodeSet l = m_ScanCodeSet k"
proof -
  show "raw \<notin> {0x2a, 0x36, 0xaa, 0xb6, 0x3a}" using assms by (auto simp: extra_key_def)
  have "l = set_modifier True eControl k \<or> l = set_modifier False eControl k \<or> l = k \<or> (\<exists>cs. l = Emit qo cs k)"
    using assms unfolding extra_key_def Let_def by (simp split: if_split_asm) (blast | metis)+
  then show "m_Modifiers l = m_Modifiers k \<or> (\<exists>p. l = set_modifier p eControl k)" "m_ScanCodeSet l = m_ScanCodeSet k" by auto
qed

definition ordinary_key :: "'q queue_ops \<Rightarrow> u8 \<Rightarrow> 'q keyboard \<Rightarrow> 'q keyboard" where
  "ordinary_key qo raw k = (case modifier_key raw k of Some k \<Rightarrow> k | None \<Rightarrow> plain_key qo raw k)"

lemma handle_cases:
  obtains (prefix) "raw = 0xe0" "HandleScanCodeSet1Key qo ck da raw k = k\<lparr>m_ExtraScanCode := True\<rparr>"
  | (extra) l where "raw \<noteq> 0xe0" "m_ExtraScanCode k" "extra_key qo ck da raw (k\<lparr>m_ExtraScanCode := False\<rparr>) = Some l"
      "HandleScanCodeSet1Key qo ck da raw k = l"
  | (key) "raw \<noteq> 0xe0" "HandleScanCodeSet1Key qo ck da raw k = ordinary_key qo raw (k\<lparr>m_ExtraScanCode := False\<rparr>)"
proof (cases "raw = 0xe0")
  case True
  then show ?thesis using prefix by (simp add: HandleScanCodeSet1Key_def)
next
  case False
  show ?thesis
  proof (cases "if m_ExtraScanCode k then extra_key qo ck da raw (k\<lparr>m_ExtraScanCode := False\<rparr>) else None")
    case None
    then show ?thesis using key False by (simp add: HandleScanCodeSet1Key_def ordinary_key_def Let_def)
  next
    case (Some l)
    then show ?thesis using extra [of l] False by (simp add: HandleScanCodeSet1Key_def split: if_splits)
  qed
qed

lemma ordinary_key_fields:
  "m_ScanCodeSet (ordinary_key qo raw k) = m_ScanCodeSet k"
  "has_modifier (m_Modifiers (ordinary_key qo raw k)) eShift =
     (if raw \<in> {0x2a, 0x36} then True else if raw \<in> {0xaa, 0xb6} then False else has_modifier (m_Modifiers k) eShift)"
  "has_modifier (m_Modifiers (ordinary_key qo raw k)) eCapsLock_mod = (raw = 0x3a \<or> has_modifier (m_Modifiers k) eCapsLock_mod)"
  by (auto simp: ordinary_key_def modifier_key_def Let_def)

lemma handle_fields [simp]:
  "m_ScanCodeSet (HandleScanCodeSet1Key qo ck da raw k) = m_ScanCodeSet k"
proof (cases rule: handle_cases [of raw qo ck da k])
  case (extra l)
  then show ?thesis using extra_key_modifiers(3) [OF extra(3)] by simp
qed (simp_all add: ordinary_key_fields)

text \<open>What one byte does to Shift and to Caps Lock, after 0xe0 or not.\<close>

lemma handle_shift:
  "has_modifier (m_Modifiers (HandleScanCodeSet1Key qo ck da raw k)) eShift =
     (if raw \<in> {0x2a, 0x36} then True else if raw \<in> {0xaa, 0xb6} then False else has_modifier (m_Modifiers k) eShift)"
proof (cases rule: handle_cases [of raw qo ck da k])
  case (extra l)
  then show ?thesis using extra_key_modifiers(1,2) [OF extra(3)] by auto
qed (simp_all add: ordinary_key_fields)

lemma handle_caps:
  "has_modifier (m_Modifiers (HandleScanCodeSet1Key qo ck da raw k)) eCapsLock_mod =
     (raw = 0x3a \<or> has_modifier (m_Modifiers k) eCapsLock_mod)"
proof (cases rule: handle_cases [of raw qo ck da k])
  case (extra l)
  then show ?thesis using extra_key_modifiers(1,2) [OF extra(3)] by auto
qed (simp_all add: ordinary_key_fields)

lemma receive_simps [simp]:
  "receive qo ck da [] k = Some k"
  "m_ScanCodeSet k = eSet1 \<Longrightarrow>
   receive qo ck da (b # bs) k = receive qo ck da bs (HandleScanCodeSet1Key qo ck da b k)"
  by (simp_all add: receive_def OnByteReceived_def)

lemma receive_append:
  "m_ScanCodeSet k = eSet1 \<Longrightarrow> receive qo ck da (bs @ cs) k = Option.bind (receive qo ck da bs k) (receive qo ck da cs)"
  by (induction bs arbitrary: k) simp_all

section \<open>Characters\<close>

text \<open>A device that reads scan codes of set 1, with no modifier on and not in the middle of a code.\<close>

definition idle :: "'q keyboard \<Rightarrow> bool" where
  "idle k \<longleftrightarrow> m_ScanCodeSet k = eSet1 \<and> m_Modifiers k = 0 \<and> \<not> m_ExtraScanCode k"

text \<open>
  The keystrokes for a character: the first key that yields it, or the first that does with Shift held.  Each key is pressed and
  released.
\<close>

fun find_key :: "(Key \<Rightarrow> u32) \<Rightarrow> u32 \<Rightarrow> nat \<Rightarrow> Key list \<Rightarrow> nat option" where
  "find_key f c i [] = None"
| "find_key f c i (key # keys) = (if f key = c then Some i else find_key f c (Suc i) keys)"

definition stroke :: "nat \<Rightarrow> u8 list" where
  "stroke i = [of_nat i, of_nat i OR 0x80]"

definition keystrokes :: "u8 \<Rightarrow> u8 list" where
  "keystrokes c =
     (case find_key CodePoint (ucast c) 0 PS2_Set1_Keys of
        Some i \<Rightarrow> stroke i
      | None \<Rightarrow>
        (case find_key ShiftCodePoint (ucast c) 0 PS2_Set1_Keys of
           Some i \<Rightarrow> [0x2a] @ stroke i @ [0xaa]
         | None \<Rightarrow> []))"

definition special_keys :: "u8 list" where
  "special_keys = [0x45, 0x38, 0x2a, 0x36, 0x1d, 0x3a]"

text \<open>A key that is in the table and not a modifier, pressed and released, sends its character once.\<close>

definition char_key :: "nat \<Rightarrow> bool" where
  "char_key i \<longleftrightarrow> i < SCANCODE_MAX \<and> of_nat i \<notin> set special_keys"

lemma SCANCODE_MAX_value: "SCANCODE_MAX = 73"
  by (simp add: SCANCODE_MAX_def PS2_Set1_Keys_def)

lemma press_release_bits:
  assumes "i < 73"
  shows "unat (of_nat i :: u8) = i" "(of_nat i :: u8) AND 0x80 = 0" "unat (of_nat i OR 0x80 :: u8) = i + 128"
proof -
  have "\<forall>i \<in> set [0..<73]. unat (of_nat i :: u8) = i \<and> (of_nat i :: u8) AND 0x80 = 0 \<and> unat (of_nat i OR 0x80 :: u8) = i + 128"
    by code_simp
  then show "unat (of_nat i :: u8) = i" "(of_nat i :: u8) AND 0x80 = 0" "unat (of_nat i OR 0x80 :: u8) = i + 128"
    using assms by auto
qed

lemma keep_extra: "\<not> m_ExtraScanCode k \<Longrightarrow> k\<lparr>m_ExtraScanCode := False\<rparr> = k"
  by simp

lemma stroke_sends:
  assumes "char_key i" "m_ScanCodeSet k = eSet1" "\<not> m_ExtraScanCode k" "m_Modifiers k = 0 \<or> m_Modifiers k = eShift"
  shows "receive qo ck da (stroke i) k =
    Some (Emit qo [ucast ((if m_Modifiers k = 0 then CodePoint else ShiftCodePoint) (PS2_Set1_Keys ! i))] k)"
proof -
  let ?c = "ucast ((if m_Modifiers k = 0 then CodePoint else ShiftCodePoint) (PS2_Set1_Keys ! i)) :: u8"
  have i: "i < 73" using assms(1) by (simp add: char_key_def SCANCODE_MAX_value)
  note bits = press_release_bits [OF i]
  have neq: "(of_nat i :: u8) \<noteq> 0xe0" "(of_nat i :: u8) \<noteq> 0xb8" "(of_nat i :: u8) \<noteq> 0xaa" "(of_nat i :: u8) \<noteq> 0xb6" "(of_nat i :: u8) \<noteq> 0x9d"
    using i bits(1) by auto
  have char: "key_char (m_Modifiers k) (PS2_Set1_Keys ! i) = ?c" "\<not> has_modifier (m_Modifiers k) eAlt"
    using assms(4) by (auto simp: key_char_def has_modifier_def modifier_defs)
  have press: "HandleScanCodeSet1Key qo ck da (of_nat i) k = Emit qo [?c] k"
    using assms(1,3) i neq bits char
    by (simp add: keep_extra HandleScanCodeSet1Key_def modifier_key_def plain_key_def char_key_def special_keys_def SCANCODE_MAX_value)
  define r where "r = (of_nat i OR 0x80 :: u8)"
  have "r \<noteq> 0xe0 \<and> r \<noteq> 0x45 \<and> r \<noteq> 0x38 \<and> r \<noteq> 0x2a \<and> r \<noteq> 0x36 \<and> r \<noteq> 0x1d \<and> r \<noteq> 0x3a \<and> r \<noteq> 0xb8 \<and> r \<noteq> 0xaa \<and> r \<noteq> 0xb6 \<and> r \<noteq> 0x9d"
  proof -
    have "i \<notin> {0x38, 0x2a, 0x36, 0x1d}" using assms(1) by (auto simp: char_key_def special_keys_def)
    then show ?thesis using bits(3) i by (auto simp: r_def [symmetric])
  qed
  then have release: "HandleScanCodeSet1Key qo ck da r l = l" if "\<not> m_ExtraScanCode l" for l
    using that bits(3)
    by (simp add: keep_extra HandleScanCodeSet1Key_def modifier_key_def plain_key_def SCANCODE_MAX_value r_def [symmetric])
  show ?thesis using press release [of "Emit qo [?c] k"] assms(2,3) by (simp add: stroke_def r_def)
qed

lemma find_key_nth:
  "find_key f c i keys = Some j \<Longrightarrow> i \<le> j \<and> j < i + length keys \<and> f (keys ! (j - i)) = c"
proof (induction keys arbitrary: i)
  case (Cons key keys)
  show ?case
  proof (cases "f key = c")
    case True
    with Cons.prems show ?thesis by auto
  next
    case False
    with Cons.IH [of "Suc i"] Cons.prems show ?thesis by (auto simp: nth_Cons' Suc_diff_le)
  qed
qed simp

text \<open>Every printable character of ASCII, and the line end, has a key, which is none of the modifiers.\<close>

definition typeable :: "u8 \<Rightarrow> bool" where
  "typeable c \<longleftrightarrow>
     (case find_key CodePoint (ucast c) 0 PS2_Set1_Keys of
        Some i \<Rightarrow> char_key i
      | None \<Rightarrow> (case find_key ShiftCodePoint (ucast c) 0 PS2_Set1_Keys of Some i \<Rightarrow> char_key i | None \<Rightarrow> False))"

lemma ucast_char: "ucast (ucast (c :: u8) :: u32) = c"
  by (rule bit_word_eqI) (simp add: bit_simps)

lemma find_key_None: "find_key f c i keys = None \<longleftrightarrow> c \<notin> f ` set keys"
  by (induction keys arbitrary: i) auto

lemma special_keys_have_no_character:
  "i < SCANCODE_MAX \<Longrightarrow> of_nat i \<in> set special_keys \<Longrightarrow> CodePoint (PS2_Set1_Keys ! i) = 0 \<and> ShiftCodePoint (PS2_Set1_Keys ! i) = 0"
proof -
  assume i: "i < SCANCODE_MAX" "of_nat i \<in> set special_keys"
  from i(1) press_release_bits(1) [of i] have "unat (of_nat i :: u8) = i" by (simp add: SCANCODE_MAX_value)
  with i(2) have "i \<in> set [0x45, 0x38, 0x2a, 0x36, 0x1d, 0x3a]" unfolding special_keys_def by auto
  then show "CodePoint (PS2_Set1_Keys ! i) = 0 \<and> ShiftCodePoint (PS2_Set1_Keys ! i) = 0" by (auto simp: PS2_Set1_Keys_def)
qed

lemma found_key:
  assumes "find_key f c 0 PS2_Set1_Keys = Some i" "c \<noteq> 0" "f = CodePoint \<or> f = ShiftCodePoint"
  shows "char_key i"
  using find_key_nth [OF assms(1)] special_keys_have_no_character [of i] assms(2,3)
  by (auto simp: char_key_def SCANCODE_MAX_def)

lemma ascii_codes:
  "0x20 \<le> n \<Longrightarrow> n < 0x7f \<Longrightarrow> n \<in> (\<lambda>k. unat (CodePoint k)) ` set PS2_Set1_Keys \<union> (\<lambda>k. unat (ShiftCodePoint k)) ` set PS2_Set1_Keys"
proof -
  have "\<forall>n \<in> set [0x20..<0x7f]. n \<in> (\<lambda>k. unat (CodePoint k)) ` set PS2_Set1_Keys \<union> (\<lambda>k. unat (ShiftCodePoint k)) ` set PS2_Set1_Keys"
    by (simp add: PS2_Set1_Keys_def)
  then show "0x20 \<le> n \<Longrightarrow> n < 0x7f \<Longrightarrow> ?thesis" by (simp only: set_upt atLeastLessThan_iff)
qed

lemma typeable_ascii:
  assumes "ascii c \<or> c = 0x0d"
  shows "typeable c"
proof -
  have "unat c < 2 ^ 8" using unsigned_less [of c] by simp
  then have u: "unat (ucast c :: u32) = unat c" by (simp add: unsigned_ucast_eq take_bit_nat_eq_self)
  have "ucast c \<in> CodePoint ` set PS2_Set1_Keys \<or> ucast c \<in> ShiftCodePoint ` set PS2_Set1_Keys"
  proof (cases "c = 0x0d")
    case True
    then show ?thesis by (simp add: PS2_Set1_Keys_def)
  next
    case False
    with assms have "0x20 \<le> unat c" "unat c < 0x7f" by (simp_all add: ascii_def word_le_nat_alt)
    from ascii_codes [OF this] show ?thesis unfolding u [symmetric] by (auto simp: word_unat_eq_iff)
  qed
  moreover have "(ucast c :: u32) \<noteq> 0" using assms u by (auto simp: ascii_def word_le_nat_alt unat_eq_0 [symmetric] simp del: unat_eq_0)
  ultimately show ?thesis
    using find_key_None [of CodePoint "ucast c" 0 PS2_Set1_Keys] find_key_None [of ShiftCodePoint "ucast c" 0 PS2_Set1_Keys]
    by (auto simp: typeable_def found_key split: option.splits)
qed

lemma keystrokes_send:
  assumes "typeable c" "idle k"
  shows "receive qo ck da (keystrokes c) k = Some (Emit qo [c] k)"
proof (cases "find_key CodePoint (ucast c) 0 PS2_Set1_Keys")
  case (Some i)
  then have "char_key i" "CodePoint (PS2_Set1_Keys ! i) = ucast c" using assms(1) find_key_nth [OF Some] by (simp_all add: typeable_def)
  then show ?thesis using stroke_sends [of i k qo ck da] Some assms(2) by (simp add: keystrokes_def idle_def ucast_char)
next
  case None
  then obtain i where i: "find_key ShiftCodePoint (ucast c) 0 PS2_Set1_Keys = Some i" "char_key i"
    using assms(1) by (auto simp: typeable_def split: option.splits)
  then have c: "ShiftCodePoint (PS2_Set1_Keys ! i) = ucast c" using find_key_nth [OF i(1)] by simp
  let ?s = "k\<lparr>m_Modifiers := eShift\<rparr>"
  have down: "HandleScanCodeSet1Key qo ck da 0x2a k = ?s"
    using assms(2) by (simp add: HandleScanCodeSet1Key_def modifier_key_def set_modifier_def idle_def keep_extra Let_def)
  have up: "HandleScanCodeSet1Key qo ck da 0xaa (Emit qo [c] ?s) = Emit qo [c] k"
    using assms(2)
    by (simp add: HandleScanCodeSet1Key_def modifier_key_def set_modifier_def idle_def keep_extra Let_def Emit_def modifier_defs split: option.splits)
  have "receive qo ck da (stroke i) ?s = Some (Emit qo [c] ?s)"
    using stroke_sends [of i ?s qo ck da] i(2) c assms(2) by (simp add: idle_def modifier_defs ucast_char)
  then show ?thesis using None i(1) down up assms(2) by (simp add: keystrokes_def idle_def receive_append)
qed

definition sends :: "'q queue_ops \<Rightarrow> u8 list \<Rightarrow> 'q TTY \<Rightarrow> 'q TTY" where
  "sends qo cs t = fold (\<lambda>c. SendBuffer qo [c]) cs t"

lemma keystrokes_type:
  "\<forall>c \<in> set cs. typeable c \<Longrightarrow> idle k \<Longrightarrow> s_CurrentTTY k = Some t \<Longrightarrow>
   receive qo ck da (concat (map keystrokes cs)) k = Some (k\<lparr>s_CurrentTTY := Some (sends qo cs t)\<rparr>)"
proof (induction cs arbitrary: k t)
  case (Cons c cs)
  have "receive qo ck da (keystrokes c) k = Some (k\<lparr>s_CurrentTTY := Some (SendBuffer qo [c] t)\<rparr>)"
    using keystrokes_send [of c k qo ck da] Cons.prems by (simp add: Emit_def)
  moreover have "idle (k\<lparr>s_CurrentTTY := Some (SendBuffer qo [c] t)\<rparr>)" using Cons.prems(2) by (simp add: idle_def)
  ultimately show ?case
    using Cons.IH [of "k\<lparr>s_CurrentTTY := Some (SendBuffer qo [c] t)\<rparr>"] Cons.prems by (simp add: receive_append idle_def sends_def)
qed (simp add: sends_def)

section \<open>From keys to lines\<close>

lemma SendBuffer_one:
  "c \<noteq> 0x1b \<Longrightarrow> SendBuffer qo [c] t = (SendChar qo c t)\<lparr>tty_State := eTTYNormal, m_RawEvent := m_RawEvent (SendChar qo c t) + 1\<rparr>"
  by (simp add: SendBuffer_def Let_def)

lemma carriage_return_is_line_end:
  assumes "m_Termios t = default_termios" "tty_State t = eTTYNormal"
  shows "SendBuffer qo [0x0d] t = SendBuffer qo [0x0a] t"
proof -
  have "signal_of 0x0d t = None" "signal_of 0x0a t = None" "translate 0x0d (c_iflag (m_Termios t)) = translate 0x0a (c_iflag (m_Termios t))"
    by (simp_all add: signal_of_def translate_def is_cc_def flag_set_def assms(1) default_defs)
  then show ?thesis using default_tty_flags [OF assms(1)] by (simp add: SendBuffer_one SendChar_def)
qed

context prism_queue
begin

lemma sends_text:
  "m_Termios t = default_termios \<Longrightarrow> tty_State t = eTTYNormal \<Longrightarrow> \<forall>c \<in> set cs. ascii c \<Longrightarrow>
   length (contents (m_RawBuffer t)) + length cs \<le> RAW_CAPACITY \<Longrightarrow>
   m_Termios (sends qo cs t) = default_termios \<and> tty_State (sends qo cs t) = eTTYNormal \<and>
   contents (m_RawBuffer (sends qo cs t)) = contents (m_RawBuffer t) @ cs \<and>
   m_LineQueue (sends qo cs t) = m_LineQueue t \<and> m_OnAddLine (sends qo cs t) = m_OnAddLine t"
proof (induction cs arbitrary: t)
  case (Cons c cs)
  note set = default_settings [OF Cons.prems(1,2)]
  have c: "ordinary t c" using Cons.prems(3) set(2) by simp
  have "SendBuffer qo [c] t = (SendChar qo c t)\<lparr>tty_State := eTTYNormal, m_RawEvent := m_RawEvent (SendChar qo c t) + 1\<rparr>"
    using c by (intro SendBuffer_one) (simp add: ordinary_def)
  with type_text [OF set(1), of "[c]"] c Cons.prems(4)
  have "m_Termios (SendBuffer qo [c] t) = m_Termios t" "tty_State (SendBuffer qo [c] t) = eTTYNormal"
    "contents (m_RawBuffer (SendBuffer qo [c] t)) = contents (m_RawBuffer t) @ [c]"
    "m_LineQueue (SendBuffer qo [c] t) = m_LineQueue t" "m_OnAddLine (SendBuffer qo [c] t) = m_OnAddLine t" by simp_all
  with Cons.IH [of "SendBuffer qo [c] t"] Cons.prems show ?case by (simp add: sends_def)
qed (simp add: sends_def)

end

text \<open>
  Claim C32. Typing a line on the keyboard delivers it.  The strokes of a text of printable characters and of Enter, sent to an idle keyboard in
  front of a TTY with the default settings, queue one line, and a program that reads gets the text with its line feed after what
  was being edited.  The keyboard is idle again.
\<close>

theorem typed_keys_are_read:
  assumes "prism_queue qo contents" "idle k" "s_CurrentTTY k = Some t" "m_Termios t = default_termios" "tty_State t = eTTYNormal"
    "\<forall>c \<in> set cs. ascii c" "length (contents (m_RawBuffer t)) + length cs < RAW_CAPACITY" "m_LineQueue t = []" "m_OnAddLine t = 0"
  shows "\<exists>k' t' u. receive qo ck da (concat (map keystrokes (cs @ [0x0d]))) k = Some k' \<and> idle k' \<and> s_CurrentTTY k' = Some t' \<and>
    TTY_Read qo n t' = Some (take n (contents (m_RawBuffer t) @ cs @ [0x0a]), u) \<and> m_LineQueue u = []"
proof -
  define v where "v = sends qo cs t"
  have v: "m_Termios v = default_termios" "tty_State v = eTTYNormal" "contents (m_RawBuffer v) = contents (m_RawBuffer t) @ cs"
    "m_LineQueue v = []" "m_OnAddLine v = 0"
    using prism_queue.sends_text [OF assms(1,4-6)] assms(7-9) by (simp_all add: v_def)
  have t': "sends qo (cs @ [0x0d]) t = SendBuffer qo [0x0a] v" (is "?t' = _")
    using carriage_return_is_line_end [OF v(1,2), of qo] by (simp add: sends_def v_def)
  have "length (contents (m_RawBuffer v)) + length ([] :: u8 list) < RAW_CAPACITY" using v(3) assms(7) by simp
  note line = prism_queue.type_line [OF assms(1) default_settings(1) [OF v(1,2)] _ this, simplified]
  have keys: "receive qo ck da (concat (map keystrokes (cs @ [0x0d]))) k = Some (k\<lparr>s_CurrentTTY := Some ?t'\<rparr>)"
    using keystrokes_type [OF _ assms(2,3), of "cs @ [0x0d]"] typeable_ascii assms(6) by auto
  have "IsCanonicalMode ?t'" using default_tty_flags(1) [of ?t'] line(4) v(1) t' by simp
  from TTY_Read_line [OF this, of "contents (m_RawBuffer t) @ cs @ [0x0a]" "[]" 0 qo n]
  have "TTY_Read qo n ?t' = Some (take n (contents (m_RawBuffer t) @ cs @ [0x0a]), ?t'\<lparr>m_OnAddLine := 0, m_LineQueue := []\<rparr>)"
    using line(1,3) v t' by simp
  with keys assms(2) show ?thesis by (auto simp: idle_def)
qed

definition demo_keyboard :: "u8 list keyboard" where
  "demo_keyboard = \<lparr>m_ScanCodeSet = eSet1, m_Modifiers = 0, m_ExtraScanCode = False, s_CurrentTTY = Some (TTY_make list_queue),
     g_LogSyscalls = False, reboots = 0\<rparr>"

theorem typed_keys_are_read_witness:
  "\<exists>k' t' u. receive list_queue False False (concat (map keystrokes ([0x4c, 0x73] @ [0x0d]))) demo_keyboard = Some k' \<and> idle k' \<and>
     s_CurrentTTY k' = Some t' \<and> TTY_Read list_queue 80 t' = Some (take 80 ([] @ [0x4c, 0x73] @ [0x0a]), u) \<and> m_LineQueue u = []"
proof -
  have t: "m_RawBuffer (TTY_make list_queue) = []" by (simp add: TTY_make_def list_queue_def)
  show ?thesis
    using typed_keys_are_read [OF list_queue.prism_queue_axioms, of demo_keyboard "TTY_make list_queue" "[0x4c, 0x73]" False False 80]
    by (simp add: t demo_keyboard_def idle_def TTY_make_def ascii_def RAW_CAPACITY_def list_queue_def)
qed

definition shift_bytes :: "u8 list \<Rightarrow> u8 list" where
  "shift_bytes bytes = filter (\<lambda>b. b \<in> {0x2a, 0x36, 0xaa, 0xb6}) bytes"

text \<open>
  Shift is on exactly when the last byte of a Shift key was a press, over every sequence of bytes, with and without prefixes.
\<close>

theorem shift_follows_last_press:
  assumes "m_ScanCodeSet k = eSet1"
  shows "\<exists>l. receive qo ck da bytes k = Some l \<and>
    has_modifier (m_Modifiers l) eShift =
      (if shift_bytes bytes = [] then has_modifier (m_Modifiers k) eShift else last (shift_bytes bytes) \<in> {0x2a, 0x36})"
  using assms
proof (induction bytes arbitrary: k)
  case (Cons b bs)
  let ?k = "HandleScanCodeSet1Key qo ck da b k"
  from Cons.prems Cons.IH [of ?k] handle_shift [of qo ck da b k] show ?case
    by (auto simp: shift_bytes_def)
qed (simp add: shift_bytes_def)

theorem shift_follows_last_press_witness:
  "\<exists>l. receive list_queue False False [0x2a, 0x1e, 0x36] demo_keyboard = Some l \<and> has_modifier (m_Modifiers l) eShift"
  using shift_follows_last_press [of demo_keyboard list_queue False False "[0x2a, 0x1e, 0x36]"]
  by (simp add: demo_keyboard_def shift_bytes_def)

text \<open>So letting go of one Shift key while the other is held turns Shift off.\<close>

theorem second_shift_key_ignored:
  "\<exists>l. receive qo ck da [0x2a, 0x36, 0xb6] (k\<lparr>m_ScanCodeSet := eSet1\<rparr>) = Some l \<and> \<not> has_modifier (m_Modifiers l) eShift"
  by (simp add: handle_shift)

text \<open>Caps Lock, once on, stays on whatever is pressed and released after it: no byte turns it off.\<close>

theorem caps_lock_stays_on:
  assumes "m_ScanCodeSet k = eSet1" "has_modifier (m_Modifiers k) eCapsLock_mod"
  shows "\<exists>l. receive qo ck da bytes k = Some l \<and> has_modifier (m_Modifiers l) eCapsLock_mod"
  using assms
proof (induction bytes arbitrary: k)
  case (Cons b bs)
  from Cons.IH [of "HandleScanCodeSet1Key qo ck da b k"] Cons.prems show ?case by (simp add: handle_caps)
qed simp

text \<open>The delete key sends the character of Control-O, not 0x7f.\<close>

theorem delete_key_sends_control_o:
  assumes "m_ScanCodeSet k = eSet1" "s_CurrentTTY k = Some t"
  shows "receive qo ck da [0xe0, 0x53] k = Some (k\<lparr>m_ExtraScanCode := False, s_CurrentTTY := Some (SendBuffer qo [0x0f] t)\<rparr>)"
  using assms by (simp add: HandleScanCodeSet1Key_def extra_key_def Emit_def Let_def)

text \<open>The key 7 of the keypad is looked up as F11 (key code 49) and sends a zero byte; the codes of F11 and F12 are ignored.\<close>

theorem keypad_seven_is_F11:
  "KeyCode_of (PS2_Set1_Keys ! 0x47) = 49" "SCANCODE_MAX \<le> 0x57"
  "idle k \<Longrightarrow> receive qo ck da [0x47] k = Some (Emit qo [0] k)"
  by (simp_all add: PS2_Set1_Keys_def SCANCODE_MAX_value HandleScanCodeSet1Key_def modifier_key_def plain_key_def key_char_def
      idle_def has_modifier_def keep_extra Let_def)

end
