(* ===== verification/File_Syscalls.thy ===== *)
theory File_Syscalls
  imports File_Descriptors Address_Space
begin

unbundle bit_operations_syntax

text \<open>
  The file system calls (\<^verbatim>\<open>API/VFS.cpp\<close>) and what they use of a process (\<^verbatim>\<open>Scheduler/Process.cpp\<close>): its descriptors, its working
  directory and the check of user addresses.  A call returns an error or a value, with the new state; \<open>None\<close> is a run that does not
  return, as before.
\<close>

section \<open>The process\<close>

text \<open>
  Descriptors are shared by reference: the table holds numbers of objects.  Reading user memory is an argument: what is at an address,
  as a string or an integer.
\<close>

record file_process =
  fp_vfs :: vfs
  fp_fds :: "FileDescriptor list"
  fp_FdTable :: "nat FileDescriptorTable"
  fp_CWD :: nat
  fp_Umask :: mode_t
  fp_Credentials :: Credentials
  fp_Regions :: "Region list"

record sys_env =
  se_path :: path_ops
  se_ValidateLength :: "string \<Rightarrow> bool"
  se_fuel :: nat
  se_vfs :: vfs_env
  se_methods :: file_methods
  se_devices :: "u64 \<Rightarrow> nat option"
  se_drivers :: "FilesystemDriver list"
  se_alignUp :: "u64 \<Rightarrow> usize \<Rightarrow> u64"
  se_InUserRange :: "Pointer \<Rightarrow> usize \<Rightarrow> bool"
  se_IoCtl :: "nat \<Rightarrow> usize \<Rightarrow> usize \<Rightarrow> usize error_or"
  se_string :: "Pointer \<Rightarrow> string"
  se_isize :: "Pointer \<Rightarrow> u64"
  se_times :: "Pointer \<Rightarrow> timespec \<times> timespec"

type_synonym 'a sys = "file_process \<Rightarrow> ('a error_or \<times> file_process) option"

text \<open>Returning, failing, and going on when a step has not failed.\<close>

definition ret :: "'a \<Rightarrow> 'a sys" where
  "ret x s = Some (Inr x, s)"

definition fail :: "errno_t \<Rightarrow> 'a sys" where
  "fail e s = Some (Inl e, s)"

definition andthen :: "'a sys \<Rightarrow> ('a \<Rightarrow> 'b sys) \<Rightarrow> 'b sys" where
  "andthen m f s = (case m s of None \<Rightarrow> None | Some (Inl e, s) \<Rightarrow> Some (Inl e, s) | Some (Inr x, s) \<Rightarrow> f x s)"

definition unless_error :: "bool \<Rightarrow> errno_t \<Rightarrow> 'a sys \<Rightarrow> 'a sys" where
  "unless_error b e m = (if b then fail e else m)"

definition on_vfs :: "(vfs \<Rightarrow> ('a error_or \<times> vfs) option) \<Rightarrow> 'a sys" where
  "on_vfs f s = map_option (\<lambda>(r, v). (r, s\<lparr>fp_vfs := v\<rparr>)) (f (fp_vfs s))"

definition asks :: "(file_process \<Rightarrow> 'a) \<Rightarrow> ('a \<Rightarrow> 'b sys) \<Rightarrow> 'b sys" where
  "asks f m s = m (f s) s"

text \<open>A pointer that is followed; null does not return.\<close>

definition deref :: "'a option \<Rightarrow> ('a \<Rightarrow> 'b sys) \<Rightarrow> 'b sys" where
  "deref p m s = (case p of None \<Rightarrow> None | Some x \<Rightarrow> m x s)"

lemmas sys_defs = ret_def fail_def andthen_def unless_error_def on_vfs_def asks_def deref_def

definition PROT_READ :: u32 where "PROT_READ = 1"
definition PROT_WRITE :: u32 where "PROT_WRITE = 2"
definition PROT_EXEC :: u32 where "PROT_EXEC = 4"

fun Process_ValidateAddress :: "Pointer \<Rightarrow> u32 \<Rightarrow> usize \<Rightarrow> Region list \<Rightarrow> bool" where
  "Process_ValidateAddress address accessMode sz [] = False"
| "Process_ValidateAddress address accessMode sz (region # regions) =
     (if Region_Contains region address then True
      else if \<not> Region_Contains region address \<or> \<not> Region_Contains region (address + sz) then Process_ValidateAddress address accessMode sz regions
      else if accessMode AND PROT_READ \<noteq> 0 \<and> \<not> Region_IsReadable region then False
      else if accessMode AND PROT_WRITE \<noteq> 0 \<and> \<not> Region_IsWriteable region then False
      else if accessMode AND PROT_EXEC \<noteq> 0 \<and> \<not> Region_IsExecutable region then False
      else True)"

definition ValidateRead :: "Pointer \<Rightarrow> usize \<Rightarrow> file_process \<Rightarrow> bool" where
  "ValidateRead address sz s = Process_ValidateAddress address PROT_READ sz (fp_Regions s)"

definition ValidateWrite :: "Pointer \<Rightarrow> usize \<Rightarrow> file_process \<Rightarrow> bool" where
  "ValidateWrite address sz s = Process_ValidateAddress address PROT_WRITE sz (fp_Regions s)"

definition GetFileHandle :: "u64 \<Rightarrow> file_process \<Rightarrow> nat option" where
  "GetFileHandle fdNum s = Table_GetFd (ucast fdNum) (fp_FdTable s)"

definition with_fd :: "u64 \<Rightarrow> (nat \<Rightarrow> 'a sys) \<Rightarrow> 'a sys" where
  "with_fd fdNum m = asks (GetFileHandle fdNum) (\<lambda>h. case h of None \<Rightarrow> fail EBADF | Some fd \<Rightarrow> m fd)"


text \<open>An operation of a descriptor object, with what it returns.\<close>

definition on_fd :: "nat \<Rightarrow> (FileDescriptor \<Rightarrow> vfs \<Rightarrow> ('a error_or \<times> FileDescriptor \<times> vfs) option) \<Rightarrow> 'a sys" where
  "on_fd fd f s = map_option (\<lambda>(r, x, v). (r, s\<lparr>fp_fds := (fp_fds s)[fd := x], fp_vfs := v\<rparr>)) (f (fp_fds s ! fd) (fp_vfs s))"

definition IsSuperUser :: "file_process \<Rightarrow> bool" where
  "IsSuperUser s \<longleftrightarrow> EffectiveUserID (fp_Credentials s) = 0"

definition Process_Umask :: "mode_t \<Rightarrow> mode_t sys" where
  "Process_Umask m s = Some (Inr (fp_Umask s), s\<lparr>fp_Umask := m\<rparr>)"

definition AT_FDCWD :: u64 where "AT_FDCWD = - 100"
definition AT_SYMLINK_NOFOLLOW :: u64 where "AT_SYMLINK_NOFOLLOW = 0x100"
definition AT_NO_AUTOMOUNT :: u64 where "AT_NO_AUTOMOUNT = 0x800"
definition AT_EMPTY_PATH :: u64 where "AT_EMPTY_PATH = 0x1000"

lemmas at_defs = AT_FDCWD_def AT_SYMLINK_NOFOLLOW_def AT_NO_AUTOMOUNT_def AT_EMPTY_PATH_def

section \<open>Opening and closing\<close>



text \<open>The loop that looks for a number; among as many numbers as there are entries and one more, one is free.\<close>

definition next_number :: "int \<Rightarrow> 'f FileDescriptorTable \<Rightarrow> int" where
  "next_number n t =
     (case List.find (\<lambda>k. \<not> Table_IsValid (word_of_int k) t) (map (\<lambda>k. n + int k) [0..<length (m_Table t) + 1]) of
        Some k \<Rightarrow> k | None \<Rightarrow> n)"

definition Process_DupFd :: "u64 \<Rightarrow> u64 \<Rightarrow> u64 \<Rightarrow> usize sys" where
  "Process_DupFd oldFdNum newFdNum flags =
     unless_error (oldFdNum = newFdNum) EINVAL
       (with_fd oldFdNum (\<lambda>old s.
          let n = next_number (max 0 (sint newFdNum)) (fp_FdTable s);
              (k, t) = Table_Insert old (word_of_int n) (fp_FdTable s)
          in Some (if sint k < 0 then Inl EBADF else Inr (scast k), s\<lparr>fp_FdTable := t\<rparr>)))"

text \<open>Closing a number that is not open returns -1, not an error.\<close>

definition Process_CloseFd :: "u64 \<Rightarrow> usize sys" where
  "Process_CloseFd fdNum s =
     (let (r, t) = Table_Erase (ucast fdNum) (fp_FdTable s)
      in Some (Inr (case r of Inl _ \<Rightarrow> - 1 | Inr _ \<Rightarrow> 0), s\<lparr>fp_FdTable := t\<rparr>))"




definition Sys_Close :: "u64 \<Rightarrow> usize sys" where
  "Sys_Close fdNum = Process_CloseFd fdNum"

definition Sys_Dup :: "u64 \<Rightarrow> usize sys" where
  "Sys_Dup oldFdNum = Process_DupFd oldFdNum (- 1) 0"

definition Sys_Dup2 :: "u64 \<Rightarrow> u64 \<Rightarrow> usize sys" where
  "Sys_Dup2 oldFdNum newFdNum = Process_DupFd oldFdNum newFdNum 0"


section \<open>Descriptors\<close>

definition Sys_Read :: "sys_env \<Rightarrow> u64 \<Rightarrow> Pointer \<Rightarrow> usize \<Rightarrow> u8 list sys" where
  "Sys_Read e fdNum out bytes =
     asks (ValidateWrite out bytes) (\<lambda>ok. unless_error (\<not> ok) EFAULT
       (with_fd fdNum (\<lambda>fd. asks (\<lambda>s. FileDescriptor_CanRead (fp_fds s ! fd)) (\<lambda>can. unless_error (\<not> can) EBADF
          (on_fd fd (\<lambda>x v. FileDescriptor_Read (se_methods e) (se_vfs e) x bytes (- 1) v))))))"

text \<open>The bytes at the address are an argument.\<close>

definition Sys_Write :: "sys_env \<Rightarrow> u64 \<Rightarrow> Pointer \<Rightarrow> u8 list \<Rightarrow> usize sys" where
  "Sys_Write e fdNum buf bytes =
     asks (ValidateRead buf (of_nat (length bytes))) (\<lambda>ok. unless_error (\<not> ok) EFAULT
       (with_fd fdNum (\<lambda>fd. on_fd fd (\<lambda>x v. FileDescriptor_Write (se_methods e) (se_vfs e) x bytes (- 1) v))))"

definition Sys_PRead :: "sys_env \<Rightarrow> u64 \<Rightarrow> Pointer \<Rightarrow> usize \<Rightarrow> usize \<Rightarrow> u8 list sys" where
  "Sys_PRead e fdNum out count offset =
     with_fd fdNum (\<lambda>fd. asks (\<lambda>s. Process_ValidateAddress out PROT_READ count (fp_Regions s)) (\<lambda>ok. unless_error (\<not> ok) EFAULT
       (unless_error (out \<noteq> 0 \<and> \<not> se_InUserRange e out count) EFAULT
          (on_fd fd (\<lambda>x v. FileDescriptor_Read (se_methods e) (se_vfs e) x count offset v)))))"


definition Sys_LSeek :: "sys_env \<Rightarrow> u64 \<Rightarrow> usize \<Rightarrow> u64 \<Rightarrow> usize sys" where
  "Sys_LSeek e fdNum offset whence =
     with_fd fdNum (\<lambda>fd. on_fd fd (\<lambda>x v. map_option (\<lambda>(r, x). (r, x, v)) (FileDescriptor_Seek (se_methods e) x (ucast whence) offset v)))"









section \<open>Paths\<close>

definition resolve :: "sys_env \<Rightarrow> nat option \<Rightarrow> string \<Rightarrow> bool \<Rightarrow> (PathResolution \<times> errno_t option) sys" where
  "resolve e base path follow s =
     map_option (\<lambda>(res, err, v). (Inr (res, err), s\<lparr>fp_vfs := v\<rparr>)) (ResolvePath (se_path e) (se_fuel e) base path follow (fp_vfs s))"

definition lookup_entry :: "nat \<Rightarrow> string \<Rightarrow> nat option sys" where
  "lookup_entry d name s = (let (r, v) = DirectoryEntry_Lookup d name (fp_vfs s) in Some (Inr r, s\<lparr>fp_vfs := v\<rparr>))"

definition the_dentry :: "nat \<Rightarrow> (DirectoryEntry \<Rightarrow> 'a sys) \<Rightarrow> 'a sys" where
  "the_dentry d = asks (\<lambda>s. dentry_at (fp_vfs s) d)"

definition ResolveAtFd :: "sys_env \<Rightarrow> u64 \<Rightarrow> string \<Rightarrow> u64 \<Rightarrow> PathResolution sys" where
  "ResolveAtFd e dirFdNum path flags =
     (if path = [] then
        unless_error (flags AND AT_EMPTY_PATH = 0) ENOENT
          (if dirFdNum = AT_FDCWD then
             asks fp_CWD (\<lambda>cwd. the_dentry cwd (\<lambda>c. deref (de_Parent c) (\<lambda>parent. the_dentry parent (\<lambda>p.
               deref (de_Parent p) (\<lambda>pp. andthen (lookup_entry pp (de_Name p)) (\<lambda>found.
                 ret \<lparr>res_Parent = found, res_Entry = Some cwd, res_BaseName = de_Name c\<rparr>))))))
           else with_fd dirFdNum (\<lambda>fd. asks (\<lambda>s. fd_DirectoryEntry (fp_fds s ! fd)) (\<lambda>d. the_dentry d (\<lambda>x.
             ret \<lparr>res_Parent = de_Parent x, res_Entry = Some d, res_BaseName = de_Name x\<rparr>))))
      else unless_error (\<not> se_ValidateLength e path) ENAMETOOLONG
        (andthen (if po_Absolute (se_path e) path then asks (RootDirectoryEntry \<circ> fp_vfs) (\<lambda>r. deref r ret)
              else if dirFdNum = AT_FDCWD then asks fp_CWD ret
              else with_fd dirFdNum (\<lambda>fd. asks (\<lambda>s. fd_DirectoryEntry (fp_fds s ! fd)) (\<lambda>d. the_dentry d (\<lambda>x.
                unless_error (\<not> DirectoryEntry_IsDirectory x) ENOTDIR (ret d)))))
           (\<lambda>base. andthen (resolve e (Some base) path (flags AND AT_SYMLINK_NOFOLLOW = 0)) (\<lambda>(res, err).
              case err of None \<Rightarrow> ret res | Some x \<Rightarrow> unless_error (x \<noteq> ENOENT) x (ret res)))))"

text \<open>\<^verbatim>\<open>FStatAt\<close>; where the source returns whatever \<^verbatim>\<open>errno\<close> holds and it has not been set, the result is not given a meaning.\<close>

definition Sys_FStatAt :: "sys_env \<Rightarrow> u64 \<Rightarrow> Pointer \<Rightarrow> u64 \<Rightarrow> Pointer \<Rightarrow> stat sys" where
  "Sys_FStatAt e dirFdNum path flags out =
     unless_error (flags AND NOT (AT_EMPTY_PATH OR AT_NO_AUTOMOUNT OR AT_SYMLINK_NOFOLLOW) \<noteq> 0 \<or> out = 0) EINVAL
       (asks (ValidateRead path 1) (\<lambda>ok. unless_error (path \<noteq> 0 \<and> \<not> ok) EFAULT
         (let name = (if path = 0 then [] else se_string e path)
          in unless_error (\<not> se_ValidateLength e name) ENAMETOOLONG
            (asks (GetFileHandle dirFdNum) (\<lambda>fd. asks fp_CWD (\<lambda>cwdEntry.
               let stats = (\<lambda>i. asks (\<lambda>s. INode_Stats (in_Metadata (inode_at (fp_vfs s) i))) ret);
                   null = (\<lambda>err. deref err fail)
               in if name = [] then
                    unless_error (flags AND AT_EMPTY_PATH = 0) ENOENT
                      (if dirFdNum = AT_FDCWD then
                         the_dentry cwdEntry (\<lambda>c. case de_INode c of None \<Rightarrow> fail ENOENT | Some i \<Rightarrow> stats i)
                       else case fd of
                         None \<Rightarrow> fail EBADF
                       | Some fd \<Rightarrow> asks (\<lambda>s. de_INode (dentry_at (fp_vfs s) (fd_DirectoryEntry (fp_fds s ! fd)))) (\<lambda>i. deref i stats))
                  else
                    andthen (if po_Absolute (se_path e) name then asks (RootDirectoryEntry \<circ> fp_vfs) (\<lambda>r. deref r ret)
                             else andthen (if dirFdNum = AT_FDCWD then ret cwdEntry
                                  else case fd of
                                    None \<Rightarrow> fail EBADF
                                  | Some fd \<Rightarrow> asks (\<lambda>s. fd_DirectoryEntry (fp_fds s ! fd)) (\<lambda>d. the_dentry d (\<lambda>x.
                                      unless_error (\<not> DirectoryEntry_IsDirectory x) ENOTDIR (ret d))))
                               (\<lambda>d. asks (FollowMounts d \<circ> fp_vfs) (\<lambda>m. deref m ret)))
                      (\<lambda>parent. andthen (resolve e (Some parent) name (flags AND AT_SYMLINK_NOFOLLOW = 0)) (\<lambda>(res, err).
                         case res_Entry res of
                           None \<Rightarrow> null err
                         | Some entry \<Rightarrow> the_dentry entry (\<lambda>x. case de_INode x of None \<Rightarrow> null err | Some i \<Rightarrow> stats i)))))))))"

definition Sys_Stat :: "sys_env \<Rightarrow> Pointer \<Rightarrow> Pointer \<Rightarrow> stat sys" where
  "Sys_Stat e path out = Sys_FStatAt e AT_FDCWD path 0 out"

text \<open>The empty string is at an address of the kernel; here it is a null pointer, which is treated alike.\<close>

definition Sys_FStat :: "sys_env \<Rightarrow> u64 \<Rightarrow> Pointer \<Rightarrow> stat sys" where
  "Sys_FStat e fdNum out = Sys_FStatAt e fdNum 0 AT_EMPTY_PATH out"

definition Sys_LStat :: "sys_env \<Rightarrow> Pointer \<Rightarrow> Pointer \<Rightarrow> stat sys" where
  "Sys_LStat e path out = Sys_FStatAt e AT_FDCWD path AT_SYMLINK_NOFOLLOW out"




section \<open>The working directory\<close>




text \<open>
  The path of an entry: its name and those of its parents up to the root, each with a slash in front.  The builder's \<^verbatim>\<open>Insert\<close> puts a
  segment in front of what it has.
\<close>

partial_function (option) path_loop :: "nat \<Rightarrow> nat option \<Rightarrow> string \<Rightarrow> vfs \<Rightarrow> string option" where
  "path_loop root current acc v =
     (case current of
        None \<Rightarrow> Some acc
      | Some d \<Rightarrow>
          if d = root then Some acc
          else case GetEffectiveParent d v of
                 None \<Rightarrow> None
               | Some parent \<Rightarrow>
                   path_loop root parent (if de_Name (dentry_at v d) = ''/'' then acc else ''/'' @ de_Name (dentry_at v d) @ acc) v)"

definition DirectoryEntry_Path :: "nat \<Rightarrow> vfs \<Rightarrow> string option" where
  "DirectoryEntry_Path d v =
     (case RootDirectoryEntry v of
        None \<Rightarrow> None
      | Some root \<Rightarrow> map_option (\<lambda>p. if p = [] then ''/'' else p) (path_loop root (Some d) [] v))"

definition Sys_GetCwd :: "Pointer \<Rightarrow> usize \<Rightarrow> string sys" where
  "Sys_GetCwd buffer sz =
     unless_error (buffer = 0 \<or> sz = 0) EINVAL
       (asks (ValidateWrite buffer sz) (\<lambda>ok. unless_error (\<not> ok) EFAULT
         (asks (\<lambda>s. DirectoryEntry_Path (fp_CWD s) (fp_vfs s)) (\<lambda>p. deref p (\<lambda>path.
            unless_error (sz < of_nat (length path)) ERANGE (ret path))))))"

section \<open>Names\<close>

definition zero :: "'a \<Rightarrow> usize sys" where
  "zero x = ret 0"

text \<open>Creating below the parent that the resolution found; the functions of \<^verbatim>\<open>VFS\<close> follow the pointer to it.\<close>

definition create_at :: "sys_env \<Rightarrow> u64 \<Rightarrow> string \<Rightarrow> (nat \<Rightarrow> string \<Rightarrow> vfs \<Rightarrow> nat error_or \<times> vfs) \<Rightarrow> usize sys" where
  "create_at e dirFdNum path f =
     andthen (ResolveAtFd e dirFdNum path 0) (\<lambda>res. deref (res_Parent res) (\<lambda>directory.
       andthen (on_vfs (\<lambda>v. Some (f directory (res_BaseName res) v))) zero))"

definition Sys_MkDirAt :: "sys_env \<Rightarrow> u64 \<Rightarrow> Pointer \<Rightarrow> mode_t \<Rightarrow> usize sys" where
  "Sys_MkDirAt e dirFdNum pathname mode =
     asks (ValidateRead pathname 255) (\<lambda>ok. unless_error (\<not> ok) EFAULT
       (create_at e dirFdNum (if pathname = 0 then [] else se_string e pathname)
          (\<lambda>directory name. VFS_CreateDirectory_in (se_vfs e) directory name mode)))"

definition Sys_MkDir :: "sys_env \<Rightarrow> Pointer \<Rightarrow> mode_t \<Rightarrow> usize sys" where
  "Sys_MkDir e pathname mode = Sys_MkDirAt e AT_FDCWD pathname mode"


definition Sys_SymlinkAt :: "sys_env \<Rightarrow> Pointer \<Rightarrow> u64 \<Rightarrow> Pointer \<Rightarrow> usize sys" where
  "Sys_SymlinkAt e targetPath newDirFdNum linkPath =
     create_at e newDirFdNum (se_string e linkPath) (\<lambda>directory name. VFS_Symlink_in (se_vfs e) directory name (se_string e targetPath))"

definition Sys_Symlink :: "sys_env \<Rightarrow> Pointer \<Rightarrow> Pointer \<Rightarrow> usize sys" where
  "Sys_Symlink e target linkPath = Sys_SymlinkAt e target AT_FDCWD linkPath"

definition Sys_LinkAt :: "sys_env \<Rightarrow> u64 \<Rightarrow> Pointer \<Rightarrow> u64 \<Rightarrow> Pointer \<Rightarrow> u64 \<Rightarrow> usize sys" where
  "Sys_LinkAt e oldDirFdNum oldPath newDirFdNum newPath flags =
     andthen (ResolveAtFd e oldDirFdNum (se_string e oldPath) 0) (\<lambda>old.
       andthen (ResolveAtFd e newDirFdNum (se_string e newPath) 0) (\<lambda>new.
         deref (res_Parent old) (\<lambda>oldParent. deref (res_Parent new) (\<lambda>newParent.
           andthen (on_vfs (VFS_Link_in (se_vfs e) oldParent (res_BaseName old) newParent (res_BaseName new))) zero))))"

definition Sys_Link :: "sys_env \<Rightarrow> Pointer \<Rightarrow> Pointer \<Rightarrow> usize sys" where
  "Sys_Link e oldPath newPath = Sys_LinkAt e AT_FDCWD oldPath AT_FDCWD newPath 0"

definition Sys_Unlink :: "Pointer \<Rightarrow> usize sys" where
  "Sys_Unlink path = fail ENOSYS"

definition Sys_UnlinkAt :: "u64 \<Rightarrow> Pointer \<Rightarrow> u64 \<Rightarrow> usize sys" where
  "Sys_UnlinkAt dirFdNum path flags = fail ENOSYS"

text \<open>\<^verbatim>\<open>RenameAt2\<close> calls \<^verbatim>\<open>Rename\<close> on the inode of the old parent.\<close>

definition Sys_RenameAt2 :: "sys_env \<Rightarrow> u64 \<Rightarrow> Pointer \<Rightarrow> u64 \<Rightarrow> Pointer \<Rightarrow> usize \<Rightarrow> usize sys" where
  "Sys_RenameAt2 e oldDirFdNum oldPath newDirFdNum newPath flags =
     andthen (ResolveAtFd e oldDirFdNum (se_string e oldPath) 0) (\<lambda>old.
       andthen (ResolveAtFd e newDirFdNum (se_string e newPath) 0) (\<lambda>new.
         deref (res_Parent old) (\<lambda>op. the_dentry op (\<lambda>p. deref (de_INode p) (\<lambda>oldParent.
           asks (\<lambda>s. INode_IsDirectory (in_Metadata (inode_at (fp_vfs s) oldParent))) (\<lambda>dir.
             unless_error (\<not> dir) ENOTDIR
               (unless_error (res_Entry old = None) ENOENT
                 (unless_error (res_Entry new \<noteq> None) EEXIST
                   (deref (res_Parent new) (\<lambda>np. the_dentry np (\<lambda>n. deref (de_INode n) (\<lambda>newParent.
                      let newName = (if res_BaseName new \<noteq> [] then res_BaseName new else res_BaseName old)
                      in on_vfs (\<lambda>v. Some (Inr 0, Synth_Rename oldParent newParent newName v))))))))))))))"

definition Sys_RenameAt :: "sys_env \<Rightarrow> u64 \<Rightarrow> Pointer \<Rightarrow> u64 \<Rightarrow> Pointer \<Rightarrow> usize sys" where
  "Sys_RenameAt e oldDirFdNum oldPath newDirFdNum newPath = Sys_RenameAt2 e oldDirFdNum oldPath newDirFdNum newPath 0"

definition Sys_Rename :: "sys_env \<Rightarrow> Pointer \<Rightarrow> Pointer \<Rightarrow> usize sys" where
  "Sys_Rename e oldPath newPath = Sys_RenameAt e AT_FDCWD oldPath AT_FDCWD newPath"


section \<open>Metadata\<close>

text \<open>The returned number and the bytes put into the buffer.\<close>

definition Sys_ReadLinkAt :: "sys_env \<Rightarrow> u64 \<Rightarrow> Pointer \<Rightarrow> usize \<Rightarrow> (usize \<times> string) sys" where
  "Sys_ReadLinkAt e dirFdNum pathView bufferSize =
     andthen (ResolveAtFd e dirFdNum (se_string e pathView) AT_SYMLINK_NOFOLLOW) (\<lambda>res.
       case res_Entry res of
         None \<Rightarrow> fail ENOENT
       | Some entry \<Rightarrow> the_dentry entry (\<lambda>x. deref (de_INode x) (\<lambda>i.
           asks (\<lambda>s. Synth_ReadLink i (fp_vfs s)) (\<lambda>r.
             case r of Inl err \<Rightarrow> fail err | Inr link \<Rightarrow> ret (0, take (min (length link) (unat bufferSize)) link)))))"

definition Sys_ReadLink :: "sys_env \<Rightarrow> Pointer \<Rightarrow> usize \<Rightarrow> (usize \<times> string) sys" where
  "Sys_ReadLink e path sz = Sys_ReadLinkAt e AT_FDCWD path sz"

text \<open>The mode is passed on as the flags of the resolution.\<close>

definition Sys_FChModAt :: "sys_env \<Rightarrow> u64 \<Rightarrow> string \<Rightarrow> mode_t \<Rightarrow> usize sys" where
  "Sys_FChModAt e dirFdNum path mode =
     andthen (ResolveAtFd e dirFdNum path (ucast mode)) (\<lambda>res.
       case res_Entry res of
         None \<Rightarrow> fail ENOENT
       | Some entry \<Rightarrow> the_dentry entry (\<lambda>x. deref (de_INode x) (\<lambda>i.
           asks (\<lambda>s. IsSuperUser s \<or> UserID (fp_Credentials s) = UID (in_Metadata (inode_at (fp_vfs s) i))) (\<lambda>may.
             unless_error (\<not> may) EPERM
               (on_vfs (\<lambda>v. Some (Inr 0, Synth_FlushMetadata i (upd_inode i (\<lambda>n.
                  let (m, dirty) = INode_ChangeMode mode (in_Metadata n, in_Dirty n) in n\<lparr>in_Metadata := m, in_Dirty := dirty\<rparr>) v))))))))"

definition Sys_ChMod :: "sys_env \<Rightarrow> Pointer \<Rightarrow> mode_t \<Rightarrow> usize sys" where
  "Sys_ChMod e path mode = Sys_FChModAt e AT_FDCWD (se_string e path) mode"

definition Sys_FChMod :: "sys_env \<Rightarrow> u64 \<Rightarrow> mode_t \<Rightarrow> usize sys" where
  "Sys_FChMod e fdNum mode = Sys_FChModAt e fdNum ''.'' mode"








section \<open>Mounting\<close>


section \<open>What the calls keep\<close>











text \<open>Every number in the table names an open file.\<close>

definition fds_ok :: "file_process \<Rightarrow> bool" where
  "fds_ok s \<longleftrightarrow> (\<forall>(n, k) \<in> set (m_Table (fp_FdTable s)). k < length (fp_fds s))"














lemma first_free_word:
  fixes A :: "u32 set"
  assumes "finite A" "card A < k" "k \<le> 2 ^ 32"
  shows "\<exists>i < k. word_of_int (n + int i) \<notin> A"
proof (rule ccontr)
  assume "\<not> ?thesis"
  then have "(\<lambda>i. word_of_int (n + int i)) ` {..<k} \<subseteq> A" by auto
  then have "card ((\<lambda>i. word_of_int (n + int i) :: u32) ` {..<k}) \<le> card A" using assms(1) by (rule card_mono [rotated])
  moreover have "inj_on (\<lambda>i. word_of_int (n + int i) :: u32) {..<k}"
  proof (rule inj_onI)
    fix i j assume ij: "i \<in> {..<k}" "j \<in> {..<k}" "word_of_int (n + int i) = (word_of_int (n + int j) :: u32)"
    then have "unat (of_nat i :: u32) = unat (of_nat j :: u32)" by simp
    then show "i = j" using ij(1,2) assms(3) by (simp add: unat_of_nat)
  qed
  ultimately show False using assms(2) by (simp add: card_image)
qed

lemma next_number:
  fixes t :: "'f FileDescriptorTable"
  assumes "length (m_Table t) < 2 ^ 32"
  shows "n \<le> next_number n t \<and> \<not> Table_IsValid (word_of_int (next_number n t)) t \<and>
    (\<forall>k. n \<le> k \<and> k < next_number n t \<longrightarrow> Table_IsValid (word_of_int k) t)"
proof -
  let ?P = "\<lambda>k. \<not> Table_IsValid (word_of_int k) t" and ?xs = "map (\<lambda>k. n + int k) [0..<length (m_Table t) + 1]"
  have "card (fst ` set (m_Table t)) < length (m_Table t) + 1"
    using card_image_le [of "set (m_Table t)" fst] card_length [of "m_Table t"] by simp
  from first_free_word [OF _ this, of n] assms obtain i where "i < length (m_Table t) + 1" "word_of_int (n + int i) \<notin> fst ` set (m_Table t)"
    by auto
  then have "?P (n + int i)" "n + int i \<in> set ?xs" by (auto simp: Table_IsValid_def map_of_eq_None_iff simp del: upt_Suc)
  then have "\<exists>k \<in> set ?xs. ?P k" by blast
  then obtain k where k: "List.find ?P ?xs = Some k" by (cases "List.find ?P ?xs") (auto simp: find_None_iff)
  then obtain j where j: "j < length ?xs" "?P (?xs ! j)" "k = ?xs ! j" "\<forall>i < j. \<not> ?P (?xs ! i)" by (auto simp: find_Some_iff)
  have nth: "?xs ! i = n + int i" if "i \<le> j" for i using that j(1) by (simp del: upt_Suc)
  have kn: "k = n + int j" using j(3) nth by blast
  have "Table_IsValid (word_of_int m) t" if "n \<le> m" "m < k" for m
    using that j(4) kn nth [of "nat (m - n)"] by (auto dest!: spec [of _ "nat (m - n)"])
  with k j(2,3) kn show ?thesis by (simp add: next_number_def del: upt_Suc)
qed

lemma Table_GetFd_map: "Table_GetFd m t = map_of (m_Table t) m"
  by (simp add: Table_GetFd_def Table_IsValid_def)

lemma Table_Insert_free:
  assumes "0 \<le> sint n" "\<not> Table_IsValid n t"
  shows "fst (Table_Insert x n t) = n" "Table_GetFd m (snd (Table_Insert x n t)) = (if m = n then Some x else Table_GetFd m t)"
  using assms by (simp_all add: Table_Insert_def Table_GetFd_map Table_IsValid_def update_conv')

lemma scast_number: "0 \<le> m \<Longrightarrow> m < 2 ^ 31 \<Longrightarrow> (scast (word_of_int m :: u32) :: u64) = word_of_int m \<and> sint (word_of_int m :: u32) = m"
proof -
  assume m: "0 \<le> m" "m < 2 ^ 31"
  then have "sint (word_of_int m :: u32) = m" by (simp add: signed_of_int signed_take_bit_int_eq_self)
  moreover from this have "(scast (word_of_int m :: u32) :: u64) = word_of_int m" by (simp add: scast_eq)
  ultimately show ?thesis by simp
qed

lemma DupFd_result:
  assumes "GetFileHandle n s = Some k" "n \<noteq> n'" "length (m_Table (fp_FdTable s)) < 2 ^ 32"
    and "max 0 (sint n') \<le> m" "m < 2 ^ 31" "\<not> Table_IsValid (word_of_int m) (fp_FdTable s)"
    and "\<And>j. max 0 (sint n') \<le> j \<Longrightarrow> j < m \<Longrightarrow> Table_IsValid (word_of_int j) (fp_FdTable s)"
  shows "Process_DupFd n n' flags s = Some (Inr (word_of_int m), s\<lparr>fp_FdTable := snd (Table_Insert k (word_of_int m) (fp_FdTable s))\<rparr>)"
proof -
  let ?j = "next_number (max 0 (sint n')) (fp_FdTable s)"
  have "?j = m" using next_number [OF assms(3), of "max 0 (sint n')"] assms(4,6,7) by (metis linorder_neqE_linordered_idom)
  moreover have "0 \<le> sint (word_of_int m :: u32)" "(scast (word_of_int m :: u32) :: u64) = word_of_int m"
    using scast_number [of m] assms(4,5) by auto
  ultimately show ?thesis
    using assms(1,2) Table_Insert_free(1) [OF _ assms(6), of k]
    by (simp add: Process_DupFd_def with_fd_def sys_defs Let_def split_beta)
qed

lemma ucast_scast_number: "ucast (scast (j :: u32) :: u64) = j"
  by (rule bit_word_eqI) (auto simp: bit_ucast_iff bit_signed_iff)

lemma Table_Insert_get: "Table_GetFd m (snd (Table_Insert x n t)) = (if m = fst (Table_Insert x n t) then Some x else Table_GetFd m t)"
  by (simp add: Table_Insert_def Table_GetFd_map Let_def update_conv')

lemma DupFd_shares:
  assumes "Process_DupFd n n' flags s = Some (Inr m, s1)" "GetFileHandle n s = Some k"
  shows "GetFileHandle n s1 = Some k" "GetFileHandle m s1 = Some k" "fp_fds s1 = fp_fds s" "fp_vfs s1 = fp_vfs s" "fp_Regions s1 = fp_Regions s"
proof -
  from assms obtain j where "m = scast (fst (Table_Insert k j (fp_FdTable s)))"
    "s1 = s\<lparr>fp_FdTable := snd (Table_Insert k j (fp_FdTable s))\<rparr>"
    by (auto simp: Process_DupFd_def with_fd_def sys_defs Let_def split_beta split: if_splits option.splits)
  then show "GetFileHandle n s1 = Some k" "GetFileHandle m s1 = Some k" "fp_fds s1 = fp_fds s" "fp_vfs s1 = fp_vfs s" "fp_Regions s1 = fp_Regions s"
    using assms(2) by (simp_all add: GetFileHandle_def Table_Insert_get ucast_scast_number)
qed

text \<open>The calls on an open number.\<close>

abbreviation put_fd :: "nat \<Rightarrow> FileDescriptor \<Rightarrow> vfs \<Rightarrow> file_process \<Rightarrow> file_process" where
  "put_fd k x v s \<equiv> s\<lparr>fp_fds := (fp_fds s)[k := x], fp_vfs := v\<rparr>"

lemma GetFileHandle_put [simp]: "GetFileHandle n (s\<lparr>fp_fds := xs, fp_vfs := v\<rparr>) = GetFileHandle n s"
  by (simp add: GetFileHandle_def)

lemma LSeek_open:
  assumes "GetFileHandle n s = Some k" "FileDescriptor_Seek (se_methods e) (fp_fds s ! k) (ucast whence) offset (fp_vfs s) = Some (r, x)"
  shows "Sys_LSeek e n offset whence s = Some (r, put_fd k x (fp_vfs s) s)"
  using assms by (simp add: Sys_LSeek_def with_fd_def on_fd_def sys_defs)

lemma Write_open:
  assumes "GetFileHandle n s = Some k" "ValidateRead buf (of_nat (length bs)) s"
    and "FileDescriptor_Write (se_methods e) (se_vfs e) (fp_fds s ! k) bs (- 1) (fp_vfs s) = Some (r, x, v)"
  shows "Sys_Write e n buf bs s = Some (r, put_fd k x v s)"
  using assms by (simp add: Sys_Write_def with_fd_def on_fd_def sys_defs)

lemma Read_open:
  assumes "GetFileHandle n s = Some k" "ValidateWrite out bytes s" "FileDescriptor_CanRead (fp_fds s ! k)"
    and "FileDescriptor_Read (se_methods e) (se_vfs e) (fp_fds s ! k) bytes (- 1) (fp_vfs s) = Some (r, x, v)"
  shows "Sys_Read e n out bytes s = Some (r, put_fd k x v s)"
  using assms by (simp add: Sys_Read_def with_fd_def on_fd_def sys_defs)

lemma Write_at_offset:
  "0 \<le> sint (fd_Offset fd) \<Longrightarrow> FileDescriptor_Write fm env fd bs (- 1) v = FileDescriptor_Write fm env fd bs (fd_Offset fd) v"
  by (simp add: FileDescriptor_Write_def)

lemma Write_keeps_access: "FileDescriptor_Write fm env fd bs offset v = Some (r, fd', v') \<Longrightarrow> fd_AccessMode fd' = fd_AccessMode fd"
  by (auto simp: FileDescriptor_Write_def Let_def split: if_splits option.splits sum.splits)

lemma Seek_keeps_access: "FileDescriptor_Seek fm fd whence offset v = Some (r, fd') \<Longrightarrow> fd_AccessMode fd' = fd_AccessMode fd"
  by (auto simp: FileDescriptor_Seek_def Let_def split: if_splits option.splits)

section \<open>Properties\<close>

text \<open>
  What is written through a number is read back through its duplicate and the other way round: both name one open file, with one offset.
\<close>

theorem duplicate_shares_file_and_offset:
  assumes "Sys_Dup n s = Some (Inr m, s1)" "GetFileHandle n s = Some k" "k < length (fp_fds s)"
    and x: "FileDescriptor_CanRead (fp_fds s ! k)" "FileDescriptor_CanWrite (fp_fds s ! k)" "fd_File (fp_fds s ! k) = Some (INodeFile i)"
    and i: "i < length (vfs_inodes (fp_vfs s))" "\<not> INode_IsDirectory (in_Metadata (inode_at (fp_vfs s) i))"
      "length (in_Buffer (inode_at (fp_vfs s) i)) < 2 ^ 62"
    and "unat offset + length bs \<le> 2 ^ 62"
    and "ValidateRead buf (of_nat (length bs)) s" "ValidateWrite out (of_nat (length bs)) s"
  shows "\<exists>s2 s3 s4 s5. Sys_LSeek e n offset SEEK_SET s1 = Some (Inr offset, s2) \<and> Sys_Write e m buf bs s2 = Some (Inr (of_nat (length bs)), s3) \<and>
    Sys_LSeek e m offset SEEK_SET s3 = Some (Inr offset, s4) \<and> Sys_Read e n out (of_nat (length bs)) s4 = Some (Inr bs, s5) \<and>
    fd_Offset (fp_fds s5 ! k) = offset + of_nat (length bs)"
proof -
  note s1 = DupFd_shares [OF assms(1) [unfolded Sys_Dup_def] assms(2)]
  have off: "0 \<le> sint offset" using assms(10) by (simp add: sint_unat64)
  let ?x = "(fp_fds s ! k)\<lparr>fd_Offset := offset\<rparr>"
  have seek: "FileDescriptor_Seek (se_methods e) (fp_fds s ! k) 0 offset v = Some (Inr offset, ?x)" for v
    using x(3) off by (simp add: FileDescriptor_Seek_def SEEK_SET_def)
  have "FileDescriptor_CanRead ?x" "FileDescriptor_CanWrite ?x" "fd_File ?x = Some (INodeFile i)" "fd_Offset ?x = offset"
    using x by (simp_all add: FileDescriptor_CanRead_def FileDescriptor_CanWrite_def)
  from descriptor_write_seek_read [OF this(1-3) i assms(10), of "se_methods e" "se_vfs e"] this(4)
  obtain x1 v1 x2 x3 v3 where w: "FileDescriptor_Write (se_methods e) (se_vfs e) ?x bs (- 1) (fp_vfs s) = Some (Inr (of_nat (length bs)), x1, v1)"
      "FileDescriptor_Seek (se_methods e) x1 0 offset v1 = Some (Inr offset, x2)"
      "FileDescriptor_Read (se_methods e) (se_vfs e) x2 (of_nat (length bs)) (- 1) v1 = Some (Inr bs, x3, v3)"
      "fd_Offset x3 = offset + of_nat (length bs)"
    using Write_at_offset [of ?x] off by auto
  have r2: "FileDescriptor_CanRead x2"
    using x(1) Write_keeps_access [OF w(1)] Seek_keeps_access [OF w(2)] by (simp add: FileDescriptor_CanRead_def)
  let ?s2 = "put_fd k ?x (fp_vfs s) s1"
  let ?s3 = "put_fd k x1 v1 ?s2"
  let ?s4 = "put_fd k x2 v1 ?s3"
  have k: "k < length (fp_fds s1)" using assms(3) s1(3) by simp
  have "Sys_LSeek e n offset SEEK_SET s1 = Some (Inr offset, ?s2)"
    using LSeek_open [OF s1(1), of e SEEK_SET offset "Inr offset" ?x] seek s1(3,4) by (simp add: SEEK_SET_def)
  moreover have "Sys_Write e m buf bs ?s2 = Some (Inr (of_nat (length bs)), ?s3)"
    using assms(11) w(1) s1 k by (intro Write_open) (simp_all add: ValidateRead_def)
  moreover have "Sys_LSeek e m offset SEEK_SET ?s3 = Some (Inr offset, ?s4)"
    using LSeek_open [of m ?s3 k e SEEK_SET offset "Inr offset" x2] w(2) s1 k by (simp add: SEEK_SET_def)
  moreover have "Sys_Read e n out (of_nat (length bs)) ?s4 = Some (Inr bs, put_fd k x3 v3 ?s4)"
    using assms(12) w(3) r2 s1 k by (intro Read_open) (simp_all add: ValidateWrite_def)
  ultimately show ?thesis using w(4) k by fastforce
qed

text \<open>
  Claim C33. \<^verbatim>\<open>dup\<close>, \<^verbatim>\<open>dup2\<close> and \<^verbatim>\<open>fcntl\<close> give the duplicate the lowest number, from the one asked for, that is not in use; it names the same open
  file, and no other number and no file changes.
\<close>

theorem duplicate_takes_lowest_number:
  assumes "GetFileHandle n s = Some k" "n \<noteq> n'" "length (m_Table (fp_FdTable s)) < 2 ^ 32"
    and "max 0 (sint n') \<le> m" "m < 2 ^ 31" "\<not> Table_IsValid (word_of_int m) (fp_FdTable s)"
    and "\<And>j. max 0 (sint n') \<le> j \<Longrightarrow> j < m \<Longrightarrow> Table_IsValid (word_of_int j) (fp_FdTable s)"
  shows "\<exists>s'. Process_DupFd n n' flags s = Some (Inr (word_of_int m), s') \<and> fp_fds s' = fp_fds s \<and> fp_vfs s' = fp_vfs s \<and>
    (\<forall>j. GetFileHandle j s' = (if ucast j = (word_of_int m :: u32) then Some k else GetFileHandle j s))"
proof -
  have "0 \<le> sint (word_of_int m :: u32)" using scast_number [of m] assms(4,5) by auto
  then show ?thesis
    using DupFd_result [OF assms] Table_Insert_free [OF _ assms(6), where x = k] by (simp add: GetFileHandle_def)
qed



section \<open>The path of the working directory\<close>

text \<open>The entry reached from the root through cached children with these names.\<close>

inductive below :: "vfs \<Rightarrow> nat \<Rightarrow> string list \<Rightarrow> nat \<Rightarrow> bool" for v root where
  below_root: "below v root [] root"
| below_child: "below v root names d \<Longrightarrow> (name, x) \<in> set (de_Children (dentry_at v d)) \<Longrightarrow> x \<noteq> root \<Longrightarrow> name \<noteq> ''/'' \<Longrightarrow>
    (\<And>i. de_INode (dentry_at v d) = Some i \<Longrightarrow> INode_IsDirectory (in_Metadata (inode_at v i))) \<Longrightarrow> below v root (names @ [name]) x"

definition path_string :: "string list \<Rightarrow> string" where
  "path_string names = (if names = [] then ''/'' else concat (map (\<lambda>name. CHR ''/'' # name) names))"

lemma walk_snoc:
  "names \<noteq> [] \<Longrightarrow> walk v i names = Inr c \<Longrightarrow> INode_IsDirectory (in_Metadata (inode_at v c)) \<Longrightarrow> dir_map v c name = Some j \<Longrightarrow>
    walk v i (names @ [name]) = Inr j"
  by (induction names arbitrary: i) (auto split: option.splits if_splits)

lemma below_walk:
  assumes "plain v" "root < length (vfs_dentries v)" "de_INode (dentry_at v root) = Some i" "below v root names d"
  shows "d < length (vfs_dentries v) \<and> (\<exists>c. de_INode (dentry_at v d) = Some c \<and> walk v i names = Inr c)"
  using assms(4)
proof (induction rule: below.induct)
  case (below_child names d name x)
  then obtain c where c: "d < length (vfs_dentries v)" "de_INode (dentry_at v d) = Some c" "walk v i names = Inr c" by auto
  have "child_ok v d name x"
    using plainD(1) [OF assms(1)] c(1) below_child.hyps(2) by (auto simp: dcache_ok_def dentry_ok_iff)
  with c(2) obtain j where x: "x < length (vfs_dentries v)" "de_INode (dentry_at v x) = Some j" "dir_map v c name = Some j"
    by (cases "dir_map v c name") (auto simp: child_ok_def)
  have "walk v i (names @ [name]) = Inr j"
    using walk_snoc [OF _ c(3) below_child.hyps(5) [OF c(2)] x(3)] c(3) x(3) by (cases "names = []") auto
  with x show ?case by blast
qed (use assms in auto)

lemma below_path_loop:
  assumes "plain v" "vfs_mounts v = []" "RootDirectoryEntry v = Some root" "root < length (vfs_dentries v)"
    and "de_INode (dentry_at v root) = Some i" "below v root names d"
  shows "path_loop root (Some d) acc v = Some (concat (map (\<lambda>name. CHR ''/'' # name) names) @ acc)"
  using assms(6)
proof (induction arbitrary: acc rule: below.induct)
  case below_root
  show ?case by (simp add: path_loop.simps [of root "Some root"])
next
  case (below_child names d name x)
  have "child_ok v d name x"
    using plainD(1) [OF assms(1)] below_walk [OF assms(1,4,5) below_child.hyps(1)] below_child.hyps(2)
    by (auto simp: dcache_ok_def dentry_ok_iff)
  then have x: "de_Name (dentry_at v x) = name" "de_Parent (dentry_at v x) = Some d" by (auto simp: child_ok_def)
  have "GetEffectiveParent x v = Some (Some d)"
    using assms(2,3) plain_FollowMounts [OF assms(1,4)] below_child.hyps(3) x(2)
    by (simp add: GetEffectiveParent_def MountPoint_Lookup_def)
  then show ?case
    using x(1) below_child.hyps(3,4) below_child.IH by (simp add: path_loop.simps [of root "Some x"])
qed

text \<open>
  Claim C36. \<^verbatim>\<open>getcwd\<close> returns the names that lead from the root to the working directory, each after a slash, and following these names leads
  back to the directory.
\<close>

theorem getcwd_names_lead_back:
  assumes "plain (fp_vfs s)" "vfs_mounts (fp_vfs s) = []" "RootDirectoryEntry (fp_vfs s) = Some root" "root < length (vfs_dentries (fp_vfs s))"
    and "de_INode (dentry_at (fp_vfs s) root) = Some i" "below (fp_vfs s) root names (fp_CWD s)"
    and "buffer \<noteq> 0" "sz \<noteq> 0" "ValidateWrite buffer sz s" "of_nat (length (path_string names)) \<le> sz"
  shows "Sys_GetCwd buffer sz s = Some (Inr (path_string names), s) \<and>
    (\<exists>c. de_INode (dentry_at (fp_vfs s) (fp_CWD s)) = Some c \<and> walk (fp_vfs s) i names = Inr c)"
proof -
  have "DirectoryEntry_Path (fp_CWD s) (fp_vfs s) = Some (path_string names)"
    using below_path_loop [OF assms(1-6), of "[]"] assms(3) by (auto simp: DirectoryEntry_Path_def path_string_def)
  then show ?thesis
    using assms(7-10) below_walk [OF assms(1,4,5,6)] by (simp add: Sys_GetCwd_def sys_defs not_less)
qed

section \<open>Witnesses\<close>

text \<open>
  A process with one open file under number 3, a region for its buffers, and the directory \<^verbatim>\<open>/d\<close> in the cache as its working
  directory; every string it passes is the one given.
\<close>

definition demo_sys :: "string \<Rightarrow> sys_env" where
  "demo_sys path = \<lparr>se_path = demo_paths, se_ValidateLength = (\<lambda>_. True), se_fuel = 2, se_vfs = demo_env, se_methods = demo_methods,
     se_devices = (\<lambda>_. None), se_drivers = [], se_alignUp = (\<lambda>a _. a), se_InUserRange = (\<lambda>_ _. True), se_IoCtl = (\<lambda>_ _ _. Inl ENOTTY),
     se_string = (\<lambda>_. path), se_isize = (\<lambda>_. 0), se_times = (\<lambda>_. (timespec_zero, timespec_zero))\<rparr>"

definition demo_cached :: vfs where
  "demo_cached =
     demo_tree\<lparr>vfs_dentries := [(dentry_at demo_tree 0)\<lparr>de_Children := [(''d'', 1)]\<rparr>,
         (demo_dentry ''d'')\<lparr>de_INode := Some 1, de_Parent := Some 0, de_Flags := eDirectory\<rparr>]\<rparr>"

definition demo_process :: file_process where
  "demo_process = \<lparr>fp_vfs = demo_cached, fp_fds = [demo_fd], fp_FdTable = \<lparr>m_Table = [(3, 0)], m_NextIndex = 4\<rparr>, fp_CWD = 1, fp_Umask = 0,
     fp_Credentials = \<lparr>UserID = 0, GroupID = 0, EffectiveUserID = 0, EffectiveGroupID = 0\<rparr>,
     fp_Regions = [Region_make 0x8000 0x1000 0x1000 None]\<rparr>"

lemma demo_process_facts:
  "GetFileHandle 3 demo_process = Some 0" "fds_ok demo_process" "fp_fds demo_process = [demo_fd]" "fp_vfs demo_process = demo_cached"
  "length (m_Table (fp_FdTable demo_process)) = 1" "Table_IsValid 0 (fp_FdTable demo_process) = False"
  "ValidateWrite 0x1000 3 demo_process" "ValidateRead 0x1800 3 demo_process"
  by code_simp+

lemma demo_fd_facts: "FileDescriptor_CanRead demo_fd" "FileDescriptor_CanWrite demo_fd" "fd_File demo_fd = Some (INodeFile 2)"
  by code_simp+

lemma demo_cached_facts:
  "plain demo_cached" "vfs_mounts demo_cached = []" "length (vfs_dentries demo_cached) = 2" "de_INode (dentry_at demo_cached 0) = Some 0"
  "length (vfs_inodes demo_cached) = 3" "\<not> INode_IsDirectory (in_Metadata (inode_at demo_cached 2))" "in_Buffer (inode_at demo_cached 2) = []"
  "INode_IsDirectory (in_Metadata (inode_at demo_cached 0))" "de_Children (dentry_at demo_cached 0) = [(''d'', 1)]"
  "s_RootDirectoryEntry demo_cached = Some 0" "de_MountGate (dentry_at demo_cached 0) = None"
  by code_simp+

lemma demo_cached_root: "RootDirectoryEntry demo_cached = Some 0"
  using demo_cached_facts(10,11) by (simp add: RootDirectoryEntry_def FollowMounts.simps)

theorem duplicate_shares_file_and_offset_witness:
  "\<exists>s1 s2 s3 s4 s5. Sys_Dup 3 demo_process = Some (Inr 0, s1) \<and> Sys_LSeek (demo_sys []) 3 7 SEEK_SET s1 = Some (Inr 7, s2) \<and>
     Sys_Write (demo_sys []) 0 0x1800 [1, 2, 3] s2 = Some (Inr 3, s3) \<and> Sys_LSeek (demo_sys []) 0 7 SEEK_SET s3 = Some (Inr 7, s4) \<and>
     Sys_Read (demo_sys []) 3 0x1000 3 s4 = Some (Inr [1, 2, 3], s5)"
proof -
  have dup: "Sys_Dup 3 demo_process = Some (Inr 0, demo_process\<lparr>fp_FdTable := snd (Table_Insert 0 0 (fp_FdTable demo_process))\<rparr>)"
    unfolding Sys_Dup_def using DupFd_result [OF demo_process_facts(1), of "- 1" 0 0] demo_process_facts(5,6) by simp
  show ?thesis
    using duplicate_shares_file_and_offset [OF dup demo_process_facts(1), of 2 7 "[1, 2, 3]" "0x1800" "0x1000" "demo_sys []"]
      dup demo_process_facts demo_fd_facts demo_cached_facts by fastforce
qed

theorem duplicate_takes_lowest_number_witness:
  "\<exists>s'. Process_DupFd 3 (- 1) 0 demo_process = Some (Inr 0, s') \<and> GetFileHandle 0 s' = Some 0 \<and> GetFileHandle 3 s' = Some 0"
  using duplicate_takes_lowest_number [OF demo_process_facts(1), of "- 1" 0 0] demo_process_facts by auto



theorem getcwd_names_lead_back_witness:
  "Sys_GetCwd 0x1000 3 demo_process = Some (Inr ''/d'', demo_process) \<and>
   (\<exists>c. de_INode (dentry_at demo_cached 1) = Some c \<and> walk demo_cached 0 [''d''] = Inr c)"
proof -
  have "below demo_cached 0 ([] @ [''d'']) 1"
    by (rule below_child [OF below_root]) (use demo_cached_facts in auto)
  then have "below (fp_vfs demo_process) 0 [''d''] (fp_CWD demo_process)" by (simp add: demo_process_def)
  then show ?thesis
    using getcwd_names_lead_back [of demo_process 0 0 "[''d'']" "0x1000" 3] demo_process_facts demo_cached_facts demo_cached_root
    by (simp add: path_string_def) (simp add: demo_process_def)
qed

section \<open>Departures\<close>

text \<open>The check of a user address looks at its first byte only: neither the size nor the kind of access matters.\<close>

theorem ValidateAddress_checks_one_byte: "Process_ValidateAddress address accessMode sz regions = (\<exists>region \<in> set regions. Region_Contains region address)"
  by (induction regions) auto

text \<open>\<^verbatim>\<open>dup2\<close> onto a number in use does not replace it: the number keeps its file, and the duplicate has another number.\<close>

theorem Dup2_keeps_number_in_use:
  assumes "GetFileHandle n s = Some k" "n \<noteq> n'" "length (m_Table (fp_FdTable s)) < 2 ^ 32"
    and "0 \<le> sint n'" "sint n' < m" "m < 2 ^ 31" "\<not> Table_IsValid (word_of_int m) (fp_FdTable s)"
    and "\<And>j. sint n' \<le> j \<Longrightarrow> j < m \<Longrightarrow> Table_IsValid (word_of_int j) (fp_FdTable s)"
  shows "\<exists>s'. Sys_Dup2 n n' s = Some (Inr (word_of_int m), s') \<and> word_of_int m \<noteq> n' \<and> GetFileHandle n' s' = GetFileHandle n' s"
proof -
  have m: "(word_of_int m :: u32) \<noteq> ucast n'"
  proof -
    have "ucast n' = (word_of_int (sint n') :: u32)" by transfer (simp add: take_bit_signed_take_bit)
    moreover have "Table_IsValid (word_of_int (sint n')) (fp_FdTable s)" by (rule assms(8)) (use assms(5) in simp_all)
    ultimately show ?thesis using assms(7) by auto
  qed
  have "ucast (word_of_int m :: u64) = (word_of_int m :: u32)"
    using scast_number [of m] ucast_scast_number [of "word_of_int m"] assms(4-6) by (metis less_imp_le order_trans)
  with m have "word_of_int m \<noteq> n'" by metis
  moreover have "Process_DupFd n n' 0 s = Some (Inr (word_of_int m), s\<lparr>fp_FdTable := snd (Table_Insert k (word_of_int m) (fp_FdTable s))\<rparr>)"
    by (rule DupFd_result) (use assms in auto)
  moreover have "Table_GetFd (ucast n') (snd (Table_Insert k (word_of_int m) (fp_FdTable s))) = Table_GetFd (ucast n') (fp_FdTable s)"
    using Table_Insert_free(2) [OF _ assms(7), where x = k and m = "ucast n'"] scast_number [of m] assms(4-6) m by auto
  ultimately show ?thesis by (simp add: Sys_Dup2_def GetFileHandle_def)
qed

theorem Dup2_keeps_number_in_use_witness:
  "\<exists>s'. Sys_Dup2 3 4 (demo_process\<lparr>fp_FdTable := \<lparr>m_Table = [(3, 0), (4, 0)], m_NextIndex = 5\<rparr>\<rparr>) = Some (Inr 5, s')"
proof -
  let ?s = "demo_process\<lparr>fp_FdTable := \<lparr>m_Table = [(3, 0), (4, 0)], m_NextIndex = 5\<rparr>\<rparr>"
  have "GetFileHandle 3 ?s = Some 0" "\<not> Table_IsValid 5 (fp_FdTable ?s)" "Table_IsValid 4 (fp_FdTable ?s)" by code_simp+
  moreover have "j = 4" if "4 \<le> j" "j < 5" for j :: int using that by simp
  ultimately show ?thesis
    using Dup2_keeps_number_in_use [of 3 ?s 0 4 5] by fastforce
qed

text \<open>\<^verbatim>\<open>pread\<close> moves the position of the file.\<close>

theorem PRead_moves_position:
  assumes "GetFileHandle n s = Some k" "k < length (fp_fds s)" "0 \<le> sint offset" "Sys_PRead e n out count offset s = Some (Inr bs, s')"
  shows "fd_Offset (fp_fds s' ! k) = offset + of_nat (length bs)"
  using assms
  by (auto simp: Sys_PRead_def with_fd_def on_fd_def sys_defs FileDescriptor_Read_def Let_def split: if_splits option.splits)

theorem PRead_moves_position_witness:
  "\<exists>s'. Sys_PRead (demo_sys []) 3 0x1000 0 0 (demo_process\<lparr>fp_fds := [demo_fd\<lparr>fd_Offset := 5\<rparr>]\<rparr>) = Some (Inr [], s') \<and> fd_Offset (fp_fds s' ! 0) = 0"
proof -
  let ?s = "demo_process\<lparr>fp_fds := [demo_fd\<lparr>fd_Offset := 5\<rparr>]\<rparr>"
  have "map_option fst (Sys_PRead (demo_sys []) 3 0x1000 0 0 ?s) = Some (Inr [])" "GetFileHandle 3 ?s = Some 0" by code_simp+
  moreover from this obtain s' where "Sys_PRead (demo_sys []) 3 0x1000 0 0 ?s = Some (Inr [], s')" by fastforce
  ultimately show ?thesis using PRead_moves_position [of 3 ?s 0 0] by fastforce
qed

text \<open>\<^verbatim>\<open>close\<close> of a number that is not open succeeds with the value -1.\<close>

theorem Close_of_closed_number_succeeds: "GetFileHandle n s = None \<Longrightarrow> Sys_Close n s = Some (Inr (- 1), s)"
  by (simp add: Sys_Close_def Process_CloseFd_def Table_Erase_def GetFileHandle_def)

theorem Close_of_closed_number_succeeds_witness: "Sys_Close 5 demo_process = Some (Inr (- 1), demo_process)"
  by (rule Close_of_closed_number_succeeds) code_simp

text \<open>\<^verbatim>\<open>fchmod\<close> of an open file fails: it looks for \<^verbatim>\<open>.\<close> below the file.\<close>

theorem FChMod_of_file_fails:
  assumes "GetFileHandle n s = Some k" "n \<noteq> AT_FDCWD" "\<not> DirectoryEntry_IsDirectory (dentry_at (fp_vfs s) (fd_DirectoryEntry (fp_fds s ! k)))"
    and "se_ValidateLength e ''.''" "\<not> po_Absolute (se_path e) ''.''"
  shows "Sys_FChMod e n mode s = Some (Inl ENOTDIR, s)"
  using assms by (simp add: Sys_FChMod_def Sys_FChModAt_def ResolveAtFd_def with_fd_def the_dentry_def sys_defs)

theorem FChMod_of_file_fails_witness:
  "Sys_FChMod (demo_sys []) 3 0 (demo_process\<lparr>fp_fds := [demo_fd\<lparr>fd_DirectoryEntry := 0\<rparr>],
     fp_vfs := demo_cached\<lparr>vfs_dentries := [(dentry_at demo_cached 0)\<lparr>de_Flags := eRegular\<rparr>]\<rparr>\<rparr>) =
   Some (Inl ENOTDIR, demo_process\<lparr>fp_fds := [demo_fd\<lparr>fd_DirectoryEntry := 0\<rparr>],
     fp_vfs := demo_cached\<lparr>vfs_dentries := [(dentry_at demo_cached 0)\<lparr>de_Flags := eRegular\<rparr>]\<rparr>\<rparr>)"
  by (rule FChMod_of_file_fails [of _ _ 0]) code_simp+

text \<open>A relative path of \<^verbatim>\<open>rmdir\<close> starts at the root directory: the directory it passes on is not used.\<close>

theorem ResolveParent_ignores_directory: "ResolveParent po fuel (Some d) path v = ResolveParent po fuel None path v"
  by (simp add: ResolveParent_def)

text \<open>
  \<^verbatim>\<open>rename\<close> renames the directory that holds the file: renaming \<^verbatim>\<open>/d\<close> makes the root directory a child of itself, and \<^verbatim>\<open>d\<close> stays.
\<close>

definition demo_rename :: sys_env where
  "demo_rename = (demo_sys [])\<lparr>se_string := (\<lambda>p. if p = 1 then ''/d'' else ''/x'')\<rparr>"

theorem Rename_moves_parent:
  "map_option (\<lambda>(r, s). (r, map_of (in_Children (inode_at (fp_vfs s) 0)) ''x'', map_of (in_Children (inode_at (fp_vfs s) 0)) ''d''))
     (Sys_Rename demo_rename 1 2 demo_process) = Some (Inr 0, Some 0, Some 1)"
  by code_simp

end
