(* ===== verification/Thread_Scheduler.thy ===== *)
theory Thread_Scheduler
  imports Kernel_Prelude
begin

text \<open>
  Threads, the scheduler and events (\<^verbatim>\<open>Scheduler/Scheduler.cpp\<close>, \<^verbatim>\<open>Scheduler/Thread.cpp\<close>, \<^verbatim>\<open>Scheduler/Event.cpp\<close>).  Threads,
  processes and events are objects with a number; the state maps numbers to objects.  Every operation is atomic, as the code holds a
  lock or has interrupts disabled, except that waiting for an event is three operations, since the code lets interrupts in between
  them.  A failed assertion, a null pointer that is followed or a loop that does not end is \<open>None\<close>.
\<close>

section \<open>State\<close>

datatype ThreadState = eReady | eIdle | eKilled | eRunning | eDequeued | eEnqueued | eBlocked | eExited

record thread =
  m_State :: ThreadState
  m_IsEnqueued :: bool
  m_SignalMask :: u64
  m_PendingSignals :: u64
  m_Parent :: nat
  m_Events :: "nat list"
  m_Which :: nat

text \<open>What the scheduler reads of a process.\<close>

record sched_process =
  p_Pid :: int
  p_ProcessGroupID :: int
  p_IsDead :: bool

text \<open>An event: its pending triggers, and the threads that listen with the position the event has for them.\<close>

record event =
  Pending :: nat
  Listeners :: "(nat \<times> nat) list"

text \<open>The queues of one processor that are in use, its current and its idle thread, and its flags.\<close>

record cpu =
  ExecutionQueue :: "nat list"
  BlockedQueue :: "nat list"
  CurrentThread :: "nat option"
  IdleThread :: nat
  PreemptionEnabled :: bool
  InterruptFlag :: bool

text \<open>The whole state; \<open>deleted\<close> lists the processes that have been deleted.\<close>

record scheduler =
  threads :: "nat \<Rightarrow> thread"
  parents :: "nat \<Rightarrow> sched_process"
  events :: "nat \<Rightarrow> event"
  cpus :: "cpu list"
  s_SchedulerEnabled :: bool
  deleted :: "nat list"

definition IsDead :: "thread \<Rightarrow> bool" where
  "IsDead t \<longleftrightarrow> m_State t = eExited \<or> m_State t = eKilled"

definition IsBlocked :: "thread \<Rightarrow> bool" where
  "IsBlocked t \<longleftrightarrow> m_State t = eBlocked"

definition on_thread :: "nat \<Rightarrow> (thread \<Rightarrow> thread) \<Rightarrow> scheduler \<Rightarrow> scheduler" where
  "on_thread t f s = s\<lparr>threads := (threads s)(t := f (threads s t))\<rparr>"

definition on_event :: "nat \<Rightarrow> (event \<Rightarrow> event) \<Rightarrow> scheduler \<Rightarrow> scheduler" where
  "on_event e f s = s\<lparr>events := (events s)(e := f (events s e))\<rparr>"

definition on_cpu :: "nat \<Rightarrow> (cpu \<Rightarrow> cpu) \<Rightarrow> scheduler \<Rightarrow> scheduler" where
  "on_cpu c f s = s\<lparr>cpus := (cpus s)[c := f (cpus s ! c)]\<rparr>"

definition SetState :: "ThreadState \<Rightarrow> nat \<Rightarrow> scheduler \<Rightarrow> scheduler" where
  "SetState st t = on_thread t (\<lambda>x. x\<lparr>m_State := st\<rparr>)"

text \<open>The hook of a thread links it into at most one queue; unlinking takes it out of that queue.\<close>

definition IsLinked :: "nat \<Rightarrow> scheduler \<Rightarrow> bool" where
  "IsLinked t s \<longleftrightarrow> (\<exists>c \<in> set (cpus s). t \<in> set (ExecutionQueue c) \<or> t \<in> set (BlockedQueue c))"

definition Unlink :: "nat \<Rightarrow> scheduler \<Rightarrow> scheduler" where
  "Unlink t s = s\<lparr>cpus := map (\<lambda>c. c\<lparr>ExecutionQueue := removeAll t (ExecutionQueue c), BlockedQueue := removeAll t (BlockedQueue c)\<rparr>) (cpus s)\<rparr>"

section \<open>Preemption\<close>

definition IsPreemptionEnabled :: "nat \<Rightarrow> scheduler \<Rightarrow> bool" where
  "IsPreemptionEnabled c s \<longleftrightarrow> s_SchedulerEnabled s \<and> PreemptionEnabled (cpus s ! c)"

definition EnablePreemption :: "nat \<Rightarrow> scheduler \<Rightarrow> scheduler" where
  "EnablePreemption c s = (if \<not> s_SchedulerEnabled s then s else on_cpu c (\<lambda>x. x\<lparr>PreemptionEnabled := True\<rparr>) s)"

definition DisablePreemption :: "nat \<Rightarrow> scheduler \<Rightarrow> scheduler" where
  "DisablePreemption c s = (if \<not> s_SchedulerEnabled s then s else on_cpu c (\<lambda>x. x\<lparr>PreemptionEnabled := False\<rparr>) s)"

section \<open>The queues\<close>

definition EnqueueThread :: "nat \<Rightarrow> nat \<Rightarrow> scheduler \<Rightarrow> scheduler option" where
  "EnqueueThread c t s =
     (if IsLinked t s then None
      else if m_IsEnqueued (threads s t) then Some s
      else Some (on_cpu c (\<lambda>x. x\<lparr>ExecutionQueue := ExecutionQueue x @ [t]\<rparr>)
             (on_thread t (\<lambda>x. x\<lparr>m_IsEnqueued := True, m_State := eReady\<rparr>) s)))"

definition EnqueueNotReady :: "nat \<Rightarrow> nat \<Rightarrow> scheduler \<Rightarrow> scheduler option" where
  "EnqueueNotReady c t s =
     (if IsLinked t s then None
      else Some (on_cpu c (\<lambda>x. x\<lparr>ExecutionQueue := ExecutionQueue x @ [t]\<rparr>)
             (on_thread t (\<lambda>x. x\<lparr>m_IsEnqueued := True, m_State := (if m_State x = eRunning then eReady else m_State x)\<rparr>) s)))"

definition DequeueThread :: "nat \<Rightarrow> scheduler \<Rightarrow> scheduler option" where
  "DequeueThread t s =
     (if \<not> IsLinked t s then None
      else if \<not> m_IsEnqueued (threads s t) then Some s
      else Some (Unlink t (on_thread t (\<lambda>x. x\<lparr>m_IsEnqueued := False, m_State := eDequeued\<rparr>) s)))"

definition GetNextThread :: "nat \<Rightarrow> scheduler \<Rightarrow> (nat option \<times> scheduler) option" where
  "GetNextThread c s =
     (case ExecutionQueue (cpus s ! c) of
        [] \<Rightarrow> Some (None, s)
      | t # ts \<Rightarrow>
        let s = on_thread t (\<lambda>x. x\<lparr>m_IsEnqueued := False\<rparr>) (on_cpu c (\<lambda>x. x\<lparr>ExecutionQueue := ts\<rparr>) s)
        in if IsLinked t s then None else Some (Some t, s))"

section \<open>Signals\<close>

text \<open>The mask is compared with the number of the signal, not with its bit; the bit is a 32-bit integer, widened with its sign.\<close>

definition ShouldIgnoreSignal :: "u8 \<Rightarrow> thread \<Rightarrow> bool" where
  "ShouldIgnoreSignal signal t \<longleftrightarrow> m_SignalMask t AND ucast signal \<noteq> 0"

definition signal_bit :: "u8 \<Rightarrow> u64" where
  "signal_bit signal = scast (push_bit (unat signal) (1 :: u32))"

definition SendSignal :: "u8 \<Rightarrow> nat \<Rightarrow> scheduler \<Rightarrow> scheduler" where
  "SendSignal signal t s =
     (if ShouldIgnoreSignal signal (threads s t) then s
      else on_thread t (\<lambda>x. x\<lparr>m_PendingSignals := m_PendingSignals x OR signal_bit signal\<rparr>) s)"

text \<open>
  Dispatching a signal clears it.  The signals that end a process call \<^verbatim>\<open>Process::Exit\<close> unless it leads its group, which does not
  return; the others do nothing yet.  Numbers that name no signal run into an assertion.
\<close>

datatype dispatch = Returned | ExitsProcess nat

definition terminating_signals :: "nat list" where
  "terminating_signals = [1, 2, 9, 13, 14, 10, 12, 26, 16, 29, 27, 15]"

definition other_signals :: "nat list" where
  "other_signals = [17, 23, 28, 3, 4, 5, 6, 7, 8, 11, 24, 25, 18, 19, 20, 21, 22]"

definition DispatchSignal :: "nat \<Rightarrow> nat \<Rightarrow> scheduler \<Rightarrow> (dispatch \<times> scheduler) option" where
  "DispatchSignal signal t s =
     (if 32 \<le> signal then None
      else let s = on_thread t (\<lambda>x. x\<lparr>m_PendingSignals := m_PendingSignals x AND NOT (push_bit signal 1)\<rparr>) s;
               p = m_Parent (threads s t)
           in if signal \<in> set terminating_signals then
                Some (if p_Pid (parents s p) \<noteq> p_ProcessGroupID (parents s p) then ExitsProcess p else Returned, s)
              else if signal \<in> set other_signals then Some (Returned, s)
              else None)"

definition DispatchAnyPendingSignal :: "nat \<Rightarrow> scheduler \<Rightarrow> (dispatch \<times> scheduler) option" where
  "DispatchAnyPendingSignal t s =
     (let pendingSignals = ucast (m_PendingSignals (threads s t) AND NOT (m_SignalMask (threads s t))) :: u32
      in case List.find (\<lambda>signal. pendingSignals AND push_bit signal 1 \<noteq> 0) [0..<32] of
           None \<Rightarrow> Some (Returned, s)
         | Some signal \<Rightarrow> DispatchSignal signal t s)"

section \<open>Choosing a thread\<close>

text \<open>
  The loop of \<^verbatim>\<open>PickReadyThread\<close>.  A dead thread whose process is dead is not replaced by another one: the loop goes on with an
  object that has been deleted.
\<close>

partial_function (option) pick_loop :: "nat \<Rightarrow> nat option \<times> scheduler \<Rightarrow> (nat option \<times> scheduler) option" where
  "pick_loop c z =
     (case z of
        (None, s) \<Rightarrow> Some (None, s)
      | (Some t, s) \<Rightarrow>
        if m_State (threads s t) = eReady then Some (Some t, s)
        else if IsDead (threads s t) \<and> p_IsDead (parents s (m_Parent (threads s t))) then None
        else if IsBlocked (threads s t) then
          Option.bind (GetNextThread c (on_cpu c (\<lambda>x. x\<lparr>BlockedQueue := BlockedQueue x @ [t]\<rparr>) s)) (pick_loop c)
        else
          Option.bind (EnqueueNotReady c t s) (\<lambda>s. Option.bind (GetNextThread c s) (pick_loop c)))"

definition PickReadyThread :: "nat \<Rightarrow> scheduler \<Rightarrow> (nat \<times> dispatch \<times> scheduler) option" where
  "PickReadyThread c s =
     Option.bind (GetNextThread c s) (\<lambda>z. Option.bind (pick_loop c z) (\<lambda>(new, s).
       case new of
         None \<Rightarrow> Some (case CurrentThread (cpus s ! c) of Some t \<Rightarrow> t | None \<Rightarrow> IdleThread (cpus s ! c), Returned, s)
       | Some t \<Rightarrow> Option.bind (DispatchAnyPendingSignal t s) (\<lambda>(d, s). Some (t, d, s))))"

text \<open>Loading a thread makes it current.  A dead thread that has been switched away from takes its dead process with it.\<close>

definition SwitchContext :: "nat \<Rightarrow> nat \<Rightarrow> scheduler \<Rightarrow> scheduler option" where
  "SwitchContext c new s =
     (let cur = CurrentThread (cpus s ! c); idle = IdleThread (cpus s ! c); load = on_cpu c (\<lambda>x. x\<lparr>CurrentThread := Some new\<rparr>)
      in case cur of
           None \<Rightarrow> Some (load s)
         | Some t \<Rightarrow>
           if \<not> IsDead (threads s t) then
             if t = new then Some s
             else map_option load (if t \<noteq> idle then EnqueueNotReady c t s else Some s)
           else
             let s = load s; p = m_Parent (threads s t)
             in Some (if p_IsDead (parents s p) \<and> t \<noteq> idle then s\<lparr>deleted := deleted s @ [p]\<rparr> else s))"

text \<open>
  The timer interrupt.  When preemption is disabled the code goes on to read the quantum of the thread it has not chosen, through a
  null pointer.  When a signal ends the process of the chosen thread, control does not come back.
\<close>

datatype tick = Scheduled scheduler | Exiting nat scheduler

definition Tick :: "nat \<Rightarrow> scheduler \<Rightarrow> tick option" where
  "Tick c s =
     (if \<not> IsPreemptionEnabled c s then None
      else case PickReadyThread c s of
             None \<Rightarrow> None
           | Some (t, ExitsProcess p, s) \<Rightarrow> Some (Exiting p s)
           | Some (t, Returned, s) \<Rightarrow>
             map_option (\<lambda>s. Scheduled (if t \<noteq> IdleThread (cpus s ! c) then SetState eRunning t s else s)) (SwitchContext c t s))"

section \<open>Blocking and events\<close>

text \<open>\<^verbatim>\<open>Block\<close> of the current thread asks for a tick, which is a step of its own.\<close>

definition Block :: "nat \<Rightarrow> scheduler \<Rightarrow> scheduler" where
  "Block t s = (if IsBlocked (threads s t) then s else SetState eBlocked t s)"

definition Unblock :: "nat \<Rightarrow> nat \<Rightarrow> scheduler \<Rightarrow> scheduler option" where
  "Unblock c t s =
     (if \<not> IsBlocked (threads s t) then Some s
      else let s = SetState eReady t s
           in if m_IsEnqueued (threads s t) then Some s
              else EnqueueThread c t (if IsLinked t s then Unlink t s else s))"

fun CheckPending :: "nat \<Rightarrow> nat list \<Rightarrow> scheduler \<Rightarrow> nat option \<times> scheduler" where
  "CheckPending i [] s = (None, s)"
| "CheckPending i (e # es) s =
     (if 0 < Pending (events s e) then (Some i, on_event e (\<lambda>x. x\<lparr>Pending := Pending x - 1\<rparr>) s)
      else CheckPending (i + 1) es s)"

fun attach_from :: "nat \<Rightarrow> nat \<Rightarrow> nat list \<Rightarrow> scheduler \<Rightarrow> scheduler" where
  "attach_from t i [] s = s"
| "attach_from t i (e # es) s =
     attach_from t (i + 1) es
       (on_thread t (\<lambda>x. x\<lparr>m_Events := m_Events x @ [e]\<rparr>) (on_event e (\<lambda>x. x\<lparr>Listeners := Listeners x @ [(t, i)]\<rparr>) s))"

definition AttachListeners :: "nat list \<Rightarrow> nat \<Rightarrow> scheduler \<Rightarrow> scheduler" where
  "AttachListeners es t s = attach_from t 0 es (on_thread t (\<lambda>x. x\<lparr>m_Events := []\<rparr>) s)"

text \<open>The loop erases an entry and then steps over the one that takes its place.\<close>

fun erase_listener :: "nat \<Rightarrow> (nat \<times> nat) list \<Rightarrow> (nat \<times> nat) list" where
  "erase_listener t [] = []"
| "erase_listener t [x] = (if fst x = t then [] else [x])"
| "erase_listener t (x # y # ls) = (if fst x = t then y # erase_listener t ls else x # erase_listener t (y # ls))"

definition DetachListeners :: "nat \<Rightarrow> scheduler \<Rightarrow> scheduler" where
  "DetachListeners t s =
     on_thread t (\<lambda>x. x\<lparr>m_Events := []\<rparr>)
       (fold (\<lambda>e. on_event e (\<lambda>x. x\<lparr>Listeners := erase_listener t (Listeners x)\<rparr>)) (m_Events (threads s t)) s)"

text \<open>
  \<^verbatim>\<open>Event::Await\<close> up to the call of \<^verbatim>\<open>Scheduler::Block\<close>, with the locks of the events held: it returns the position of a pending event,
  or nothing when it must not block, or it has attached the thread.  Interrupts are on from there; \<open>Block\<close> follows, and once the thread
  runs again, \<open>Await_end\<close>.
\<close>

datatype await = AwaitReturns "nat option" scheduler | AwaitBlocks scheduler

definition Await_begin :: "nat \<Rightarrow> nat \<Rightarrow> nat list \<Rightarrow> bool \<Rightarrow> scheduler \<Rightarrow> await" where
  "Await_begin c t es block s =
     (case CheckPending 0 es s of
        (Some i, s) \<Rightarrow> AwaitReturns (Some i) s
      | (None, s) \<Rightarrow>
        if \<not> block then AwaitReturns None s
        else AwaitBlocks (on_cpu c (\<lambda>x. x\<lparr>InterruptFlag := True\<rparr>) (AttachListeners es t s)))"

definition Await_end :: "nat \<Rightarrow> bool \<Rightarrow> nat \<Rightarrow> scheduler \<Rightarrow> nat \<times> scheduler" where
  "Await_end c intState t s =
     (m_Which (threads s t), on_cpu c (\<lambda>x. x\<lparr>InterruptFlag := intState\<rparr>) (DetachListeners t s))"

fun wake_listeners :: "nat \<Rightarrow> (nat \<times> nat) list \<Rightarrow> scheduler \<Rightarrow> scheduler option" where
  "wake_listeners c [] s = Some s"
| "wake_listeners c ((t, i) # ls) s =
     Option.bind (Unblock c t (on_thread t (\<lambda>x. x\<lparr>m_Which := i\<rparr>) s)) (wake_listeners c ls)"

text \<open>Without listeners, the function returns before it restores the interrupt flag.\<close>

definition Trigger :: "nat \<Rightarrow> nat \<Rightarrow> bool \<Rightarrow> scheduler \<Rightarrow> scheduler option" where
  "Trigger c e discard s =
     (let intState = InterruptFlag (cpus s ! c); s = on_cpu c (\<lambda>x. x\<lparr>InterruptFlag := False\<rparr>) s
      in if Listeners (events s e) = [] then
           Some (if discard then s else on_event e (\<lambda>x. x\<lparr>Pending := Pending x + 1\<rparr>) s)
         else map_option (\<lambda>s. on_cpu c (\<lambda>x. x\<lparr>InterruptFlag := intState\<rparr>) (on_event e (\<lambda>x. x\<lparr>Listeners := []\<rparr>) s))
                (wake_listeners c (Listeners (events s e)) s))"

section \<open>The queues as a structure\<close>

text \<open>How often a thread is in the execution queues, and how often in any queue.\<close>

definition exec_count :: "nat \<Rightarrow> scheduler \<Rightarrow> nat" where
  "exec_count t s = sum_list (map (\<lambda>c. count_list (ExecutionQueue c) t) (cpus s))"

definition link_count :: "nat \<Rightarrow> scheduler \<Rightarrow> nat" where
  "link_count t s = sum_list (map (\<lambda>c. count_list (ExecutionQueue c) t + count_list (BlockedQueue c) t) (cpus s))"

text \<open>A thread is in at most one queue, once, and its flag says whether that is an execution queue.\<close>

definition queues_ok :: "scheduler \<Rightarrow> bool" where
  "queues_ok s \<longleftrightarrow> (\<forall>t. link_count t s \<le> 1 \<and> (m_IsEnqueued (threads s t) \<longleftrightarrow> 0 < exec_count t s))"

lemma IsLinked_count: "IsLinked t s \<longleftrightarrow> 0 < link_count t s"
proof -
  have "link_count t s = 0 \<longleftrightarrow> \<not> IsLinked t s"
    by (auto simp: IsLinked_def link_count_def count_list_0_iff)
  then show ?thesis by auto
qed

lemma exec_le_link: "exec_count t s \<le> link_count t s"
  unfolding exec_count_def link_count_def by (rule sum_list_mono) simp

lemma sum_list_replace:
  fixes f :: "'a \<Rightarrow> nat"
  assumes "c < length xs"
  shows "sum_list (map f (xs[c := x])) + f (xs ! c) = sum_list (map f xs) + f x"
  using assms elem_le_sum_list [of c "map f xs"] by (simp add: map_update sum_list_update)

lemma counts_on_thread [simp]: "exec_count u (on_thread t f s) = exec_count u s" "link_count u (on_thread t f s) = link_count u s"
  by (simp_all add: exec_count_def link_count_def on_thread_def)

lemma counts_on_event [simp]: "exec_count u (on_event e f s) = exec_count u s" "link_count u (on_event e f s) = link_count u s"
  by (simp_all add: exec_count_def link_count_def on_event_def)

lemma counts_on_cpu:
  assumes "c < length (cpus s)"
  shows "exec_count u (on_cpu c f s) + count_list (ExecutionQueue (cpus s ! c)) u =
           exec_count u s + count_list (ExecutionQueue (f (cpus s ! c))) u"
    "link_count u (on_cpu c f s) + (count_list (ExecutionQueue (cpus s ! c)) u + count_list (BlockedQueue (cpus s ! c)) u) =
           link_count u s + (count_list (ExecutionQueue (f (cpus s ! c))) u + count_list (BlockedQueue (f (cpus s ! c))) u)"
  using sum_list_replace [OF assms, of "\<lambda>c. count_list (ExecutionQueue c) u" "f (cpus s ! c)"]
    sum_list_replace [OF assms, of "\<lambda>c. count_list (ExecutionQueue c) u + count_list (BlockedQueue c) u" "f (cpus s ! c)"]
  by (simp_all add: exec_count_def link_count_def on_cpu_def)

lemma push_counts:
  assumes "c < length (cpus s)"
  shows "exec_count u (on_cpu c (\<lambda>x. x\<lparr>ExecutionQueue := ExecutionQueue x @ [t]\<rparr>) s) = exec_count u s + (if u = t then 1 else 0)"
    "link_count u (on_cpu c (\<lambda>x. x\<lparr>ExecutionQueue := ExecutionQueue x @ [t]\<rparr>) s) = link_count u s + (if u = t then 1 else 0)"
    "exec_count u (on_cpu c (\<lambda>x. x\<lparr>BlockedQueue := BlockedQueue x @ [t]\<rparr>) s) = exec_count u s"
    "link_count u (on_cpu c (\<lambda>x. x\<lparr>BlockedQueue := BlockedQueue x @ [t]\<rparr>) s) = link_count u s + (if u = t then 1 else 0)"
  using counts_on_cpu [OF assms, of u "\<lambda>x. x\<lparr>ExecutionQueue := ExecutionQueue x @ [t]\<rparr>"]
    counts_on_cpu [OF assms, of u "\<lambda>x. x\<lparr>BlockedQueue := BlockedQueue x @ [t]\<rparr>"] by (simp_all split: if_splits)

lemma pop_counts:
  assumes "c < length (cpus s)" "ExecutionQueue (cpus s ! c) = t # ts"
  shows "exec_count u s = exec_count u (on_cpu c (\<lambda>x. x\<lparr>ExecutionQueue := ts\<rparr>) s) + (if u = t then 1 else 0)"
    "link_count u s = link_count u (on_cpu c (\<lambda>x. x\<lparr>ExecutionQueue := ts\<rparr>) s) + (if u = t then 1 else 0)"
  using counts_on_cpu [OF assms(1), of u "\<lambda>x. x\<lparr>ExecutionQueue := ts\<rparr>"] assms(2) by (simp_all split: if_splits)

lemma flags_counts:
  assumes "c < length (cpus s)" "\<And>x. ExecutionQueue (f x) = ExecutionQueue x" "\<And>x. BlockedQueue (f x) = BlockedQueue x"
  shows "exec_count u (on_cpu c f s) = exec_count u s" "link_count u (on_cpu c f s) = link_count u s"
  using counts_on_cpu [OF assms(1), of u f] assms(2,3) by simp_all

lemma unlink_counts:
  "exec_count u (Unlink t s) = (if u = t then 0 else exec_count u s)"
  "link_count u (Unlink t s) = (if u = t then 0 else link_count u s)"
proof -
  have c: "count_list (removeAll t xs) u = (if u = t then 0 else count_list xs u)" for xs
    by (induction xs) auto
  have "sum_list (map (\<lambda>c. 0) xs) = (0 :: nat)" for xs :: "cpu list" by (induction xs) simp_all
  then show "exec_count u (Unlink t s) = (if u = t then 0 else exec_count u s)"
    "link_count u (Unlink t s) = (if u = t then 0 else link_count u s)"
    by (simp_all add: exec_count_def link_count_def Unlink_def c comp_def)
qed

lemma length_updates [simp]:
  "length (cpus (on_cpu c f s)) = length (cpus s)" "cpus (on_thread t g s) = cpus s" "cpus (on_event e h s) = cpus s"
  "length (cpus (Unlink t s)) = length (cpus s)" "threads (on_cpu c f s) = threads s" "threads (on_event e h s) = threads s"
  "threads (Unlink t s) = threads s" "threads (on_thread t g s) = (threads s)(t := g (threads s t))"
  "parents (on_cpu c f s) = parents s" "parents (on_thread t g s) = parents s" "parents (on_event e h s) = parents s"
  "events (on_cpu c f s) = events s" "events (on_thread t g s) = events s" "events (Unlink t s) = events s"
  "events (on_event e h s) = (events s)(e := h (events s e))"
  by (simp_all add: on_cpu_def on_thread_def on_event_def Unlink_def)

text \<open>An update of threads that leaves the flag alone, of an event, or of a processor's flags, keeps the queues.\<close>

lemma queues_ok_thread: "(\<And>x. m_IsEnqueued (f x) = m_IsEnqueued x) \<Longrightarrow> queues_ok (on_thread t f s) = queues_ok s"
  by (auto simp: queues_ok_def)

lemma queues_ok_event [simp]: "queues_ok (on_event e f s) = queues_ok s"
  by (simp add: queues_ok_def)

lemma queues_ok_SetState [simp]: "queues_ok (SetState st t s) = queues_ok s"
  by (simp add: SetState_def queues_ok_thread)

lemma queues_ok_flags:
  "c < length (cpus s) \<Longrightarrow> (\<And>x. ExecutionQueue (f x) = ExecutionQueue x) \<Longrightarrow> (\<And>x. BlockedQueue (f x) = BlockedQueue x) \<Longrightarrow>
   queues_ok (on_cpu c f s) = queues_ok s"
  by (simp add: queues_ok_def flags_counts)

lemma length_SetState [simp]: "length (cpus (SetState st t s)) = length (cpus s)"
  by (simp add: SetState_def)

lemma push_ok:
  assumes "c < length (cpus s)" "queues_ok s" "\<not> IsLinked t s" "\<And>x. m_IsEnqueued (f x)"
  shows "queues_ok (on_cpu c (\<lambda>x. x\<lparr>ExecutionQueue := ExecutionQueue x @ [t]\<rparr>) (on_thread t f s))"
proof -
  have "link_count t s = 0" "exec_count t s = 0" using assms(3) exec_le_link [of t s] by (simp_all add: IsLinked_count)
  then show ?thesis using assms by (auto simp: queues_ok_def push_counts)
qed

lemma EnqueueThread_ok:
  assumes "EnqueueThread c t s = Some u" "c < length (cpus s)" "queues_ok s"
  shows "queues_ok u \<and> length (cpus u) = length (cpus s)"
  using assms by (auto simp: EnqueueThread_def push_ok split: if_splits)

lemma EnqueueNotReady_ok:
  assumes "EnqueueNotReady c t s = Some u" "c < length (cpus s)" "queues_ok s"
  shows "queues_ok u \<and> length (cpus u) = length (cpus s)"
  using assms by (auto simp: EnqueueNotReady_def push_ok split: if_splits)

lemma DequeueThread_ok:
  assumes "DequeueThread t s = Some u" "queues_ok s"
  shows "queues_ok u \<and> length (cpus u) = length (cpus s)"
  using assms by (auto simp: DequeueThread_def queues_ok_def unlink_counts split: if_splits)

text \<open>Taking the next thread always succeeds, and the thread is then in no queue.\<close>

lemma GetNextThread_ok:
  assumes "c < length (cpus s)" "queues_ok s"
  obtains "ExecutionQueue (cpus s ! c) = []" "GetNextThread c s = Some (None, s)"
  | t ts u where "ExecutionQueue (cpus s ! c) = t # ts" "GetNextThread c s = Some (Some t, u)" "\<not> IsLinked t u"
      "u = on_thread t (\<lambda>x. x\<lparr>m_IsEnqueued := False\<rparr>) (on_cpu c (\<lambda>x. x\<lparr>ExecutionQueue := ts\<rparr>) s)"
      "queues_ok u" "length (cpus u) = length (cpus s)"
proof (cases "ExecutionQueue (cpus s ! c)")
  case Nil
  then show ?thesis using that(1) by (simp add: GetNextThread_def)
next
  case (Cons t ts)
  define u where "u = on_thread t (\<lambda>x. x\<lparr>m_IsEnqueued := False\<rparr>) (on_cpu c (\<lambda>x. x\<lparr>ExecutionQueue := ts\<rparr>) s)"
  note counts = pop_counts [OF assms(1) Cons]
  have t: "link_count t u = 0" "exec_count t u = 0"
    using assms(2) counts [of t] exec_le_link [of t u] by (auto simp: u_def queues_ok_def dest: spec [of _ t])
  then have "\<not> IsLinked t u" by (simp add: IsLinked_count)
  moreover have "queues_ok u" unfolding queues_ok_def
  proof (intro allI)
    fix v
    show "link_count v u \<le> 1 \<and> m_IsEnqueued (threads u v) = (0 < exec_count v u)"
      using t assms(2) [unfolded queues_ok_def, rule_format, of v] counts [of v] by (cases "v = t") (auto simp: u_def)
  qed
  ultimately show ?thesis using that(2) [OF Cons _ _ u_def] Cons
    by (simp add: GetNextThread_def u_def [symmetric] Let_def) (simp add: u_def)
qed

section \<open>Every operation keeps the queues\<close>

definition kept :: "scheduler \<Rightarrow> scheduler \<Rightarrow> bool" where
  "kept s u \<longleftrightarrow> queues_ok u \<and> length (cpus u) = length (cpus s)"

lemma kept_trans: "kept s u \<Longrightarrow> kept u v \<Longrightarrow> kept s v"
  by (simp add: kept_def)

lemma kept_thread:
  "queues_ok s \<Longrightarrow> (\<And>x. m_IsEnqueued (f x) = m_IsEnqueued x) \<Longrightarrow> kept s (on_thread t f s)"
  by (simp add: kept_def queues_ok_thread)

lemma kept_event: "queues_ok s \<Longrightarrow> kept s (on_event e f s)"
  by (simp add: kept_def)

lemma kept_cpu:
  "queues_ok s \<Longrightarrow> c < length (cpus s) \<Longrightarrow> (\<And>x. ExecutionQueue (f x) = ExecutionQueue x) \<Longrightarrow> (\<And>x. BlockedQueue (f x) = BlockedQueue x) \<Longrightarrow>
   kept s (on_cpu c f s)"
  by (simp add: kept_def queues_ok_flags)

lemma kept_fields: "queues_ok s \<Longrightarrow> kept s (s\<lparr>deleted := d\<rparr>)"
  by (simp add: kept_def queues_ok_def exec_count_def link_count_def)

lemma park_ok:
  assumes "c < length (cpus s)" "queues_ok s" "\<not> IsLinked t s"
  shows "kept s (on_cpu c (\<lambda>x. x\<lparr>BlockedQueue := BlockedQueue x @ [t]\<rparr>) s)"
proof -
  have "link_count t s = 0" using assms(3) by (simp add: IsLinked_count)
  then show ?thesis using assms(1,2) by (auto simp: kept_def queues_ok_def push_counts)
qed

text \<open>The thread that has been taken from a queue, if any, is in none.\<close>

definition taken :: "nat \<Rightarrow> nat option \<times> scheduler \<Rightarrow> bool" where
  "taken c z \<longleftrightarrow> c < length (cpus (snd z)) \<and> queues_ok (snd z) \<and> (case fst z of Some t \<Rightarrow> \<not> IsLinked t (snd z) | None \<Rightarrow> True)"

lemma GetNextThread_taken:
  assumes "c < length (cpus s)" "queues_ok s" "GetNextThread c s = Some z"
  shows "taken c z" "length (cpus (snd z)) = length (cpus s)"
  using assms(3) assms(1,2) by (cases rule: GetNextThread_ok [OF assms(1,2)]; auto simp: taken_def)+

lemma pick_loop_taken:
  assumes ret: "pick_loop c z = Some y"
  shows "taken c z \<longrightarrow> taken c y \<and> length (cpus (snd y)) = length (cpus (snd z))"
proof (induction rule: pick_loop.raw_induct [where P = "\<lambda>c z y. taken c z \<longrightarrow> taken c y \<and> length (cpus (snd y)) = length (cpus (snd z))", OF _ ret])
  case (1 loop c z y)
  show ?case
  proof (cases "fst z")
    case None
    then show ?thesis using 1(2) by (cases z) auto
  next
    case (Some t)
    then obtain s where z: "z = (Some t, s)" by (cases z) auto
    have step: "taken c y \<and> length (cpus (snd y)) = length (cpus u)"
      if "kept s u" "taken c z" and bind: "Option.bind (GetNextThread c u) (loop c) = Some y" for u
    proof -
      obtain w where w: "GetNextThread c u = Some w" "loop c w = Some y" using bind by (auto simp: Option.bind_eq_Some_conv)
      have "c < length (cpus u)" "queues_ok u" using that(1,2) z by (auto simp: kept_def taken_def)
      from GetNextThread_taken [OF this w(1)] 1(1) [OF w(2)] show ?thesis by simp
    qed
    show ?thesis
    proof
      assume taken: "taken c z"
      then have s: "c < length (cpus s)" "queues_ok s" "\<not> IsLinked t s" by (auto simp: taken_def z)
      have body: "(if m_State (threads s t) = eReady then Some (Some t, s)
        else if IsDead (threads s t) \<and> p_IsDead (parents s (m_Parent (threads s t))) then None
        else if IsBlocked (threads s t) then
          Option.bind (GetNextThread c (on_cpu c (\<lambda>x. x\<lparr>BlockedQueue := BlockedQueue x @ [t]\<rparr>) s)) (loop c)
        else Option.bind (EnqueueNotReady c t s) (\<lambda>s. Option.bind (GetNextThread c s) (loop c))) = Some y"
        using 1(2) by (simp add: z)
      show "taken c y \<and> length (cpus (snd y)) = length (cpus (snd z))"
      proof (cases "m_State (threads s t) = eReady")
        case True
        then show ?thesis using taken body by (simp add: z)
      next
        case notready: False
        then have alive: "\<not> (IsDead (threads s t) \<and> p_IsDead (parents s (m_Parent (threads s t))))" using body by (auto split: if_splits)
        show ?thesis
        proof (cases "IsBlocked (threads s t)")
          case True
          then have "Option.bind (GetNextThread c (on_cpu c (\<lambda>x. x\<lparr>BlockedQueue := BlockedQueue x @ [t]\<rparr>) s)) (loop c) = Some y"
            using notready alive body by (auto split: if_splits)
          from step [OF park_ok [OF s] taken this] show ?thesis by (simp add: z)
        next
          case False
          then obtain u where u: "EnqueueNotReady c t s = Some u" "Option.bind (GetNextThread c u) (loop c) = Some y"
            using body notready alive by (auto simp: Option.bind_eq_Some_conv)
          from EnqueueNotReady_ok [OF u(1) s(1,2)] have k: "kept s u" by (simp add: kept_def)
          from step [OF k taken u(2)] k show ?thesis by (simp add: z kept_def)
        qed
      qed
    qed
  qed
qed

lemma DispatchAny_kept:
  assumes "DispatchAnyPendingSignal t s = Some (d, u)" "queues_ok s"
  shows "kept s u"
proof -
  have "u = s \<or> (\<exists>f. u = on_thread t f s \<and> (\<forall>x. m_IsEnqueued (f x) = m_IsEnqueued x))"
    using assms(1) by (force simp: DispatchAnyPendingSignal_def DispatchSignal_def Let_def split: option.splits if_splits)
  then show ?thesis using assms(2) by (auto simp: kept_thread) (simp add: kept_def)
qed

lemma PickReadyThread_kept:
  assumes "PickReadyThread c s = Some (t, d, u)" "c < length (cpus s)" "queues_ok s"
  shows "kept s u"
proof -
  obtain z n v where z: "GetNextThread c s = Some z" "pick_loop c z = Some (n, v)"
    and u: "u = v \<or> (\<exists>t d. DispatchAnyPendingSignal t v = Some (d, u))"
    using assms(1) by (fastforce simp: PickReadyThread_def Option.bind_eq_Some_conv split: option.splits)
  have "kept s v" using GetNextThread_taken [OF assms(2,3) z(1)] pick_loop_taken [OF z(2)] by (auto simp: taken_def kept_def)
  with u DispatchAny_kept kept_trans show ?thesis by (auto simp: kept_def)
qed

lemma SwitchContext_kept:
  assumes "SwitchContext c t s = Some u" "c < length (cpus s)" "queues_ok s"
  shows "kept s u"
proof -
  have load: "kept s w \<Longrightarrow> kept s (on_cpu c (\<lambda>x. x\<lparr>CurrentThread := Some t\<rparr>) w)" for w
    using assms(2) by (simp add: kept_def queues_ok_flags)
  have "kept s s" using assms(3) by (simp add: kept_def)
  moreover have "kept s w" if "EnqueueNotReady c v s = Some w" for v w
    using EnqueueNotReady_ok [OF that assms(2,3)] by (simp add: kept_def)
  ultimately show ?thesis
    using assms(1) load kept_fields kept_trans
    by (auto simp: SwitchContext_def Let_def kept_def split: option.splits if_splits)
qed

lemma Tick_kept:
  assumes "Tick c s = Some r" "c < length (cpus s)" "queues_ok s" "r = Scheduled u \<or> r = Exiting p u"
  shows "kept s u"
proof -
  obtain t d v where v: "PickReadyThread c s = Some (t, d, v)" using assms(1) by (auto simp: Tick_def split: if_splits option.splits)
  from PickReadyThread_kept [OF this assms(2,3)] have k: "kept s v" .
  show ?thesis
  proof (cases d)
    case (ExitsProcess q)
    then show ?thesis using assms(1,4) v k by (auto simp: Tick_def split: if_splits)
  next
    case Returned
    then obtain w where w: "SwitchContext c t v = Some w" "u = w \<or> u = SetState eRunning t w"
      using assms(1,4) v by (auto simp: Tick_def split: if_splits)
    from k assms(2) have "c < length (cpus v)" "queues_ok v" by (simp_all add: kept_def)
    from SwitchContext_kept [OF w(1) this] k w(2) show ?thesis by (auto simp: kept_def)
  qed
qed

lemma Unblock_kept:
  assumes "Unblock c t s = Some u" "c < length (cpus s)" "queues_ok s"
  shows "kept s u"
proof (cases "IsBlocked (threads s t) \<and> \<not> m_IsEnqueued (threads s t)")
  case False
  then show ?thesis using assms by (auto simp: Unblock_def kept_def Let_def SetState_def queues_ok_thread split: if_splits)
next
  case True
  define v where "v = SetState eReady t s"
  define w where "w = (if IsLinked t v then Unlink t v else v)"
  have v: "queues_ok v" "length (cpus v) = length (cpus s)" "\<not> m_IsEnqueued (threads v t)"
    using assms(3) True by (simp_all add: v_def SetState_def queues_ok_thread)
  have "queues_ok w" using v(1,3) by (auto simp: w_def queues_ok_def unlink_counts)
  moreover have "EnqueueThread c t w = Some u" using assms(1) True v(3) by (auto simp: Unblock_def w_def v_def Let_def)
  moreover have "c < length (cpus w)" using assms(2) v(2) by (simp add: w_def)
  ultimately show ?thesis using EnqueueThread_ok [of c t w u] v(2) by (auto simp: kept_def w_def)
qed

lemma wake_listeners_kept:
  "wake_listeners c ls s = Some u \<Longrightarrow> c < length (cpus s) \<Longrightarrow> queues_ok s \<Longrightarrow> kept s u"
proof (induction ls arbitrary: s)
  case Nil
  then show ?case by (simp add: kept_def)
next
  case (Cons l ls)
  obtain t i where l: "l = (t, i)" by (cases l)
  let ?s = "on_thread t (\<lambda>x. x\<lparr>m_Which := i\<rparr>) s"
  obtain v where v: "Unblock c t ?s = Some v" "wake_listeners c ls v = Some u"
    using Cons.prems(1) by (auto simp: l Option.bind_eq_Some_conv)
  have "kept ?s v" using Unblock_kept [OF v(1)] Cons.prems(2,3) by (simp add: queues_ok_thread)
  with Cons.IH [OF v(2)] Cons.prems(2) show ?case by (auto simp: kept_def)
qed

lemma Trigger_kept:
  assumes "Trigger c e d s = Some u" "c < length (cpus s)" "queues_ok s"
  shows "kept s u"
proof -
  define v where "v = on_cpu c (\<lambda>x. x\<lparr>InterruptFlag := False\<rparr>) s"
  have v: "kept s v" using assms(2,3) by (simp add: v_def kept_cpu)
  show ?thesis
  proof (cases "Listeners (events s e) = []")
    case True
    then have "u = v \<or> u = on_event e (\<lambda>x. x\<lparr>Pending := Pending x + 1\<rparr>) v"
      using assms(1) by (auto simp: Trigger_def v_def Let_def)
    then show ?thesis using v by (auto simp: kept_def)
  next
    case False
    then obtain w where w: "wake_listeners c (Listeners (events s e)) v = Some w"
      "u = on_cpu c (\<lambda>x. x\<lparr>InterruptFlag := InterruptFlag (cpus s ! c)\<rparr>) (on_event e (\<lambda>x. x\<lparr>Listeners := []\<rparr>) w)"
      using assms(1) by (auto simp: Trigger_def v_def)
    have "kept v w" using wake_listeners_kept [OF w(1)] v assms(2) by (simp add: kept_def)
    with v w(2) assms(2) show ?thesis by (auto simp: kept_def queues_ok_flags)
  qed
qed

lemma attach_kept: "queues_ok s \<Longrightarrow> kept s (attach_from t i es s)"
proof (induction es arbitrary: i s)
  case (Cons e es)
  let ?s = "on_thread t (\<lambda>x. x\<lparr>m_Events := m_Events x @ [e]\<rparr>) (on_event e (\<lambda>x. x\<lparr>Listeners := Listeners x @ [(t, i)]\<rparr>) s)"
  have "kept s ?s" using Cons.prems by (simp add: kept_def queues_ok_thread)
  with Cons.IH [of ?s "i + 1"] show ?case by (auto simp: kept_def)
qed (simp add: kept_def)

lemma CheckPending_kept: "queues_ok s \<Longrightarrow> kept s (snd (CheckPending i es s))"
  by (induction es arbitrary: i) (auto simp: kept_def)

lemma DetachListeners_kept: "queues_ok s \<Longrightarrow> kept s (DetachListeners t s)"
proof -
  have "kept s (fold (\<lambda>e. on_event e (f e)) es s)" if "queues_ok s" for es s and f :: "nat \<Rightarrow> event \<Rightarrow> event"
    using that
  proof (induction es arbitrary: s)
    case (Cons e es)
    from Cons.IH [of "on_event e (f e) s"] Cons.prems show ?case by (simp add: kept_def)
  qed (simp add: kept_def)
  then show "queues_ok s \<Longrightarrow> kept s (DetachListeners t s)" by (simp add: DetachListeners_def kept_def queues_ok_thread)
qed

section \<open>Runs\<close>

text \<open>Anything the kernel does with threads and events, on any processor.\<close>

inductive sched_step :: "scheduler \<Rightarrow> scheduler \<Rightarrow> bool" where
  tick: "c < length (cpus s) \<Longrightarrow> Tick c s = Some (Scheduled u) \<Longrightarrow> sched_step s u"
| exit: "c < length (cpus s) \<Longrightarrow> Tick c s = Some (Exiting p u) \<Longrightarrow> sched_step s u"
| enqueue: "c < length (cpus s) \<Longrightarrow> EnqueueThread c t s = Some u \<Longrightarrow> sched_step s u"
| dequeue: "DequeueThread t s = Some u \<Longrightarrow> sched_step s u"
| block: "sched_step s (Block t s)"
| unblock: "c < length (cpus s) \<Longrightarrow> Unblock c t s = Some u \<Longrightarrow> sched_step s u"
| signal: "sched_step s (SendSignal n t s)"
| preemption_on: "c < length (cpus s) \<Longrightarrow> sched_step s (EnablePreemption c s)"
| preemption_off: "c < length (cpus s) \<Longrightarrow> sched_step s (DisablePreemption c s)"
| await: "c < length (cpus s) \<Longrightarrow> Await_begin c t es b s \<in> {AwaitReturns r u, AwaitBlocks u} \<Longrightarrow> sched_step s u"
| awake: "c < length (cpus s) \<Longrightarrow> Await_end c b t s = (r, u) \<Longrightarrow> sched_step s u"
| trigger: "c < length (cpus s) \<Longrightarrow> Trigger c e d s = Some u \<Longrightarrow> sched_step s u"

lemma Await_begin_kept:
  assumes "Await_begin c t es b s \<in> {AwaitReturns r u, AwaitBlocks u}" "c < length (cpus s)" "queues_ok s"
  shows "kept s u"
proof -
  obtain i v where v: "CheckPending 0 es s = (i, v)" by (cases "CheckPending 0 es s")
  with CheckPending_kept [OF assms(3), of 0 es] have k: "kept s v" by simp
  let ?a = "AttachListeners es t v"
  have "kept v ?a"
    using attach_kept [of "on_thread t (\<lambda>x. x\<lparr>m_Events := []\<rparr>) v" t 0 es] k by (simp add: AttachListeners_def kept_def queues_ok_thread)
  then have "kept s (on_cpu c (\<lambda>x. x\<lparr>InterruptFlag := True\<rparr>) ?a)" using k assms(2) by (simp add: kept_def queues_ok_flags)
  with k v assms(1) show ?thesis by (auto simp: Await_begin_def split: option.splits if_splits)
qed

lemma sched_step_kept: "sched_step s u \<Longrightarrow> queues_ok s \<Longrightarrow> kept s u"
proof (induction rule: sched_step.induct)
  case (block s t)
  then show ?case by (simp add: Block_def kept_def SetState_def queues_ok_thread)
next
  case (signal s n t)
  then show ?case by (simp add: SendSignal_def kept_def queues_ok_thread)
next
  case (awake c s b t r u)
  then show ?case using DetachListeners_kept [of s t] by (auto simp: Await_end_def kept_def queues_ok_flags)
next
  case (enqueue c s t u)
  then show ?case using EnqueueThread_ok by (simp add: kept_def)
next
  case (dequeue t s u)
  then show ?case using DequeueThread_ok by (simp add: kept_def)
next
  case (await c s t es b r u)
  then show ?case by (intro Await_begin_kept)
qed (auto simp: EnablePreemption_def DisablePreemption_def kept_def queues_ok_flags dest: Tick_kept Unblock_kept Trigger_kept)

lemma queues_ok_iff:
  "queues_ok s \<longleftrightarrow> distinct (concat (map (\<lambda>c. ExecutionQueue c @ BlockedQueue c) (cpus s))) \<and>
     (\<forall>t. m_IsEnqueued (threads s t) \<longleftrightarrow> (\<exists>c \<in> set (cpus s). t \<in> set (ExecutionQueue c)))"
proof -
  have count: "count_list (concat xs) t = sum_list (map (\<lambda>x. count_list x t) xs)" for xs :: "nat list list" and t
    by (induction xs) simp_all
  have distinct: "distinct xs \<longleftrightarrow> (\<forall>t. count_list xs t \<le> 1)" for xs :: "nat list"
  proof (induction xs)
    case (Cons x xs)
    have "(\<forall>t. count_list (x # xs) t \<le> 1) \<longleftrightarrow> count_list xs x = 0 \<and> (\<forall>t. count_list xs t \<le> 1)" (is "?l \<longleftrightarrow> ?r")
    proof
      assume l: ?l
      have "count_list xs t \<le> 1" for t using l [rule_format, of t] by (simp split: if_splits)
      then show ?r using l [rule_format, of x] by simp
    next
      assume ?r
      then show ?l by simp
    qed
    with Cons show ?case by (simp add: count_list_0_iff)
  qed simp
  have "0 < exec_count t s \<longleftrightarrow> (\<exists>c \<in> set (cpus s). t \<in> set (ExecutionQueue c))" for t
  proof -
    have "exec_count t s = 0 \<longleftrightarrow> \<not> (\<exists>c \<in> set (cpus s). t \<in> set (ExecutionQueue c))"
      by (auto simp: exec_count_def count_list_0_iff)
    then show ?thesis by auto
  qed
  then show ?thesis unfolding queues_ok_def distinct count link_count_def by (auto simp: comp_def)
qed

text \<open>
  Claim C9. Over every run of the scheduler, of events and of signals, on any number of processors, no thread is in two queues or in a queue
  twice, and its flag says whether it is in an execution queue.
\<close>

theorem threads_in_one_queue:
  assumes "sched_step\<^sup>*\<^sup>* s u" "\<forall>c \<in> set (cpus s). ExecutionQueue c = [] \<and> BlockedQueue c = []" "\<forall>t. \<not> m_IsEnqueued (threads s t)"
  shows "distinct (concat (map (\<lambda>c. ExecutionQueue c @ BlockedQueue c) (cpus u))) \<and>
    (\<forall>t. m_IsEnqueued (threads u t) \<longleftrightarrow> (\<exists>c \<in> set (cpus u). t \<in> set (ExecutionQueue c)))"
proof -
  have "link_count t s = 0" for t using assms(2) by (auto simp: link_count_def)
  then have "queues_ok s" using assms(3) exec_le_link [of _ s] by (simp add: queues_ok_def)
  with assms(1) have "queues_ok u" by (induction rule: rtranclp_induct) (auto dest: sched_step_kept simp: kept_def)
  then show ?thesis unfolding queues_ok_iff .
qed

section \<open>Round robin\<close>

text \<open>No signal is pending that is not masked.\<close>

definition quiet :: "thread \<Rightarrow> bool" where
  "quiet t \<longleftrightarrow> (ucast (m_PendingSignals t AND NOT (m_SignalMask t)) :: u32) = 0"

lemma find_never [simp]: "List.find (\<lambda>x. False) xs = None"
  by (induction xs) simp_all

lemma dispatch_quiet: "quiet (threads s t) \<Longrightarrow> DispatchAnyPendingSignal t s = Some (Returned, s)"
proof -
  assume "quiet (threads s t)"
  then have "List.find (\<lambda>signal. (ucast (m_PendingSignals (threads s t) AND NOT (m_SignalMask (threads s t))) :: u32) AND push_bit signal 1 \<noteq> 0) [0..<32] = None"
    by (simp add: find_None_iff quiet_def)
  then show ?thesis unfolding DispatchAnyPendingSignal_def Let_def by (simp only: option.case)
qed

text \<open>
  A processor that shares its time among threads: its current thread runs and is in no queue, the threads of its queue are ready, and
  none of them has a signal to deal with.
\<close>

definition sharing :: "nat \<Rightarrow> scheduler \<Rightarrow> bool" where
  "sharing c s \<longleftrightarrow> c < length (cpus s) \<and> queues_ok s \<and> IsPreemptionEnabled c s \<and>
     (\<exists>t. CurrentThread (cpus s ! c) = Some t \<and> m_State (threads s t) = eRunning \<and> \<not> IsLinked t s) \<and>
     (\<forall>t \<in> set (ExecutionQueue (cpus s ! c)). m_State (threads s t) = eReady) \<and>
     IdleThread (cpus s ! c) \<notin> set (ExecutionQueue (cpus s ! c)) \<union> set_option (CurrentThread (cpus s ! c)) \<and>
     (\<forall>t. quiet (threads s t))"

text \<open>The threads that share the processor, in the order they will run.\<close>

definition ring :: "nat \<Rightarrow> scheduler \<Rightarrow> nat list" where
  "ring c s = (case CurrentThread (cpus s ! c) of Some t \<Rightarrow> t # ExecutionQueue (cpus s ! c) | None \<Rightarrow> [])"

lemma linked_queue: "c < length (cpus s) \<Longrightarrow> t \<in> set (ExecutionQueue (cpus s ! c)) \<Longrightarrow> IsLinked t s"
  unfolding IsLinked_def using nth_mem by blast

lemma IsLinked_on_thread [simp]: "IsLinked t (on_thread u f s) = IsLinked t s"
  by (simp add: IsLinked_count)

lemma on_cpu_nth [simp]: "c < length (cpus s) \<Longrightarrow> cpus (on_cpu c f s) ! c = f (cpus s ! c)"
  by (simp add: on_cpu_def)

lemma enabled_on_cpu: "c < length (cpus s) \<Longrightarrow> IsPreemptionEnabled c (on_cpu c f s) = (s_SchedulerEnabled s \<and> PreemptionEnabled (f (cpus s ! c)))"
  by (simp add: IsPreemptionEnabled_def) (simp add: on_cpu_def)

lemma enabled_on_thread [simp]: "IsPreemptionEnabled c (on_thread t f s) = IsPreemptionEnabled c s"
  by (simp add: IsPreemptionEnabled_def on_thread_def)

lemma Tick_rotates:
  assumes "sharing c s"
  shows "\<exists>u. Tick c s = Some (Scheduled u) \<and> sharing c u \<and> ring c u = rotate1 (ring c s)"
proof -
  obtain t where t: "CurrentThread (cpus s ! c) = Some t" "m_State (threads s t) = eRunning" "\<not> IsLinked t s"
    and s: "c < length (cpus s)" "queues_ok s" "IsPreemptionEnabled c s" "\<forall>t. quiet (threads s t)"
    and q: "\<forall>t \<in> set (ExecutionQueue (cpus s ! c)). m_State (threads s t) = eReady"
    and idle: "IdleThread (cpus s ! c) \<notin> set (ExecutionQueue (cpus s ! c))" "IdleThread (cpus s ! c) \<noteq> t"
    using assms by (auto simp: sharing_def)
  show ?thesis
  proof (cases rule: GetNextThread_ok [OF s(1,2)])
    case 1
    have "PickReadyThread c s = Some (t, Returned, s)"
      by (simp add: PickReadyThread_def 1(2) pick_loop.simps [of c "(None, s)"] t(1))
    moreover have "SwitchContext c t s = Some s" using t by (simp add: SwitchContext_def IsDead_def Let_def)
    ultimately have "Tick c s = Some (Scheduled (SetState eRunning t s))" using s(3) idle(2) by (simp add: Tick_def)
    moreover have "(threads s t)\<lparr>m_State := eRunning\<rparr> = threads s t" using t(2) by (cases "threads s t") simp
    then have "SetState eRunning t s = s" by (simp add: SetState_def on_thread_def fun_upd_idem)
    ultimately show ?thesis using assms t(1) 1(1) by (simp add: ring_def)
  next
    case (2 n ts u)
    define v where "v = on_cpu c (\<lambda>x. x\<lparr>ExecutionQueue := ts @ [t]\<rparr>) (on_thread t (\<lambda>x. x\<lparr>m_IsEnqueued := True, m_State := eReady\<rparr>) u)"
    define w where "w = SetState eRunning n (on_cpu c (\<lambda>x. x\<lparr>CurrentThread := Some n\<rparr>) v)"
    have n: "IsLinked n s" "m_State (threads s n) = eReady" "n \<noteq> IdleThread (cpus s ! c)" using 2(1) s(1) q idle(1) by (auto intro: linked_queue)
    then have nt: "n \<noteq> t" using t(3) by blast
    have u: "cpus u ! c = (cpus s ! c)\<lparr>ExecutionQueue := ts\<rparr>" "threads u n = (threads s n)\<lparr>m_IsEnqueued := False\<rparr>" "threads u t = threads s t"
      using s(1) nt by (simp_all add: 2(4))
    have tu: "\<not> IsLinked t u" using t(3) pop_counts(2) [OF s(1) 2(1), of t] by (simp add: 2(4) IsLinked_count)
    have quiet: "quiet (threads u t)" for t using s(4) by (simp add: 2(4) quiet_def)
    have "pick_loop c (Some n, u) = Some (Some n, u)" using n(2) u(2) by (simp add: pick_loop.simps)
    then have pick: "PickReadyThread c s = Some (n, Returned, u)" by (simp add: PickReadyThread_def 2(2) dispatch_quiet quiet)
    have "EnqueueNotReady c t u = Some v"
    proof -
      have "on_cpu c (\<lambda>x. x\<lparr>ExecutionQueue := ExecutionQueue x @ [t]\<rparr>) x = on_cpu c (\<lambda>x. x\<lparr>ExecutionQueue := ts @ [t]\<rparr>) x" if "cpus x = cpus u" for x
        using that u(1) by (simp add: on_cpu_def)
      then show ?thesis using tu t(2) u(3) by (simp add: EnqueueNotReady_def v_def) (simp add: on_thread_def)
    qed
    then have "SwitchContext c n u = Some (on_cpu c (\<lambda>x. x\<lparr>CurrentThread := Some n\<rparr>) v)"
      using t idle(2) nt u by (simp add: SwitchContext_def IsDead_def Let_def)
    then have tick: "Tick c s = Some (Scheduled w)"
      using s(1,3) pick n(3) u(1) 2(6) by (simp add: Tick_def w_def v_def)
    have vq: "queues_ok v \<and> length (cpus v) = length (cpus u)" using EnqueueNotReady_ok [OF \<open>EnqueueNotReady c t u = Some v\<close>] s(1) 2(5,6) by simp
    have wc: "cpus w ! c = (cpus s ! c)\<lparr>ExecutionQueue := ts @ [t], CurrentThread := Some n\<rparr>" "length (cpus w) = length (cpus s)"
      using s(1) u(1) 2(6) by (simp_all add: w_def v_def SetState_def)
    have nts: "n \<notin> set ts" using 2(3,6) s(1) u(1) linked_queue [of c u n] by auto
    have nw: "\<not> IsLinked n w"
      using 2(3) nt s(1) 2(6) u(1)
      by (simp add: w_def v_def SetState_def IsLinked_count flags_counts)
         (use push_counts(2) [of c u n t] u(1) in \<open>simp add: on_cpu_def link_count_def\<close>)
    have "queues_ok w" using vq s(1) 2(6) by (simp add: w_def queues_ok_flags)
    moreover have "IsPreemptionEnabled c w" using s(1,3) 2(6) u(1) by (simp add: IsPreemptionEnabled_def wc) (simp add: w_def v_def 2(4) SetState_def on_thread_def on_cpu_def)
    moreover have "m_State (threads w n) = eRunning" "\<forall>x. quiet (threads w x)" "\<forall>x \<in> set (ts @ [t]). m_State (threads w x) = eReady"
      using nts nt q 2(1) quiet s(4) by (auto simp: w_def v_def SetState_def 2(4) quiet_def)
    ultimately have "sharing c w" using wc s(1) nw idle 2(1) n(3) unfolding sharing_def by auto
    with tick show ?thesis using wc t(1) 2(1) by (auto simp: ring_def)
  qed
qed

fun ticks :: "nat \<Rightarrow> nat \<Rightarrow> scheduler \<Rightarrow> scheduler option" where
  "ticks c 0 s = Some s"
| "ticks c (Suc n) s = (case Tick c s of Some (Scheduled u) \<Rightarrow> ticks c n u | _ \<Rightarrow> None)"

lemma current_hd: "sharing c s \<Longrightarrow> CurrentThread (cpus s ! c) = Some (hd (ring c s)) \<and> ring c s \<noteq> []"
  by (auto simp: sharing_def ring_def)

lemma ticks_ring: "sharing c s \<Longrightarrow> \<exists>u. ticks c n s = Some u \<and> sharing c u \<and> ring c u = rotate n (ring c s)"
proof (induction n arbitrary: s)
  case (Suc n)
  from Tick_rotates [OF Suc.prems] obtain u where u: "Tick c s = Some (Scheduled u)" "sharing c u" "ring c u = rotate1 (ring c s)" by blast
  from Suc.IH [OF u(2)] u show ?case by (auto simp: rotate1_rotate_swap)
qed simp

text \<open>
  Claim C10. Over any number of ticks a shared processor rotates its ring of threads: the scheduler implements round robin, and no tick fails.
\<close>

theorem ticks_rotate:
  assumes "sharing c s"
  shows "\<exists>u. ticks c n s = Some u \<and> sharing c u \<and> ring c u = rotate n (ring c s)"
  using assms by (rule ticks_ring)

text \<open>
  Claim C11. No thread of a shared processor starves: each one runs within as many ticks as threads are ahead of it.
\<close>

theorem ready_thread_runs:
  assumes "sharing c s" "ExecutionQueue (cpus s ! c) ! i = t" "i < length (ExecutionQueue (cpus s ! c))"
  shows "\<exists>u. ticks c (Suc i) s = Some u \<and> CurrentThread (cpus u ! c) = Some t \<and> m_State (threads u t) = eRunning"
proof -
  obtain u where u: "ticks c (Suc i) s = Some u" "sharing c u" "ring c u = rotate (Suc i) (ring c s)" using ticks_ring [OF assms(1)] by blast
  have r: "ring c s \<noteq> []" "ring c s ! Suc i = t" "Suc i < length (ring c s)"
    using assms current_hd [OF assms(1)] by (auto simp: ring_def split: option.splits)
  then have "hd (ring c u) = t" using u(3) hd_rotate_conv_nth [OF r(1), of "Suc i"] by simp
  with current_hd [OF u(2)] u show ?thesis by (auto simp: sharing_def)
qed

section \<open>Waiting\<close>

lemma Unblock_succeeds:
  assumes "c < length (cpus s)" "queues_ok s"
  shows "\<exists>u. Unblock c t s = Some u \<and> kept s u \<and> events u = events s \<and> (\<forall>x. x \<noteq> t \<longrightarrow> threads u x = threads s x) \<and>
    m_Which (threads u t) = m_Which (threads s t) \<and>
    (IsBlocked (threads s t) \<longrightarrow> m_State (threads u t) = eReady \<and> m_IsEnqueued (threads u t)) \<and>
    (\<not> IsBlocked (threads s t) \<longrightarrow> m_State (threads u t) = m_State (threads s t))"
proof (cases "IsBlocked (threads s t)")
  case False
  then show ?thesis using assms by (simp add: Unblock_def kept_def)
next
  case blocked: True
  define v where "v = SetState eReady t s"
  define w where "w = (if IsLinked t v then Unlink t v else v)"
  have v: "threads v = (threads s)(t := (threads s t)\<lparr>m_State := eReady\<rparr>)" "queues_ok v" by (simp_all add: v_def SetState_def assms(2) queues_ok_thread)
  show ?thesis
  proof (cases "m_IsEnqueued (threads s t)")
    case True
    then have "Unblock c t s = Some v" using blocked v(1) by (simp add: Unblock_def v_def [symmetric])
    then show ?thesis using Unblock_kept [OF _ assms] True v blocked by (auto simp: v_def SetState_def)
  next
    case False
    have "\<not> IsLinked t w" by (simp add: w_def IsLinked_count unlink_counts)
    moreover have "threads w = threads v" "events w = events s" by (simp_all add: w_def v_def SetState_def)
    ultimately have "Unblock c t s = Some (on_cpu c (\<lambda>x. x\<lparr>ExecutionQueue := ExecutionQueue x @ [t]\<rparr>)
             (on_thread t (\<lambda>x. x\<lparr>m_IsEnqueued := True, m_State := eReady\<rparr>) w))" (is "_ = Some ?u")
      using blocked False v(1) unfolding Unblock_def v_def [symmetric] Let_def w_def [symmetric] by (simp add: EnqueueThread_def)
    then show ?thesis using Unblock_kept [OF _ assms] v(1) \<open>threads w = threads v\<close> \<open>events w = events s\<close> blocked by auto
  qed
qed

lemma wake_listeners_succeeds:
  assumes "c < length (cpus s)" "queues_ok s" "distinct (map fst ls)"
  shows "\<exists>u. wake_listeners c ls s = Some u \<and> kept s u \<and> events u = events s \<and> (\<forall>x. x \<notin> fst ` set ls \<longrightarrow> threads u x = threads s x) \<and>
    (\<forall>(t, i) \<in> set ls. m_Which (threads u t) = i \<and> (IsBlocked (threads s t) \<longrightarrow> m_State (threads u t) = eReady \<and> m_IsEnqueued (threads u t)) \<and>
       (\<not> IsBlocked (threads s t) \<longrightarrow> m_State (threads u t) = m_State (threads s t)))"
  using assms
proof (induction ls arbitrary: s)
  case Nil
  then show ?case by (simp add: kept_def)
next
  case (Cons l ls)
  obtain t i where l: "l = (t, i)" by (cases l)
  define v where "v = on_thread t (\<lambda>x. x\<lparr>m_Which := i\<rparr>) s"
  have v: "c < length (cpus v)" "queues_ok v" using Cons.prems by (simp_all add: v_def queues_ok_thread)
  obtain u where u: "Unblock c t v = Some u" "kept v u" "events u = events v" "\<forall>x. x \<noteq> t \<longrightarrow> threads u x = threads v x"
      "m_Which (threads u t) = i" "IsBlocked (threads s t) \<longrightarrow> m_State (threads u t) = eReady \<and> m_IsEnqueued (threads u t)"
      "\<not> IsBlocked (threads s t) \<longrightarrow> m_State (threads u t) = m_State (threads s t)"
    using Unblock_succeeds [OF v, of t] by (auto simp: v_def IsBlocked_def)
  have "c < length (cpus u)" "queues_ok u" "distinct (map fst ls)" using u(2) v(1) Cons.prems(3) by (simp_all add: kept_def)
  from Cons.IH [OF this] obtain w where w: "wake_listeners c ls u = Some w" "kept u w" "events w = events u"
      "\<forall>x. x \<notin> fst ` set ls \<longrightarrow> threads w x = threads u x"
      "\<forall>(t, i) \<in> set ls. m_Which (threads w t) = i \<and> (IsBlocked (threads u t) \<longrightarrow> m_State (threads w t) = eReady \<and> m_IsEnqueued (threads w t)) \<and>
       (\<not> IsBlocked (threads u t) \<longrightarrow> m_State (threads w t) = m_State (threads u t))" by blast
  have t: "t \<notin> fst ` set ls" using Cons.prems(3) by (simp add: l)
  have eq: "threads u x = threads s x" if "x \<noteq> t" for x using u(4) that by (simp add: v_def)
  have "wake_listeners c (l # ls) s = Some w" using u(1) w(1) by (simp add: l v_def)
  moreover have "kept s w" using u(2) w(2) by (simp add: kept_def v_def)
  moreover have "events w = events s" using u(3) w(3) by (simp add: v_def)
  moreover have "\<forall>x. x \<notin> fst ` set (l # ls) \<longrightarrow> threads w x = threads s x" using w(4) eq by (simp add: l)
  moreover have "m_Which (threads w x) = j \<and> (IsBlocked (threads s x) \<longrightarrow> m_State (threads w x) = eReady \<and> m_IsEnqueued (threads w x)) \<and>
       (\<not> IsBlocked (threads s x) \<longrightarrow> m_State (threads w x) = m_State (threads s x))" if x: "(x, j) \<in> set (l # ls)" for x j
  proof (cases "x = t")
    case True
    then have "j = i" using x t by (force simp: l)
    then show ?thesis using u(5-7) w(4) t True by simp
  next
    case False
    then have "(x, j) \<in> set ls" using x by (simp add: l)
    with w(5) eq [OF False] show ?thesis by fastforce
  qed
  ultimately show ?case by blast
qed

lemma Trigger_wakes:
  assumes "c < length (cpus s)" "queues_ok s" "distinct (map fst (Listeners (events s e)))" "Listeners (events s e) \<noteq> []"
  shows "\<exists>u. Trigger c e d s = Some u \<and> queues_ok u \<and> Listeners (events u e) = [] \<and> Pending (events u e) = Pending (events s e) \<and>
    (\<forall>(t, i) \<in> set (Listeners (events s e)). m_Which (threads u t) = i \<and>
       (IsBlocked (threads s t) \<longrightarrow> m_State (threads u t) = eReady \<and> (\<exists>p \<in> set (cpus u). t \<in> set (ExecutionQueue p))))"
proof -
  define v where "v = on_cpu c (\<lambda>x. x\<lparr>InterruptFlag := False\<rparr>) s"
  have v: "c < length (cpus v)" "queues_ok v" "events v = events s" "threads v = threads s" using assms(1,2) by (simp_all add: v_def queues_ok_flags)
  obtain w where w: "wake_listeners c (Listeners (events s e)) v = Some w" "kept v w" "events w = events s"
      "\<forall>(t, i) \<in> set (Listeners (events s e)). m_Which (threads w t) = i \<and>
         (IsBlocked (threads s t) \<longrightarrow> m_State (threads w t) = eReady \<and> m_IsEnqueued (threads w t)) \<and>
         (\<not> IsBlocked (threads s t) \<longrightarrow> m_State (threads w t) = m_State (threads s t))"
    using wake_listeners_succeeds [OF v(1,2) assms(3)] unfolding v(3,4) by blast
  define u where "u = on_cpu c (\<lambda>x. x\<lparr>InterruptFlag := InterruptFlag (cpus s ! c)\<rparr>) (on_event e (\<lambda>x. x\<lparr>Listeners := []\<rparr>) w)"
  have "Trigger c e d s = Some u" using w(1) assms(4) by (simp add: Trigger_def v_def [symmetric] v(3) u_def Let_def)
  moreover have "queues_ok u" using w(2) v(1) by (simp add: u_def kept_def queues_ok_flags)
  moreover from this have "m_IsEnqueued (threads u t) \<longleftrightarrow> (\<exists>p \<in> set (cpus u). t \<in> set (ExecutionQueue p))" for t by (simp add: queues_ok_iff)
  moreover have "threads u = threads w" "Listeners (events u e) = []" "Pending (events u e) = Pending (events s e)" using w(3) by (simp_all add: u_def)
  ultimately show ?thesis using w(4) by fastforce
qed

text \<open>
  A trigger wakes every thread that listens: it never fails, each listener learns which of its events it was, and the blocked ones are
  ready and in an execution queue.  Nobody listens afterwards, and nothing is left pending.
\<close>

theorem Trigger_wakes_listeners:
  assumes "c < length (cpus s)" "queues_ok s" "distinct (map fst (Listeners (events s e)))" "Listeners (events s e) \<noteq> []"
  shows "\<exists>u. Trigger c e d s = Some u \<and> queues_ok u \<and> Listeners (events u e) = [] \<and> Pending (events u e) = Pending (events s e) \<and>
    (\<forall>(t, i) \<in> set (Listeners (events s e)). m_Which (threads u t) = i \<and>
       (IsBlocked (threads s t) \<longrightarrow> m_State (threads u t) = eReady \<and> (\<exists>p \<in> set (cpus u). t \<in> set (ExecutionQueue p))))"
  by (rule Trigger_wakes [OF assms])

lemma attach_other: "e \<notin> set es \<Longrightarrow> events (attach_from t i es s) e = events s e"
  by (induction es arbitrary: i s) simp_all

lemma attach_event:
  "distinct es \<Longrightarrow> k < length es \<Longrightarrow>
   events (attach_from t i es s) (es ! k) = (events s (es ! k))\<lparr>Listeners := Listeners (events s (es ! k)) @ [(t, i + k)]\<rparr>"
proof (induction es arbitrary: i k s)
  case (Cons e es)
  show ?case
  proof (cases k)
    case 0
    with Cons.prems attach_other show ?thesis by simp
  next
    case (Suc j)
    moreover from Suc Cons.prems have "es ! j \<noteq> e" using nth_mem by fastforce
    ultimately show ?thesis using Cons by simp
  qed
qed simp

lemma attach_threads:
  "threads (attach_from t i es s) x = (if x = t then (threads s t)\<lparr>m_Events := m_Events (threads s t) @ es\<rparr> else threads s x)"
  by (induction es arbitrary: i s) simp_all

lemma CheckPending_none: "\<forall>e \<in> set es. Pending (events s e) = 0 \<Longrightarrow> CheckPending i es s = (None, s)"
  by (induction es arbitrary: i) simp_all

text \<open>The state in which \<open>Await\<close> leaves a thread that has nothing to return.\<close>

definition attached :: "nat \<Rightarrow> nat \<Rightarrow> nat list \<Rightarrow> scheduler \<Rightarrow> scheduler" where
  "attached c t es s = on_cpu c (\<lambda>x. x\<lparr>InterruptFlag := True\<rparr>) (AttachListeners es t s)"

lemma Await_attaches:
  "\<forall>e \<in> set es. Pending (events s e) = 0 \<Longrightarrow> Await_begin c t es True s = AwaitBlocks (attached c t es s)"
  by (simp add: Await_begin_def CheckPending_none attached_def)

lemma attached_facts:
  assumes "c < length (cpus s)" "queues_ok s"
  shows "kept s (attached c t es s)" "distinct es \<Longrightarrow> k < length es \<Longrightarrow>
     events (attached c t es s) (es ! k) = (events s (es ! k))\<lparr>Listeners := Listeners (events s (es ! k)) @ [(t, k)]\<rparr>"
    "e \<notin> set es \<Longrightarrow> events (attached c t es s) e = events s e"
    "threads (attached c t es s) x = (if x = t then (threads s t)\<lparr>m_Events := es\<rparr> else threads s x)"
proof -
  have "kept (on_thread t (\<lambda>x. x\<lparr>m_Events := []\<rparr>) s) (AttachListeners es t s)"
    unfolding AttachListeners_def by (rule attach_kept) (simp add: assms(2) queues_ok_thread)
  then show "kept s (attached c t es s)" using assms(1) by (simp add: attached_def kept_def queues_ok_flags)
qed (simp_all add: attached_def AttachListeners_def attach_event attach_other attach_threads)


text \<open>
  A trigger that comes after the thread has been attached and before it has been blocked is lost, since interrupts are on there: the
  thread then sleeps with no event that would wake it, and nothing pending.
\<close>

theorem trigger_before_block_is_lost:
  assumes "c < length (cpus s)" "queues_ok s" "Pending (events s e) = 0" "Listeners (events s e) = []"
    "\<forall>e'. t \<notin> fst ` set (Listeners (events s e'))" "\<not> IsBlocked (threads s t)"
  shows "\<exists>u v. Await_begin c t [e] True s = AwaitBlocks u \<and> Trigger c e d u = Some v \<and> IsBlocked (threads (Block t v) t) \<and>
    (\<forall>e'. t \<notin> fst ` set (Listeners (events (Block t v) e'))) \<and> Pending (events (Block t v) e) = 0"
proof -
  let ?u = "attached c t [e] s"
  note a = attached_facts [OF assms(1,2), where t = t and es = "[e]"]
  have ev: "events ?u e = (events s e)\<lparr>Listeners := [(t, 0)]\<rparr>" using a(2) [of 0] assms(4) by simp
  have nb: "\<not> IsBlocked (threads ?u t)" using a(4) [of t] assms(6) by (simp add: IsBlocked_def)
  obtain v where v: "Trigger c e d ?u = Some v" "events v = (events ?u)(e := (events ?u e)\<lparr>Listeners := []\<rparr>)"
    using ev nb by (simp add: Trigger_def Unblock_def Let_def IsBlocked_def)
  have "events (Block t v) = events v" "IsBlocked (threads (Block t v) t)" by (simp_all add: Block_def SetState_def IsBlocked_def)
  with v ev a(3) assms(3,5) Await_attaches [of "[e]" s c t] show ?thesis by (auto simp: fun_upd_def)
qed

section \<open>Signals\<close>

lemma and_push_bit: "(x :: 'a::len word) AND push_bit n 1 \<noteq> 0 \<longleftrightarrow> bit x n"
  by (simp add: push_bit_eq_mult and_exp_eq_0_iff_not_bit)

text \<open>
  Choosing a signal: the one with the lowest number among those pending and not masked is dispatched and no longer pending; no other
  signal, masked or not, changes.  With none, nothing happens.
\<close>

theorem lowest_unmasked_signal_dispatched:
  assumes "DispatchAnyPendingSignal t s = Some (d, u)"
  shows "\<forall>n < 32. bit (m_PendingSignals (threads u t)) n \<longleftrightarrow> bit (m_PendingSignals (threads s t)) n \<and>
    \<not> (bit (m_PendingSignals (threads s t)) n \<and> \<not> bit (m_SignalMask (threads s t)) n \<and>
       (\<forall>k < n. bit (m_PendingSignals (threads s t)) k \<longrightarrow> bit (m_SignalMask (threads s t)) k))"
proof -
  let ?p = "m_PendingSignals (threads s t)" and ?m = "m_SignalMask (threads s t)"
  let ?x = "ucast (?p AND NOT ?m) :: u32"
  define P where "P = (\<lambda>n. ?x AND push_bit n 1 \<noteq> 0)"
  have bit: "P n \<longleftrightarrow> bit ?p n \<and> \<not> bit ?m n" if "n < 32" for n
    using that unfolding P_def and_push_bit by (simp add: bit_simps)
  have body: "(case List.find P [0..<32] of None \<Rightarrow> Some (Returned, s) | Some n \<Rightarrow> DispatchSignal n t s) = Some (d, u)"
    using assms unfolding DispatchAnyPendingSignal_def Let_def P_def .
  show ?thesis
  proof (cases "List.find P [0..<32]")
    case None
    then have none: "\<forall>n < 32. \<not> (bit ?p n \<and> \<not> bit ?m n)" using bit by (auto simp: find_None_iff)
    have "u = s" using body None by simp
    with none show ?thesis by auto
  next
    case (Some k)
    then have k: "k < 32" "bit ?p k" "\<not> bit ?m k" "\<forall>n < k. \<not> (bit ?p n \<and> \<not> bit ?m n)"
      using bit by (auto simp: find_Some_iff)
    have "DispatchSignal k t s = Some (d, u)" using body Some by simp
    then have "m_PendingSignals (threads u t) = ?p AND NOT (push_bit k 1)"
      by (auto simp: DispatchSignal_def Let_def split: if_splits)
    then have u: "bit (m_PendingSignals (threads u t)) n \<longleftrightarrow> bit ?p n \<and> n \<noteq> k" if "n < 32" for n using that by (auto simp: bit_simps)
    have "n = k \<longleftrightarrow> bit ?p n \<and> \<not> bit ?m n \<and> (\<forall>j < n. bit ?p j \<longrightarrow> bit ?m j)" if "n < 32" for n
      using k by (metis nat_neq_iff)
    with u show ?thesis by blast
  qed
qed

text \<open>Masking signal 3 discards signal 8, which is not masked: its number has the bit of the mask.\<close>

theorem unmasked_signal_discarded:
  "m_SignalMask (threads s t) = push_bit 3 1 \<Longrightarrow> SendSignal 8 t s = s" "\<not> bit (push_bit 3 1 :: u64) 8"
  by (simp_all add: SendSignal_def ShouldIgnoreSignal_def bit_simps)

section \<open>Where the scheduler departs from its purpose\<close>

text \<open>A blocked thread with no other thread to run in its place goes on running, without having been woken.\<close>

theorem blocked_thread_alone_keeps_running:
  assumes "c < length (cpus s)" "queues_ok s" "IsPreemptionEnabled c s" "ExecutionQueue (cpus s ! c) = []"
    "CurrentThread (cpus s ! c) = Some t" "IsBlocked (threads s t)" "t \<noteq> IdleThread (cpus s ! c)"
  shows "\<exists>u. Tick c s = Some (Scheduled u) \<and> CurrentThread (cpus u ! c) = Some t \<and> m_State (threads u t) = eRunning"
proof -
  have "PickReadyThread c s = Some (t, Returned, s)"
    using assms(4,5) by (simp add: PickReadyThread_def GetNextThread_def pick_loop.simps [of c "(None, s)"])
  moreover have "SwitchContext c t s = Some s" using assms(5,6) by (simp add: SwitchContext_def IsDead_def IsBlocked_def Let_def)
  ultimately have "Tick c s = Some (Scheduled (SetState eRunning t s))" using assms(3,7) by (simp add: Tick_def)
  then show ?thesis using assms(5) by (simp add: SetState_def)
qed

text \<open>A tick while preemption is disabled follows a null pointer.\<close>

theorem tick_without_preemption_faults:
  "s_SchedulerEnabled s \<Longrightarrow> c < length (cpus s) \<Longrightarrow> Tick c (DisablePreemption c s) = None"
  by (simp add: Tick_def DisablePreemption_def enabled_on_cpu)

text \<open>A dead thread of a dead process at the front of the queue stops the scheduler.\<close>

theorem dead_thread_stops_scheduler:
  assumes "c < length (cpus s)" "queues_ok s" "ExecutionQueue (cpus s ! c) = t # ts" "IsDead (threads s t)"
    "p_IsDead (parents s (m_Parent (threads s t)))"
  shows "Tick c s = None"
proof (cases rule: GetNextThread_ok [OF assms(1,2)])
  case (2 t' ts' u)
  then have "pick_loop c (Some t', u) = None" using assms by (auto simp: pick_loop.simps IsDead_def)
  then show ?thesis by (simp add: Tick_def PickReadyThread_def 2(2))
qed (use assms(3) in simp)

text \<open>A trigger that finds no listener leaves interrupts off.\<close>

theorem Trigger_leaves_interrupts_off:
  assumes "c < length (cpus s)" "Listeners (events s e) = []"
  shows "\<exists>u. Trigger c e d s = Some u \<and> \<not> InterruptFlag (cpus u ! c)"
  using assms by (simp add: Trigger_def Let_def)

text \<open>Of two entries of a thread that stand side by side, only the first is taken out.\<close>

theorem neighbour_listener_kept: "erase_listener t [(t, 0), (t, 1)] = [(t, 1)]"
  by simp

section \<open>An example\<close>

definition demo_thread :: "ThreadState \<Rightarrow> bool \<Rightarrow> thread" where
  "demo_thread st enq = \<lparr>m_State = st, m_IsEnqueued = enq, m_SignalMask = 0, m_PendingSignals = 0, m_Parent = 0, m_Events = [], m_Which = 0\<rparr>"

definition demo_sched :: "nat list \<Rightarrow> scheduler" where
  "demo_sched q = \<lparr>threads = (\<lambda>t. if t = 1 then demo_thread eRunning False else if t \<in> set q then demo_thread eReady True else demo_thread eDequeued False),
     parents = (\<lambda>_. \<lparr>p_Pid = 1, p_ProcessGroupID = 1, p_IsDead = False\<rparr>), events = (\<lambda>_. \<lparr>Pending = 0, Listeners = []\<rparr>),
     cpus = [\<lparr>ExecutionQueue = q, BlockedQueue = [], CurrentThread = Some 1, IdleThread = 0, PreemptionEnabled = True, InterruptFlag = True\<rparr>],
     s_SchedulerEnabled = True, deleted = []\<rparr>"

lemma demo_sched_ok: "distinct (0 # 1 # q) \<Longrightarrow> queues_ok (demo_sched q)"
  by (auto simp: queues_ok_iff demo_sched_def demo_thread_def)

lemma demo_sharing: "distinct (0 # 1 # q) \<Longrightarrow> sharing 0 (demo_sched q)"
  unfolding sharing_def using demo_sched_ok [of q]
  by (auto simp: demo_sched_def demo_thread_def IsPreemptionEnabled_def IsLinked_def quiet_def)

text \<open>A thread that is woken before it has yielded the processor is queued while it is current; the next switch runs into an assertion.\<close>

theorem wakeup_before_yield_asserts:
  "\<exists>u v. Await_begin 0 1 [7] True (demo_sched [2]) = AwaitBlocks u \<and> Trigger 0 7 False (Block 1 u) = Some v \<and> Tick 0 v = None"
  by (simp add: Await_begin_def demo_sched_def demo_thread_def AttachListeners_def on_thread_def on_event_def on_cpu_def Block_def IsBlocked_def
      SetState_def Trigger_def Unblock_def Let_def IsLinked_def EnqueueThread_def Tick_def IsPreemptionEnabled_def PickReadyThread_def
      GetNextThread_def pick_loop.simps DispatchAnyPendingSignal_def SwitchContext_def IsDead_def EnqueueNotReady_def)

theorem threads_in_one_queue_witness:
  "distinct (concat (map (\<lambda>c. ExecutionQueue c @ BlockedQueue c) (cpus (the (EnqueueThread 0 2 (demo_sched []))))))"
proof (rule threads_in_one_queue [of "demo_sched []", THEN conjunct1])
  obtain u where u: "EnqueueThread 0 2 (demo_sched []) = Some u" by (simp add: EnqueueThread_def IsLinked_def demo_sched_def demo_thread_def)
  have "sched_step (demo_sched []) u" by (rule sched_step.enqueue [OF _ u]) (simp add: demo_sched_def)
  with u show "sched_step\<^sup>*\<^sup>* (demo_sched []) (the (EnqueueThread 0 2 (demo_sched [])))" by simp
qed (simp_all add: demo_sched_def demo_thread_def)

theorem ticks_rotate_witness:
  "\<exists>u. ticks 0 2 (demo_sched [2, 3]) = Some u \<and> sharing 0 u \<and> ring 0 u = rotate 2 [1, 2, 3]"
  using ticks_rotate [OF demo_sharing [of "[2, 3]"], of 2] by (simp add: ring_def demo_sched_def)

theorem ready_thread_runs_witness:
  "\<exists>u. ticks 0 (Suc 1) (demo_sched [2, 3]) = Some u \<and> CurrentThread (cpus u ! 0) = Some 3 \<and> m_State (threads u 3) = eRunning"
proof (rule ready_thread_runs)
  show "sharing 0 (demo_sched [2, 3])" by (rule demo_sharing) simp
qed (simp_all add: demo_sched_def)


theorem lowest_unmasked_signal_dispatched_witness:
  "\<exists>d u. DispatchAnyPendingSignal 2 (SendSignal 3 2 (SendSignal 1 2 (demo_sched [2]))) = Some (d, u) \<and>
     \<not> bit (m_PendingSignals (threads u 2)) 1 \<and> bit (m_PendingSignals (threads u 2)) 3"
proof -
  let ?s = "SendSignal 3 2 (SendSignal 1 2 (demo_sched [2]))"
  obtain d u where u: "DispatchAnyPendingSignal 2 ?s = Some (d, u)"
    by (simp add: DispatchAnyPendingSignal_def SendSignal_def ShouldIgnoreSignal_def on_thread_def demo_sched_def demo_thread_def signal_bit_def
        DispatchSignal_def terminating_signals_def other_signals_def upt_rec)
  show ?thesis using lowest_unmasked_signal_dispatched [OF u, rule_format, of 1] lowest_unmasked_signal_dispatched [OF u, rule_format, of 3] u
    by (simp add: SendSignal_def ShouldIgnoreSignal_def on_thread_def demo_sched_def demo_thread_def signal_bit_def) (rule exI [of _ 1], simp)
qed

end
