(* ===== verification/Process_Calls.thy ===== *)
theory Process_Calls
  imports File_Syscalls Thread_Scheduler
begin

unbundle bit_operations_syntax

text \<open>
  Processes (\<^verbatim>\<open>Scheduler/Process.cpp\<close>, the process table of \<^verbatim>\<open>Scheduler/Scheduler.cpp\<close>) and the system calls on them
  (\<^verbatim>\<open>API/Process.cpp\<close>): identities, sessions and groups, forking, exiting and waiting.  A process is an object with a number; the table
  maps process ids to objects.  A null pointer that is followed and a failed assertion are \<open>None\<close>.
\<close>

section \<open>State\<close>

type_synonym pid_t = int

record ProcessCredentials =
  cr_UserID :: u32
  cr_GroupID :: u32
  cr_EffectiveUserID :: u32
  cr_EffectiveGroupID :: u32
  cr_FilesystemUserID :: u32
  cr_FilesystemGroupID :: u32
  cr_SetUserID :: u32
  cr_SetGroupID :: u32
  cr_SessionID :: pid_t
  cr_ProcessGroupID :: pid_t

datatype ProcessState = ProcessIdle | ProcessRunning | ProcessDead

text \<open>
  Of a thread's processor context, the registers a fork sets; the others are one value.  A page map is the list of the ranges mapped in
  it (virtual address, physical address, size), the latest first.
\<close>

record cpu_context =
  rip :: Pointer
  rax :: u64
  rdx :: u64
  registers :: nat

record 't process =
  pc_Parent :: "nat option"
  pc_Pid :: pid_t
  pc_Name :: string
  pc_State :: ProcessState
  pc_Credentials :: ProcessCredentials
  pc_Status :: "u32 option"
  pc_Exited :: bool
  pc_MainThread :: "nat option"
  pc_NextTid :: int
  pc_Children :: "nat list"
  pc_Zombies :: "nat list"
  pc_Threads :: "nat list"
  pc_CWD :: "nat option"
  pc_Umask :: mode_t
  pc_FdTable :: "nat FileDescriptorTable"
  pc_AddressSpace :: "'t AddressSpace"
  pc_PageMap :: "(Pointer \<times> Pointer \<times> usize) list"
  pc_UserStackTop :: Pointer
  pc_Pending :: nat

record task =
  tk_Parent :: nat
  tk_Tid :: int
  tk_State :: ThreadState
  tk_IsUser :: bool
  tk_IsEnqueued :: bool
  tk_SignalMask :: u64
  tk_Context :: cpu_context
  tk_SavedContext :: cpu_context
  tk_Stacks :: "Region list"
  tk_Stack :: Pointer
  tk_KernelStack :: Pointer
  tk_PageFaultStack :: Pointer
  tk_FpuStorage :: Pointer
  tk_FpuStoragePageCount :: usize
  tk_GsBase :: Pointer
  tk_FsBase :: Pointer

text \<open>
  The whole: the process and thread objects, the table, the kernel's own process, which is not in the table, physical memory by physical
  address, the addresses \<^verbatim>\<open>PMM::CallocatePages\<close> is going to hand out, and the execution queue.
\<close>

record 't system =
  procs :: "'t process list"
  tasks :: "task list"
  s_Processes :: "(pid_t \<times> nat) list"
  kernelProcess :: nat
  memory :: "Pointer \<Rightarrow> u8"
  frames :: "Pointer list"
  runQueue :: "nat list"

abbreviation proc :: "'t system \<Rightarrow> nat \<Rightarrow> 't process" where
  "proc s p \<equiv> procs s ! p"

abbreviation thr :: "'t system \<Rightarrow> nat \<Rightarrow> task" where
  "thr s t \<equiv> tasks s ! t"

definition on_proc :: "nat \<Rightarrow> ('t process \<Rightarrow> 't process) \<Rightarrow> 't system \<Rightarrow> 't system" where
  "on_proc p f s = s\<lparr>procs := (procs s)[p := f (procs s ! p)]\<rparr>"

definition on_task :: "nat \<Rightarrow> (task \<Rightarrow> task) \<Rightarrow> 't system \<Rightarrow> 't system" where
  "on_task t f s = s\<lparr>tasks := (tasks s)[t := f (tasks s ! t)]\<rparr>"

section \<open>The process table\<close>

definition ValidatePid :: "pid_t \<Rightarrow> 't system \<Rightarrow> bool" where
  "ValidatePid pid s \<longleftrightarrow> map_of (s_Processes s) pid \<noteq> None"

definition GetProcess :: "pid_t \<Rightarrow> 't system \<Rightarrow> nat option" where
  "GetProcess pid s = map_of (s_Processes s) pid"

definition pid_max :: int where "pid_max = 2147483647"

function AllocatePid_from :: "int \<Rightarrow> 't system \<Rightarrow> pid_t" where
  "AllocatePid_from i s = (if i \<ge> pid_max then - 1 else if \<not> ValidatePid i s then i else AllocatePid_from (i + 1) s)"
  by auto
termination by (relation "measure (\<lambda>(i, _). nat (pid_max - i))") auto

declare AllocatePid_from.simps [simp del]

definition AllocatePid :: "'t system \<Rightarrow> pid_t" where
  "AllocatePid s = AllocatePid_from 1 s"

text \<open>
  The constructor; the root directory, the table with the three standard streams and the empty address space are one argument.
\<close>

record 't fresh =
  rootDirectory :: "nat option"
  stdioTable :: "nat FileDescriptorTable"
  emptySpace :: "'t AddressSpace"

definition Process_make :: "'t fresh \<Rightarrow> nat option \<Rightarrow> string \<Rightarrow> ProcessCredentials \<Rightarrow> pid_t \<Rightarrow> 't process" where
  "Process_make z parent name creds pid =
     \<lparr>pc_Parent = parent, pc_Pid = pid, pc_Name = name, pc_State = ProcessRunning, pc_Credentials = creds, pc_Status = None,
      pc_Exited = False, pc_MainThread = None, pc_NextTid = pid, pc_Children = [], pc_Zombies = [], pc_Threads = [],
      pc_CWD = rootDirectory z, pc_Umask = 0, pc_FdTable = stdioTable z, pc_AddressSpace = emptySpace z, pc_PageMap = [],
      pc_UserStackTop = 0x70000000000, pc_Pending = 0\<rparr>"

definition CreateProcess :: "'t fresh \<Rightarrow> nat option \<Rightarrow> string \<Rightarrow> ProcessCredentials \<Rightarrow> 't system \<Rightarrow> nat \<times> 't system" where
  "CreateProcess z parent name creds s =
     (let x = Process_make z parent name creds (AllocatePid s); p = length (procs s)
      in (p, s\<lparr>procs := procs s @ [x], s_Processes := AList.update (pc_Pid x) p (s_Processes s)\<rparr>))"

definition RemoveProcess :: "pid_t \<Rightarrow> 't system \<Rightarrow> 't system" where
  "RemoveProcess pid s = s\<lparr>s_Processes := AList.delete pid (s_Processes s)\<rparr>"

text \<open>The thread constructor and \<^verbatim>\<open>Process::CreateThread\<close>; \<^verbatim>\<open>CPU::PrepareThread\<close> sets the context.\<close>

definition Thread_make :: "cpu_context \<Rightarrow> nat \<Rightarrow> bool \<Rightarrow> int \<Rightarrow> task" where
  "Thread_make ctx p isUser tid =
     \<lparr>tk_Parent = p, tk_Tid = tid, tk_State = eDequeued, tk_IsUser = isUser, tk_IsEnqueued = False, tk_SignalMask = 0,
      tk_Context = ctx, tk_SavedContext = ctx, tk_Stacks = [], tk_Stack = 0, tk_KernelStack = 0, tk_PageFaultStack = 0, tk_FpuStorage = 0,
      tk_FpuStoragePageCount = 0, tk_GsBase = 0, tk_FsBase = 0\<rparr>"

definition CreateThread :: "cpu_context \<Rightarrow> nat \<Rightarrow> bool \<Rightarrow> 't system \<Rightarrow> nat \<times> 't system" where
  "CreateThread ctx p isUser s =
     (let t = length (tasks s); x = Thread_make ctx p isUser (pc_NextTid (proc s p));
          s = on_proc p (\<lambda>y. y\<lparr>pc_NextTid := pc_NextTid y + 1, pc_MainThread := (if pc_Threads y = [] then Some t else pc_MainThread y),
                pc_Threads := pc_Threads y @ [t]\<rparr>) (s\<lparr>tasks := tasks s @ [x]\<rparr>)
      in (t, s))"

section \<open>Identities\<close>

definition ParentPid :: "nat \<Rightarrow> 't system \<Rightarrow> pid_t" where
  "ParentPid p s = (case pc_Parent (proc s p) of Some q \<Rightarrow> pc_Pid (proc s q) | None \<Rightarrow> 0)"

definition Sid :: "nat \<Rightarrow> 't system \<Rightarrow> pid_t" where
  "Sid p s = cr_SessionID (pc_Credentials (proc s p))"

definition PGid :: "nat \<Rightarrow> 't system \<Rightarrow> pid_t" where
  "PGid p s = cr_ProcessGroupID (pc_Credentials (proc s p))"

definition IsSessionLeader :: "nat \<Rightarrow> 't system \<Rightarrow> bool" where
  "IsSessionLeader p s \<longleftrightarrow> pc_Pid (proc s p) = Sid p s"

definition IsGroupLeader :: "nat \<Rightarrow> 't system \<Rightarrow> bool" where
  "IsGroupLeader p s \<longleftrightarrow> pc_Pid (proc s p) = PGid p s"

definition IsChild :: "nat \<Rightarrow> nat \<Rightarrow> 't system \<Rightarrow> bool" where
  "IsChild p q s \<longleftrightarrow> q \<in> set (pc_Children (proc s p))"

definition on_creds :: "nat \<Rightarrow> (ProcessCredentials \<Rightarrow> ProcessCredentials) \<Rightarrow> 't system \<Rightarrow> 't system" where
  "on_creds p f = on_proc p (\<lambda>x. x\<lparr>pc_Credentials := f (pc_Credentials x)\<rparr>)"

definition SetUID :: "nat \<Rightarrow> u32 \<Rightarrow> 't system \<Rightarrow> 't system" where
  "SetUID p uid = on_creds p (\<lambda>c. c\<lparr>cr_EffectiveUserID := uid\<rparr>)"

definition SetGID :: "nat \<Rightarrow> u32 \<Rightarrow> 't system \<Rightarrow> 't system" where
  "SetGID p gid = on_creds p (\<lambda>c. c\<lparr>cr_EffectiveGroupID := gid\<rparr>)"

definition SetReUID :: "nat \<Rightarrow> u32 \<Rightarrow> u32 \<Rightarrow> 't system \<Rightarrow> 't system" where
  "SetReUID p ruid euid = on_creds p (\<lambda>c. c\<lparr>cr_UserID := ruid, cr_EffectiveUserID := euid\<rparr>)"

definition SetReGID :: "nat \<Rightarrow> u32 \<Rightarrow> u32 \<Rightarrow> 't system \<Rightarrow> 't system" where
  "SetReGID p rgid egid = on_creds p (\<lambda>c. c\<lparr>cr_GroupID := rgid, cr_EffectiveGroupID := egid\<rparr>)"

definition SetResUID :: "nat \<Rightarrow> u32 \<Rightarrow> u32 \<Rightarrow> u32 \<Rightarrow> 't system \<Rightarrow> 't system" where
  "SetResUID p ruid euid suid = on_creds p (\<lambda>c. c\<lparr>cr_UserID := ruid, cr_EffectiveUserID := euid, cr_SetUserID := suid\<rparr>)"

definition SetResGID :: "nat \<Rightarrow> u32 \<Rightarrow> u32 \<Rightarrow> u32 \<Rightarrow> 't system \<Rightarrow> 't system" where
  "SetResGID p rgid egid sgid = on_creds p (\<lambda>c. c\<lparr>cr_GroupID := rgid, cr_EffectiveGroupID := egid, cr_SetGroupID := sgid\<rparr>)"

definition Process_SetPGid :: "nat \<Rightarrow> pid_t \<Rightarrow> 't system \<Rightarrow> 't system" where
  "Process_SetPGid p pgid = on_creds p (\<lambda>c. c\<lparr>cr_ProcessGroupID := pgid\<rparr>)"

definition Process_SetSid :: "nat \<Rightarrow> 't system \<Rightarrow> pid_t \<times> 't system" where
  "Process_SetSid p s =
     (let pid = pc_Pid (proc s p) in (pid, on_creds p (\<lambda>c. c\<lparr>cr_SessionID := pid, cr_ProcessGroupID := pid\<rparr>) s))"

definition SetUmask :: "nat \<Rightarrow> mode_t \<Rightarrow> 't system \<Rightarrow> mode_t \<times> 't system" where
  "SetUmask p m s = (pc_Umask (proc s p), on_proc p (\<lambda>x. x\<lparr>pc_Umask := m\<rparr>) s)"

text \<open>The threads that get a signal sent to a group, in the order of the table.\<close>

fun SendGroupSignal :: "pid_t \<Rightarrow> (pid_t \<times> nat) list \<Rightarrow> 't system \<Rightarrow> nat list option" where
  "SendGroupSignal pgid [] s = Some []"
| "SendGroupSignal pgid ((pid, p) # ps) s =
     (if PGid p s = pgid then
        (case pc_MainThread (proc s p) of None \<Rightarrow> None | Some t \<Rightarrow> map_option (Cons t) (SendGroupSignal pgid ps s))
      else SendGroupSignal pgid ps s)"

section \<open>Forking\<close>

text \<open>\<^verbatim>\<open>PMM::CallocatePages\<close>: the next address handed out, its pages cleared; zero when there is none left.\<close>

definition mem_clear :: "Pointer \<Rightarrow> usize \<Rightarrow> (Pointer \<Rightarrow> u8) \<Rightarrow> Pointer \<Rightarrow> u8" where
  "mem_clear dst n m = (\<lambda>a. if a - dst < n then 0 else m a)"

definition mem_copy :: "Pointer \<Rightarrow> Pointer \<Rightarrow> usize \<Rightarrow> (Pointer \<Rightarrow> u8) \<Rightarrow> Pointer \<Rightarrow> u8" where
  "mem_copy dst src n m = (\<lambda>a. if a - dst < n then m (src + (a - dst)) else m a)"

definition CallocatePages :: "usize \<Rightarrow> 't system \<Rightarrow> Pointer \<times> 't system" where
  "CallocatePages n s =
     (case frames s of
        [] \<Rightarrow> (0, s)
      | phys # rest \<Rightarrow> (phys, s\<lparr>frames := rest, memory := mem_clear phys (n * 0x1000) (memory s)\<rparr>))"

definition PageMap_MapRange :: "nat \<Rightarrow> Pointer \<Rightarrow> Pointer \<Rightarrow> usize \<Rightarrow> 't system \<Rightarrow> 't system" where
  "PageMap_MapRange q virt phys sz = on_proc q (\<lambda>x. x\<lparr>pc_PageMap := (virt, phys, sz) # pc_PageMap x\<rparr>)"

definition Fork_region ::
    "(Pointer, Region, 't) tree_ops \<Rightarrow> (usize \<Rightarrow> usize \<Rightarrow> usize) \<Rightarrow> nat \<Rightarrow> Region \<Rightarrow> 't system \<Rightarrow> 't system option" where
  "Fork_region ro alignUp q rng s =
     (let pageCount = alignUp (Region_Size rng) 0x1000 div 0x1000; (phys, s) = CallocatePages pageCount s
      in if phys = 0 then None
         else let s = s\<lparr>memory := mem_copy phys (m_PhysicalBase rng) (Region_Size rng) (memory s)\<rparr>;
                  s = PageMap_MapRange q (Region_VirtualBase rng) phys (Region_Size rng) s;
                  newRegion = Region_SetAccessMode (m_Access rng) (Region_make phys (Region_VirtualBase rng) (Region_Size rng) None)
              in Some (on_proc q (\<lambda>x. x\<lparr>pc_AddressSpace := AddressSpace_Insert ro (Region_VirtualBase rng) newRegion (pc_AddressSpace x)\<rparr>) s))"

fun Fork_regions ::
    "(Pointer, Region, 't) tree_ops \<Rightarrow> (usize \<Rightarrow> usize \<Rightarrow> usize) \<Rightarrow> nat \<Rightarrow> (Pointer \<times> Region) list \<Rightarrow> 't system \<Rightarrow> 't system option" where
  "Fork_regions ro alignUp q [] s = Some s"
| "Fork_regions ro alignUp q ((base, rng) # rest) s = Option.bind (Fork_region ro alignUp q rng s) (Fork_regions ro alignUp q rest)"

definition Fork_fds :: "(u32 \<times> nat) list \<Rightarrow> nat FileDescriptorTable \<Rightarrow> nat FileDescriptorTable" where
  "Fork_fds entries t = fold (\<lambda>(i, fd) t. snd (Table_Insert fd i t)) entries t"

text \<open>A stack of the thread is copied and mapped at its virtual address; the new thread's record of it has the physical address twice.\<close>

definition Fork_stack :: "(usize \<Rightarrow> usize \<Rightarrow> usize) \<Rightarrow> nat \<Rightarrow> nat \<Rightarrow> Region \<Rightarrow> 't system \<Rightarrow> 't system" where
  "Fork_stack alignUp q n stack s =
     (let (phys, s) = CallocatePages (alignUp (Region_Size stack) 0x1000 div 0x1000) s;
          s = s\<lparr>memory := mem_copy phys (m_PhysicalBase stack) (Region_Size stack) (memory s)\<rparr>;
          s = PageMap_MapRange q (Region_VirtualBase stack) phys (Region_Size stack) s
      in on_task n (\<lambda>x. x\<lparr>tk_Stacks := tk_Stacks x @ [Region_make phys phys (Region_Size stack) None]\<rparr>) s)"

definition KERNEL_STACK_SIZE :: usize where "KERNEL_STACK_SIZE = 0x10000"

text \<open>\<^verbatim>\<open>higherHalf\<close> is the offset of the direct map of physical memory.\<close>

definition Thread_Fork :: "Pointer \<Rightarrow> (usize \<Rightarrow> usize \<Rightarrow> usize) \<Rightarrow> nat \<Rightarrow> nat \<Rightarrow> 't system \<Rightarrow> nat \<times> 't system" where
  "Thread_Fork higherHalf alignUp t q s =
     (let old = thr s t;
          (n, s) = CreateThread (tk_Context old) q (tk_IsUser old) s;
          s = on_task n (\<lambda>x. x\<lparr>tk_Stack := tk_Stack old\<rparr>) s;
          (kstack, s) = CallocatePages (KERNEL_STACK_SIZE div 0x1000) s;
          s = on_task n (\<lambda>x. x\<lparr>tk_KernelStack := kstack + higherHalf + KERNEL_STACK_SIZE\<rparr>) s;
          (pfstack, s) = CallocatePages (KERNEL_STACK_SIZE div 0x1000) s;
          s = on_task n (\<lambda>x. x\<lparr>tk_PageFaultStack := pfstack + higherHalf + KERNEL_STACK_SIZE\<rparr>) s;
          s = fold (Fork_stack alignUp q n) (tk_Stacks old) s;
          (fpu, s) = CallocatePages (tk_FpuStoragePageCount old) s;
          s = s\<lparr>memory := mem_copy fpu (tk_FpuStorage old - higherHalf) (tk_FpuStoragePageCount old * 0x1000) (memory s)\<rparr>;
          s = on_task n (\<lambda>x. x\<lparr>tk_FpuStoragePageCount := tk_FpuStoragePageCount old, tk_FpuStorage := fpu + higherHalf, tk_Parent := q,
                tk_Context := (tk_SavedContext old)\<lparr>rax := 0, rdx := 0\<rparr>, tk_IsUser := tk_IsUser old, tk_GsBase := tk_GsBase old,
                tk_FsBase := tk_FsBase old, tk_State := eDequeued\<rparr>) s
      in (n, s))"

definition Enqueue :: "nat \<Rightarrow> 't system \<Rightarrow> 't system option" where
  "Enqueue t s =
     (if t \<in> set (runQueue s) then None
      else if tk_IsEnqueued (thr s t) then Some s
      else let s = on_task t (\<lambda>x. x\<lparr>tk_IsEnqueued := True, tk_State := eReady\<rparr>) s in Some (s\<lparr>runQueue := runQueue s @ [t]\<rparr>))"

text \<open>What the child takes over before its memory is copied.\<close>

definition Fork_begin :: "(Pointer, Region, 't) tree_ops \<Rightarrow> 't fresh \<Rightarrow> nat \<Rightarrow> 't system \<Rightarrow> nat \<times> 't system" where
  "Fork_begin ro z p s =
     (let (q, s) = CreateProcess z (Some p) (pc_Name (proc s p)) (pc_Credentials (proc s p)) s;
          s = on_proc q (\<lambda>x. x\<lparr>pc_PageMap := [], pc_CWD := pc_CWD (proc s p), pc_Umask := pc_Umask (proc s p)\<rparr>) s;
          s = on_proc p (\<lambda>x. x\<lparr>pc_Children := pc_Children x @ [q]\<rparr>) s
      in (q, on_proc q (\<lambda>x. x\<lparr>pc_AddressSpace := AddressSpace_Clear ro (pc_AddressSpace x)\<rparr>) s))"

definition Process_Fork ::
    "(Pointer, Region, 't) tree_ops \<Rightarrow> (usize \<Rightarrow> usize \<Rightarrow> usize) \<Rightarrow> Pointer \<Rightarrow> 't fresh \<Rightarrow> nat \<Rightarrow> nat \<Rightarrow> 't system \<Rightarrow> (nat \<times> 't system) option" where
  "Process_Fork ro alignUp higherHalf z t p s =
     (if tk_Parent (thr s t) \<noteq> p then None
      else let (q, s) = Fork_begin ro z p s
           in case Fork_regions ro alignUp q (as_entries ro (pc_AddressSpace (proc s p))) s of
                None \<Rightarrow> None
              | Some s \<Rightarrow>
                  let s = on_proc q (\<lambda>x. x\<lparr>pc_NextTid := pc_NextTid (proc s p), pc_FdTable := Fork_fds (m_Table (pc_FdTable (proc s p))) (pc_FdTable x)\<rparr>) s;
                      (n, s) = Thread_Fork higherHalf alignUp t q s;
                      s = on_task n (\<lambda>x. x\<lparr>tk_IsEnqueued := False\<rparr>) s;
                      s = on_proc q (\<lambda>x. x\<lparr>pc_UserStackTop := pc_UserStackTop (proc s p)\<rparr>) s
                  in map_option (\<lambda>s. (q, s)) (Enqueue n s))"

section \<open>Exiting\<close>

definition W_EXITCODE :: "u32 \<Rightarrow> u32 \<Rightarrow> u32" where
  "W_EXITCODE code sig = push_bit 8 code OR sig"

text \<open>The children go to the process with pid 1, the zombies to the parent.\<close>

definition adopt :: "nat \<Rightarrow> nat \<Rightarrow> 't system \<Rightarrow> 't system" where
  "adopt r c s = on_proc r (\<lambda>x. x\<lparr>pc_Children := pc_Children x @ [c]\<rparr>) (on_proc c (\<lambda>x. x\<lparr>pc_Parent := Some r\<rparr>) s)"

fun adopt_all :: "nat option \<Rightarrow> nat list \<Rightarrow> 't system \<Rightarrow> 't system option" where
  "adopt_all r [] s = Some s"
| "adopt_all r (c # cs) s = Option.bind r (\<lambda>i. adopt_all r cs (adopt i c s))"

fun pass_zombies :: "nat option \<Rightarrow> nat list \<Rightarrow> 't system \<Rightarrow> 't system option" where
  "pass_zombies r [] s = Some s"
| "pass_zombies r (c # cs) s =
     Option.bind r (\<lambda>i. pass_zombies r cs
       (on_proc i (\<lambda>x. x\<lparr>pc_Zombies := pc_Zombies x @ [c]\<rparr>) (on_proc c (\<lambda>x. x\<lparr>pc_Parent := r\<rparr>) s)))"

definition exit_threads :: "nat \<Rightarrow> 't system \<Rightarrow> 't system" where
  "exit_threads p s =
     (let ts = pc_Threads (proc s p); s = fold (\<lambda>t. on_task t (\<lambda>x. x\<lparr>tk_State := eExited\<rparr>)) ts s
      in on_proc p (\<lambda>x. x\<lparr>pc_MainThread := (if ts = [] then pc_MainThread x else Some (last ts)), pc_Threads := []\<rparr>) s)"

text \<open>
  Up to the point where the processor is given up; the event of the process has no listener here, so that triggering it leaves a pending
  one.  Waking a parent that waits is \<^verbatim>\<open>Event::Trigger\<close>.
\<close>

definition Process_Exit :: "nat \<Rightarrow> nat \<Rightarrow> u32 \<Rightarrow> 't system \<Rightarrow> 't system option" where
  "Process_Exit t p code s =
     (if p = kernelProcess s then None
      else let s = on_proc p (\<lambda>x. x\<lparr>pc_FdTable := Table_Clear (pc_FdTable x)\<rparr>) s;
               s = on_task t (\<lambda>x. x\<lparr>tk_Parent := kernelProcess s\<rparr>) s
           in Option.bind (adopt_all (GetProcess 1 s) (if pc_Pid (proc s p) > 1 then pc_Children (proc s p) else []) s) (\<lambda>s.
              Option.bind (pass_zombies (pc_Parent (proc s p)) (pc_Zombies (proc s p)) s) (\<lambda>s.
                let s = on_proc p (\<lambda>x. x\<lparr>pc_Zombies := [], pc_PageMap := [], pc_Status := Some (W_EXITCODE code 0), pc_Exited := True\<rparr>) s;
                    s = exit_threads p s;
                    s = on_task t (\<lambda>x. x\<lparr>tk_State := eExited\<rparr>) s;
                    s = on_proc p (\<lambda>x. x\<lparr>pc_State := ProcessDead\<rparr>) s;
                    s = RemoveProcess (pc_Pid (proc s p)) s
                in Some (on_proc p (\<lambda>x. x\<lparr>pc_Pending := pc_Pending x + 1\<rparr>) s))))"

section \<open>Waiting\<close>

definition WNOHANG :: u32 where "WNOHANG = 1"
definition WUNTRACED :: u32 where "WUNTRACED = 2"
definition WCONTINUED :: u32 where "WCONTINUED = 8"

definition WEXITSTATUS :: "u32 \<Rightarrow> u32" where
  "WEXITSTATUS x = drop_bit 8 (x AND 0xff00)"

definition WTERMSIG :: "u32 \<Rightarrow> u32" where
  "WTERMSIG x = x AND 0x7F"

definition WIFEXITED :: "u32 \<Rightarrow> bool" where
  "WIFEXITED x \<longleftrightarrow> WTERMSIG x = 0"

definition WIFSTOPPED :: "u32 \<Rightarrow> bool" where
  "WIFSTOPPED x \<longleftrightarrow> x AND 0xFF = 0x7F"

definition WIFCONTINUED :: "u32 \<Rightarrow> bool" where
  "WIFCONTINUED x \<longleftrightarrow> x = 0xFFFF"

definition first_child :: "(nat \<Rightarrow> bool) \<Rightarrow> nat \<Rightarrow> 't system \<Rightarrow> nat list error_or" where
  "first_child P p s = (case List.find P (pc_Children (proc s p)) of None \<Rightarrow> Inl ECHILD | Some c \<Rightarrow> Inr [c])"

definition WaitPid_select :: "nat \<Rightarrow> pid_t \<Rightarrow> 't system \<Rightarrow> nat list error_or" where
  "WaitPid_select p pid s =
     (if pc_Children (proc s p) = [] then Inl ECHILD
      else if pid < - 1 then first_child (\<lambda>c. PGid c s = - pid) p s
      else if pid = - 1 then Inr (pc_Children (proc s p))
      else if pid = 0 then first_child (\<lambda>c. PGid c s = PGid p s) p s
      else first_child (\<lambda>c. pc_Pid (proc s c) = pid) p s)"

text \<open>
  One pass of the loop: an error; the children to sleep on; a child of which nothing is reported; or a child, with what is stored for the
  caller.  A pending event is consumed, as \<^verbatim>\<open>Event::Await\<close> does.
\<close>

datatype wait_result = WaitError errno_t | WaitSleep "nat list" | WaitSkip | Waited pid_t u32

definition WaitPid_report :: "u32 \<Rightarrow> nat \<Rightarrow> 't system \<Rightarrow> wait_result" where
  "WaitPid_report flags c s =
     (let status = (case pc_Status (proc s c) of None \<Rightarrow> 0 | Some x \<Rightarrow> x)
      in if flags AND WUNTRACED = 0 \<and> WIFSTOPPED status then WaitSkip
         else if flags AND WCONTINUED = 0 \<and> WIFCONTINUED status then WaitSkip
         else Waited (pc_Pid (proc s c)) (W_EXITCODE status 0))"

definition WaitPid_pass :: "nat \<Rightarrow> pid_t \<Rightarrow> u32 \<Rightarrow> 't system \<Rightarrow> wait_result \<times> 't system" where
  "WaitPid_pass p pid flags s =
     (case WaitPid_select p pid s of
        Inl e \<Rightarrow> (WaitError e, s)
      | Inr cs \<Rightarrow>
          (case List.find (\<lambda>c. 0 < pc_Pending (proc s c)) cs of
             None \<Rightarrow> (if flags AND WNOHANG \<noteq> 0 then WaitError EINTR else WaitSleep cs, s)
           | Some c \<Rightarrow> (WaitPid_report flags c s, on_proc c (\<lambda>x. x\<lparr>pc_Pending := pc_Pending x - 1\<rparr>) s)))"

text \<open>The loop, which ends because every pass that skips a child consumes an event; its result is never a skip.\<close>

definition pending_events :: "'t system \<Rightarrow> nat" where
  "pending_events s = sum_list (map pc_Pending (procs s))"

fun WaitPid_loop :: "nat \<Rightarrow> nat \<Rightarrow> pid_t \<Rightarrow> u32 \<Rightarrow> 't system \<Rightarrow> wait_result \<times> 't system" where
  "WaitPid_loop 0 p pid flags s = WaitPid_pass p pid flags s"
| "WaitPid_loop (Suc n) p pid flags s =
     (case WaitPid_pass p pid flags s of (WaitSkip, s) \<Rightarrow> WaitPid_loop n p pid flags s | r \<Rightarrow> r)"

definition Process_WaitPid :: "nat \<Rightarrow> pid_t \<Rightarrow> u32 \<Rightarrow> 't system \<Rightarrow> wait_result \<times> 't system" where
  "Process_WaitPid p pid flags s = WaitPid_loop (pending_events s) p pid flags s"

section \<open>System calls\<close>

text \<open>
  Each takes the current process.  The values a call writes for the caller are part of its result.
\<close>

type_synonym ('a, 't) proc_call = "'t system \<Rightarrow> 'a error_or \<times> 't system"

definition SIG_BLOCK :: u32 where "SIG_BLOCK = 0"
definition SIG_UNBLOCK :: u32 where "SIG_UNBLOCK = 1"
definition SIG_SETMASK :: u32 where "SIG_SETMASK = 2"

definition SigMask :: "u32 \<Rightarrow> u64 \<Rightarrow> u64 \<Rightarrow> u64 error_or" where
  "SigMask how sigs cur =
     (if how = SIG_BLOCK then Inr (cur AND NOT sigs)
      else if how = SIG_UNBLOCK then Inr (cur OR sigs)
      else if how = SIG_SETMASK then Inr sigs
      else Inl EINVAL)"

definition regions_of :: "(Pointer, Region, 't) tree_ops \<Rightarrow> nat \<Rightarrow> 't system \<Rightarrow> Region list" where
  "regions_of ro p s = map snd (as_entries ro (pc_AddressSpace (proc s p)))"

text \<open>The new set is given by its address and what is found there; the result has the old mask when it was stored.\<close>

definition SigProcMask ::
    "(Pointer, Region, 't) tree_ops \<Rightarrow> nat \<Rightarrow> u32 \<Rightarrow> (Pointer \<times> u64) option \<Rightarrow> Pointer option \<Rightarrow> 't system \<Rightarrow> (unit error_or \<times> u64 option) \<times> 't system" where
  "SigProcMask ro t how newSet oldSet s =
     (let regions = regions_of ro (tk_Parent (thr s t)) s; cur = tk_SignalMask (thr s t);
          stored = (case oldSet of None \<Rightarrow> None | Some a \<Rightarrow> Some cur)
      in if (case oldSet of None \<Rightarrow> False | Some a \<Rightarrow> \<not> Process_ValidateAddress a PROT_WRITE 8 regions) then ((Inl EFAULT, None), s)
         else case newSet of
                None \<Rightarrow> ((Inr (), stored), s)
              | Some (a, sigs) \<Rightarrow>
                  if \<not> Process_ValidateAddress a PROT_READ 8 regions then ((Inl EFAULT, stored), s)
                  else case SigMask how sigs cur of
                         Inl e \<Rightarrow> ((Inl e, stored), s)
                       | Inr m \<Rightarrow> ((Inr (), stored), on_task t (\<lambda>x. x\<lparr>tk_SignalMask := m\<rparr>) s))"

definition API_Pid :: "nat \<Rightarrow> 't system \<Rightarrow> pid_t error_or" where
  "API_Pid p s = Inr (pc_Pid (proc s p))"

definition API_Fork ::
    "(Pointer, Region, 't) tree_ops \<Rightarrow> (usize \<Rightarrow> usize \<Rightarrow> usize) \<Rightarrow> Pointer \<Rightarrow> 't fresh \<Rightarrow> nat \<Rightarrow> 't system \<Rightarrow> (pid_t error_or \<times> 't system) option" where
  "API_Fork ro alignUp higherHalf z t s =
     map_option (\<lambda>(q, s). (Inr (pc_Pid (proc s q)), s)) (Process_Fork ro alignUp higherHalf z t (tk_Parent (thr s t)) s)"

definition API_Exit :: "nat \<Rightarrow> u32 \<Rightarrow> 't system \<Rightarrow> 't system option" where
  "API_Exit t code s = Process_Exit t (tk_Parent (thr s t)) code s"

definition API_Wait4 :: "nat \<Rightarrow> pid_t \<Rightarrow> u32 \<Rightarrow> 't system \<Rightarrow> wait_result \<times> 't system" where
  "API_Wait4 t pid flags s = Process_WaitPid (tk_Parent (thr s t)) pid flags s"

definition Kill :: "pid_t \<Rightarrow> u32 \<Rightarrow> ('a, 't) proc_call" where
  "Kill pid signal s = (Inl ENOSYS, s)"

definition API_Umask :: "nat \<Rightarrow> mode_t \<Rightarrow> (mode_t, 't) proc_call" where
  "API_Umask p new s = (case SetUmask p new s of (old, s) \<Rightarrow> (Inr old, s))"

definition GetUid :: "nat \<Rightarrow> 't system \<Rightarrow> u32 error_or" where
  "GetUid p s = Inr (cr_UserID (pc_Credentials (proc s p)))"

definition GetGid :: "nat \<Rightarrow> 't system \<Rightarrow> u32 error_or" where
  "GetGid p s = Inr (cr_GroupID (pc_Credentials (proc s p)))"

definition SetUid :: "nat \<Rightarrow> u32 \<Rightarrow> (unit, 't) proc_call" where
  "SetUid p uid s = (Inr (), SetUID p uid s)"

definition SetGid :: "nat \<Rightarrow> u32 \<Rightarrow> (unit, 't) proc_call" where
  "SetGid p gid s = (Inr (), SetGID p gid s)"

definition GetEUid :: "nat \<Rightarrow> 't system \<Rightarrow> u32 error_or" where
  "GetEUid p s = Inr (cr_EffectiveUserID (pc_Credentials (proc s p)))"

definition GetEGid :: "nat \<Rightarrow> 't system \<Rightarrow> u32 error_or" where
  "GetEGid p s = Inr (cr_EffectiveGroupID (pc_Credentials (proc s p)))"

definition SetPGid :: "nat \<Rightarrow> pid_t \<Rightarrow> pid_t \<Rightarrow> (unit, 't) proc_call" where
  "SetPGid p pid pgid s =
     (case (if pid \<noteq> 0 then GetProcess pid s else Some p) of
        None \<Rightarrow> (Inl ESRCH, s)
      | Some q \<Rightarrow>
          if q \<noteq> p \<and> \<not> IsChild p q s then (Inl EPERM, s)
          else if pgid \<noteq> 0 then
            (if pgid < 0 then (Inl EINVAL, s)
             else case GetProcess pgid s of
                    None \<Rightarrow> (Inl EPERM, s)
                  | Some l \<Rightarrow> if Sid q s \<noteq> Sid l s then (Inl EPERM, s) else (Inr (), Process_SetPGid q pgid s))
          else (Inr (), Process_SetPGid q (pc_Pid (proc s q)) s))"

definition GetPPid :: "nat \<Rightarrow> 't system \<Rightarrow> pid_t error_or" where
  "GetPPid p s = Inr (ParentPid p s)"

definition API_SetSid :: "nat \<Rightarrow> (pid_t, 't) proc_call" where
  "API_SetSid p s = (if IsGroupLeader p s then (Inl EPERM, s) else case Process_SetSid p s of (pid, s) \<Rightarrow> (Inr pid, s))"

definition SetReUid :: "nat \<Rightarrow> u32 \<Rightarrow> u32 \<Rightarrow> (unit, 't) proc_call" where
  "SetReUid p ruid euid s = (Inr (), SetReUID p ruid euid s)"

definition SetReGid :: "nat \<Rightarrow> u32 \<Rightarrow> u32 \<Rightarrow> (unit, 't) proc_call" where
  "SetReGid p rgid egid s = (Inr (), SetReGID p rgid egid s)"

definition SetResUid :: "nat \<Rightarrow> u32 \<Rightarrow> u32 \<Rightarrow> u32 \<Rightarrow> (unit, 't) proc_call" where
  "SetResUid p ruid euid suid s = (Inr (), SetResUID p ruid euid suid s)"

definition SetResGid :: "nat \<Rightarrow> u32 \<Rightarrow> u32 \<Rightarrow> u32 \<Rightarrow> (unit, 't) proc_call" where
  "SetResGid p rgid egid sgid s = (Inr (), SetResGID p rgid egid sgid s)"

definition GetPGid :: "nat \<Rightarrow> pid_t \<Rightarrow> 't system \<Rightarrow> pid_t error_or" where
  "GetPGid p pid s =
     (if pid = 0 then Inr (PGid p s)
      else case GetProcess pid s of
             None \<Rightarrow> Inl EPERM
           | Some q \<Rightarrow> if q \<noteq> p \<and> \<not> IsChild p q s then Inl EPERM else Inr (PGid q s))"

definition GetPGrp :: "nat \<Rightarrow> pid_t \<Rightarrow> 't system \<Rightarrow> pid_t error_or" where
  "GetPGrp p pid s = GetPGid p pid s"

definition GetSid :: "nat \<Rightarrow> pid_t \<Rightarrow> 't system \<Rightarrow> pid_t error_or" where
  "GetSid p pid s =
     (if pid = 0 then Inr (Sid p s)
      else case GetProcess pid s of
             None \<Rightarrow> Inl ESRCH
           | Some q \<Rightarrow> if Sid p s \<noteq> Sid q s then Inl EPERM else Inr (Sid q s))"

end
