(* ===== verification/Process_Tree.thy ===== *)
theory Process_Tree
  imports Process_Calls
begin

unbundle bit_operations_syntax

text \<open>
  The process ids and the tree of processes: an id handed out is the least free one, and over every run the table, the parents and the
  lists of children agree.
\<close>

section \<open>Process ids\<close>

lemma AllocatePid_from_cases:
  "AllocatePid_from i s = - 1 \<and> (\<forall>j. i \<le> j \<and> j < pid_max \<longrightarrow> ValidatePid j s) \<or>
   i \<le> AllocatePid_from i s \<and> AllocatePid_from i s < pid_max \<and> \<not> ValidatePid (AllocatePid_from i s) s \<and>
     (\<forall>j. i \<le> j \<and> j < AllocatePid_from i s \<longrightarrow> ValidatePid j s)"
proof (induction i s rule: AllocatePid_from.induct)
  case (1 i s)
  show ?case
  proof (cases "i \<ge> pid_max \<or> \<not> ValidatePid i s")
    case True
    then show ?thesis by (auto simp: AllocatePid_from.simps [of i])
  next
    case False
    then have "AllocatePid_from i s = AllocatePid_from (i + 1) s" by (simp add: AllocatePid_from.simps [of i])
    moreover have "ValidatePid j s" if "i \<le> j" "i + 1 \<le> j \<Longrightarrow> ValidatePid j s" for j
      using that False by (cases "j = i") auto
    ultimately show ?thesis using 1 False by (smt (verit))
  qed
qed

lemma valid_pids_bounded:
  assumes "\<forall>j. 1 \<le> j \<and> j < n \<longrightarrow> ValidatePid j s" and "1 \<le> n"
  shows "n \<le> int (length (s_Processes s)) + 1"
proof -
  have "{1..<n} \<subseteq> fst ` set (s_Processes s)"
    using assms(1) by (auto simp: ValidatePid_def map_of_eq_None_iff)
  then have "card {1..<n} \<le> card (fst ` set (s_Processes s))" by (intro card_mono) simp_all
  also have "\<dots> \<le> length (s_Processes s)" by (metis card_length length_map list.set_map)
  finally show ?thesis using assms(2) by simp
qed

lemma AllocatePid_spec:
  assumes "length (s_Processes s) < 2147483646"
  shows "1 \<le> AllocatePid s \<and> AllocatePid s \<le> int (length (s_Processes s)) + 1 \<and> AllocatePid s < 2 ^ 31 - 1 \<and>
    \<not> ValidatePid (AllocatePid s) s \<and> (\<forall>j. 1 \<le> j \<and> j < AllocatePid s \<longrightarrow> ValidatePid j s)"
proof -
  note c = AllocatePid_from_cases [of 1 s, folded AllocatePid_def]
  have "\<not> (\<forall>j. 1 \<le> j \<and> j < pid_max \<longrightarrow> ValidatePid j s)"
    using valid_pids_bounded [of pid_max s] assms by (auto simp: pid_max_def)
  with c have r: "1 \<le> AllocatePid s \<and> AllocatePid s < pid_max \<and> \<not> ValidatePid (AllocatePid s) s \<and>
    (\<forall>j. 1 \<le> j \<and> j < AllocatePid s \<longrightarrow> ValidatePid j s)" by blast
  moreover from this have "AllocatePid s \<le> int (length (s_Processes s)) + 1" using valid_pids_bounded by blast
  ultimately show ?thesis by (simp add: pid_max_def)
qed

text \<open>
  Claim C14. While the table is not full, a new process gets the least positive id that is not in use; it is at most one more than the number of
  processes, and below the largest value of the type.
\<close>

theorem AllocatePid_least_free:
  assumes "length (s_Processes s) < 2147483646"
  shows "1 \<le> AllocatePid s \<and> AllocatePid s \<le> int (length (s_Processes s)) + 1 \<and> AllocatePid s < 2 ^ 31 - 1 \<and>
    \<not> ValidatePid (AllocatePid s) s \<and> (\<forall>j. 1 \<le> j \<and> j < AllocatePid s \<longrightarrow> ValidatePid j s)"
  using assms by (rule AllocatePid_spec)

section \<open>The tree of processes\<close>

text \<open>What the shape of the tree depends on.\<close>

definition node :: "'t process \<Rightarrow> pid_t \<times> nat option \<times> nat list \<times> nat list" where
  "node x = (pc_Pid x, pc_Parent x, pc_Children x, pc_Zombies x)"

definition tree :: "'t system \<Rightarrow> (pid_t \<times> nat option \<times> nat list \<times> nat list) list \<times> (pid_t \<times> nat) list \<times> nat" where
  "tree s = (map node (procs s), s_Processes s, kernelProcess s)"

definition registered :: "'t system \<Rightarrow> nat \<Rightarrow> bool" where
  "registered s p \<longleftrightarrow> p \<in> snd ` set (s_Processes s)"

text \<open>
  The kernel's process is object 0 and init object 1.  Ids in the table are positive, distinct and those of their processes; a process
  in the table has distinct children, which name it as their parent; and every process but the first two has a parent that is in the
  table, was created before it and has it among its children.
\<close>

definition table_consistent :: "'t system \<Rightarrow> bool" where
  "table_consistent s \<longleftrightarrow> distinct (map fst (s_Processes s)) \<and>
     (\<forall>(pid, p) \<in> set (s_Processes s). 1 \<le> pid \<and> pid < pid_max \<and> 1 \<le> p \<and> p < length (procs s) \<and> pc_Pid (proc s p) = pid)"

definition parents_ok :: "'t system \<Rightarrow> bool" where
  "parents_ok s \<longleftrightarrow> (\<forall>c. 2 \<le> c \<and> c < length (procs s) \<longrightarrow>
     (\<exists>q. pc_Parent (proc s c) = Some q \<and> q < c \<and> registered s q \<and> c \<in> set (pc_Children (proc s q))))"

definition children_ok :: "'t system \<Rightarrow> bool" where
  "children_ok s \<longleftrightarrow> (\<forall>p. registered s p \<longrightarrow> distinct (pc_Children (proc s p)) \<and>
     (\<forall>c \<in> set (pc_Children (proc s p)). 2 \<le> c \<and> c < length (procs s) \<and> pc_Parent (proc s c) = Some p))"

definition tree_ok :: "'t system \<Rightarrow> bool" where
  "tree_ok s \<longleftrightarrow> kernelProcess s = 0 \<and> GetProcess 1 s = Some 1 \<and> table_consistent s \<and> parents_ok s \<and> children_ok s \<and>
     (\<forall>p < length (procs s). pc_Zombies (proc s p) = [])"

lemma tree_eqD:
  assumes "tree s' = tree s"
  shows "length (procs s') = length (procs s)" "s_Processes s' = s_Processes s" "kernelProcess s' = kernelProcess s"
    "p < length (procs s) \<Longrightarrow> pc_Pid (proc s' p) = pc_Pid (proc s p)"
    "p < length (procs s) \<Longrightarrow> pc_Parent (proc s' p) = pc_Parent (proc s p)"
    "p < length (procs s) \<Longrightarrow> pc_Children (proc s' p) = pc_Children (proc s p)"
    "p < length (procs s) \<Longrightarrow> pc_Zombies (proc s' p) = pc_Zombies (proc s p)"
proof -
  have m: "map node (procs s') = map node (procs s)" using assms by (simp add: tree_def)
  then show l: "length (procs s') = length (procs s)" by (rule map_eq_imp_length_eq)
  show "s_Processes s' = s_Processes s" "kernelProcess s' = kernelProcess s" using assms by (simp_all add: tree_def)
  have n: "node (proc s' p) = node (proc s p)" if "p < length (procs s)" for p
    using m that l by (metis nth_map)
  show "pc_Pid (proc s' p) = pc_Pid (proc s p)" "pc_Parent (proc s' p) = pc_Parent (proc s p)"
    "pc_Children (proc s' p) = pc_Children (proc s p)" "pc_Zombies (proc s' p) = pc_Zombies (proc s p)" if "p < length (procs s)"
    using n [OF that] by (simp_all add: node_def)
qed

lemma registered_lt: "table_consistent s \<Longrightarrow> registered s p \<Longrightarrow> 1 \<le> p \<and> p < length (procs s)"
  by (auto simp: table_consistent_def registered_def)

lemma tree_ok_cong:
  assumes "tree s' = tree s" and "tree_ok s"
  shows "tree_ok s'"
proof -
  note d = tree_eqD [OF assms(1)]
  have tc: "table_consistent s" using assms(2) by (simp add: tree_ok_def)
  have reg: "registered s' q \<longleftrightarrow> registered s q" for q by (simp add: registered_def d)
  have "table_consistent s'" using tc by (auto simp: table_consistent_def d)
  moreover have "parents_ok s'"
    unfolding parents_ok_def
  proof (intro allI impI)
    fix c assume "2 \<le> c \<and> c < length (procs s')"
    then have c: "2 \<le> c \<and> c < length (procs s)" by (simp add: d)
    with assms(2) obtain q where q: "pc_Parent (proc s c) = Some q" "q < c" "registered s q" "c \<in> set (pc_Children (proc s q))"
      by (auto simp: tree_ok_def parents_ok_def)
    then show "\<exists>q. pc_Parent (proc s' c) = Some q \<and> q < c \<and> registered s' q \<and> c \<in> set (pc_Children (proc s' q))"
      using c registered_lt [OF tc q(3)] by (auto simp: d reg)
  qed
  moreover have "children_ok s'"
    using assms(2) registered_lt [OF tc] by (fastforce simp: tree_ok_def children_ok_def d reg)
  ultimately show ?thesis using assms(2) by (auto simp: tree_ok_def GetProcess_def d)
qed

lemma tree_on_proc [simp]:
  assumes "\<And>x. node (f x) = node x"
  shows "tree (on_proc p f s) = tree s"
proof -
  have "map node ((procs s)[p := f (procs s ! p)]) = map node (procs s)"
    by (metis assms list_update_id map_update)
  then show ?thesis by (simp add: tree_def on_proc_def)
qed

lemma tree_parts [simp]:
  "tree (on_task t g s) = tree s" "tree (s\<lparr>memory := m\<rparr>) = tree s" "tree (s\<lparr>frames := fs\<rparr>) = tree s"
  "tree (s\<lparr>runQueue := rq\<rparr>) = tree s" "tree (s\<lparr>tasks := ts\<rparr>) = tree s"
  by (simp_all add: tree_def on_task_def)

lemma tree_CallocatePages [simp]: "tree (snd (CallocatePages n s)) = tree s"
  by (simp add: CallocatePages_def tree_def split: list.split)

lemma tree_MapRange [simp]: "tree (PageMap_MapRange q v ph n s) = tree s"
  by (simp add: PageMap_MapRange_def node_def)

lemma tree_Fork_region: "Fork_region ro al q r s = Some s' \<Longrightarrow> tree s' = tree s"
  by (auto simp: Fork_region_def Let_def split_beta node_def split: if_splits)

lemma tree_Fork_regions: "Fork_regions ro al q rs s = Some s' \<Longrightarrow> tree s' = tree s"
  by (induction ro al q rs s rule: Fork_regions.induct) (auto simp: bind_eq_Some_conv dest: tree_Fork_region)

lemma tree_Fork_stack [simp]: "tree (Fork_stack al q n r s) = tree s"
  by (simp add: Fork_stack_def Let_def split_beta)

lemma tree_fold: "(\<And>x s. tree (f x s) = tree s) \<Longrightarrow> tree (fold f xs s) = tree s"
  by (induction xs arbitrary: s) simp_all

lemma tree_CreateThread [simp]: "tree (snd (CreateThread c p u s)) = tree s"
  by (simp add: CreateThread_def Let_def node_def)

lemma tree_Thread_Fork [simp]: "tree (snd (Thread_Fork hh al t q s)) = tree s"
  by (simp add: Thread_Fork_def Let_def split_beta tree_fold)

lemma tree_Enqueue: "Enqueue t s = Some s' \<Longrightarrow> tree s' = tree s"
  by (auto simp: Enqueue_def Let_def split: if_splits)

lemma tree_Process_Fork:
  assumes "Process_Fork ro al hh z t p s = Some (q, s')"
  shows "q = fst (Fork_begin ro z p s)" "tree s' = tree (snd (Fork_begin ro z p s))"
  using assms
  by (auto simp: Process_Fork_def Let_def split_beta node_def dest!: tree_Fork_regions tree_Enqueue split: if_splits option.splits)

lemma length_on_proc [simp]: "length (procs (on_proc p f s)) = length (procs s)"
  and table_on_proc [simp]: "s_Processes (on_proc p f s) = s_Processes s"
  and kernel_on_proc [simp]: "kernelProcess (on_proc p f s) = kernelProcess s"
  by (simp_all add: on_proc_def)

lemma proc_on_proc: "proc (on_proc p f s) q = (if q = p \<and> p < length (procs s) then f (proc s p) else proc s q)"
  by (cases "p < length (procs s)") (auto simp: on_proc_def nth_list_update list_update_beyond)

lemma Fork_begin_shape:
  assumes "p < length (procs s)" and "Fork_begin ro z p s = (q, s')"
  shows "q = length (procs s)" "length (procs s') = Suc (length (procs s))" "kernelProcess s' = kernelProcess s"
    "s_Processes s' = AList.update (AllocatePid s) q (s_Processes s)"
    "proc s' q = (Process_make z (Some p) (pc_Name (proc s p)) (pc_Credentials (proc s p)) (AllocatePid s))
       \<lparr>pc_PageMap := [], pc_CWD := pc_CWD (proc s p), pc_Umask := pc_Umask (proc s p), pc_AddressSpace := AddressSpace_Clear ro (emptySpace z)\<rparr>"
    "proc s' p = (proc s p)\<lparr>pc_Children := pc_Children (proc s p) @ [q]\<rparr>"
    "\<And>r. r < length (procs s) \<Longrightarrow> r \<noteq> p \<Longrightarrow> proc s' r = proc s r"
    "memory s' = memory s" "frames s' = frames s" "tasks s' = tasks s" "runQueue s' = runQueue s"
  using assms
  by (auto simp: Fork_begin_def CreateProcess_def Let_def Process_make_def on_proc_def nth_list_update nth_append)

lemma update_fresh: "n \<notin> fst ` set xs \<Longrightarrow> AList.update n q xs = xs @ [(n, q)]"
  by (induction xs) auto

lemma registered_update:
  assumes "\<not> ValidatePid n s" and "s_Processes s' = AList.update n q (s_Processes s)"
  shows "registered s' r \<longleftrightarrow> r = q \<or> registered s r"
  using assms by (auto simp: ValidatePid_def map_of_eq_None_iff update_fresh registered_def)

lemma Fork_begin_keeps_tree:
  assumes "tree_ok s" "registered s p" "length (s_Processes s) < 2147483646" "Fork_begin ro z p s = (q, s')"
  shows "tree_ok s'"
proof -
  let ?n = "AllocatePid s"
  have tc: "table_consistent s" and p: "1 \<le> p" "p < length (procs s)"
    using assms(1,2) registered_lt by (auto simp: tree_ok_def)
  note f = Fork_begin_shape [OF p(2) assms(4)]
  have n: "1 \<le> ?n" "?n < pid_max" "\<not> ValidatePid ?n s" using AllocatePid_spec [OF assms(3)] by (simp_all add: pid_max_def)
  then have nt: "?n \<notin> fst ` set (s_Processes s)" by (simp add: ValidatePid_def map_of_eq_None_iff)
  have tab: "s_Processes s' = s_Processes s @ [(?n, q)]" using f(4) nt by (simp add: update_fresh)
  have reg: "registered s' r \<longleftrightarrow> r = q \<or> registered s r" for r using n(3) f(4) by (rule registered_update)
  have lt: "r < length (procs s)" if "registered s r" for r using registered_lt [OF tc that] by simp
  have keep: "pc_Parent (proc s' r) = pc_Parent (proc s r)" "pc_Pid (proc s' r) = pc_Pid (proc s r)"
    "pc_Zombies (proc s' r) = pc_Zombies (proc s r)"
    "set (pc_Children (proc s r)) \<subseteq> set (pc_Children (proc s' r))" if "r < length (procs s)" for r
    using that f(6,7) by (cases "r = p"; auto)+
  have kids: "pc_Children (proc s' r) = pc_Children (proc s r) @ (if r = p then [q] else [])" if "r < length (procs s)" for r
    using that f(6,7) by (cases "r = p") auto
  have new: "pc_Children (proc s' q) = []" "pc_Parent (proc s' q) = Some p" "pc_Pid (proc s' q) = ?n" "pc_Zombies (proc s' q) = []"
    using f(5) by (simp_all add: Process_make_def)
  have "table_consistent s'"
    using tc n nt keep new p f(1,2) by (auto simp: table_consistent_def tab image_iff)
  moreover have "parents_ok s'"
    unfolding parents_ok_def
  proof (intro allI impI)
    fix c assume c: "2 \<le> c \<and> c < length (procs s')"
    show "\<exists>q. pc_Parent (proc s' c) = Some q \<and> q < c \<and> registered s' q \<and> c \<in> set (pc_Children (proc s' q))"
    proof (cases "c = q")
      case True
      then show ?thesis using new p assms(2) reg kids [OF p(2)] f(1) by auto
    next
      case False
      with c f(1,2) have c': "2 \<le> c" "c < length (procs s)" by auto
      then obtain r where "pc_Parent (proc s c) = Some r" "r < c" "registered s r" "c \<in> set (pc_Children (proc s r))"
        using assms(1) by (auto simp: tree_ok_def parents_ok_def)
      then show ?thesis using keep [of c] keep [of r] c' reg lt by auto
    qed
  qed
  moreover have "children_ok s'"
    unfolding children_ok_def
  proof (intro allI impI)
    fix r assume "registered s' r"
    then consider "r = q" | "registered s r" "r < length (procs s)" using reg lt by blast
    then show "distinct (pc_Children (proc s' r)) \<and> (\<forall>c \<in> set (pc_Children (proc s' r)). 2 \<le> c \<and> c < length (procs s') \<and> pc_Parent (proc s' c) = Some r)"
    proof cases
      case 2
      then have old: "distinct (pc_Children (proc s r))" "\<forall>c \<in> set (pc_Children (proc s r)). 2 \<le> c \<and> c < length (procs s) \<and> pc_Parent (proc s c) = Some r"
        using assms(1) by (auto simp: tree_ok_def children_ok_def)
      then show ?thesis using kids [OF 2(2)] keep new f(1,2) p by auto
    qed (simp add: new)
  qed
  moreover have "GetProcess 1 s' = Some 1" using assms(1) nt by (auto simp: tree_ok_def GetProcess_def tab map_add_Some_iff)
  moreover have "\<forall>r < length (procs s'). pc_Zombies (proc s' r) = []"
    using assms(1) keep new f(1,2) by (auto simp: tree_ok_def less_Suc_eq)
  ultimately show ?thesis using assms(1) f(3) by (simp add: tree_ok_def)
qed
lemma adopt_all_shape:
  assumes "i < length (procs s)" "set cs \<subseteq> {..<length (procs s)}" "i \<notin> set cs"
  obtains s' where "adopt_all (Some i) cs s = Some s'" "length (procs s') = length (procs s)" "s_Processes s' = s_Processes s"
    "kernelProcess s' = kernelProcess s" "tasks s' = tasks s"
    "\<And>r. proc s' r = (if r = i then (proc s i)\<lparr>pc_Children := pc_Children (proc s i) @ cs\<rparr>
       else if r \<in> set cs then (proc s r)\<lparr>pc_Parent := Some i\<rparr> else proc s r)"
  using assms
proof (induction cs arbitrary: s thesis)
  case (Cons c cs)
  let ?s = "adopt i c s"
  have a: "length (procs ?s) = length (procs s)" "s_Processes ?s = s_Processes s" "kernelProcess ?s = kernelProcess s" "tasks ?s = tasks s"
    by (simp_all add: adopt_def on_proc_def)
  have b: "proc ?s r = (if r = i then (proc s i)\<lparr>pc_Children := pc_Children (proc s i) @ [c]\<rparr>
       else if r = c then (proc s r)\<lparr>pc_Parent := Some i\<rparr> else proc s r)" for r
    using Cons.prems by (auto simp: adopt_def proc_on_proc)
  from Cons.prems have p: "i < length (procs ?s)" "set cs \<subseteq> {..<length (procs ?s)}" "i \<notin> set cs" by (auto simp: a)
  from Cons.IH [OF _ p] obtain s' where s': "adopt_all (Some i) cs ?s = Some s'" "length (procs s') = length (procs ?s)"
    "s_Processes s' = s_Processes ?s" "kernelProcess s' = kernelProcess ?s" "tasks s' = tasks ?s"
    "\<And>r. proc s' r = (if r = i then (proc ?s i)\<lparr>pc_Children := pc_Children (proc ?s i) @ cs\<rparr>
       else if r \<in> set cs then (proc ?s r)\<lparr>pc_Parent := Some i\<rparr> else proc ?s r)" by blast
  show ?case by (rule Cons.prems(1) [of s']) (use s' a b Cons.prems in auto)
qed auto

text \<open>What an exit does to the process table and the objects.\<close>

definition exited :: "u32 \<Rightarrow> 't process \<Rightarrow> 't process" where
  "exited code x = x\<lparr>pc_FdTable := Table_Clear (pc_FdTable x), pc_PageMap := [], pc_Status := Some (W_EXITCODE code 0), pc_Exited := True,
     pc_MainThread := (if pc_Threads x = [] then pc_MainThread x else Some (last (pc_Threads x))), pc_Threads := [], pc_State := ProcessDead,
     pc_Pending := pc_Pending x + 1\<rparr>"

lemma fold_on_task [simp]:
  "procs (fold (\<lambda>t. on_task t f) ts s) = procs s" "s_Processes (fold (\<lambda>t. on_task t f) ts s) = s_Processes s"
  "kernelProcess (fold (\<lambda>t. on_task t f) ts s) = kernelProcess s"
  by (induction ts arbitrary: s) (simp_all add: on_task_def)

lemma on_task_parts [simp]:
  "procs (on_task t f s) = procs s" "s_Processes (on_task t f s) = s_Processes s" "kernelProcess (on_task t f s) = kernelProcess s"
  by (simp_all add: on_task_def)

lemma tree_ok_child:
  assumes "tree_ok s" "registered s p" "c \<in> set (pc_Children (proc s p))"
  shows "2 \<le> c" "p < c" "c < length (procs s)" "pc_Parent (proc s c) = Some p"
proof -
  show c: "2 \<le> c" "c < length (procs s)" "pc_Parent (proc s c) = Some p" using assms by (auto simp: tree_ok_def children_ok_def)
  then show "p < c" using assms(1) by (auto simp: tree_ok_def parents_ok_def)
qed

lemma tree_ok_init:
  assumes "tree_ok s"
  shows "registered s 1" "1 < length (procs s)" "registered s p \<Longrightarrow> p \<noteq> 1 \<Longrightarrow> 1 < pc_Pid (proc s p)"
proof -
  have m: "(1, 1) \<in> set (s_Processes s)" using assms by (auto simp: tree_ok_def GetProcess_def dest: map_of_SomeD)
  then show "registered s 1" by (force simp: registered_def)
  with assms show "1 < length (procs s)" using registered_lt by (auto simp: tree_ok_def)
  show "1 < pc_Pid (proc s p)" if p: "registered s p" "p \<noteq> 1"
  proof -
    have e: "(pc_Pid (proc s p), p) \<in> set (s_Processes s)" "1 \<le> pc_Pid (proc s p)"
      using p(1) assms by (auto simp: tree_ok_def table_consistent_def registered_def)
    then have "pc_Pid (proc s p) \<noteq> 1"
      using m p(2) assms by (auto simp: tree_ok_def table_consistent_def dest: eq_key_imp_eq_value)
    with e show ?thesis by simp
  qed
qed

lemma Process_Exit_shape:
  assumes "tree_ok s" "registered s p" "p \<noteq> 1"
  obtains s' where "Process_Exit t p code s = Some s'" "length (procs s') = length (procs s)" "kernelProcess s' = kernelProcess s"
    "s_Processes s' = AList.delete (pc_Pid (proc s p)) (s_Processes s)"
    "\<And>r. proc s' r = (if r = p then exited code (proc s p)
       else if r = 1 then (proc s 1)\<lparr>pc_Children := pc_Children (proc s 1) @ pc_Children (proc s p)\<rparr>
       else if r \<in> set (pc_Children (proc s p)) then (proc s r)\<lparr>pc_Parent := Some 1\<rparr> else proc s r)"
proof -
  have p: "1 \<le> p" "p < length (procs s)" using assms registered_lt by (auto simp: tree_ok_def)
  have one: "GetProcess 1 s = Some 1" "1 < length (procs s)" "pc_Pid (proc s p) > 1"
    using assms tree_ok_init by (auto simp: tree_ok_def)
  have np: "p \<notin> set (pc_Children (proc s p))" "1 \<notin> set (pc_Children (proc s p))" "set (pc_Children (proc s p)) \<subseteq> {..<length (procs s)}"
    using tree_ok_child [OF assms(1,2)] by force+
  let ?s0 = "on_task t (\<lambda>x. x\<lparr>tk_Parent := kernelProcess s\<rparr>) (on_proc p (\<lambda>x. x\<lparr>pc_FdTable := Table_Clear (pc_FdTable x)\<rparr>) s)"
  have s0: "GetProcess 1 ?s0 = Some 1" "pc_Pid (proc ?s0 p) = pc_Pid (proc s p)" "pc_Children (proc ?s0 p) = pc_Children (proc s p)"
    using one(1) p by (simp_all add: GetProcess_def proc_on_proc)
  obtain s1 where s1: "adopt_all (Some 1) (pc_Children (proc s p)) ?s0 = Some s1" "length (procs s1) = length (procs ?s0)" "s_Processes s1 = s_Processes ?s0"
    "kernelProcess s1 = kernelProcess ?s0"
    "\<And>r. proc s1 r = (if r = 1 then (proc ?s0 1)\<lparr>pc_Children := pc_Children (proc ?s0 1) @ pc_Children (proc s p)\<rparr>
       else if r \<in> set (pc_Children (proc s p)) then (proc ?s0 r)\<lparr>pc_Parent := Some 1\<rparr> else proc ?s0 r)"
    by (rule adopt_all_shape [of 1 ?s0 "pc_Children (proc s p)"]) (use one np in \<open>simp_all only: length_on_proc on_task_parts not_False_eq_True\<close>)
  have sp: "proc s1 p = (proc s p)\<lparr>pc_FdTable := Table_Clear (pc_FdTable (proc s p))\<rparr>"
    using s1(5) [of p] assms(3) np(1) p by (simp add: proc_on_proc)
  have z: "pc_Zombies (proc s1 p) = []" using sp assms(1) p by (simp add: tree_ok_def)
  have k: "p \<noteq> kernelProcess s" using assms(1) p by (auto simp: tree_ok_def)
  show thesis
  proof (rule that)
    show "Process_Exit t p code s = Some (on_proc p (\<lambda>x. x\<lparr>pc_Pending := pc_Pending x + 1\<rparr>) (RemoveProcess (pc_Pid (proc s p))
      (on_proc p (\<lambda>x. x\<lparr>pc_State := ProcessDead\<rparr>) (on_task t (\<lambda>x. x\<lparr>tk_State := eExited\<rparr>) (exit_threads p
        (on_proc p (\<lambda>x. x\<lparr>pc_Zombies := [], pc_PageMap := [], pc_Status := Some (W_EXITCODE code 0), pc_Exited := True\<rparr>) s1))))))"
      using k s0 one(3) s1(1,2) z sp p
      by (simp add: Process_Exit_def Let_def exit_threads_def proc_on_proc cong: if_cong)
  qed (use s1 sp z p assms(3) np(1) in \<open>auto simp: RemoveProcess_def exit_threads_def Let_def proc_on_proc exited_def\<close>)
qed

lemma registered_delete:
  assumes "tree_ok s" "registered s p" "s_Processes s' = AList.delete (pc_Pid (proc s p)) (s_Processes s)"
  shows "registered s' r \<longleftrightarrow> registered s r \<and> r \<noteq> p"
proof -
  have "set (s_Processes s') = {e \<in> set (s_Processes s). fst e \<noteq> pc_Pid (proc s p)}"
    using assms(3) by (auto simp: AList.delete_eq)
  moreover have m: "(pc_Pid (proc s p), p) \<in> set (s_Processes s)"
    using assms(1,2) by (auto simp: tree_ok_def table_consistent_def registered_def)
  moreover have "n = pc_Pid (proc s p) \<longleftrightarrow> q = p" if "(n, q) \<in> set (s_Processes s)" for n q
    using assms(1) that m by (auto simp: tree_ok_def table_consistent_def dest: eq_key_imp_eq_value)
  ultimately show ?thesis by (force simp: registered_def)
qed

lemma Process_Exit_keeps_tree:
  assumes "tree_ok s" "registered s p" "p \<noteq> 1" "Process_Exit t p code s = Some s'"
  shows "tree_ok s'"
proof -
  obtain e where e: "s' = e" "length (procs e) = length (procs s)" "kernelProcess e = kernelProcess s"
    "s_Processes e = AList.delete (pc_Pid (proc s p)) (s_Processes s)"
    "\<And>r. proc e r = (if r = p then exited code (proc s p)
       else if r = 1 then (proc s 1)\<lparr>pc_Children := pc_Children (proc s 1) @ pc_Children (proc s p)\<rparr>
       else if r \<in> set (pc_Children (proc s p)) then (proc s r)\<lparr>pc_Parent := Some 1\<rparr> else proc s r)"
    by (rule Process_Exit_shape [OF assms(1-3), of t code]) (use assms(4) in auto)
  note init = tree_ok_init [OF assms(1)] and child = tree_ok_child [OF assms(1)]
  have reg: "registered e r \<longleftrightarrow> registered s r \<and> r \<noteq> p" for r using assms(1,2) e(4) by (rule registered_delete)
  have p: "1 < p" using assms(1-3) registered_lt by (fastforce simp: tree_ok_def)
  have pid: "pc_Pid (proc e r) = pc_Pid (proc s r)" "pc_Zombies (proc e r) = pc_Zombies (proc s r)" for r by (simp_all add: e(5) exited_def)
  have par: "pc_Parent (proc e r) = (if r \<in> set (pc_Children (proc s p)) then Some 1 else pc_Parent (proc s r))" for r
    using child(1,2) [OF assms(2), of r] by (auto simp: e(5) exited_def)
  have kids: "pc_Children (proc e r) = pc_Children (proc s r) @ (if r = 1 then pc_Children (proc s p) else [])" for r
    using assms(3) by (simp add: e(5) exited_def)
  have "table_consistent e"
    using assms(1) e(2) by (auto simp: tree_ok_def table_consistent_def e(4) pid AList.delete_eq distinct_map_filter)
  moreover have "parents_ok e"
    unfolding parents_ok_def
  proof (intro allI impI)
    fix c assume "2 \<le> c \<and> c < length (procs e)"
    then obtain q where q: "pc_Parent (proc s c) = Some q" "q < c" "registered s q" "c \<in> set (pc_Children (proc s q))" "2 \<le> c"
      using assms(1) e(2) by (auto simp: tree_ok_def parents_ok_def)
    then show "\<exists>q. pc_Parent (proc e c) = Some q \<and> q < c \<and> registered e q \<and> c \<in> set (pc_Children (proc e q))"
      using init(1) p child(4) [OF assms(2), of c] by (cases "q = p") (auto simp: par kids reg)
  qed
  moreover have "children_ok e"
  proof -
    have disj: "r = q" if "registered s r" "registered s q" "c \<in> set (pc_Children (proc s r))" "c \<in> set (pc_Children (proc s q))" for r q c
      using child(4) [OF that(1,3)] child(4) [OF that(2,4)] by simp
    have "distinct (pc_Children (proc s r))" if "registered s r" for r using that assms(1) by (auto simp: tree_ok_def children_ok_def)
    then show ?thesis
      using disj child init(1) assms(2,3) unfolding children_ok_def by (auto simp: reg kids par e(2))
  qed
  moreover have "GetProcess 1 e = Some 1" using assms(1) init(3) [OF assms(2,3)] by (simp add: tree_ok_def GetProcess_def e(4) delete_conv')
  ultimately show ?thesis using assms(1) e(1-3) by (simp add: tree_ok_def pid)
qed

text \<open>
  A call that changes neither the ids, nor the parents, nor the table: those of the credentials, of signals, of waiting, of memory and
  of files.
\<close>

inductive tree_step ::
    "(Pointer, Region, 't) tree_ops \<Rightarrow> (usize \<Rightarrow> usize \<Rightarrow> usize) \<Rightarrow> Pointer \<Rightarrow> 't fresh \<Rightarrow> 't system \<Rightarrow> 't system \<Rightarrow> bool"
  for ro al hh z where
  fork: "registered s (tk_Parent (thr s t)) \<Longrightarrow> length (s_Processes s) < 2147483646 \<Longrightarrow>
    API_Fork ro al hh z t s = Some (r, s') \<Longrightarrow> tree_step ro al hh z s s'"
| exits: "registered s (tk_Parent (thr s t)) \<Longrightarrow> tk_Parent (thr s t) \<noteq> 1 \<Longrightarrow> API_Exit t code s = Some s' \<Longrightarrow> tree_step ro al hh z s s'"
| wait: "API_Wait4 t pid flags s = (r, s') \<Longrightarrow> tree_step ro al hh z s s'"
| sigmask: "SigProcMask ro t how new old s = (r, s') \<Longrightarrow> tree_step ro al hh z s s'"
| setpgid: "SetPGid p pid pgid s = (r, s') \<Longrightarrow> tree_step ro al hh z s s'"
| setsid: "API_SetSid p s = (r, s') \<Longrightarrow> tree_step ro al hh z s s'"
| setuid: "SetUid p uid s = (r, s') \<Longrightarrow> tree_step ro al hh z s s'"
| setgid: "SetGid p gid s = (r, s') \<Longrightarrow> tree_step ro al hh z s s'"
| setresuid: "SetResUid p ruid euid suid s = (r, s') \<Longrightarrow> tree_step ro al hh z s s'"
| setresgid: "SetResGid p rgid egid sgid s = (r, s') \<Longrightarrow> tree_step ro al hh z s s'"
| setreuid: "SetReUid p ruid euid s = (r, s') \<Longrightarrow> tree_step ro al hh z s s'"
| setregid: "SetReGid p rgid egid s = (r, s') \<Longrightarrow> tree_step ro al hh z s s'"
| umask: "API_Umask p m s = (r, s') \<Longrightarrow> tree_step ro al hh z s s'"
| other: "tree s' = tree s \<Longrightarrow> tree_step ro al hh z s s'"

lemma tree_on_creds [simp]: "tree (on_creds p f s) = tree s"
  by (simp add: on_creds_def node_def)

lemma tree_WaitPid_pass: "WaitPid_pass p pid flags s = (r, s') \<Longrightarrow> tree s' = tree s"
  by (auto simp: WaitPid_pass_def node_def split: sum.splits option.splits)

lemma tree_WaitPid_loop: "WaitPid_loop n p pid flags s = (r, s') \<Longrightarrow> tree s' = tree s"
  by (induction n p pid flags s rule: WaitPid_loop.induct) (auto split: prod.splits wait_result.splits dest!: tree_WaitPid_pass)

lemmas id_call_defs =
  SetUid_def SetUID_def SetGid_def SetGID_def SetReUid_def SetReUID_def SetReGid_def SetReGID_def SetResUid_def SetResUID_def
  SetResGid_def SetResGID_def API_SetSid_def Process_SetSid_def Process_SetPGid_def API_Umask_def SetUmask_def

lemma tree_step_keeps:
  assumes "tree_step ro al hh z s s'" "tree_ok s"
  shows "tree_ok s'"
  using assms
proof (cases rule: tree_step.cases)
  case (fork t r)
  then obtain q where f: "Process_Fork ro al hh z t (tk_Parent (thr s t)) s = Some (q, s')" by (auto simp: API_Fork_def)
  obtain u where "Fork_begin ro z (tk_Parent (thr s t)) s = (q, u)" "tree s' = tree u"
    using tree_Process_Fork [OF f] by (cases "Fork_begin ro z (tk_Parent (thr s t)) s") simp
  with fork assms(2) show ?thesis by (metis Fork_begin_keeps_tree tree_ok_cong)
next
  case (exits t code)
  then show ?thesis using assms(2) Process_Exit_keeps_tree by (auto simp: API_Exit_def)
next
  case (wait t pid flags r)
  then show ?thesis using assms(2) by (auto simp: API_Wait4_def Process_WaitPid_def intro: tree_ok_cong dest: tree_WaitPid_loop)
next
  case (sigmask t how new old r)
  then have "tree s' = tree s" by (auto simp: SigProcMask_def Let_def split: option.splits if_splits sum.splits)
  with assms(2) show ?thesis by (rule tree_ok_cong [rotated])
next
  case (setpgid p pid pgid r)
  then have "tree s' = tree s" by (auto simp: SetPGid_def Process_SetPGid_def split: option.splits if_splits)
  with assms(2) show ?thesis by (rule tree_ok_cong [rotated])
qed (rule tree_ok_cong [OF _ assms(2)], auto simp: id_call_defs node_def Let_def split: if_splits)+

text \<open>The kernel's process, and init with its thread, as they are when the first user program starts.\<close>

definition s_Root :: ProcessCredentials where
  "s_Root = \<lparr>cr_UserID = 0, cr_GroupID = 0, cr_EffectiveUserID = 0, cr_EffectiveGroupID = 0, cr_FilesystemUserID = 0, cr_FilesystemGroupID = 0,
     cr_SetUserID = 0, cr_SetGroupID = 0, cr_SessionID = 0, cr_ProcessGroupID = 0\<rparr>"

definition CreateKernelProcess :: "'t fresh \<Rightarrow> 't process" where
  "CreateKernelProcess z =
     (Process_make z None ''TheOverlord'' s_Root 0)\<lparr>pc_CWD := None, pc_FdTable := FileDescriptorTable_empty\<rparr>"

definition boot_system :: "'t fresh \<Rightarrow> string \<Rightarrow> cpu_context \<Rightarrow> (Pointer \<Rightarrow> u8) \<Rightarrow> Pointer list \<Rightarrow> 't system" where
  "boot_system z initPath ctx m fs =
     (let s = \<lparr>procs = [CreateKernelProcess z], tasks = [], s_Processes = [], kernelProcess = 0, memory = m, frames = fs, runQueue = []\<rparr>;
          (p, s) = CreateProcess z (Some 0) initPath s_Root s;
          (t, s) = CreateThread ctx p True s
      in s)"

lemma AllocatePid_first: "s_Processes s = [] \<Longrightarrow> AllocatePid s = 1"
  by (simp add: AllocatePid_def AllocatePid_from.simps [of 1] ValidatePid_def pid_max_def)

lemma boot_tree_ok: "tree_ok (boot_system z initPath ctx m fs)"
  by (auto simp: boot_system_def tree_ok_def table_consistent_def parents_ok_def children_ok_def registered_def GetProcess_def Let_def
      split_beta CreateThread_def CreateProcess_def CreateKernelProcess_def Process_make_def on_proc_def AllocatePid_first pid_max_def
      less_Suc_eq nth_Cons')

definition demo_fresh :: "(Pointer, Region) rbt fresh" where
  "demo_fresh = \<lparr>rootDirectory = None, stdioTable = \<lparr>m_Table = [(0, 0), (1, 1), (2, 2)], m_NextIndex = 6\<rparr>,
     emptySpace = \<lparr>m_RegionTree = RBT.empty, m_TotalRange = \<lparr>ar_Base = 0, ar_Size = 0x1000\<rparr>\<rparr>\<rparr>"

definition demo_boot :: "(Pointer, Region) rbt system" where
  "demo_boot = boot_system demo_fresh ''init'' \<lparr>rip = 0, rax = 0, rdx = 0, registers = 0\<rparr> (\<lambda>_. 0) [0x1000, 0x20000, 0x40000, 0x60000, 0x80000, 0xa0000]"

definition demo_forked :: "(Pointer, Region) rbt system" where
  "demo_forked = snd (the (API_Fork rbt_ops align_up 0 demo_fresh 0 demo_boot))"

lemma demo_fork:
  "API_Fork rbt_ops align_up 0 demo_fresh 0 demo_boot = Some (Inr 2, demo_forked)"
  "map_option (\<lambda>s. map fst (s_Processes s)) (API_Exit 1 7 demo_forked) = Some [1]"
  "s_Processes demo_boot = [(1, 1)]" "tk_Parent (thr demo_boot 0) = 1"
  "s_Processes demo_forked = [(1, 1), (2, 2)]" "tk_Parent (thr demo_forked 1) = 2"
proof -
  have "map_option fst (API_Fork rbt_ops align_up 0 demo_fresh 0 demo_boot) = Some (Inr 2)" by code_simp
  then show "API_Fork rbt_ops align_up 0 demo_fresh 0 demo_boot = Some (Inr 2, demo_forked)" by (auto simp: demo_forked_def)
qed code_simp+

lemma demo_run:
  obtains s where "(tree_step rbt_ops align_up 0 demo_fresh)\<^sup>*\<^sup>* demo_boot s" "API_Exit 1 7 demo_forked = Some s" "map fst (s_Processes s) = [1]"
proof -
  obtain s where s: "API_Exit 1 7 demo_forked = Some s" "map fst (s_Processes s) = [1]" using demo_fork(2) by auto
  have "tree_step rbt_ops align_up 0 demo_fresh demo_boot demo_forked"
    by (rule tree_step.fork [of _ 0, OF _ _ demo_fork(1)]) (simp_all add: demo_fork(3-6) registered_def)
  moreover have "tree_step rbt_ops align_up 0 demo_fresh demo_forked s"
    by (rule tree_step.exits [of _ 1, OF _ _ s(1)]) (use demo_fork(6) in \<open>simp_all add: demo_fork(5) registered_def\<close>)
  ultimately have "(tree_step rbt_ops align_up 0 demo_fresh)\<^sup>*\<^sup>* demo_boot s"
    by (rule converse_rtranclp_into_rtranclp [OF _ r_into_rtranclp])
  then show thesis using s by (rule that)
qed

text \<open>
  Claim C6. In every run of the system from its start, as long as init does not exit: the ids in the table are distinct, positive and those
  of their processes, no process is without a parent that is in the table and knows it, parents precede their children so that there is no
  cycle, and no process has two parents.
\<close>

theorem process_tree_invariant:
  assumes "(tree_step ro al hh z)\<^sup>*\<^sup>* (boot_system z initPath ctx m fs) s"
  shows "tree_ok s"
  using assms by (induction rule: rtranclp_induct) (auto simp: boot_tree_ok intro: tree_step_keeps)

theorem process_tree_invariant_witness:
  "\<exists>s. API_Exit 1 7 demo_forked = Some s \<and> map fst (s_Processes s) = [1] \<and> tree_ok s"
proof -
  obtain s where s: "(tree_step rbt_ops align_up 0 demo_fresh)\<^sup>*\<^sup>* demo_boot s" "API_Exit 1 7 demo_forked = Some s" "map fst (s_Processes s) = [1]"
    by (rule demo_run)
  have "tree_ok s" by (rule process_tree_invariant [OF s(1) [unfolded demo_boot_def]])
  with s(2,3) show ?thesis by (intro exI conjI)
qed

theorem AllocatePid_least_free_witness:
  "1 \<le> AllocatePid demo_forked \<and> AllocatePid demo_forked \<le> 3 \<and> \<not> ValidatePid (AllocatePid demo_forked) demo_forked"
  using AllocatePid_least_free [of demo_forked] by (simp add: demo_fork(5))

end
