(* ===== verification/Fork_Exit_Wait.thy ===== *)
theory Fork_Exit_Wait
  imports Process_Tree
begin

unbundle bit_operations_syntax

text \<open>
  Forking, exiting and waiting: what a child takes over from its parent, that it gets a copy of its memory, what an exit leaves
  behind, and what a waiting parent learns; sessions and groups.
\<close>

section \<open>What a child takes over\<close>

definition core :: "'t process \<Rightarrow> _" where
  "core x = (pc_Name x, pc_Credentials x, pc_CWD x, pc_Umask x, node x)"

text \<open>Only process \<open>q\<close> and threads from \<open>n\<close> on are touched, and of \<open>q\<close> not the core.\<close>

definition only :: "nat \<Rightarrow> nat \<Rightarrow> 't system \<Rightarrow> 't system \<Rightarrow> bool" where
  "only q n s s' \<longleftrightarrow> length (procs s') = length (procs s) \<and> s_Processes s' = s_Processes s \<and> (\<forall>r. r \<noteq> q \<longrightarrow> proc s' r = proc s r) \<and>
     core (proc s' q) = core (proc s q) \<and> length (tasks s) \<le> length (tasks s') \<and> (\<forall>t < n. t < length (tasks s) \<longrightarrow> thr s' t = thr s t)"

lemma only_refl [simp]: "only q n s s"
  by (simp add: only_def)

lemma only_trans [trans]: "only q n s s' \<Longrightarrow> only q n s' s'' \<Longrightarrow> only q n s s''"
  by (auto simp: only_def)

lemma only_on_proc: "(\<And>x. core (f x) = core x) \<Longrightarrow> only q n s (on_proc q f s)"
  by (auto simp: only_def proc_on_proc) (simp_all add: on_proc_def)

lemma only_on_task: "n \<le> t \<Longrightarrow> only q n s (on_task t f s)"
  by (auto simp: only_def on_task_def)

lemma only_memory [simp]: "only q n s (s\<lparr>memory := m\<rparr>)" "only q n s (s\<lparr>runQueue := rq\<rparr>)"
  by (simp_all add: only_def)

lemma only_CallocatePages [simp]: "only q n s (snd (CallocatePages k s))"
  by (auto simp: CallocatePages_def only_def split: list.split)

lemma only_CreateThread [simp]: "n \<le> length (tasks s) \<Longrightarrow> only q n s (snd (CreateThread c q u s))"
  by (auto simp: CreateThread_def Let_def only_def proc_on_proc core_def node_def nth_append) (simp_all add: on_proc_def nth_append)
section \<open>Forked memory\<close>

definition block :: "Pointer \<Rightarrow> usize \<Rightarrow> Pointer set" where
  "block b n = {a. a - b < n}"

text \<open>The physical address a process reaches at an address, and the byte there.\<close>

definition translate :: "(Pointer \<times> Pointer \<times> usize) list \<Rightarrow> Pointer \<Rightarrow> Pointer option" where
  "translate pm a = map_option (\<lambda>(virt, phys, n). phys + (a - virt)) (List.find (\<lambda>(virt, phys, n). a - virt < n) pm)"


text \<open>Frames of at most \<open>M\<close> bytes to be handed out, apart from each other and from the memory in use.\<close>

definition spare :: "usize \<Rightarrow> Pointer set \<Rightarrow> Pointer list \<Rightarrow> bool" where
  "spare M U fs \<longleftrightarrow> (\<forall>f \<in> set fs. f \<noteq> 0 \<and> block f M \<inter> U = {}) \<and> sorted_wrt (\<lambda>f g. block f M \<inter> block g M = {}) fs"

text \<open>
  The memory in use is as it was, and everything mapped for \<open>q\<close> is a copy of a region in frames that are neither in use nor to be handed out.
\<close>

definition copied :: "usize \<Rightarrow> Pointer set \<Rightarrow> Region set \<Rightarrow> nat \<Rightarrow> (Pointer \<Rightarrow> u8) \<Rightarrow> 't system \<Rightarrow> bool" where
  "copied M U R q m0 s \<longleftrightarrow> (\<forall>a \<in> U. memory s a = m0 a) \<and>
     (\<forall>(v, ph, n) \<in> set (pc_PageMap (proc s q)). block ph n \<inter> U = {} \<and> (\<forall>f \<in> set (frames s). block ph n \<inter> block f M = {}) \<and>
        (\<exists>r \<in> R. v = Region_VirtualBase r \<and> n = Region_Size r \<and> (\<forall>i < n. memory s (ph + i) = m0 (m_PhysicalBase r + i))))"

lemma block_offset: "i < n \<Longrightarrow> b + i \<in> block b n"
  by (simp add: block_def)

lemma block_mono: "n \<le> m \<Longrightarrow> block b n \<subseteq> block b m"
  by (auto simp: block_def)

lemma copied_write:
  assumes "copied M U R q m0 s" "spare M U (frames s)" "frames s = f # fs"
    and "frames s' = fs" "pc_PageMap (proc s' q) = pc_PageMap (proc s q)" "\<And>a. a \<notin> block f M \<Longrightarrow> memory s' a = memory s a"
  shows "copied M U R q m0 s'" "spare M U (frames s')" "block f M \<inter> U = {}" "f \<noteq> 0" "\<forall>g \<in> set fs. block f M \<inter> block g M = {}"
proof -
  show f: "block f M \<inter> U = {}" "f \<noteq> 0" "\<forall>g \<in> set fs. block f M \<inter> block g M = {}" "spare M U (frames s')"
    using assms(2-4) by (auto simp: spare_def)
  have "memory s' a = m0 a" if "a \<in> U" for a
  proof -
    have "a \<notin> block f M" using that f(1) by blast
    then show ?thesis using that assms(1,6) by (simp add: copied_def)
  qed
  moreover have "memory s' (ph + i) = memory s (ph + i)" if "(v, ph, n) \<in> set (pc_PageMap (proc s q))" "i < n" for v ph n i
  proof -
    have "block ph n \<inter> block f M = {}" using assms(1,3) that(1) by (auto simp: copied_def)
    then show ?thesis using block_offset [OF that(2), of ph] assms(6) by blast
  qed
  ultimately show "copied M U R q m0 s'"
    using assms(1,3-5) by (fastforce simp: copied_def)
qed

lemma CallocatePages_write:
  assumes "frames s = f # fs" "k * 0x1000 \<le> M"
  shows "fst (CallocatePages k s) = f" "frames (snd (CallocatePages k s)) = fs" "procs (snd (CallocatePages k s)) = procs s"
    "a \<notin> block f M \<Longrightarrow> memory (snd (CallocatePages k s)) a = memory s a"
  using assms block_mono [OF assms(2), of f] by (auto simp: CallocatePages_def mem_clear_def block_def)

lemma mem_copy_outside: "n \<le> M \<Longrightarrow> a \<notin> block dst M \<Longrightarrow> mem_copy dst src n m a = m a"
  by (auto simp: mem_copy_def block_def)

lemma mem_copy_inside: "i < n \<Longrightarrow> mem_copy dst src n m (dst + i) = m (src + i)"
  by (simp add: mem_copy_def)

text \<open>Allocating a frame, copying a region there and mapping it.\<close>

definition copy_region :: "nat \<Rightarrow> usize \<Rightarrow> Region \<Rightarrow> 't system \<Rightarrow> 't system" where
  "copy_region q k r s =
     (let (phys, s) = CallocatePages k s
      in PageMap_MapRange q (Region_VirtualBase r) phys (Region_Size r)
           (s\<lparr>memory := mem_copy phys (m_PhysicalBase r) (Region_Size r) (memory s)\<rparr>))"

lemma copy_region_copied:
  assumes "copied M U R q m0 s" "spare M U (frames s)" "frames s = f # fs" "q < length (procs s)"
    and "r \<in> R" "k * 0x1000 \<le> M" "Region_Size r \<le> M" "block (m_PhysicalBase r) (Region_Size r) \<subseteq> U"
  shows "copied M U R q m0 (copy_region q k r s)" "spare M U (frames (copy_region q k r s))" "frames (copy_region q k r s) = fs"
    "length (procs (copy_region q k r s)) = length (procs s)"
    "pc_PageMap (proc (copy_region q k r s) q) = (Region_VirtualBase r, f, Region_Size r) # pc_PageMap (proc s q)"
proof -
  note al = CallocatePages_write [OF assms(3,6)]
  let ?n = "Region_Size r"
  let ?s = "(snd (CallocatePages k s))\<lparr>memory := mem_copy f (m_PhysicalBase r) ?n (memory (snd (CallocatePages k s)))\<rparr>"
  have e: "copy_region q k r s = PageMap_MapRange q (Region_VirtualBase r) f ?n ?s"
    using al(1) by (simp add: copy_region_def split_beta Let_def)
  show fr: "frames (copy_region q k r s) = fs" and "length (procs (copy_region q k r s)) = length (procs s)"
    using al by (simp_all add: e PageMap_MapRange_def on_proc_def)
  show pm: "pc_PageMap (proc (copy_region q k r s) q) = (Region_VirtualBase r, f, ?n) # pc_PageMap (proc s q)"
    using al assms(4) by (simp add: e PageMap_MapRange_def proc_on_proc)
  have mem: "memory (copy_region q k r s) = memory ?s" by (simp add: e PageMap_MapRange_def on_proc_def)
  have out: "memory ?s a = memory s a" if "a \<notin> block f M" for a
    using al(4) that assms(7) by (simp add: mem_copy_outside)
  note w = copied_write [OF assms(1-3), of ?s]
  have w: "copied M U R q m0 ?s" "spare M U (frames ?s)" "block f M \<inter> U = {}" "\<forall>g \<in> set fs. block f M \<inter> block g M = {}"
    using w [OF _ _ out] al(2,3) by simp_all
  have "memory ?s (f + i) = m0 (m_PhysicalBase r + i)" if "i < ?n" for i
  proof -
    have u: "m_PhysicalBase r + i \<in> U" using block_offset [OF that] assms(8) by blast
    then have "m_PhysicalBase r + i \<notin> block f M" using w(3) by blast
    then show ?thesis using u that al(4) assms(1) by (simp add: mem_copy_inside copied_def)
  qed
  moreover have "block f ?n \<subseteq> block f M" using assms(7) by (rule block_mono)
  ultimately show "copied M U R q m0 (copy_region q k r s)"
    using w assms(5) al(2,3) unfolding copied_def by (simp add: pm mem fr) blast
  show "spare M U (frames (copy_region q k r s))" using w(2) al(2) by (simp add: fr)
qed

lemma copied_cong:
  "memory s' = memory s \<Longrightarrow> frames s' = frames s \<Longrightarrow> pc_PageMap (proc s' q) = pc_PageMap (proc s q) \<Longrightarrow>
   copied M U R q m0 s' = copied M U R q m0 s"
  by (simp add: copied_def)

lemma on_proc_parts [simp]:
  "memory (on_proc p f s) = memory s" "frames (on_proc p f s) = frames s" "tasks (on_proc p f s) = tasks s" "runQueue (on_proc p f s) = runQueue s"
  by (simp_all add: on_proc_def)

lemma on_task_mem [simp]:
  "memory (on_task t f s) = memory s" "frames (on_task t f s) = frames s" "runQueue (on_task t f s) = runQueue s"
  "length (tasks (on_task t f s)) = length (tasks s)"
  by (simp_all add: on_task_def)

lemma pagemap_on_proc [simp]: "(\<And>x. pc_PageMap (f x) = pc_PageMap x) \<Longrightarrow> pc_PageMap (proc (on_proc p f s) q) = pc_PageMap (proc s q)"
  by (simp add: proc_on_proc)

definition pages_of :: "(usize \<Rightarrow> usize \<Rightarrow> usize) \<Rightarrow> Region \<Rightarrow> usize" where
  "pages_of al r = al (Region_Size r) 0x1000 div 0x1000"

definition fits :: "(usize \<Rightarrow> usize \<Rightarrow> usize) \<Rightarrow> usize \<Rightarrow> Pointer set \<Rightarrow> Region \<Rightarrow> bool" where
  "fits al M U r \<longleftrightarrow> pages_of al r * 0x1000 \<le> M \<and> Region_Size r \<le> M \<and> block (m_PhysicalBase r) (Region_Size r) \<subseteq> U"

text \<open>A stretch of the fork: what it keeps, how many frames it takes, which regions it has mapped.\<close>

definition forking :: "usize \<Rightarrow> Pointer set \<Rightarrow> Region set \<Rightarrow> nat \<Rightarrow> (Pointer \<Rightarrow> u8) \<Rightarrow> nat \<Rightarrow> Region set \<Rightarrow> 't system \<Rightarrow> 't system \<Rightarrow> bool" where
  "forking M U R q m0 k D s s' \<longleftrightarrow>
     (copied M U R q m0 s \<and> spare M U (frames s) \<and> q < length (procs s) \<and> k \<le> length (frames s) \<longrightarrow>
      copied M U R q m0 s' \<and> spare M U (frames s') \<and> length (frames s') = length (frames s) - k \<and>
      set (pc_PageMap (proc s q)) \<subseteq> set (pc_PageMap (proc s' q)) \<and>
      (\<forall>r \<in> D. \<exists>ph. (Region_VirtualBase r, ph, Region_Size r) \<in> set (pc_PageMap (proc s' q)))) \<and>
     length (procs s') = length (procs s) \<and> runQueue s' = runQueue s"

lemma forking_refl: "memory s' = memory s \<Longrightarrow> frames s' = frames s \<Longrightarrow> pc_PageMap (proc s' q) = pc_PageMap (proc s q) \<Longrightarrow>
   length (procs s') = length (procs s) \<Longrightarrow> runQueue s' = runQueue s \<Longrightarrow> forking M U R q m0 0 {} s s'"
  by (simp add: forking_def copied_cong [of s' s])

lemma forking_trans: "forking M U R q m0 k D s s' \<Longrightarrow> forking M U R q m0 l E s' s'' \<Longrightarrow> forking M U R q m0 (k + l) (D \<union> E) s s''"
  unfolding forking_def by (auto 0 3)

lemma copy_region_runQueue [simp]: "runQueue (copy_region q k r s) = runQueue s"
  by (auto simp: copy_region_def CallocatePages_def PageMap_MapRange_def split: list.split)

lemma length_copy_region [simp]: "length (procs (copy_region q k r s)) = length (procs s)"
  by (auto simp: copy_region_def CallocatePages_def PageMap_MapRange_def split: list.split)

lemma forking_copy_region:
  assumes "r \<in> R" "fits al M U r"
  shows "forking M U R q m0 1 {r} s (copy_region q (pages_of al r) r s)"
  unfolding forking_def
proof (intro conjI impI)
  assume a: "copied M U R q m0 s \<and> spare M U (frames s) \<and> q < length (procs s) \<and> 1 \<le> length (frames s)"
  then obtain f fs where f: "frames s = f # fs" by (cases "frames s") auto
  note c = copy_region_copied [of M U R q m0 s f fs r "pages_of al r"]
  have c: "copied M U R q m0 (copy_region q (pages_of al r) r s)" "spare M U (frames (copy_region q (pages_of al r) r s))"
    "frames (copy_region q (pages_of al r) r s) = fs"
    "pc_PageMap (proc (copy_region q (pages_of al r) r s) q) = (Region_VirtualBase r, f, Region_Size r) # pc_PageMap (proc s q)"
    using a assms c [OF _ _ f] f by (auto simp: fits_def)
  show "copied M U R q m0 (copy_region q (pages_of al r) r s)" by (rule c)
  show "spare M U (frames (copy_region q (pages_of al r) r s))" by (rule c)
  show "length (frames (copy_region q (pages_of al r) r s)) = length (frames s) - 1" by (simp add: c f)
  show "set (pc_PageMap (proc s q)) \<subseteq> set (pc_PageMap (proc (copy_region q (pages_of al r) r s) q))" by (auto simp: c)
  show "\<forall>r' \<in> {r}. \<exists>ph. (Region_VirtualBase r', ph, Region_Size r') \<in> set (pc_PageMap (proc (copy_region q (pages_of al r) r s) q))"
    by (auto simp: c)
qed simp_all

lemma forking_alloc:
  assumes "k * 0x1000 \<le> M" "j \<le> M"
  shows "forking M U R q m0 1 {} s (let (f, s) = CallocatePages k s in s\<lparr>memory := mem_copy f src j (memory s)\<rparr>)" (is "forking _ _ _ _ _ _ _ s ?s")
  unfolding forking_def
proof (intro conjI impI)
  assume a: "copied M U R q m0 s \<and> spare M U (frames s) \<and> q < length (procs s) \<and> 1 \<le> length (frames s)"
  then obtain f fs where f: "frames s = f # fs" by (cases "frames s") auto
  note al = CallocatePages_write [OF f assms(1)]
  have out: "memory ?s a = memory s a" if "a \<notin> block f M" for a
    using al(1,4) that assms(2) by (simp add: split_beta Let_def mem_copy_outside)
  have p: "frames ?s = fs" "procs ?s = procs s" using al by (simp_all add: split_beta Let_def)
  show "copied M U R q m0 ?s" "spare M U (frames ?s)" using a copied_write [of M U R q m0 s f fs ?s, OF _ _ f p(1) _ out] p by simp_all
  show "length (frames ?s) = length (frames s) - 1" "set (pc_PageMap (proc s q)) \<subseteq> set (pc_PageMap (proc ?s q))"
    "\<forall>r \<in> ({} :: Region set). \<exists>ph. (Region_VirtualBase r, ph, Region_Size r) \<in> set (pc_PageMap (proc ?s q))"
    using p f by simp_all
qed (auto simp: CallocatePages_def split: list.split)

lemma Fork_region_copies:
  "Fork_region ro al q r s =
     (if fst (CallocatePages (pages_of al r) s) = 0 then None
      else Some (on_proc q (\<lambda>x. x\<lparr>pc_AddressSpace := AddressSpace_Insert ro (Region_VirtualBase r)
             (Region_SetAccessMode (m_Access r) (Region_make (fst (CallocatePages (pages_of al r) s)) (Region_VirtualBase r) (Region_Size r) None))
             (pc_AddressSpace x)\<rparr>) (copy_region q (pages_of al r) r s)))"
  by (simp add: Fork_region_def copy_region_def pages_of_def Let_def split_beta)

lemma Fork_stack_copies:
  "Fork_stack al q n r s =
     on_task n (\<lambda>x. x\<lparr>tk_Stacks := tk_Stacks x @ [Region_make (fst (CallocatePages (pages_of al r) s)) (fst (CallocatePages (pages_of al r) s)) (Region_Size r) None]\<rparr>)
       (copy_region q (pages_of al r) r s)"
  by (simp add: Fork_stack_def copy_region_def pages_of_def Let_def split_beta)

lemma forking_Fork_stack:
  assumes "r \<in> R" "fits al M U r"
  shows "forking M U R q m0 1 {r} s (Fork_stack al q n r s)"
  using forking_trans [OF forking_copy_region [OF assms, of q m0 s] forking_refl [of "Fork_stack al q n r s" "copy_region q (pages_of al r) r s"]]
  by (simp add: Fork_stack_copies)

lemma forking_stacks:
  assumes "set rs \<subseteq> R" "\<forall>r \<in> set rs. fits al M U r"
  shows "forking M U R q m0 (length rs) (set rs) s (fold (Fork_stack al q n) rs s)"
  using assms
proof (induction rs arbitrary: s)
  case Nil
  then show ?case by (simp add: forking_refl)
next
  case (Cons r rs)
  then have "forking M U R q m0 1 {r} s (Fork_stack al q n r s)" by (intro forking_Fork_stack) auto
  from forking_trans [OF this Cons.IH] Cons.prems show ?case by simp
qed

lemma only_copy_region: "only q n s (copy_region q k r s)"
proof -
  have "only q n s (snd (CallocatePages k s))" by simp
  also have "only q n (snd (CallocatePages k s)) (copy_region q k r s)"
    unfolding copy_region_def split_beta Let_def PageMap_MapRange_def
    by (rule only_trans [OF only_memory(1) only_on_proc]) (simp add: core_def node_def)
  finally show ?thesis .
qed

lemma only_Fork_stack: "n \<le> m \<Longrightarrow> only q n s (Fork_stack al q m r s)"
  unfolding Fork_stack_copies by (rule only_trans [OF only_copy_region only_on_task])

lemma only_fold: "(\<And>x s. only q n s (f x s)) \<Longrightarrow> only q n s (fold f xs s)"
  by (induction xs arbitrary: s) (auto intro: only_trans)

lemma only_Fork_region: "Fork_region ro al q r s = Some s' \<Longrightarrow> only q n s s'"
  by (auto simp: Fork_region_copies core_def node_def intro!: only_trans [OF only_copy_region only_on_proc] split: if_splits)

lemma forking_Fork_region:
  assumes "r \<in> R" "fits al M U r" "spare M U (frames s)" "frames s \<noteq> []"
  obtains s' where "Fork_region ro al q r s = Some s'" "forking M U R q m0 1 {r} s s'" "length (frames s') = length (frames s) - 1"
    "spare M U (frames s')" "tasks s' = tasks s"
proof -
  obtain f fs where f: "frames s = f # fs" using assms(4) by (cases "frames s") auto
  let ?n = "pages_of al r"
  have c: "fst (CallocatePages ?n s) = f" "f \<noteq> 0" using f assms(3) by (auto simp: CallocatePages_def spare_def)
  let ?g = "\<lambda>x. x\<lparr>pc_AddressSpace := AddressSpace_Insert ro (Region_VirtualBase r)
      (Region_SetAccessMode (m_Access r) (Region_make f (Region_VirtualBase r) (Region_Size r) None)) (pc_AddressSpace x)\<rparr>"
  have run: "Fork_region ro al q r s = Some (on_proc q ?g (copy_region q ?n r s))" using c by (simp add: Fork_region_copies)
  have step: "forking M U R q m0 1 {r} s (on_proc q ?g (copy_region q ?n r s))"
    using forking_trans [OF forking_copy_region [OF assms(1,2), of q m0 s] forking_refl [of "on_proc q ?g (copy_region q ?n r s)" "copy_region q ?n r s"]]
    by simp
  have "frames (copy_region q ?n r s) = fs" "tasks (copy_region q ?n r s) = tasks s"
    using f by (simp_all add: copy_region_def CallocatePages_def PageMap_MapRange_def)
  then show thesis using f assms(3) by (intro that [OF run step]) (auto simp: spare_def)
qed

lemma forking_regions:
  assumes "set (map snd es) \<subseteq> R" "\<forall>r \<in> set (map snd es). fits al M U r" "spare M U (frames s)" "length es \<le> length (frames s)"
  obtains s' where "Fork_regions ro al q es s = Some s'" "forking M U R q m0 (length es) (set (map snd es)) s s'" "tasks s' = tasks s" "only q n s s'"
  using assms
proof (induction es arbitrary: s thesis)
  case Nil
  show ?case by (rule Nil.prems(1) [of s]) (simp_all add: forking_refl)
next
  case (Cons e es)
  obtain b r where e: "e = (b, r)" by (cases e)
  have ne: "r \<in> R" "fits al M U r" "frames s \<noteq> []" using Cons.prems by (auto simp: e)
  obtain u where u: "Fork_region ro al q r s = Some u" "forking M U R q m0 1 {r} s u" "length (frames u) = length (frames s) - 1"
    "spare M U (frames u)" "tasks u = tasks s"
    using forking_Fork_region [OF ne(1,2) Cons.prems(4) ne(3)] .
  obtain s' where s': "Fork_regions ro al q es u = Some s'" "forking M U R q m0 (length es) (set (map snd es)) u s'" "tasks s' = tasks u" "only q n u s'"
    by (rule Cons.IH [of u]) (use Cons.prems u in auto)
  show ?case
  proof (rule Cons.prems(1))
    show "forking M U R q m0 (length (e # es)) (set (map snd (e # es))) s s'"
      using forking_trans [OF u(2) s'(2)] by (simp add: e)
    show "only q n s s'" using only_Fork_region [OF u(1)] s'(4) by (rule only_trans)
  qed (use u s' in \<open>simp_all add: e\<close>)
qed

lemma forking_calloc: "k * 0x1000 \<le> M \<Longrightarrow> forking M U R q m0 1 {} s (snd (CallocatePages k s))"
proof -
  have "mem_copy f 0 0 m = m" for f m by (simp add: mem_copy_def)
  then show "k * 0x1000 \<le> M \<Longrightarrow> ?thesis" using forking_alloc [of k M 0 U R q m0 s 0] by (simp add: split_beta Let_def)
qed

lemma forking_on_task: "forking M U R q m0 0 {} s (on_task t f s)"
  by (rule forking_refl) simp_all

lemma forking_CreateThread: "forking M U R q m0 0 {} s (snd (CreateThread c q u s))"
  by (rule forking_refl) (simp_all add: CreateThread_def Let_def proc_on_proc)

lemma length_tasks [simp]:
  "length (tasks (snd (CallocatePages k s))) = length (tasks s)" "length (tasks (Fork_stack al q n r s)) = length (tasks s)"
  "length (tasks (fold (Fork_stack al q n) rs s)) = length (tasks s)"
proof -
  show *: "length (tasks (snd (CallocatePages k s))) = length (tasks s)" for k and s :: "'a system"
    by (simp add: CallocatePages_def split: list.split)
  show **: "length (tasks (Fork_stack al q n r s)) = length (tasks s)" for r and s :: "'a system"
    using * by (simp add: Fork_stack_def Let_def split_beta PageMap_MapRange_def)
  show "length (tasks (fold (Fork_stack al q n) rs s)) = length (tasks s)" by (induction rs arbitrary: s) (simp_all add: **)
qed

text \<open>The last part of a thread's fork: the storage of the floating-point unit and the registers.\<close>

definition thread_finish :: "Pointer \<Rightarrow> task \<Rightarrow> nat \<Rightarrow> nat \<Rightarrow> 't system \<Rightarrow> 't system" where
  "thread_finish hh old q n s =
     (let (fpu, s) = CallocatePages (tk_FpuStoragePageCount old) s;
          s = s\<lparr>memory := mem_copy fpu (tk_FpuStorage old - hh) (tk_FpuStoragePageCount old * 0x1000) (memory s)\<rparr>
      in on_task n (\<lambda>x. x\<lparr>tk_FpuStoragePageCount := tk_FpuStoragePageCount old, tk_FpuStorage := fpu + hh, tk_Parent := q,
                tk_Context := (tk_SavedContext old)\<lparr>rax := 0, rdx := 0\<rparr>, tk_IsUser := tk_IsUser old, tk_GsBase := tk_GsBase old,
                tk_FsBase := tk_FsBase old, tk_State := eDequeued\<rparr>) s)"

definition thread_stacks :: "Pointer \<Rightarrow> task \<Rightarrow> nat \<Rightarrow> 't system \<Rightarrow> 't system" where
  "thread_stacks hh old n s =
     (let s = on_task n (\<lambda>x. x\<lparr>tk_Stack := tk_Stack old\<rparr>) s;
          (kstack, s) = CallocatePages (KERNEL_STACK_SIZE div 0x1000) s;
          s = on_task n (\<lambda>x. x\<lparr>tk_KernelStack := kstack + hh + KERNEL_STACK_SIZE\<rparr>) s;
          (pfstack, s) = CallocatePages (KERNEL_STACK_SIZE div 0x1000) s
      in on_task n (\<lambda>x. x\<lparr>tk_PageFaultStack := pfstack + hh + KERNEL_STACK_SIZE\<rparr>) s)"

lemma Thread_Fork_parts:
  "Thread_Fork hh al t q s =
     (length (tasks s), thread_finish hh (thr s t) q (length (tasks s))
        (fold (Fork_stack al q (length (tasks s))) (tk_Stacks (thr s t))
          (thread_stacks hh (thr s t) (length (tasks s)) (snd (CreateThread (tk_Context (thr s t)) q (tk_IsUser (thr s t)) s)))))"
  by (simp add: Thread_Fork_def thread_finish_def thread_stacks_def Let_def split_beta) (simp add: CreateThread_def Let_def)

lemma forking_thread_stacks: "KERNEL_STACK_SIZE \<le> M \<Longrightarrow> forking M U R q m0 2 {} s (thread_stacks hh old n s)"
proof -
  assume "KERNEL_STACK_SIZE \<le> M"
  then have k: "KERNEL_STACK_SIZE div 0x1000 * 0x1000 \<le> M" by (simp add: KERNEL_STACK_SIZE_def)
  show ?thesis
    unfolding thread_stacks_def Let_def split_beta
    using forking_trans [OF forking_trans [OF forking_trans [OF forking_trans [OF forking_on_task forking_calloc [OF k]] forking_on_task] forking_calloc [OF k]] forking_on_task]
    by (simp add: numeral_2_eq_2)
qed

lemma forking_thread_finish: "tk_FpuStoragePageCount old * 0x1000 \<le> M \<Longrightarrow> forking M U R q m0 1 {} s (thread_finish hh old q n s)"
  unfolding thread_finish_def
  using forking_trans [OF forking_alloc forking_on_task, of "tk_FpuStoragePageCount old" M "tk_FpuStoragePageCount old * 0x1000"]
  by (simp add: Let_def split_beta)

lemma only_thread_parts: "only q n s (thread_stacks hh old n s)" "only q n s (thread_finish hh old q n s)"
proof -
  note t = only_on_task [of n n q] and c = only_CallocatePages [of q n]
  show "only q n s (thread_stacks hh old n s)"
    unfolding thread_stacks_def Let_def split_beta
    by (rule only_trans [OF only_trans [OF only_trans [OF only_trans [OF t c] t] c] t]) simp_all
  show "only q n s (thread_finish hh old q n s)"
    unfolding thread_finish_def Let_def split_beta
    by (rule only_trans [OF only_trans [OF c only_memory(1)] t]) simp
qed

lemma forking_Thread_Fork:
  assumes "KERNEL_STACK_SIZE \<le> M" "tk_FpuStoragePageCount (thr s t) * 0x1000 \<le> M" "set (tk_Stacks (thr s t)) \<subseteq> R"
    and "\<forall>r \<in> set (tk_Stacks (thr s t)). fits al M U r"
  shows "forking M U R q m0 (length (tk_Stacks (thr s t)) + 3) (set (tk_Stacks (thr s t))) s (snd (Thread_Fork hh al t q s))"
  unfolding Thread_Fork_parts snd_conv
  using forking_trans [OF forking_trans [OF forking_trans [OF forking_CreateThread forking_thread_stacks [OF assms(1)]] forking_stacks [OF assms(3,4)]]
      forking_thread_finish [OF assms(2)]]
  by (simp add: eval_nat_numeral)

lemma Thread_Fork_only: "only q (length (tasks s)) s (snd (Thread_Fork hh al t q s))"
  unfolding Thread_Fork_parts snd_conv
  by (rule only_trans [OF only_trans [OF only_trans [OF only_CreateThread only_thread_parts(1)] only_fold [OF only_Fork_stack]] only_thread_parts(2)]) simp_all

lemma Thread_Fork_thread:
  fixes s :: "'t system" and hh al t q
  defines "n \<equiv> length (tasks s)" and "s' \<equiv> snd (Thread_Fork hh al t q s)"
  shows "length (tasks s') = Suc n" "tk_Context (thr s' n) = (tk_SavedContext (thr s t))\<lparr>rax := 0, rdx := 0\<rparr>" "tk_Parent (thr s' n) = q"
    "tk_State (thr s' n) = eDequeued" "fst (Thread_Fork hh al t q s) = n"
proof -
  define u where "u = fold (Fork_stack al q n) (tk_Stacks (thr s t)) (thread_stacks hh (thr s t) n (snd (CreateThread (tk_Context (thr s t)) q (tk_IsUser (thr s t)) s)))"
  have s': "s' = thread_finish hh (thr s t) q n u" by (simp add: s'_def u_def n_def Thread_Fork_parts)
  have u: "length (tasks u) = Suc n"
    by (simp add: u_def thread_stacks_def Let_def split_beta CreateThread_def n_def)
  show "length (tasks s') = Suc n" using u by (simp add: s' thread_finish_def Let_def split_beta)
  show "tk_Context (thr s' n) = (tk_SavedContext (thr s t))\<lparr>rax := 0, rdx := 0\<rparr>" "tk_Parent (thr s' n) = q" "tk_State (thr s' n) = eDequeued"
    using u by (simp_all add: s' thread_finish_def Let_def split_beta on_task_def)
  show "fst (Thread_Fork hh al t q s) = n" by (simp add: Thread_Fork_parts n_def)
qed

definition region_set :: "(Pointer, Region, 't) tree_ops \<Rightarrow> nat \<Rightarrow> 't system \<Rightarrow> Region set" where
  "region_set ro p s = set (regions_of ro p s)"

definition used_memory :: "Region set \<Rightarrow> Pointer set" where
  "used_memory R = (\<Union>r \<in> R. block (m_PhysicalBase r) (Region_Size r))"

text \<open>
  The state in which a process forks: its regions do not overlap and are mapped where they say, the stacks of its thread are among them,
  and there are frames enough.
\<close>

definition fork_ready :: "(Pointer, Region, 't) tree_ops \<Rightarrow> (usize \<Rightarrow> usize \<Rightarrow> usize) \<Rightarrow> usize \<Rightarrow> nat \<Rightarrow> nat \<Rightarrow> 't system \<Rightarrow> bool" where
  "fork_ready ro al M t p s \<longleftrightarrow>
     tk_Parent (thr s t) = p \<and> p < length (procs s) \<and> t < length (tasks s) \<and> (\<forall>u \<in> set (runQueue s). u < length (tasks s)) \<and>
     set (tk_Stacks (thr s t)) \<subseteq> region_set ro p s \<and> (\<forall>r \<in> region_set ro p s. pages_of al r * 0x1000 \<le> M \<and> Region_Size r \<le> M) \<and>
     KERNEL_STACK_SIZE \<le> M \<and> tk_FpuStoragePageCount (thr s t) * 0x1000 \<le> M \<and> spare M (used_memory (region_set ro p s)) (frames s) \<and>
     length (regions_of ro p s) + length (tk_Stacks (thr s t)) + 3 \<le> length (frames s) \<and>
     (\<forall>r \<in> region_set ro p s. \<forall>r' \<in> region_set ro p s. r \<noteq> r' \<longrightarrow>
        block (Region_VirtualBase r) (Region_Size r) \<inter> block (Region_VirtualBase r') (Region_Size r') = {}) \<and>
     (\<forall>r \<in> region_set ro p s. \<forall>i < Region_Size r. translate (pc_PageMap (proc s p)) (Region_VirtualBase r + i) = Some (m_PhysicalBase r + i))"

definition fork_finish :: "nat \<Rightarrow> nat \<Rightarrow> nat \<Rightarrow> 't system \<Rightarrow> 't system" where
  "fork_finish p q n s =
     (let s = on_proc q (\<lambda>x. x\<lparr>pc_UserStackTop := pc_UserStackTop (proc s p)\<rparr>) (on_task n (\<lambda>x. x\<lparr>tk_IsEnqueued := False\<rparr>) s);
          s = on_task n (\<lambda>x. x\<lparr>tk_IsEnqueued := True, tk_State := eReady\<rparr>) s
      in s\<lparr>runQueue := runQueue s @ [n]\<rparr>)"

lemma fork_finish_only: "n0 \<le> n \<Longrightarrow> only q n0 s (fork_finish p q n s)"
  unfolding fork_finish_def Let_def
  by (rule only_trans [OF only_trans [OF only_trans [OF only_on_task only_on_proc] only_on_task] only_memory(2)]) (simp_all add: core_def node_def)

lemma Process_Fork_run:
  assumes r: "fork_ready ro al M t p s"
  obtains q s1 s4 s' where "Fork_begin ro z p s = (q, s1)" "Process_Fork ro al hh z t p s = Some (q, s')" "s' = fork_finish p q (length (tasks s)) s4"
    "forking M (used_memory (region_set ro p s)) (region_set ro p s) q m0 (length (regions_of ro p s) + length (tk_Stacks (thr s t)) + 3) (region_set ro p s) s1 s4"
    "only q (length (tasks s)) s1 s4" "length (tasks s4) = Suc (length (tasks s))"
    "tk_Context (thr s4 (length (tasks s))) = (tk_SavedContext (thr s t))\<lparr>rax := 0, rdx := 0\<rparr>" "tk_Parent (thr s4 (length (tasks s))) = q"
proof -
  let ?R = "region_set ro p s" and ?es = "as_entries ro (pc_AddressSpace (proc s p))" and ?n = "length (tasks s)"
  let ?U = "used_memory ?R"
  have p: "p < length (procs s)" "tk_Parent (thr s t) = p" "t < ?n" using r by (auto simp: fork_ready_def)
  obtain q s1 where b: "Fork_begin ro z p s = (q, s1)" by (cases "Fork_begin ro z p s")
  note f = Fork_begin_shape [OF p(1) b]
  have Rs: "?R = set (map snd ?es)" "length (regions_of ro p s) = length ?es" by (simp_all add: region_set_def regions_of_def)
  have fit: "\<forall>x \<in> ?R. fits al M ?U x" using r by (auto simp: fork_ready_def fits_def used_memory_def)
  have sp: "spare M ?U (frames s1)" "length ?es \<le> length (frames s1)" using r f(9) Rs by (auto simp: fork_ready_def)
  have es: "as_entries ro (pc_AddressSpace (proc s1 p)) = ?es" by (simp add: f(6))
  obtain s2 where s2: "Fork_regions ro al q ?es s1 = Some s2" "forking M ?U ?R q m0 (length ?es) ?R s1 s2" "tasks s2 = tasks s1" "only q ?n s1 s2"
    using forking_regions [of ?es ?R al M ?U s1 ro q m0 ?n] sp fit Rs by (metis order_refl)
  let ?g = "\<lambda>x. x\<lparr>pc_NextTid := pc_NextTid (proc s2 p), pc_FdTable := Fork_fds (m_Table (pc_FdTable (proc s2 p))) (pc_FdTable x)\<rparr>"
  let ?s3 = "on_proc q ?g s2" and ?s4 = "snd (Thread_Fork hh al t q (on_proc q ?g s2))"
  have t3: "thr ?s3 = thr s" "tasks ?s3 = tasks s" using s2(3) f(10) by simp_all
  note tf = Thread_Fork_thread [where s = ?s3 and hh = hh and al = al and t = t and q = q, unfolded t3]
  have k: "KERNEL_STACK_SIZE \<le> M" "tk_FpuStoragePageCount (thr ?s3 t) * 0x1000 \<le> M" "set (tk_Stacks (thr ?s3 t)) \<subseteq> ?R"
    "\<forall>x \<in> set (tk_Stacks (thr ?s3 t)). fits al M ?U x"
    using r fit unfolding t3 by (auto simp: fork_ready_def)
  have F: "forking M ?U ?R q m0 (length ?es + length (tk_Stacks (thr s t)) + 3) ?R s1 ?s4"
    using forking_trans [OF forking_trans [OF s2(2) forking_refl [of ?s3 s2]] forking_Thread_Fork [OF k]] k(3)
    unfolding t3 by (simp add: Un_absorb2 add.assoc)
  have O: "only q ?n s1 ?s4"
    by (rule only_trans [OF only_trans [OF s2(4) only_on_proc] Thread_Fork_only [of q ?s3, unfolded t3]]) (simp add: core_def node_def)
  have rq: "runQueue ?s4 = runQueue s" using F f(11) by (simp add: forking_def)
  have "?n \<notin> set (runQueue s)" using r by (auto simp: fork_ready_def)
  then have "Process_Fork ro al hh z t p s = Some (q, fork_finish p q ?n ?s4)"
    using p b s2(1) tf rq unfolding Process_Fork_def es b split Let_def
    by (simp add: es split_beta Let_def Enqueue_def fork_finish_def on_task_def)
  then show thesis using F O tf(1-3) Rs by (intro that [OF b]) simp_all
qed



text \<open>
  Claim C25. The child has the name, credentials, directory and file mask of its parent, a fresh process id, and one thread, which returns zero
  from the call where its parent was; it is queued.  The parent has it as its last child; no other process or thread changes.
\<close>

theorem fork_child_like_parent:
  assumes "fork_ready ro al M t p s" and "length (s_Processes s) < 2147483646"
  shows "\<exists>q s'. Process_Fork ro al hh z t p s = Some (q, s') \<and> q = length (procs s) \<and> GetProcess (pc_Pid (proc s' q)) s' = Some q \<and>
    GetProcess (pc_Pid (proc s' q)) s = None \<and> pc_Parent (proc s' q) = Some p \<and> pc_Name (proc s' q) = pc_Name (proc s p) \<and>
    pc_Credentials (proc s' q) = pc_Credentials (proc s p) \<and> pc_CWD (proc s' q) = pc_CWD (proc s p) \<and> pc_Umask (proc s' q) = pc_Umask (proc s p) \<and>
    proc s' p = (proc s p)\<lparr>pc_Children := pc_Children (proc s p) @ [q]\<rparr> \<and> (\<forall>r < length (procs s). r \<noteq> p \<longrightarrow> proc s' r = proc s r) \<and>
    (\<forall>u < length (tasks s). thr s' u = thr s u) \<and> runQueue s' = runQueue s @ [length (tasks s)] \<and>
    tk_Parent (thr s' (length (tasks s))) = q \<and> tk_State (thr s' (length (tasks s))) = eReady \<and>
    tk_Context (thr s' (length (tasks s))) = (tk_SavedContext (thr s t))\<lparr>rax := 0, rdx := 0\<rparr>"
proof -
  let ?n = "length (tasks s)"
  obtain q s1 s4 s' where run: "Fork_begin ro z p s = (q, s1)" "Process_Fork ro al hh z t p s = Some (q, s')" "s' = fork_finish p q ?n s4"
    "runQueue s4 = runQueue s1" "only q ?n s1 s4" "length (tasks s4) = Suc ?n" "tk_Context (thr s4 ?n) = (tk_SavedContext (thr s t))\<lparr>rax := 0, rdx := 0\<rparr>"
    "tk_Parent (thr s4 ?n) = q"
    by (rule Process_Fork_run [OF assms(1), of z hh undefined]) (auto simp: forking_def)
  have p: "p < length (procs s)" using assms(1) by (simp add: fork_ready_def)
  note f = Fork_begin_shape [OF p run(1)]
  have o: "only q ?n s1 s'" unfolding run(3) using run(5) fork_finish_only by (rule only_trans) simp
  have child: "pc_Pid (proc s' q) = AllocatePid s" "pc_Parent (proc s' q) = Some p" "pc_Name (proc s' q) = pc_Name (proc s p)"
    "pc_Credentials (proc s' q) = pc_Credentials (proc s p)" "pc_CWD (proc s' q) = pc_CWD (proc s p)" "pc_Umask (proc s' q) = pc_Umask (proc s p)"
    using o by (simp_all add: only_def core_def node_def f(5) Process_make_def)
  have th: "thr s' ?n = (thr s4 ?n)\<lparr>tk_IsEnqueued := True, tk_State := eReady\<rparr>" "runQueue s' = runQueue s @ [?n]"
    using run(6) by (simp_all add: run(3,4) f(11) fork_finish_def Let_def on_task_def)
  have "GetProcess (AllocatePid s) s = None" using AllocatePid_spec [OF assms(2)] by (simp add: GetProcess_def ValidatePid_def)
  moreover have "GetProcess (AllocatePid s) s' = Some q" using o by (simp add: only_def GetProcess_def f(4) update_conv')
  moreover have "proc s' p = (proc s p)\<lparr>pc_Children := pc_Children (proc s p) @ [q]\<rparr>" "\<And>r. r < length (procs s) \<Longrightarrow> r \<noteq> p \<Longrightarrow> proc s' r = proc s r"
    using o p by (simp_all add: only_def f(1,6,7))
  moreover have "thr s' u = thr s u" if "u < ?n" for u using o that f(10) by (simp add: only_def)
  ultimately show ?thesis
    using run(2,7,8) f(1) th child by (intro exI [of _ q] exI [of _ s'] conjI) simp_all
qed

lemma block_disjoint:
  assumes "unat b + unat n \<le> unat c" "unat c + unat m \<le> 2 ^ 64"
  shows "block b n \<inter> block c m = {}"
proof -
  have "\<not> (unat (a - b) < unat n \<and> unat (a - c) < unat m)" for a :: Pointer
    using assms by (auto simp: unat_sub_if')
  then show ?thesis by (auto simp: block_def word_less_nat_alt)
qed

text \<open>An example: a process whose only region is the stack of its thread.\<close>

definition demo_stack :: Region where
  "demo_stack = Region_make 0x100000 0x4000 0x1000 None"

definition demo_user :: "(Pointer, Region) rbt system" where
  "demo_user =
     (let s = demo_boot\<lparr>frames := [0x200000, 0x210000, 0x220000, 0x230000, 0x240000], memory := (\<lambda>a. if a = 0x100004 then 7 else 0)\<rparr>;
          s = on_proc 1 (\<lambda>x. x\<lparr>pc_AddressSpace := AddressSpace_Insert rbt_ops 0x4000 demo_stack (pc_AddressSpace x),
                pc_PageMap := [(0x4000, 0x100000, 0x1000)]\<rparr>) s
      in on_task 0 (\<lambda>x. x\<lparr>tk_Stacks := [demo_stack]\<rparr>) s)"

lemma demo_user_parts:
  "regions_of rbt_ops 1 demo_user = [demo_stack]" "tk_Parent (thr demo_user 0) = 1" "length (procs demo_user) = 2" "length (tasks demo_user) = 1"
  "runQueue demo_user = []" "tk_Stacks (thr demo_user 0) = [demo_stack]" "tk_FpuStoragePageCount (thr demo_user 0) = 0"
  "frames demo_user = [0x200000, 0x210000, 0x220000, 0x230000, 0x240000]" "pc_PageMap (proc demo_user 1) = [(0x4000, 0x100000, 0x1000)]"
  "s_Processes demo_user = [(1, 1)]"
  by code_simp+

lemma demo_stack_parts:
  "Region_Size demo_stack = 0x1000" "Region_VirtualBase demo_stack = 0x4000" "m_PhysicalBase demo_stack = 0x100000" "pages_of align_up demo_stack = 1"
  by code_simp+

lemma demo_user_ready: "fork_ready rbt_ops align_up 0x10000 0 1 demo_user"
proof -
  have R: "region_set rbt_ops 1 demo_user = {demo_stack}" by (simp only: region_set_def demo_user_parts) simp
  have "spare 0x10000 (used_memory {demo_stack}) (frames demo_user)"
    by (simp add: spare_def demo_user_parts(8) used_memory_def demo_stack_parts block_disjoint Int_commute [of _ "block 0x100000 0x1000"])
  moreover have "translate (pc_PageMap (proc demo_user 1)) (0x4000 + i) = Some (0x100000 + i)" if "i < 0x1000" for i
    using that by (simp only: demo_user_parts(9)) (simp add: translate_def)
  ultimately show ?thesis
    using demo_user_parts unfolding fork_ready_def R by (simp add: demo_stack_parts KERNEL_STACK_SIZE_def)
qed


theorem fork_child_like_parent_witness:
  "\<exists>q s'. Process_Fork rbt_ops align_up 0 demo_fresh 0 1 demo_user = Some (q, s') \<and> pc_Credentials (proc s' q) = pc_Credentials (proc demo_user 1) \<and>
     tk_Parent (thr s' 1) = q"
  using fork_child_like_parent [OF demo_user_ready, of 0 demo_fresh] demo_user_parts(4,10) by (auto simp del: One_nat_def)

section \<open>Exiting and waiting\<close>

text \<open>
  Claim C15. An exit gives the children to init, whose list they join in order, takes the process out of the table, and leaves it with its status;
  processes that are neither its children nor init are not touched.
\<close>

theorem exit_reparents_children:
  assumes "tree_ok s" "registered s p" "p \<noteq> 1"
  shows "\<exists>s'. Process_Exit t p code s = Some s' \<and> GetProcess (pc_Pid (proc s p)) s' = None \<and>
    pc_Status (proc s' p) = Some (W_EXITCODE code 0) \<and> pc_State (proc s' p) = ProcessDead \<and> m_Table (pc_FdTable (proc s' p)) = [] \<and>
    pc_Threads (proc s' p) = [] \<and> pc_Children (proc s' 1) = pc_Children (proc s 1) @ pc_Children (proc s p) \<and>
    (\<forall>c \<in> set (pc_Children (proc s p)). pc_Parent (proc s' c) = Some 1) \<and>
    (\<forall>r. r \<noteq> p \<and> r \<noteq> 1 \<and> r \<notin> set (pc_Children (proc s p)) \<longrightarrow> proc s' r = proc s r)"
proof -
  obtain s' where e: "Process_Exit t p code s = Some s'" "s_Processes s' = AList.delete (pc_Pid (proc s p)) (s_Processes s)"
    "\<And>r. proc s' r = (if r = p then exited code (proc s p)
       else if r = 1 then (proc s 1)\<lparr>pc_Children := pc_Children (proc s 1) @ pc_Children (proc s p)\<rparr>
       else if r \<in> set (pc_Children (proc s p)) then (proc s r)\<lparr>pc_Parent := Some 1\<rparr> else proc s r)"
    by (rule Process_Exit_shape [OF assms, of t code]) (rule that; assumption)
  have "p \<notin> set (pc_Children (proc s p))" "1 \<notin> set (pc_Children (proc s p))" using tree_ok_child [OF assms(1,2)] by force+
  then show ?thesis using e assms(3) by (auto simp: exited_def GetProcess_def delete_conv' Table_Clear_def)
qed

lemma demo_forked_ok: "tree_ok demo_forked" "registered demo_forked 2"
proof -
  have r: "registered demo_boot (tk_Parent (thr demo_boot 0))" "length (s_Processes demo_boot) < 2147483646"
    by (simp_all add: demo_fork(3,4) registered_def)
  show "tree_ok demo_forked"
    by (rule tree_step_keeps [OF tree_step.fork [OF r demo_fork(1)]]) (simp add: demo_boot_def boot_tree_ok)
  show "registered demo_forked 2" by (simp add: demo_fork(5) registered_def)
qed

theorem exit_reparents_children_witness:
  "\<exists>s'. Process_Exit 1 2 7 demo_forked = Some s' \<and> pc_Status (proc s' 2) = Some (W_EXITCODE 7 0)"
  using exit_reparents_children [OF demo_forked_ok, of 1 7] by auto

lemma exit_status_reported:
  assumes "pc_Status (proc s c) = Some (W_EXITCODE code 0)"
  shows "WaitPid_report flags c s = Waited (pc_Pid (proc s c)) (W_EXITCODE (W_EXITCODE code 0) 0)"
proof -
  have m: "(0xFF :: u32) = mask 8" by (simp add: mask_eq_exp_minus_1)
  have low: "W_EXITCODE code 0 AND 0xFF = 0"
    unfolding m by (simp add: W_EXITCODE_def take_bit_push_bit flip: take_bit_eq_mask)
  have "W_EXITCODE code 0 \<noteq> 0xFFFF"
  proof
    assume "W_EXITCODE code 0 = 0xFFFF"
    with low show False by simp
  qed
  with low assms show ?thesis by (simp add: WaitPid_report_def WIFSTOPPED_def WIFCONTINUED_def Let_def)
qed

lemma find_unique: "c \<in> set xs \<Longrightarrow> P c \<Longrightarrow> (\<And>x. x \<in> set xs \<Longrightarrow> P x \<Longrightarrow> x = c) \<Longrightarrow> List.find P xs = Some c"
proof (induction xs)
  case (Cons x xs)
  show ?case
  proof (cases "P x")
    case True
    then show ?thesis using Cons.prems(3) [of x] by simp
  next
    case False
    with Cons.prems(1,2) have "c \<in> set xs" by auto
    then have "List.find P xs = Some c" using Cons.prems(2) by (rule Cons.IH) (rule Cons.prems(3); simp)
    with False show ?thesis by simp
  qed
qed simp

text \<open>
  Claim C26. When a child exits and no other event is pending, its parent's wait for any child returns at once with the child's process id.
\<close>

theorem wait_returns_exited_child:
  assumes "tree_ok s" "registered s c" "c \<noteq> 1" "pc_Parent (proc s c) = Some p" "\<forall>r < length (procs s). pc_Pending (proc s r) = 0"
  shows "\<exists>s' status. Process_Exit t c code s = Some s' \<and> fst (Process_WaitPid p (- 1) flags s') = Waited (pc_Pid (proc s c)) status"
proof -
  obtain s' where e: "Process_Exit t c code s = Some s'" "length (procs s') = length (procs s)"
    "s_Processes s' = AList.delete (pc_Pid (proc s c)) (s_Processes s)"
    "\<And>r. proc s' r = (if r = c then exited code (proc s c)
       else if r = 1 then (proc s 1)\<lparr>pc_Children := pc_Children (proc s 1) @ pc_Children (proc s c)\<rparr>
       else if r \<in> set (pc_Children (proc s c)) then (proc s r)\<lparr>pc_Parent := Some 1\<rparr> else proc s r)"
    by (rule Process_Exit_shape [OF assms(1-3), of t code]) (rule that; assumption)
  have "2 \<le> c" "c < length (procs s)" using assms(1-3) registered_lt by (fastforce simp: tree_ok_def)+
  then have p: "p < c" "registered s p" "c \<in> set (pc_Children (proc s p))" using assms(1,4) by (auto simp: tree_ok_def parents_ok_def)
  have "registered s' p" using p registered_delete [OF assms(1,2) e(3)] by simp
  then have in_range: "r < length (procs s)" if "r \<in> set (pc_Children (proc s' p))" for r
    using that tree_ok_child(3) [OF Process_Exit_keeps_tree [OF assms(1-3) e(1)]] e(2) by simp
  have kids: "c \<in> set (pc_Children (proc s' p))" using p by (cases "p = 1") (simp_all add: e(4))
  have pend: "0 < pc_Pending (proc s' r) \<longleftrightarrow> r = c" if "r < length (procs s)" for r using assms(5) that by (simp add: e(4) exited_def)
  have "List.find (\<lambda>r. 0 < pc_Pending (proc s' r)) (pc_Children (proc s' p)) = Some c"
    using kids by (rule find_unique) (use in_range [OF kids] in \<open>simp_all add: pend in_range\<close>)
  moreover have "pc_Children (proc s' p) \<noteq> []" using kids by auto
  moreover have st: "pc_Status (proc s' c) = Some (W_EXITCODE code 0)" "pc_Pid (proc s' c) = pc_Pid (proc s c)" by (simp_all add: e(4) exited_def)
  ultimately have "WaitPid_pass p (- 1) flags s' = (Waited (pc_Pid (proc s c)) (W_EXITCODE (W_EXITCODE code 0) 0), on_proc c (\<lambda>x. x\<lparr>pc_Pending := pc_Pending x - 1\<rparr>) s')"
    by (simp add: WaitPid_pass_def WaitPid_select_def exit_status_reported)
  then have "fst (Process_WaitPid p (- 1) flags s') = Waited (pc_Pid (proc s c)) (W_EXITCODE (W_EXITCODE code 0) 0)"
    unfolding Process_WaitPid_def by (cases "pending_events s'") simp_all
  with e(1) show ?thesis by blast
qed

lemma demo_pending: "list_all (\<lambda>x. pc_Pending x = 0) (procs demo_forked)" "pc_Parent (proc demo_forked 2) = Some 1" "pc_Pid (proc demo_forked 2) = 2"
  "length (procs demo_forked) = 3"
  by code_simp+

theorem wait_returns_exited_child_witness:
  "\<exists>s' status. Process_Exit 1 2 7 demo_forked = Some s' \<and> fst (Process_WaitPid 1 (- 1) 0 s') = Waited 2 status"
  using wait_returns_exited_child [OF demo_forked_ok _ demo_pending(2), of 1 7 0] demo_pending(1) by (simp add: demo_pending(3) list_all_length)

text \<open>
  The status that is stored is shifted a second time, so that every exited child appears to have returned zero.
\<close>

theorem wait_loses_exit_status:
  assumes "pc_Status (proc s c) = Some (W_EXITCODE code 0)"
  shows "\<exists>status. WaitPid_report flags c s = Waited (pc_Pid (proc s c)) status \<and> WIFEXITED status \<and> WEXITSTATUS status = 0"
proof -
  let ?x = "W_EXITCODE (W_EXITCODE code 0) 0"
  have z: "?x AND mask 16 = 0" by (simp add: W_EXITCODE_def take_bit_push_bit flip: take_bit_eq_mask)
  have "?x AND (mask 16 AND k) = 0" for k using z by (simp only: and.assoc [symmetric] and_zero_eq zero_and_eq)
  from this [of "0x7F"] this [of "0xff00"] have "?x AND 0x7F = 0" "?x AND 0xff00 = 0" by (simp_all add: mask_eq_exp_minus_1)
  then have "WIFEXITED ?x" "WEXITSTATUS ?x = 0" unfolding WIFEXITED_def WTERMSIG_def WEXITSTATUS_def by (simp_all only: drop_bit_of_0)
  then show ?thesis by (simp add: exit_status_reported [OF assms])
qed

theorem wait_loses_exit_status_witness:
  "\<exists>status. WaitPid_report 0 2 (on_proc 2 (\<lambda>x. x\<lparr>pc_Status := Some (W_EXITCODE 7 0)\<rparr>) demo_forked) = Waited 2 status \<and> WEXITSTATUS status = 0"
  using wait_loses_exit_status [of "on_proc 2 (\<lambda>x. x\<lparr>pc_Status := Some (W_EXITCODE 7 0)\<rparr>) demo_forked" 2 7 0]
  by (auto simp: proc_on_proc demo_pending(3,4))

text \<open>A child that has been waited for stays among the children: the next wait sleeps instead of failing, and its process id is handed out again.\<close>

theorem waited_child_is_not_removed:
  "\<exists>s s'. Process_Exit 1 2 7 demo_forked = Some s \<and> Process_WaitPid 1 (- 1) 0 s = (Waited 2 (W_EXITCODE (W_EXITCODE 7 0) 0), s') \<and>
     fst (Process_WaitPid 1 (- 1) 0 s') = WaitSleep [2] \<and> AllocatePid s' = 2"
proof -
  have a: "map_option (\<lambda>s. fst (Process_WaitPid 1 (- 1) 0 s)) (Process_Exit 1 2 7 demo_forked) = Some (Waited 2 (W_EXITCODE (W_EXITCODE 7 0) 0))"
    by code_simp
  have b: "map_option (\<lambda>s. fst (Process_WaitPid 1 (- 1) 0 (snd (Process_WaitPid 1 (- 1) 0 s)))) (Process_Exit 1 2 7 demo_forked) = Some (WaitSleep [2])"
    by code_simp
  have c: "map_option (\<lambda>s. AllocatePid (snd (Process_WaitPid 1 (- 1) 0 s))) (Process_Exit 1 2 7 demo_forked) = Some 2" by code_simp
  from a obtain s where s: "Process_Exit 1 2 7 demo_forked = Some s" by auto
  with a b c have "Process_WaitPid 1 (- 1) 0 s = (Waited 2 (W_EXITCODE (W_EXITCODE 7 0) 0), snd (Process_WaitPid 1 (- 1) 0 s)) \<and>
     fst (Process_WaitPid 1 (- 1) 0 (snd (Process_WaitPid 1 (- 1) 0 s))) = WaitSleep [2] \<and> AllocatePid (snd (Process_WaitPid 1 (- 1) 0 s)) = 2"
    by (simp add: prod_eq_iff)
  with s show ?thesis by blast
qed

text \<open>Waiting for the children of a group waits for one of them only.\<close>

theorem wait_for_group_sees_one_child:
  assumes "WaitPid_select p pid s = Inr cs" "pid \<noteq> - 1"
  shows "length cs = 1"
  using assms by (auto simp: WaitPid_select_def first_child_def split: if_splits option.splits)

theorem wait_for_group_sees_one_child_witness: "\<exists>cs. WaitPid_select 1 0 demo_forked = Inr cs \<and> length cs = 1"
proof -
  have w: "WaitPid_select 1 0 demo_forked = Inr [2]" by code_simp
  then show ?thesis using wait_for_group_sees_one_child [OF w] by (intro exI [of _ "[2]"] conjI) simp_all
qed

text \<open>
  Init may exit: the check is for the kernel's own process.  Its id is then given to the next process.
\<close>

theorem init_may_exit: "\<exists>s. API_Exit 0 0 demo_boot = Some s \<and> pc_Pid (proc demo_boot (tk_Parent (thr demo_boot 0))) = 1 \<and> AllocatePid s = 1"
proof -
  have "map_option AllocatePid (API_Exit 0 0 demo_boot) = Some 1" "pc_Pid (proc demo_boot (tk_Parent (thr demo_boot 0))) = 1" by code_simp+
  then show ?thesis by auto
qed

text \<open>
  The stack of a thread is copied twice, as a region and as a stack of the thread, and the second copy is what is mapped; the child's
  region keeps the first.  When the child forks in turn, it is the first copy that is taken, without what the child has written since.
\<close>

definition demo_child :: "(Pointer, Region) rbt system" where
  "demo_child = snd (the (Process_Fork rbt_ops align_up 0 demo_fresh 0 1 demo_user))"

theorem child_stack_is_not_its_region:
  "map m_PhysicalBase (regions_of rbt_ops 2 demo_child) = [0x200000]" "map Region_VirtualBase (regions_of rbt_ops 2 demo_child) = [0x4000]"
  "translate (pc_PageMap (proc demo_child 2)) 0x4000 = Some 0x230000" "map Region_VirtualBase (tk_Stacks (thr demo_child 1)) = [0x230000]"
  by code_simp+

text \<open>A new process has its own standard streams, so that the parent's descriptors of these numbers are put under other ones.\<close>

theorem fork_moves_descriptors:
  assumes "Table_IsValid i child" "i \<noteq> m_NextIndex child"
  shows "Table_GetFd i (Fork_fds [(i, fd)] child) = Table_GetFd i child" "Table_GetFd (m_NextIndex child) (Fork_fds [(i, fd)] child) = Some fd"
  using assms by (auto simp: Let_def Fork_fds_def Table_Insert_def Table_GetFd_def Table_IsValid_def update_conv')

theorem fork_moves_descriptors_witness:
  "Table_GetFd 0 (Fork_fds [(0, 42)] (stdioTable demo_fresh)) = Some 0 \<and> Table_GetFd 6 (Fork_fds [(0, 42)] (stdioTable demo_fresh)) = Some 42"
  using fork_moves_descriptors [of 0 "stdioTable demo_fresh" 42] by (simp add: demo_fresh_def Table_IsValid_def Table_GetFd_def)

text \<open>Blocking and unblocking signals are exchanged.\<close>

theorem sig_block_unblocks:
  "(\<exists>m. SigMask SIG_BLOCK sigs cur = Inr m \<and> m AND sigs = 0) \<and> (\<exists>m. SigMask SIG_UNBLOCK sigs cur = Inr m \<and> m AND sigs = sigs)"
proof -
  have "(cur AND NOT sigs) AND sigs = 0" by (simp add: and.assoc)
  moreover have "(cur OR sigs) AND sigs = sigs" by (simp add: bit.conj_disj_distrib2)
  ultimately show ?thesis by (simp add: SigMask_def SIG_BLOCK_def SIG_UNBLOCK_def)
qed

text \<open>Every process may take any effective user id.\<close>

theorem any_process_becomes_root:
  assumes "p < length (procs s)"
  shows "case SetUid p 0 s of (r, s') \<Rightarrow> r = Inr () \<and> GetEUid p s' = Inr 0"
  using assms by (simp add: SetUid_def SetUID_def on_creds_def GetEUid_def proc_on_proc)

theorem any_process_becomes_root_witness: "case SetUid 2 0 demo_forked of (r, s') \<Rightarrow> r = Inr () \<and> GetEUid 2 s' = Inr 0"
  using any_process_becomes_root [of 2 demo_forked] by (simp add: demo_pending(4))

section \<open>Sessions and groups\<close>

text \<open>
  Claim C27. \<^verbatim>\<open>setpgid\<close> changes nothing unless it succeeds; then the process is the caller or its child, and it is put in the group of a process of
  its own session or in one of its own.  No other field and no other process changes.
\<close>

theorem setpgid_stays_in_session:
  assumes "p < length (procs s)" "\<forall>q. IsChild p q s \<longrightarrow> q < length (procs s)" "SetPGid p pid pgid s = (r, s')"
  shows "r \<noteq> Inr () \<and> s' = s \<or>
    r = Inr () \<and> (\<exists>q. (q = p \<or> IsChild p q s) \<and> (if pid = 0 then q = p else GetProcess pid s = Some q) \<and>
        (if pgid = 0 then PGid q s' = pc_Pid (proc s q)
         else 0 < pgid \<and> PGid q s' = pgid \<and> (\<exists>l. GetProcess pgid s = Some l \<and> Sid l s = Sid q s)) \<and>
        Sid q s' = Sid q s \<and> (\<forall>r. r \<noteq> q \<longrightarrow> proc s' r = proc s r))"
proof (cases "r = Inr ()")
  case False
  with assms(3) show ?thesis by (auto simp: SetPGid_def split: option.splits if_splits)
next
  case True
  let ?g = "if pgid = 0 then \<lambda>q. pc_Pid (proc s q) else (\<lambda>q. pgid)"
  from True assms(3) obtain q where q: "(if pid = 0 then Some p else GetProcess pid s) = Some q" "q = p \<or> IsChild p q s" "s' = Process_SetPGid q (?g q) s"
    "pgid = 0 \<or> 0 < pgid \<and> (\<exists>l. GetProcess pgid s = Some l \<and> Sid l s = Sid q s)"
    by (fastforce simp: SetPGid_def split: option.splits if_splits)
  then have "q < length (procs s)" using assms(1,2) by blast
  then have g: "PGid q s' = ?g q" "Sid q s' = Sid q s" "\<forall>r. r \<noteq> q \<longrightarrow> proc s' r = proc s r"
    by (simp_all add: q(3) Process_SetPGid_def on_creds_def PGid_def Sid_def proc_on_proc)
  have "if pid = 0 then q = p else GetProcess pid s = Some q" using q(1) by (simp split: if_splits)
  moreover have "if pgid = 0 then PGid q s' = pc_Pid (proc s q) else 0 < pgid \<and> PGid q s' = pgid \<and> (\<exists>l. GetProcess pgid s = Some l \<and> Sid l s = Sid q s)"
    using q(4) g(1) by (simp split: if_splits)
  ultimately show ?thesis using True q(2) g(2,3) by blast
qed

theorem setpgid_stays_in_session_witness: "\<exists>s'. SetPGid 1 2 0 demo_forked = (Inr (), s') \<and> PGid 2 s' = 2"
proof -
  have c: "pc_Children (proc demo_forked 1) = [2]" by code_simp
  have k: "\<forall>q. IsChild 1 q demo_forked \<longrightarrow> q < length (procs demo_forked)" unfolding IsChild_def c demo_pending(4) by simp
  have g: "GetProcess 2 demo_forked = Some 2" by (simp add: GetProcess_def demo_fork(5))
  have "fst (SetPGid 1 2 0 demo_forked) = Inr ()" by code_simp
  then obtain s' where s': "SetPGid 1 2 0 demo_forked = (Inr (), s')" by (cases "SetPGid 1 2 0 demo_forked") simp
  have "1 < length (procs demo_forked)" by (simp add: demo_pending(4))
  from setpgid_stays_in_session [OF this k s'] g s' show ?thesis by (simp add: demo_pending(3) del: One_nat_def)
qed

end
