(* ===== verification/Huffman_Codes.thy ===== *)
theory Huffman_Codes
  imports Kernel_Prelude
begin

unbundle bit_operations_syntax

text \<open>
  Huffman codes of the decompressor (\<^verbatim>\<open>Library/ZLib.hpp\<close>, \<^verbatim>\<open>Library/ZLib.cpp\<close>): building the decoding tables from code lengths, and
  decoding a symbol.  The tables are shown to decode every code word of the canonical code.  Numbers of the tables are natural
  numbers, with the width of the array elements written out.
\<close>

section \<open>Bit streams\<close>

text \<open>
  \<^verbatim>\<open>BitStream\<close> is a class of Prism: what the decompressor calls of it is an operation record over an abstract stream, and the
  locale says that the stream is a list of bits, the first bit being the lowest of the number that is read.
\<close>

record 'b bit_stream =
  PeekBits :: "nat \<Rightarrow> 'b \<Rightarrow> nat"
  DropBits :: "nat \<Rightarrow> 'b \<Rightarrow> 'b"
  ReadBits :: "nat \<Rightarrow> 'b \<Rightarrow> nat \<times> 'b"
  AlignToByteBoundary :: "'b \<Rightarrow> 'b"
  ReadWord :: "'b \<Rightarrow> nat \<times> 'b"
  ReadBytes :: "nat \<Rightarrow> 'b \<Rightarrow> u8 list \<times> 'b"
  IsEndOfStream :: "'b \<Rightarrow> bool"

abbreviation from_bits :: "bool list \<Rightarrow> nat" where
  "from_bits \<equiv> horner_sum of_bool 2"

locale bit_reader =
  fixes io :: "'b bit_stream" and bits :: "'b \<Rightarrow> bool list"
  assumes peek: "n \<le> length (bits b) \<Longrightarrow> PeekBits io n b = from_bits (take n (bits b))"
    and dropped: "n \<le> length (bits b) \<Longrightarrow> bits (DropBits io n b) = drop n (bits b)"
    and value_read: "n \<le> length (bits b) \<Longrightarrow> fst (ReadBits io n b) = from_bits (take n (bits b))"
    and rest_read: "n \<le> length (bits b) \<Longrightarrow> bits (snd (ReadBits io n b)) = drop n (bits b)"

section \<open>The tables\<close>

record HuffmanTree =
  FastLookupTable :: "nat list"
  FirstCodeOfLength :: "nat list"
  MaxCodeInclusive :: "nat list"
  FirstSymbolIndexOfLength :: "nat list"
  SymbolBitLengths :: "nat list"
  SymbolValues :: "nat list"

definition FAST_BITS :: nat where "FAST_BITS = 9"
definition FAST_MASK :: nat where "FAST_MASK = 511"
definition MAX_SYMBOLS :: nat where "MAX_SYMBOLS = 288"

text \<open>The assertion that \<open>count\<close> is at most 16 holds at both calls.\<close>

definition ReverseBits :: "nat \<Rightarrow> nat \<Rightarrow> nat" where
  "ReverseBits value count =
     (let r = drop_bit 1 (value AND 0xaaaa) OR push_bit 1 (value AND 0x5555);
          r = drop_bit 2 (r AND 0xcccc) OR push_bit 2 (r AND 0x3333);
          r = drop_bit 4 (r AND 0xf0f0) OR push_bit 4 (r AND 0x0f0f);
          r = drop_bit 8 (r AND 0xff00) OR push_bit 8 (r AND 0x00ff)
      in drop_bit (16 - count) r)"

definition codeLengthCounts :: "nat list \<Rightarrow> nat list" where
  "codeLengthCounts bitLengths = (fold (\<lambda>l c. c[l := c ! l + 1]) bitLengths (replicate 17 0))[0 := 0]"

text \<open>The loop over the lengths; the next codes are a local array.\<close>

fun Build_lengths :: "nat list \<Rightarrow> nat list \<Rightarrow> nat \<Rightarrow> nat \<Rightarrow> nat list \<Rightarrow> HuffmanTree \<Rightarrow> bool \<times> nat list \<times> HuffmanTree" where
  "Build_lengths counts [] huffmanCode assigned next t = (True, next, t)"
| "Build_lengths counts (l # ls) huffmanCode assigned next t =
     (let next = next[l := huffmanCode];
          t = t\<lparr>FirstCodeOfLength := (FirstCodeOfLength t)[l := huffmanCode mod 2 ^ 16],
                FirstSymbolIndexOfLength := (FirstSymbolIndexOfLength t)[l := assigned mod 2 ^ 16]\<rparr>;
          huffmanCode = huffmanCode + counts ! l
      in if counts ! l \<noteq> 0 \<and> huffmanCode - 1 \<ge> 2 ^ l then (False, next, t)
         else Build_lengths counts ls (push_bit 1 huffmanCode) (assigned + counts ! l) next
                (t\<lparr>MaxCodeInclusive := (MaxCodeInclusive t)[l := push_bit (16 - l) huffmanCode]\<rparr>))"

function Build_fast :: "nat \<Rightarrow> nat \<Rightarrow> nat \<Rightarrow> nat list \<Rightarrow> nat list" where
  "Build_fast len fastTableValue reversedBits table =
     (if reversedBits < 2 ^ FAST_BITS
      then Build_fast len fastTableValue (reversedBits + 2 ^ len) (table[reversedBits := fastTableValue])
      else table)"
  by auto
termination by (relation "measure (\<lambda>(_, _, r, _). 2 ^ FAST_BITS - r)") (auto simp: diff_less_mono2)

declare Build_fast.simps [simp del]

fun Build_symbols :: "nat \<Rightarrow> nat list \<Rightarrow> nat list \<Rightarrow> HuffmanTree \<Rightarrow> HuffmanTree" where
  "Build_symbols symbol [] next t = t"
| "Build_symbols symbol (l # ls) next t =
     (if l = 0 then Build_symbols (symbol + 1) ls next t
      else let symbolIndex = next ! l - FirstCodeOfLength t ! l + FirstSymbolIndexOfLength t ! l;
               fastTableValue = (push_bit 9 l OR symbol) mod 2 ^ 16;
               t = t\<lparr>SymbolBitLengths := (SymbolBitLengths t)[symbolIndex := l mod 2 ^ 8],
                     SymbolValues := (SymbolValues t)[symbolIndex := symbol mod 2 ^ 16]\<rparr>;
               t = (if l \<le> FAST_BITS
                    then t\<lparr>FastLookupTable := Build_fast l fastTableValue (ReverseBits (next ! l) l) (FastLookupTable t)\<rparr> else t)
           in Build_symbols (symbol + 1) ls (next[l := next ! l + 1]) t)"

definition HuffmanTree_Build :: "nat list \<Rightarrow> HuffmanTree \<Rightarrow> bool \<times> HuffmanTree" where
  "HuffmanTree_Build bitLengths t =
     (let t = t\<lparr>FastLookupTable := replicate (2 ^ FAST_BITS) 0\<rparr>; counts = codeLengthCounts bitLengths
      in if list_ex (\<lambda>len. counts ! len > 2 ^ len) [1..<16] then (False, t)
         else case Build_lengths counts [1..<16] 0 0 (replicate 16 0) t of
           (False, next, t) \<Rightarrow> (False, t)
         | (True, next, t) \<Rightarrow> (True, Build_symbols 0 bitLengths next (t\<lparr>MaxCodeInclusive := (MaxCodeInclusive t)[16 := 0x10000]\<rparr>)))"

section \<open>Decoding\<close>

text \<open>The length of the code; the entry 16, which every successful \<^verbatim>\<open>Build\<close> writes, is above every number of 16 bits.\<close>

function slow_length :: "HuffmanTree \<Rightarrow> nat \<Rightarrow> nat \<Rightarrow> nat" where
  "slow_length t reversedBits codeLength =
     (if codeLength \<ge> 16 \<or> reversedBits < MaxCodeInclusive t ! codeLength then codeLength
      else slow_length t reversedBits (codeLength + 1))"
  by auto
termination by (relation "measure (\<lambda>(_, _, l). 16 - l)") auto

declare slow_length.simps [simp del]

text \<open>A symbol or -1; \<open>None\<close> is an access in front of an array.\<close>

definition DecodeSlowPath :: "'b bit_stream \<Rightarrow> HuffmanTree \<Rightarrow> 'b \<Rightarrow> (int \<times> 'b) option" where
  "DecodeSlowPath io t stream =
     (let reversedBits = ReverseBits (PeekBits io 16 stream) 16;
          codeLength = slow_length t reversedBits (FAST_BITS + 1);
          symbolIndex = int (drop_bit (16 - codeLength) reversedBits) - int (FirstCodeOfLength t ! codeLength)
            + int (FirstSymbolIndexOfLength t ! codeLength)
      in if codeLength \<ge> 16 then Some (- 1, stream)
         else if symbolIndex \<ge> int MAX_SYMBOLS then Some (- 1, stream)
         else if symbolIndex < 0 then None
         else if SymbolBitLengths t ! nat symbolIndex \<noteq> codeLength then Some (- 1, stream)
         else Some (int (SymbolValues t ! nat symbolIndex), DropBits io codeLength stream))"

definition HuffmanTree_Decode :: "'b bit_stream \<Rightarrow> HuffmanTree \<Rightarrow> 'b \<Rightarrow> (int \<times> 'b) option" where
  "HuffmanTree_Decode io t stream =
     (let fastEntry = FastLookupTable t ! (PeekBits io 16 stream AND FAST_MASK)
      in if fastEntry \<noteq> 0 then Some (int (fastEntry AND 511), DropBits io (drop_bit 9 fastEntry) stream)
         else DecodeSlowPath io t stream)"

section \<open>Reversing bits\<close>

lemma not_bit_above: "m < 2 ^ k \<Longrightarrow> k \<le> n \<Longrightarrow> \<not> bit m n" for m :: nat
proof -
  assume "m < 2 ^ k" "k \<le> n"
  then have "m < 2 ^ n" by (meson less_le_trans one_le_numeral power_increasing)
  then show ?thesis by (simp add: bit_iff_odd)
qed

lemma and_mask_511: "m AND 511 = m mod 512" for m :: nat
proof -
  have "(511 :: nat) = Bit_Operations.mask 9" "(512 :: nat) = 2 ^ 9" by (simp_all add: mask_eq_exp_minus_1)
  then show ?thesis by (metis take_bit_eq_mask take_bit_eq_mod)
qed

lemma bit_ReverseBits_16: "bit (ReverseBits v 16) n \<longleftrightarrow> n < 16 \<and> bit v (15 - n)"
proof (cases "n < 16")
  case True
  then have "n \<in> {15, 14, 13, 12, 11, 10, 9, 8, 7, 6, 5, 4, 3, 2, 1, 0}" by (simp only: insert_iff empty_iff) arith
  then show ?thesis
    by (elim insertE emptyE; simp add: ReverseBits_def Let_def bit_or_iff bit_and_iff bit_push_bit_iff bit_drop_bit_eq)
      (simp_all add: bit_double_iff bit_0 bit_iff_odd_drop_bit [of v 15] mult.commute [of v])
next
  case False
  then have "\<not> bit (0xff00 :: nat) n" "\<not> bit (0xff :: nat) n"
    using not_bit_above [of "0xff00" 16 n] not_bit_above [of "0xff" 8 n] by simp_all
  then show ?thesis using False by (simp add: ReverseBits_def Let_def bit_or_iff bit_and_iff bit_push_bit_iff bit_drop_bit_eq)
qed

lemma bit_ReverseBits: "c \<le> 16 \<Longrightarrow> bit (ReverseBits v c) n \<longleftrightarrow> n < c \<and> bit v (c - 1 - n)"
proof -
  assume c: "c \<le> 16"
  have "ReverseBits v c = drop_bit (16 - c) (ReverseBits v 16)" by (simp only: ReverseBits_def Let_def diff_self_eq_0 drop_bit_0 id_apply)
  then show ?thesis using c by (auto simp: bit_drop_bit_eq bit_ReverseBits_16)
qed

text \<open>The code word of a number: its bits, the highest first.\<close>

definition code_bits :: "nat \<Rightarrow> nat \<Rightarrow> bool list" where
  "code_bits len c = map (\<lambda>i. bit c (len - 1 - i)) [0..<len]"

lemma bit_from_bits: "bit (from_bits bs) n \<longleftrightarrow> n < length bs \<and> bs ! n"
  by (simp add: bit_horner_sum_bit_iff)

lemma length_code_bits [simp]: "length (code_bits len c) = len"
  by (simp add: code_bits_def)

lemma ReverseBits_code: "len \<le> 16 \<Longrightarrow> ReverseBits c len = from_bits (code_bits len c)"
  by (rule bit_eqI) (auto simp: bit_ReverseBits bit_from_bits code_bits_def)

lemma all_reflect: "(\<forall>n < len. P (len - 1 - n) n) \<longleftrightarrow> (\<forall>i < len. P i (len - 1 - i))" for len :: nat
proof (intro iffI allI impI)
  fix i assume *: "\<forall>n < len. P (len - 1 - n) n" "i < len"
  then have "P (len - 1 - (len - 1 - i)) (len - 1 - i)" by (intro *(1) [rule_format]) simp
  with *(2) show "P i (len - 1 - i)" by simp
next
  fix n assume *: "\<forall>i < len. P i (len - 1 - i)" "n < len"
  then have "P (len - 1 - n) (len - 1 - (len - 1 - n))" by (intro *(1) [rule_format]) simp
  with *(2) show "P (len - 1 - n) n" by simp
qed

text \<open>A stream begins with a code word exactly when its first 16 bits, read with the first as the highest, have that number in front.\<close>

lemma prefix_iff_number:
  assumes "len \<le> 16" "length bs = 16" "c < 2 ^ len"
  shows "take len bs = code_bits len c \<longleftrightarrow> drop_bit (16 - len) (ReverseBits (from_bits bs) 16) = c"
proof -
  note iff_allI = arg_cong [where f = All, OF ext]
  have "drop_bit (16 - len) (ReverseBits (from_bits bs) 16) = c \<longleftrightarrow> (\<forall>n. (n < len \<and> bs ! (len - 1 - n)) = bit c n)"
    unfolding bit_eq_iff [of _ c] using assms(1,2) by (intro iff_allI) (auto simp: bit_drop_bit_eq bit_ReverseBits_16 bit_from_bits)
  also have "\<dots> \<longleftrightarrow> (\<forall>n < len. bs ! (len - 1 - n) = bit c n)"
    using not_bit_above [OF assms(3)] by (metis not_le)
  also have "\<dots> \<longleftrightarrow> (\<forall>i < len. bs ! i = bit c (len - 1 - i))"
    by (rule all_reflect [where P = "\<lambda>i n. bs ! i = bit c n"])
  also have "\<dots> \<longleftrightarrow> take len bs = code_bits len c"
    using assms(1,2) by (auto simp: list_eq_iff_nth_eq code_bits_def)
  finally show ?thesis by simp
qed

lemma prefix_iff_reversed:
  assumes "len \<le> 9" "length bs = 16" "c < 2 ^ len"
  shows "take len bs = code_bits len c \<longleftrightarrow> (from_bits bs AND FAST_MASK) mod 2 ^ len = ReverseBits c len"
proof -
  have fm: "bit FAST_MASK n \<longleftrightarrow> n < 9" for n
  proof -
    have m: "FAST_MASK = Bit_Operations.mask 9" by (simp add: FAST_MASK_def mask_eq_exp_minus_1)
    show ?thesis unfolding m bit_mask_iff by simp
  qed
  have "(from_bits bs AND FAST_MASK) mod 2 ^ len = from_bits (take len bs)"
    by (rule bit_eqI) (use assms in \<open>auto simp: bit_take_bit_iff bit_and_iff bit_from_bits fm simp flip: take_bit_eq_mod\<close>)
  moreover have "from_bits xs = from_bits ys \<longleftrightarrow> xs = ys" if "length xs = length ys" for xs ys
    unfolding bit_eq_iff [of "from_bits xs"] list_eq_iff_nth_eq bit_from_bits using that by auto
  ultimately show ?thesis using assms by (simp add: ReverseBits_code)
qed

section \<open>The canonical code\<close>

text \<open>How many symbols have a length, the first code of a length, and the symbols of smaller lengths.\<close>

definition with_length :: "nat list \<Rightarrow> nat \<Rightarrow> nat" where
  "with_length lens l = (if l = 0 then 0 else count_list lens l)"

primrec first_code :: "nat list \<Rightarrow> nat \<Rightarrow> nat" where
  "first_code lens 0 = 0"
| "first_code lens (Suc l) = 2 * (first_code lens l + with_length lens l)"

definition shorter :: "nat list \<Rightarrow> nat \<Rightarrow> nat" where
  "shorter lens l = (\<Sum>k < l. with_length lens k)"

text \<open>The code of a symbol, and its place among all symbols ordered by length.\<close>

definition code_of :: "nat list \<Rightarrow> nat \<Rightarrow> nat" where
  "code_of lens s = first_code lens (lens ! s) + count_list (take s lens) (lens ! s)"

definition place_of :: "nat list \<Rightarrow> nat \<Rightarrow> nat" where
  "place_of lens s = shorter lens (lens ! s) + count_list (take s lens) (lens ! s)"

definition codeword :: "nat list \<Rightarrow> nat \<Rightarrow> bool list" where
  "codeword lens s = code_bits (lens ! s) (code_of lens s)"

definition code_fits :: "nat list \<Rightarrow> nat \<Rightarrow> bool" where
  "code_fits lens l \<longleftrightarrow> with_length lens l \<noteq> 0 \<longrightarrow> first_code lens l + with_length lens l \<le> 2 ^ l"

abbreviation lengths_ok :: "nat list \<Rightarrow> bool" where
  "lengths_ok lens \<equiv> length lens \<le> MAX_SYMBOLS \<and> (\<forall>l \<in> set lens. l < 16)"

lemma first_code_bound: "(\<And>k. 1 \<le> k \<Longrightarrow> k < l \<Longrightarrow> code_fits lens k) \<Longrightarrow> first_code lens l \<le> 2 ^ l"
proof (induction l)
  case (Suc l)
  then have "first_code lens l \<le> 2 ^ l" by simp
  with Suc.prems [of l] show ?case by (cases "l = 0 \<or> with_length lens l = 0") (auto simp: code_fits_def with_length_def)
qed simp

lemma count_take_less: "s < length lens \<Longrightarrow> count_list (take s lens) (lens ! s) < count_list lens (lens ! s)"
proof -
  assume s: "s < length lens"
  then have "lens = take s lens @ lens ! s # drop (Suc s) lens" by (simp add: id_take_nth_drop)
  then have "count_list lens (lens ! s) = count_list (take s lens) (lens ! s) + count_list (lens ! s # drop (Suc s) lens) (lens ! s)"
    by (metis count_list_append)
  then show ?thesis by simp
qed

lemma count_take_mono: "s \<le> s' \<Longrightarrow> count_list (take s lens) x \<le> count_list (take s' lens) x"
proof -
  assume "s \<le> s'"
  then have "take s' lens = take s lens @ take (s' - s) (drop s lens)" by (metis le_add_diff_inverse take_add)
  then show ?thesis by (simp add: count_list_append)
qed

lemma count_take_strict: "s < s' \<Longrightarrow> s' \<le> length lens \<Longrightarrow> count_list (take s lens) (lens ! s) < count_list (take s' lens) (lens ! s)"
  using count_take_less [of s "take s' lens"] by (simp add: min_def)

text \<open>Seen as intervals of numbers of 16 bits, the code words of different symbols do not meet.\<close>

definition interval_start :: "nat list \<Rightarrow> nat \<Rightarrow> nat" where
  "interval_start lens l = first_code lens l * 2 ^ (16 - l)"

lemma interval_step: "l < 16 \<Longrightarrow> interval_start lens (Suc l) = (first_code lens l + with_length lens l) * 2 ^ (16 - l)"
  by (simp add: interval_start_def Suc_diff_Suc [symmetric])

lemma interval_mono: "l \<le> l' \<Longrightarrow> l' \<le> 16 \<Longrightarrow> interval_start lens l \<le> interval_start lens l'"
proof (induction rule: dec_induct)
  case (step n)
  then have "n < 16" by simp
  then have "interval_start lens n \<le> interval_start lens (Suc n)" unfolding interval_step [OF \<open>n < 16\<close>] by (simp add: interval_start_def)
  with step show ?case by simp
qed simp

lemma code_interval:
  assumes "s < length lens" "lens ! s \<noteq> 0" "lens ! s < 16"
  shows "interval_start lens (lens ! s) \<le> code_of lens s * 2 ^ (16 - lens ! s)"
    and "(code_of lens s + 1) * 2 ^ (16 - lens ! s) \<le> interval_start lens (Suc (lens ! s))"
proof -
  show "interval_start lens (lens ! s) \<le> code_of lens s * 2 ^ (16 - lens ! s)" by (simp add: interval_start_def code_of_def)
  have "code_of lens s + 1 \<le> first_code lens (lens ! s) + with_length lens (lens ! s)"
    using count_take_less [OF assms(1)] assms(2) by (simp add: code_of_def with_length_def)
  then show "(code_of lens s + 1) * 2 ^ (16 - lens ! s) \<le> interval_start lens (Suc (lens ! s))"
    unfolding interval_step [OF assms(3)] by (rule mult_le_mono1)
qed

lemma in_interval:
  assumes "s < length lens" "lens ! s \<noteq> 0" "lens ! s < 16" "r div 2 ^ (16 - lens ! s) = code_of lens s"
  shows "interval_start lens (lens ! s) \<le> r \<and> r < interval_start lens (Suc (lens ! s))"
proof -
  have "code_of lens s * 2 ^ (16 - lens ! s) \<le> r" "r < (code_of lens s + 1) * 2 ^ (16 - lens ! s)"
    unfolding assms(4) [symmetric] using dividend_less_div_times [of "2 ^ (16 - lens ! s)" r] by simp_all
  then show ?thesis using code_interval [OF assms(1-3)] by linarith
qed

lemma codes_disjoint:
  assumes "s < s'" "s' < length lens" "lens ! s \<noteq> 0" "lens ! s' \<noteq> 0" "lens ! s < 16" "lens ! s' < 16"
    and "r div 2 ^ (16 - lens ! s) = code_of lens s" "r div 2 ^ (16 - lens ! s') = code_of lens s'"
  shows False
proof -
  have in1: "interval_start lens (lens ! s) \<le> r" "r < interval_start lens (Suc (lens ! s))" using in_interval [of s lens r] assms by auto
  have in2: "interval_start lens (lens ! s') \<le> r" "r < interval_start lens (Suc (lens ! s'))" using in_interval [of s' lens r] assms by auto
  consider "lens ! s < lens ! s'" | "lens ! s' < lens ! s" | "lens ! s = lens ! s'" by linarith
  then show False
  proof cases
    case 1
    then have "interval_start lens (Suc (lens ! s)) \<le> interval_start lens (lens ! s')" using assms(6) by (intro interval_mono) auto
    then show False using in1 in2 by simp
  next
    case 2
    then have "interval_start lens (Suc (lens ! s')) \<le> interval_start lens (lens ! s)" using assms(5) by (intro interval_mono) auto
    then show False using in1 in2 by simp
  next
    case 3
    then have "code_of lens s < code_of lens s'"
      using count_take_strict [OF assms(1), of lens] assms(2) by (simp add: code_of_def)
    then show False using assms(7,8) 3 by simp
  qed
qed

lemma places_distinct:
  assumes "s < length lens" "s' < length lens" "lens ! s \<noteq> 0" "lens ! s' \<noteq> 0" "place_of lens s = place_of lens s'"
  shows "s = s'"
proof -
  have range: "shorter lens (lens ! x) \<le> place_of lens x \<and> place_of lens x < shorter lens (Suc (lens ! x))" if "x < length lens" "lens ! x \<noteq> 0" for x
    using count_take_less [OF that(1)] that(2) by (simp add: place_of_def shorter_def with_length_def)
  have mono: "shorter lens l \<le> shorter lens l'" if "l \<le> l'" for l l'
    unfolding shorter_def using that by (intro sum_mono2) auto
  have "lens ! s = lens ! s'"
  proof (rule ccontr)
    assume "lens ! s \<noteq> lens ! s'"
    then consider "Suc (lens ! s) \<le> lens ! s'" | "Suc (lens ! s') \<le> lens ! s" by linarith
    then show False using mono [of "Suc (lens ! s)"] mono [of "Suc (lens ! s')"] range [of s] range [of s'] assms by cases force+
  qed
  then show ?thesis
    using assms(5) count_take_strict [of s s' lens] count_take_strict [of s' s lens] assms(1,2)
    by (cases s s' rule: linorder_cases) (auto simp: place_of_def)
qed

lemma shorter_bound: "shorter lens l \<le> length lens"
proof -
  have "(\<Sum>k \<in> A. count_list lens k) = length (filter (\<lambda>x. x \<in> A) lens)" if "finite A" for A
  proof (induction lens)
    case (Cons a lens)
    have "(\<Sum>k \<in> A. count_list (a # lens) k) = (\<Sum>k \<in> A. count_list lens k + (if k = a then 1 else 0))" by (rule sum.cong) auto
    with Cons that show ?case by (simp add: sum.distrib)
  qed simp
  then have "(\<Sum>k < l. count_list lens k) \<le> length lens" by simp
  moreover have "shorter lens l \<le> (\<Sum>k < l. count_list lens k)" unfolding shorter_def by (intro sum_mono) (simp add: with_length_def)
  ultimately show ?thesis by simp
qed

lemma place_bound: "s < length lens \<Longrightarrow> lens ! s \<noteq> 0 \<Longrightarrow> place_of lens s < length lens"
proof -
  assume s: "s < length lens" "lens ! s \<noteq> 0"
  have "place_of lens s < shorter lens (Suc (lens ! s))"
    using count_take_less [OF s(1)] s(2) by (simp add: place_of_def shorter_def with_length_def)
  then show ?thesis using shorter_bound [of lens "Suc (lens ! s)"] by simp
qed

section \<open>Building the tables\<close>

lemma codeLengthCounts_nth:
  assumes "\<forall>x \<in> set lens. x < 17" "l < 17"
  shows "codeLengthCounts lens ! l = with_length lens l"
proof -
  have "fold (\<lambda>l c. c[l := c ! l + 1]) lens c ! l = c ! l + count_list lens l" if "length c = 17" for c
    using assms(1) that by (induction lens arbitrary: c) (auto simp: nth_list_update assms(2))
  moreover have "length (fold (\<lambda>l c. c[l := c ! l + 1]) lens c) = length c" for c :: "nat list"
    by (induction lens arbitrary: c) auto
  ultimately show ?thesis using assms(2) by (auto simp: codeLengthCounts_def with_length_def nth_list_update)
qed

text \<open>The sizes of the arrays, and what the loop over the lengths leaves.\<close>

definition sizes_ok :: "HuffmanTree \<Rightarrow> bool" where
  "sizes_ok t \<longleftrightarrow> length (FirstCodeOfLength t) = 16 \<and> length (FirstSymbolIndexOfLength t) = 16 \<and> length (MaxCodeInclusive t) = 17 \<and>
     length (SymbolBitLengths t) = MAX_SYMBOLS \<and> length (SymbolValues t) = MAX_SYMBOLS \<and> length (FastLookupTable t) = 2 ^ FAST_BITS"

definition length_row :: "nat list \<Rightarrow> nat list \<Rightarrow> HuffmanTree \<Rightarrow> nat \<Rightarrow> bool" where
  "length_row lens next t k \<longleftrightarrow> next ! k = first_code lens k \<and> FirstCodeOfLength t ! k = first_code lens k mod 2 ^ 16 \<and>
     FirstSymbolIndexOfLength t ! k = shorter lens k mod 2 ^ 16 \<and>
     MaxCodeInclusive t ! k = (first_code lens k + with_length lens k) * 2 ^ (16 - k)"

lemma Build_lengths_rows:
  assumes "Build_lengths counts [l..<16] (first_code lens l) (shorter lens l) next t = (ok, next', t')" "l \<le> 16" "1 \<le> l"
    and "\<And>k. k < 16 \<Longrightarrow> counts ! k = with_length lens k" "length next = 16" "sizes_ok t"
    and "\<And>k. 1 \<le> k \<Longrightarrow> k < l \<Longrightarrow> length_row lens next t k"
  shows "ok = (\<forall>k. l \<le> k \<and> k < 16 \<longrightarrow> code_fits lens k)" and "length next' = 16" and "sizes_ok t'" and "FastLookupTable t' = FastLookupTable t"
    and "ok \<Longrightarrow> 1 \<le> k \<Longrightarrow> k < 16 \<Longrightarrow> length_row lens next' t' k"
proof (atomize (full), use assms in \<open>induction "16 - l" arbitrary: l next t\<close>)
  case 0
  then show ?case by (auto simp: upt_conv_Nil)
next
  case (Suc n)
  from Suc.hyps(2) have l: "l < 16" by simp
  let ?t = "t\<lparr>FirstCodeOfLength := (FirstCodeOfLength t)[l := first_code lens l mod 2 ^ 16],
      FirstSymbolIndexOfLength := (FirstSymbolIndexOfLength t)[l := shorter lens l mod 2 ^ 16]\<rparr>"
  let ?u = "?t\<lparr>MaxCodeInclusive := (MaxCodeInclusive ?t)[l := push_bit (16 - l) (first_code lens l + with_length lens l)]\<rparr>"
  have fits: "code_fits lens l \<longleftrightarrow> \<not> (with_length lens l \<noteq> 0 \<and> first_code lens l + with_length lens l - 1 \<ge> 2 ^ l)"
    by (auto simp: code_fits_def)
  have su: "sizes_ok ?t" "sizes_ok ?u" using Suc.prems(6) by (simp_all add: sizes_ok_def)
  show ?case
  proof (cases "code_fits lens l")
    case False
    then have "ok = False" "next' = next[l := first_code lens l]" "t' = ?t"
      using Suc.prems(1) l fits Suc.prems(4) [OF l] by (auto simp: upt_conv_Cons Let_def)
    then show ?thesis using False l Suc.prems(5) su by auto
  next
    case True
    have "Build_lengths counts [Suc l..<16] (first_code lens (Suc l)) (shorter lens (Suc l)) (next[l := first_code lens l]) ?u = (ok, next', t')"
      using Suc.prems(1) l True fits Suc.prems(4) [OF l] by (auto simp: upt_conv_Cons Let_def shorter_def algebra_simps)
    moreover have "length_row lens (next[l := first_code lens l]) ?u k" if "1 \<le> k" "k < Suc l" for k
      using that Suc.prems(5,6) Suc.prems(7) [of k] l
      by (cases "k = l") (auto simp: length_row_def sizes_ok_def push_bit_eq_mult)
    ultimately show ?thesis
      using Suc.hyps(1) [of "Suc l" "next[l := first_code lens l]" ?u] Suc.hyps(2) l Suc.prems(4,5) su True
      by (auto simp: less_Suc_eq_le Suc_le_eq le_eq_less_or_eq [of l])
  qed
qed

text \<open>The loop over the symbols, as one update for each symbol.\<close>

definition put_symbol :: "nat list \<Rightarrow> nat \<Rightarrow> HuffmanTree \<Rightarrow> HuffmanTree" where
  "put_symbol lens s t =
     (let l = lens ! s
      in if l = 0 then t
         else t\<lparr>SymbolBitLengths := (SymbolBitLengths t)[place_of lens s := l], SymbolValues := (SymbolValues t)[place_of lens s := s],
                FastLookupTable := (if l \<le> FAST_BITS then Build_fast l (512 * l + s) (ReverseBits (code_of lens s) l) (FastLookupTable t)
                                    else FastLookupTable t)\<rparr>)"

definition rows_ok :: "nat list \<Rightarrow> HuffmanTree \<Rightarrow> bool" where
  "rows_ok lens t \<longleftrightarrow> sizes_ok t \<and> (\<forall>k. 1 \<le> k \<and> k < 16 \<longrightarrow> FirstCodeOfLength t ! k = first_code lens k \<and>
     FirstSymbolIndexOfLength t ! k = shorter lens k \<and> MaxCodeInclusive t ! k = interval_start lens (Suc k)) \<and> MaxCodeInclusive t ! 16 = 2 ^ 16"

lemma length_Build_fast [simp]: "length (Build_fast l v r table) = length table"
  by (induction l v r table rule: Build_fast.induct) (subst Build_fast.simps, simp)

lemma Build_fast_nth:
  assumes "length table = 2 ^ FAST_BITS" "j < 2 ^ FAST_BITS"
  shows "Build_fast l v r table ! j = (if r \<le> j \<and> j mod 2 ^ l = r mod 2 ^ l then v else table ! j)"
  using assms
proof (induction l v r table rule: Build_fast.induct)
  case (1 l v r table)
  have nx: "r + 2 ^ l \<le> j \<or> j = r \<longleftrightarrow> r \<le> j" if "j mod 2 ^ l = r mod 2 ^ l"
  proof -
    have "r + 2 ^ l \<le> j \<or> j = r" if "r \<le> j"
    proof -
      have "2 ^ l dvd j - r" using \<open>j mod 2 ^ l = r mod 2 ^ l\<close> that by (simp add: mod_eq_dvd_iff_nat)
      then have "j - r = 0 \<or> 2 ^ l \<le> j - r" by (auto dest: dvd_imp_le)
      then show ?thesis using that by auto
    qed
    then show ?thesis by auto
  qed
  show ?case
  proof (cases "r < 2 ^ FAST_BITS")
    case True
    then have "Build_fast l v r table ! j = (if r + 2 ^ l \<le> j \<and> j mod 2 ^ l = r mod 2 ^ l then v else table[r := v] ! j)"
      using 1 by (subst Build_fast.simps) simp
    then show ?thesis using nx 1(2,3) by (auto simp: nth_list_update)
  next
    case False
    then show ?thesis using 1(3) by (subst Build_fast.simps) simp
  qed
qed

lemma rows_ok_put [simp]: "rows_ok lens t \<Longrightarrow> rows_ok lens (put_symbol lens s t)"
  by (simp add: rows_ok_def sizes_ok_def put_symbol_def Let_def)

lemma Build_symbols_fold:
  assumes "lens = pre @ ls" "lengths_ok lens" "rows_ok lens t" "length nc = 16"
    and "\<And>k. 1 \<le> k \<Longrightarrow> k < 16 \<Longrightarrow> nc ! k = first_code lens k + count_list pre k"
  shows "Build_symbols (length pre) ls nc t = fold (put_symbol lens) [length pre..<length lens] t"
  using assms
proof (induction ls arbitrary: pre nc t)
  case (Cons l ls)
  let ?s = "length pre"
  have s: "lens ! ?s = l" "take ?s lens = pre" "?s < length lens" "[?s..<length lens] = ?s # [length (pre @ [l])..<length lens]"
    using Cons.prems(1) upt_conv_Cons [of ?s "length lens"] by simp_all
  have l: "l < 16" using Cons.prems(1,2) by simp
  show ?case
  proof (cases "l = 0")
    case True
    have "Build_symbols (length (pre @ [l])) ls nc t = fold (put_symbol lens) [length (pre @ [l])..<length lens] t"
      using Cons.prems True by (intro Cons.IH) (auto simp: count_list_append)
    moreover have "put_symbol lens ?s t = t" using True s(1) by (simp add: put_symbol_def)
    ultimately show ?thesis unfolding s(4) using True by simp
  next
    case False
    have code: "nc ! l = code_of lens ?s" "nc ! l - FirstCodeOfLength t ! l + FirstSymbolIndexOfLength t ! l = place_of lens ?s"
      using Cons.prems(3) Cons.prems(5) [of l] False l s by (simp_all add: code_of_def place_of_def rows_ok_def)
    have small: "?s < 512" using s(3) Cons.prems(2) by (simp add: MAX_SYMBOLS_def)
    have "push_bit 9 l OR ?s = push_bit 9 l + ?s"
      using not_bit_above [of ?s 9] small by (intro disjunctive_add_eq_or [symmetric] bit_eqI) (auto simp: bit_simps)
    then have val: "(push_bit 9 l OR ?s) mod 2 ^ 16 = 512 * l + ?s" using small l by (simp add: push_bit_eq_mult)
    have "Build_symbols (length (pre @ [l])) ls (nc[l := nc ! l + 1]) (put_symbol lens ?s t) =
        fold (put_symbol lens) [length (pre @ [l])..<length lens] (put_symbol lens ?s t)"
      using Cons.prems l by (intro Cons.IH) (auto simp: count_list_append nth_list_update)
    moreover have "Build_symbols ?s (l # ls) nc t = Build_symbols (length (pre @ [l])) ls (nc[l := nc ! l + 1]) (put_symbol lens ?s t)"
      using False l small s(1) val unfolding Build_symbols.simps Let_def code(2) unfolding code(1) put_symbol_def by simp
    ultimately show ?thesis unfolding s(4) by simp
  qed
qed simp

lemma fold_no_write:
  assumes "P t" "\<And>y t. P t \<Longrightarrow> P (f y t)" "\<And>y t. y \<in> set xs \<Longrightarrow> P t \<Longrightarrow> get (f y t) = get t"
  shows "get (fold f xs t) = get t"
  using assms by (induction xs arbitrary: t) auto

lemma fold_unique_write:
  assumes "distinct xs" "x \<in> set xs" "P t" "\<And>y t. P t \<Longrightarrow> P (f y t)" "\<And>t. P t \<Longrightarrow> get (f x t) = v"
    and "\<And>y t. y \<in> set xs \<Longrightarrow> y \<noteq> x \<Longrightarrow> P t \<Longrightarrow> get (f y t) = get t"
  shows "get (fold f xs t) = v"
proof -
  obtain ys zs where xs: "xs = ys @ x # zs" using assms(2) by (meson split_list)
  have P: "P (fold f ws t)" if "P t" for ws t using that assms(4) by (induction ws arbitrary: t) auto
  have "get (fold f zs t) = get t" if "P t" for t
    by (rule fold_no_write [of P]) (use that assms(1,4,6) xs in auto)
  then show ?thesis using xs P [OF assms(3)] assms(4,5) by simp
qed

text \<open>A symbol is at an index of the fast table when the lowest bits of the index are its code word.\<close>

definition fast_hit :: "nat list \<Rightarrow> nat \<Rightarrow> nat \<Rightarrow> bool" where
  "fast_hit lens j s \<longleftrightarrow> lens ! s \<noteq> 0 \<and> lens ! s \<le> FAST_BITS \<and> j mod 2 ^ (lens ! s) = ReverseBits (code_of lens s) (lens ! s)"

lemma ReverseBits_bound: "c \<le> 16 \<Longrightarrow> ReverseBits v c < 2 ^ c"
  using horner_sum_of_bool_2_less [of "code_bits c v"] by (simp add: ReverseBits_code)

lemma put_symbol_fast:
  assumes "rows_ok lens t" "j < 2 ^ FAST_BITS"
  shows "FastLookupTable (put_symbol lens s t) ! j = (if fast_hit lens j s then 512 * lens ! s + s else FastLookupTable t ! j)"
proof -
  have "j mod 2 ^ l = r \<Longrightarrow> r \<le> j" for l r by (metis mod_less_eq_dividend)
  then show ?thesis
    using assms ReverseBits_bound [of "lens ! s" "code_of lens s"]
    by (auto simp: put_symbol_def Let_def fast_hit_def Build_fast_nth rows_ok_def sizes_ok_def FAST_BITS_def)
qed

lemma put_symbol_place:
  assumes "rows_ok lens t" "lengths_ok lens" "s < length lens" "s' < length lens" "lens ! s \<noteq> 0"
  shows "SymbolBitLengths (put_symbol lens s' t) ! place_of lens s = (if s' = s then lens ! s else SymbolBitLengths t ! place_of lens s) \<and>
    SymbolValues (put_symbol lens s' t) ! place_of lens s = (if s' = s then s else SymbolValues t ! place_of lens s)"
proof -
  have "place_of lens s < MAX_SYMBOLS" using place_bound [OF assms(3,5)] assms(2) by simp
  moreover have "place_of lens s' \<noteq> place_of lens s" if "s' \<noteq> s" "lens ! s' \<noteq> 0"
    using places_distinct [OF assms(4,3) that(2) assms(5)] that(1) by auto
  ultimately show ?thesis
    using assms(1,5) by (auto simp: put_symbol_def Let_def rows_ok_def sizes_ok_def)
qed

definition arrays_ok :: "HuffmanTree \<Rightarrow> bool" where
  "arrays_ok t \<longleftrightarrow> sizes_ok (t\<lparr>FastLookupTable := replicate (2 ^ FAST_BITS) 0\<rparr>)"

lemma Build_result:
  assumes "lengths_ok lens" "arrays_ok t"
  shows "fst (HuffmanTree_Build lens t) = (\<forall>k. 1 \<le> k \<and> k < 16 \<longrightarrow> code_fits lens k)"
    and "HuffmanTree_Build lens t = (True, t') \<Longrightarrow>
      \<exists>u. rows_ok lens u \<and> FastLookupTable u = replicate (2 ^ FAST_BITS) 0 \<and> t' = fold (put_symbol lens) [0..<length lens] u"
proof -
  let ?t = "t\<lparr>FastLookupTable := replicate (2 ^ FAST_BITS) 0\<rparr>" and ?counts = "codeLengthCounts lens"
  have counts: "?counts ! k = with_length lens k" if "k < 16" for k
    using that assms(1) by (intro codeLengthCounts_nth) auto
  obtain ok nc u where b: "Build_lengths ?counts [1..<16] 0 0 (replicate 16 0) ?t = (ok, nc, u)" by (metis prod_cases3)
  have zero: "first_code lens 1 = 0" "shorter lens 1 = 0" by (simp_all add: shorter_def with_length_def)
  note rows = Build_lengths_rows [of ?counts 1 lens "replicate 16 0" ?t ok nc u, unfolded zero, OF b _ _ counts _ assms(2) [unfolded arrays_ok_def], simplified]
  have fits: "ok = (\<forall>k. 1 \<le> k \<and> k < 16 \<longrightarrow> code_fits lens k)" using rows(1) by simp
  have over: "\<not> ok" if "list_ex (\<lambda>len. ?counts ! len > 2 ^ len) [1..<16]"
  proof -
    from that obtain k where "1 \<le> k" "k < 16" "with_length lens k > 2 ^ k" using counts by (auto simp: list_ex_iff)
    then show ?thesis using fits by (auto simp: code_fits_def)
  qed
  show "fst (HuffmanTree_Build lens t) = (\<forall>k. 1 \<le> k \<and> k < 16 \<longrightarrow> code_fits lens k)"
    unfolding fits [symmetric] using over b by (auto simp: HuffmanTree_Build_def Let_def split: bool.split)
  let ?u = "u\<lparr>MaxCodeInclusive := (MaxCodeInclusive u)[16 := 0x10000]\<rparr>"
  assume "HuffmanTree_Build lens t = (True, t')"
  then have ok and t': "t' = Build_symbols 0 lens nc ?u" using b by (auto simp: HuffmanTree_Build_def Let_def split: if_splits bool.splits)
  have small: "first_code lens k mod 2 ^ 16 = first_code lens k" "shorter lens k mod 2 ^ 16 = shorter lens k" if "1 \<le> k" "k < 16" for k
  proof -
    have "first_code lens k \<le> 2 ^ k" using that fits \<open>ok\<close> by (intro first_code_bound) auto
    also have "(2 :: nat) ^ k < 2 ^ 16" using that by (intro power_strict_increasing) auto
    finally show "first_code lens k mod 2 ^ 16 = first_code lens k" by simp
    show "shorter lens k mod 2 ^ 16 = shorter lens k"
      using shorter_bound [of lens k] assms(1) by (simp add: MAX_SYMBOLS_def)
  qed
  have "length_row lens nc u k" if "1 \<le> k" "k < 16" for k using rows(5) \<open>ok\<close> that by simp
  with small have rowk: "nc ! k = first_code lens k" "FirstCodeOfLength u ! k = first_code lens k" "FirstSymbolIndexOfLength u ! k = shorter lens k"
      "MaxCodeInclusive u ! k = interval_start lens (Suc k)" if "1 \<le> k" "k < 16" for k
    using that unfolding length_row_def interval_step [OF that(2)] by metis+
  then have "rows_ok lens ?u" using rows(3) by (simp add: rows_ok_def sizes_ok_def)
  moreover have "FastLookupTable ?u = replicate (2 ^ FAST_BITS) 0" using rows(4) by simp
  moreover have "t' = fold (put_symbol lens) [0..<length lens] ?u"
    using Build_symbols_fold [of lens "[]" lens ?u nc] assms(1) calculation(1) rows(2) rowk(1) t' by simp
  ultimately show "\<exists>u. rows_ok lens u \<and> FastLookupTable u = replicate (2 ^ FAST_BITS) 0 \<and> t' = fold (put_symbol lens) [0..<length lens] u"
    by blast
qed

section \<open>Decoding code words\<close>

text \<open>What the tables of a successful build contain.\<close>

lemma Build_tables:
  assumes "HuffmanTree_Build lens t = (True, t')" "lengths_ok lens" "arrays_ok t"
  shows "rows_ok lens t'"
    and "j < 2 ^ FAST_BITS \<Longrightarrow> (\<And>s. s < length lens \<Longrightarrow> \<not> fast_hit lens j s) \<Longrightarrow> FastLookupTable t' ! j = 0"
    and "j < 2 ^ FAST_BITS \<Longrightarrow> s < length lens \<Longrightarrow> fast_hit lens j s \<Longrightarrow> (\<And>s'. s' < length lens \<Longrightarrow> s' \<noteq> s \<Longrightarrow> \<not> fast_hit lens j s') \<Longrightarrow>
      FastLookupTable t' ! j = 512 * lens ! s + s"
    and "s < length lens \<Longrightarrow> lens ! s \<noteq> 0 \<Longrightarrow> SymbolBitLengths t' ! place_of lens s = lens ! s \<and> SymbolValues t' ! place_of lens s = s"
proof -
  from Build_result(2) [OF assms(2,3,1)] obtain u where u: "rows_ok lens u" "FastLookupTable u = replicate (2 ^ FAST_BITS) 0"
      "t' = fold (put_symbol lens) [0..<length lens] u" by blast
  have keep: "rows_ok lens (fold (put_symbol lens) xs t)" if "rows_ok lens t" for xs t using that by (induction xs arbitrary: t) auto
  show "rows_ok lens t'" using u keep by simp
  show "FastLookupTable t' ! j = 0" if "j < 2 ^ FAST_BITS" "\<And>s. s < length lens \<Longrightarrow> \<not> fast_hit lens j s"
    using fold_no_write [of "rows_ok lens" u "put_symbol lens" "[0..<length lens]" "\<lambda>t. FastLookupTable t ! j"] u that
    by (simp add: put_symbol_fast)
  show "FastLookupTable t' ! j = 512 * lens ! s + s"
    if "j < 2 ^ FAST_BITS" "s < length lens" "fast_hit lens j s" "\<And>s'. s' < length lens \<Longrightarrow> s' \<noteq> s \<Longrightarrow> \<not> fast_hit lens j s'"
    using fold_unique_write [of "[0..<length lens]" s "rows_ok lens" u "put_symbol lens" "\<lambda>t. FastLookupTable t ! j" "512 * lens ! s + s"] u that
    by (simp add: put_symbol_fast)
  show "SymbolBitLengths t' ! place_of lens s = lens ! s \<and> SymbolValues t' ! place_of lens s = s" if "s < length lens" "lens ! s \<noteq> 0"
    using fold_unique_write [of "[0..<length lens]" s "rows_ok lens" u "put_symbol lens" "\<lambda>t. SymbolBitLengths t ! place_of lens s" "lens ! s"]
      fold_unique_write [of "[0..<length lens]" s "rows_ok lens" u "put_symbol lens" "\<lambda>t. SymbolValues t ! place_of lens s" s]
      put_symbol_place [OF _ assms(2) that(1) _ that(2)] u that
    by simp
qed

lemma code_of_bound:
  assumes "HuffmanTree_Build lens t = (True, t')" "lengths_ok lens" "arrays_ok t" "s < length lens" "lens ! s \<noteq> 0"
  shows "code_of lens s < 2 ^ (lens ! s)"
proof -
  have "lens ! s < 16" using assms(2,4) by simp
  moreover have "with_length lens (lens ! s) = count_list lens (lens ! s)" using assms(5) by (simp add: with_length_def)
  ultimately show ?thesis
    using Build_result(1) [OF assms(2,3)] assms(1,5) count_take_less [OF assms(4)]
    by (auto simp: code_of_def code_fits_def dest!: spec [of _ "lens ! s"])
qed

lemma slow_length_found:
  assumes "l < 16" "k \<le> l" "\<And>i. k \<le> i \<Longrightarrow> i < l \<Longrightarrow> MaxCodeInclusive t ! i \<le> r" "r < MaxCodeInclusive t ! l"
  shows "slow_length t r k = l"
  using assms
proof (induction "l - k" arbitrary: k)
  case 0
  then show ?case by (simp add: slow_length.simps [of t r k])
next
  case (Suc n)
  then have "k < l" by simp
  moreover have "slow_length t r (k + 1) = l" using Suc by (intro Suc.hyps(1)) auto
  moreover have "MaxCodeInclusive t ! k \<le> r" using Suc.prems(3) \<open>k < l\<close> by simp
  ultimately show ?case using Suc.prems(1) by (simp add: slow_length.simps [of t r k])
qed

lemma Decode_16_bits:
  assumes "HuffmanTree_Build lens t = (True, t')" "lengths_ok lens" "arrays_ok t" "s < length lens" "lens ! s \<noteq> 0"
    and "length bs = 16" "take (lens ! s) bs = codeword lens s" "PeekBits io 16 b = from_bits bs"
  shows "HuffmanTree_Decode io t' b = Some (int s, DropBits io (lens ! s) b)"
proof -
  note tabs = Build_tables [OF assms(1-3)]
  let ?r = "ReverseBits (from_bits bs) 16" and ?j = "from_bits bs AND FAST_MASK" and ?l = "lens ! s"
  have l: "?l < 16" using assms(2,4) by simp
  have starts: "take (lens ! x) bs = codeword lens x \<longleftrightarrow> ?r div 2 ^ (16 - lens ! x) = code_of lens x" if "x < length lens" "lens ! x \<noteq> 0" for x
    using prefix_iff_number [of "lens ! x" bs "code_of lens x"] code_of_bound [OF assms(1-3) that] assms(2,6) nth_mem [OF that(1)]
    by (fastforce simp: codeword_def drop_bit_eq_div)
  have unique: "x = s" if "x < length lens" "lens ! x \<noteq> 0" "take (lens ! x) bs = codeword lens x" for x
    using codes_disjoint [of s x lens ?r] codes_disjoint [of x s lens ?r] starts [OF that(1,2)] starts [OF assms(4,5)] that assms(2,4,5,7)
    by (cases x s rule: linorder_cases) auto
  have hit: "fast_hit lens ?j x \<longleftrightarrow> lens ! x \<noteq> 0 \<and> lens ! x \<le> FAST_BITS \<and> take (lens ! x) bs = codeword lens x" if "x < length lens" for x
    using prefix_iff_reversed [of "lens ! x" bs "code_of lens x"] code_of_bound [OF assms(1-3) that] assms(6)
    by (auto simp: fast_hit_def codeword_def FAST_BITS_def)
  have "?j = from_bits bs mod 512" by (simp add: FAST_MASK_def and_mask_511)
  then have j: "?j < 2 ^ FAST_BITS" by (simp add: FAST_BITS_def)
  show ?thesis
  proof (cases "?l \<le> FAST_BITS")
    case True
    have "FastLookupTable t' ! ?j = 512 * ?l + s"
    proof (rule tabs(3) [OF j assms(4)])
      show "fast_hit lens ?j s" using hit [OF assms(4)] True assms(5,7) by simp
      show "\<not> fast_hit lens ?j x" if "x < length lens" "x \<noteq> s" for x using hit [OF that(1)] unique that by blast
    qed
    moreover have "s < 512" using assms(2,4) by (simp add: MAX_SYMBOLS_def)
    ultimately show ?thesis using assms(5,8) by (simp add: HuffmanTree_Decode_def Let_def and_mask_511 drop_bit_eq_div)
  next
    case False
    have "FastLookupTable t' ! ?j = 0" 
    proof (rule tabs(2) [OF j])
      show "\<not> fast_hit lens ?j x" if "x < length lens" for x using hit [OF that] unique that False by blast
    qed
    moreover have code: "?r div 2 ^ (16 - ?l) = code_of lens s" using starts [OF assms(4,5)] assms(7) by simp
    from this have r: "interval_start lens ?l \<le> ?r" "?r < interval_start lens (Suc ?l)"
      using in_interval [OF assms(4,5) l] by auto
    have slow: "slow_length t' ?r (FAST_BITS + 1) = ?l"
    proof (rule slow_length_found [OF l])
      have max: "MaxCodeInclusive t' ! i = interval_start lens (Suc i)" if "1 \<le> i" "i < 16" for i using tabs(1) that by (simp add: rows_ok_def)
      show "FAST_BITS + 1 \<le> ?l" using False by simp
      show "?r < MaxCodeInclusive t' ! ?l" using r(2) max [of ?l] l assms(5) by simp
      show "MaxCodeInclusive t' ! i \<le> ?r" if "FAST_BITS + 1 \<le> i" "i < ?l" for i
        using max [of i] interval_mono [of "Suc i" ?l lens] r(1) that l by simp
    qed
    moreover have "place_of lens s < MAX_SYMBOLS" using place_bound [OF assms(4,5)] assms(2) by simp
    moreover have "int (code_of lens s) - int (FirstCodeOfLength t' ! ?l) + int (FirstSymbolIndexOfLength t' ! ?l) = int (place_of lens s)"
      using tabs(1) l assms(5) by (simp add: rows_ok_def code_of_def place_of_def)
    ultimately show ?thesis
      using assms(8) l tabs(4) [OF assms(4,5)] code slow by (simp add: HuffmanTree_Decode_def DecodeSlowPath_def Let_def drop_bit_eq_div)
  qed
qed

context bit_reader
begin

lemma decode_codeword:
  assumes "HuffmanTree_Build lens t = (True, t')" "lengths_ok lens" "arrays_ok t" "s < length lens" "lens ! s \<noteq> 0"
    and "bits b = codeword lens s @ rest" "16 \<le> length (bits b)"
  shows "\<exists>b'. HuffmanTree_Decode io t' b = Some (int s, b') \<and> bits b' = rest"
proof -
  have len: "length (codeword lens s) = lens ! s" by (simp add: codeword_def)
  have "lens ! s < 16" using assms(2,4) by simp
  then have "take (lens ! s) (take 16 (bits b)) = codeword lens s" using assms(6) len by (simp add: min_def)
  then have "HuffmanTree_Decode io t' b = Some (int s, DropBits io (lens ! s) b)"
    using assms(7) peek [of 16 b] by (intro Decode_16_bits [OF assms(1-5), of "take 16 (bits b)"]) auto
  moreover have "bits (DropBits io (lens ! s) b) = rest" using dropped [of "lens ! s" b] assms(6) len by simp
  ultimately show ?thesis by blast
qed

end

text \<open>A stream that is a list of bits.\<close>

definition list_stream :: "bool list bit_stream" where
  "list_stream = \<lparr>PeekBits = (\<lambda>n b. from_bits (take n b)), DropBits = drop, ReadBits = (\<lambda>n b. (from_bits (take n b), drop n b)),
     AlignToByteBoundary = (\<lambda>b. drop (length b mod 8) b), ReadWord = (\<lambda>b. (from_bits (take 16 b), drop 16 b)),
     ReadBytes = (\<lambda>n b. (map (\<lambda>i. of_nat (from_bits (take 8 (drop (8 * i) b)))) [0..<n], drop (8 * n) b)), IsEndOfStream = (\<lambda>b. b = [])\<rparr>"

interpretation list_bits: bit_reader list_stream "\<lambda>b. b"
  by unfold_locales (simp_all add: list_stream_def)

section \<open>Properties\<close>

text \<open>
  Claim C28. The tables are built exactly when the code lengths leave room for a canonical code: at every length that is used, the codes do not
  run over.
\<close>

theorem Build_accepts_iff_codes_fit:
  assumes "lengths_ok lens" "arrays_ok t"
  shows "fst (HuffmanTree_Build lens t) \<longleftrightarrow>
    (\<forall>l. 1 \<le> l \<and> l < 16 \<and> count_list lens l \<noteq> 0 \<longrightarrow> first_code lens l + count_list lens l \<le> 2 ^ l)"
  using Build_result(1) [OF assms] by (auto simp: code_fits_def with_length_def)

text \<open>
  Claim C13. Decoding inverts the canonical code: when the tables have been built, the code word of every symbol that has one is decoded to the
  symbol, by the fast table or the search, and the stream is left behind the code word.
\<close>

theorem codewords_are_decoded:
  assumes "bit_reader io bits" "HuffmanTree_Build lens t = (True, t')" "lengths_ok lens" "arrays_ok t" "s < length lens" "lens ! s \<noteq> 0"
    and "bits b = codeword lens s @ rest" "16 \<le> length (bits b)"
  shows "\<exists>b'. HuffmanTree_Decode io t' b = Some (int s, b') \<and> bits b' = rest"
  using bit_reader.decode_codeword [OF assms] .

text \<open>Two symbols of one bit and two.\<close>

definition blank_tree :: HuffmanTree where
  "blank_tree = \<lparr>FastLookupTable = replicate 512 0, FirstCodeOfLength = replicate 16 0, MaxCodeInclusive = replicate 17 0,
     FirstSymbolIndexOfLength = replicate 16 0, SymbolBitLengths = replicate 288 0, SymbolValues = replicate 288 0\<rparr>"

lemma blank_arrays_ok: "arrays_ok blank_tree"
  by (simp add: arrays_ok_def sizes_ok_def blank_tree_def MAX_SYMBOLS_def FAST_BITS_def)

lemma demo_build: "fst (HuffmanTree_Build [1, 0, 2] blank_tree)"
proof -
  have fc: "first_code [1, 0, 2] 1 = 0" "first_code [1, 0, 2] 2 = 2" by code_simp+
  have "count_list [1, 0, 2 :: nat] l = (if l = 0 \<or> l = 1 \<or> l = 2 then 1 else 0)" for l by auto
  then have "code_fits [1, 0, 2] l" for l using fc by (auto simp: code_fits_def with_length_def)
  then show ?thesis using Build_result(1) [OF _ blank_arrays_ok, of "[1, 0, 2]"] by (simp add: MAX_SYMBOLS_def)
qed

theorem Build_accepts_iff_codes_fit_witness:
  "\<not> fst (HuffmanTree_Build [1, 1, 1] blank_tree)"
proof -
  have "count_list [1, 1, 1 :: nat] 1 = 3" by simp
  then show ?thesis
    using Build_accepts_iff_codes_fit [OF _ blank_arrays_ok, of "[1, 1, 1]"] by (auto simp: MAX_SYMBOLS_def intro!: exI [of _ 1])
qed

theorem codewords_are_decoded_witness:
  "\<exists>t' b'. HuffmanTree_Build [1, 0, 2] blank_tree = (True, t') \<and>
     HuffmanTree_Decode list_stream t' ([True, False] @ replicate 16 False) = Some (2, b') \<and> b' = replicate 16 False"
proof -
  obtain t' where b: "HuffmanTree_Build [1, 0, 2] blank_tree = (True, t')" using demo_build by (metis prod.collapse)
  have "codeword [1, 0, 2] 2 = [True, False]" by code_simp
  then show ?thesis
    using codewords_are_decoded [OF list_bits.bit_reader_axioms b _ blank_arrays_ok, of 2 "[True, False] @ replicate 16 False"] b
    by (simp add: MAX_SYMBOLS_def)
qed

end
