(* ===== verification/Inflate.thy ===== *)
theory Inflate
  imports Huffman_Codes
begin

text \<open>
  The decompressor of \<^verbatim>\<open>Library/ZLib.cpp\<close>: headers, blocks, the code lengths of dynamic blocks, and the loop that writes literals and
  copies.  A block is shown to be decoded to what its symbols stand for, as long as the output buffer does not have to grow.
\<close>

section \<open>The state\<close>

text \<open>
  The output buffer, null or an array, with the offset of the output pointer; the end of the buffer is its size.  New memory has
  contents that are an argument.
\<close>

record Decompressor =
  m_OutputBuffer :: "u8 list option"
  m_OutputSize :: nat
  m_OutputPointer :: nat
  m_LiteralLengthTree :: HuffmanTree
  m_DistanceTree :: HuffmanTree

datatype BlockType = eUncompressed | eFixedHuffmanCode | eDynamicHuffmanCode | eReservedBlock

definition BlockType_of :: "nat \<Rightarrow> BlockType" where
  "BlockType_of n = (if n = 0 then eUncompressed else if n = 1 then eFixedHuffmanCode else if n = 2 then eDynamicHuffmanCode else eReservedBlock)"

text \<open>Doubling; a size of 0 that is too small stays 0, and the loop does not end.\<close>

function EnsureCapacity_loop :: "nat \<Rightarrow> nat \<Rightarrow> nat option" where
  "EnsureCapacity_loop newSize needed =
     (if newSize \<ge> needed then Some newSize else if newSize = 0 then None else EnsureCapacity_loop (push_bit 1 newSize) needed)"
  by auto
termination by (relation "measure (\<lambda>(n, k). k - n)") auto

declare EnsureCapacity_loop.simps [simp del]

definition EnsureCapacity :: "(nat \<Rightarrow> u8 list) \<Rightarrow> nat \<Rightarrow> Decompressor \<Rightarrow> Decompressor option" where
  "EnsureCapacity fresh count d =
     (let currentOffset = (if m_OutputBuffer d = None then 0 else m_OutputPointer d);
          newSize = (if m_OutputBuffer d = None then count else m_OutputSize d)
      in map_option (\<lambda>n. d\<lparr>m_OutputBuffer := Some (fresh n), m_OutputSize := n, m_OutputPointer := currentOffset\<rparr>)
           (EnsureCapacity_loop newSize (currentOffset + count)))"

definition put_byte :: "nat \<Rightarrow> u8 \<Rightarrow> Decompressor \<Rightarrow> Decompressor" where
  "put_byte i x d = d\<lparr>m_OutputBuffer := map_option (\<lambda>bs. bs[i := x]) (m_OutputBuffer d)\<rparr>"

definition get_byte :: "nat \<Rightarrow> Decompressor \<Rightarrow> u8" where
  "get_byte i d = (case m_OutputBuffer d of None \<Rightarrow> 0 | Some bs \<Rightarrow> bs ! i)"

section \<open>Blocks\<close>

definition lengthBase :: "nat list" where
  "lengthBase = [3, 4, 5, 6, 7, 8, 9, 10, 11, 13, 15, 17, 19, 23, 27, 31, 35, 43, 51, 59, 67, 83, 99, 115, 131, 163, 195, 227, 258]"

definition lengthExtraBits :: "nat list" where
  "lengthExtraBits = [0, 0, 0, 0, 0, 0, 0, 0, 1, 1, 1, 1, 2, 2, 2, 2, 3, 3, 3, 3, 4, 4, 4, 4, 5, 5, 5, 5, 0]"

definition distBase :: "nat list" where
  "distBase = [1, 2, 3, 4, 5, 7, 9, 13, 17, 25, 33, 49, 65, 97, 129, 193, 257, 385, 513, 769, 1025, 1537, 2049, 3073, 4097, 6145, 8193,
     12289, 16385, 24577]"

definition distExtraBits :: "nat list" where
  "distExtraBits = [0, 0, 0, 0, 1, 1, 2, 2, 3, 3, 4, 4, 5, 5, 6, 6, 7, 7, 8, 8, 9, 9, 10, 10, 11, 11, 12, 12, 13, 13]"

text \<open>A base with its extra bits, if it has any.\<close>

definition extra :: "'b bit_stream \<Rightarrow> nat list \<Rightarrow> nat list \<Rightarrow> nat \<Rightarrow> 'b \<Rightarrow> nat \<times> 'b" where
  "extra io base extraBits symbol stream =
     (if extraBits ! symbol \<noteq> 0 then let (x, stream) = ReadBits io (extraBits ! symbol) stream in (base ! symbol + x, stream)
      else (base ! symbol, stream))"

text \<open>The copy; \<^verbatim>\<open>src\<close> stays where it is when the distance is 1.\<close>

fun copy_loop :: "nat \<Rightarrow> nat \<Rightarrow> nat \<Rightarrow> nat \<Rightarrow> Decompressor \<Rightarrow> nat \<times> Decompressor" where
  "copy_loop 0 distance src current d = (current, d)"
| "copy_loop (Suc len) distance src current d =
     copy_loop len distance (if distance = 1 then src else src + 1) (current + 1) (put_byte current (get_byte src d) d)"

partial_function (option) DecodeBlock_loop ::
    "'b bit_stream \<Rightarrow> (nat \<Rightarrow> u8 list) \<Rightarrow> nat \<Rightarrow> Decompressor \<Rightarrow> 'b \<Rightarrow> (bool \<times> Decompressor \<times> 'b) option" where
  "DecodeBlock_loop io fresh current d stream =
     (case HuffmanTree_Decode io (m_LiteralLengthTree d) stream of
        None \<Rightarrow> None
      | Some (symbol, stream) \<Rightarrow>
          if symbol < 0 then Some (False, d, stream)
          else if symbol < 256 then
            (case (if current \<ge> m_OutputSize d then map_option (\<lambda>d. (m_OutputPointer d, d)) (EnsureCapacity fresh 4096 d)
                   else Some (current, d)) of
               None \<Rightarrow> None
             | Some (current, d) \<Rightarrow> DecodeBlock_loop io fresh (current + 1) (put_byte current (of_int symbol) d) stream)
          else if symbol = 256 then Some (True, d\<lparr>m_OutputPointer := current\<rparr>, stream)
          else if symbol \<ge> 286 then Some (False, d, stream)
          else let (len, stream) = extra io lengthBase lengthExtraBits (nat (symbol - 257)) stream
               in case HuffmanTree_Decode io (m_DistanceTree d) stream of
                    None \<Rightarrow> None
                  | Some (symbol, stream) \<Rightarrow>
                      if symbol < 0 \<or> symbol \<ge> 30 then Some (False, d, stream)
                      else let (distance, stream) = extra io distBase distExtraBits (nat symbol) stream
                           in if current < distance then Some (False, d, stream)
                              else case (if current + len \<ge> m_OutputSize d
                                         then map_option (\<lambda>d. (m_OutputPointer d, d)) (EnsureCapacity fresh (len * 2) d)
                                         else Some (current, d)) of
                                     None \<Rightarrow> None
                                   | Some (current, d) \<Rightarrow>
                                       if current < distance then None
                                       else let (current, d) = copy_loop len distance (current - distance) current d
                                            in DecodeBlock_loop io fresh current d stream)"

definition DecodeBlock :: "'b bit_stream \<Rightarrow> (nat \<Rightarrow> u8 list) \<Rightarrow> Decompressor \<Rightarrow> 'b \<Rightarrow> (bool \<times> Decompressor \<times> 'b) option" where
  "DecodeBlock io fresh d stream = DecodeBlock_loop io fresh (m_OutputPointer d) d stream"

section \<open>Dynamic codes\<close>

definition codeLengthOrder :: "nat list" where
  "codeLengthOrder = [16, 17, 18, 0, 8, 7, 9, 6, 10, 5, 11, 4, 12, 3, 13, 2, 14, 1, 15]"

fun read_lengths :: "'b bit_stream \<Rightarrow> nat list \<Rightarrow> nat list \<Rightarrow> 'b \<Rightarrow> nat list \<times> 'b" where
  "read_lengths io [] lens stream = (lens, stream)"
| "read_lengths io (i # order) lens stream =
     (let (x, stream) = ReadBits io 3 stream in read_lengths io order (lens[i := x]) stream)"

text \<open>
  The code lengths so far; the array has 320 elements, and \<open>None\<close> is an access outside it: in front of it when the first length is a
  repetition, behind it when the last repetition is too long.
\<close>

function code_lengths_loop :: "'b bit_stream \<Rightarrow> HuffmanTree \<Rightarrow> nat \<Rightarrow> nat list \<Rightarrow> 'b \<Rightarrow> (bool \<times> nat list \<times> 'b) option" where
  "code_lengths_loop io t totalCodes lens stream =
     (if length lens \<ge> totalCodes then Some (length lens = totalCodes, lens, stream)
      else case HuffmanTree_Decode io t stream of
             None \<Rightarrow> None
           | Some (symbol, stream) \<Rightarrow>
               if 0 \<le> symbol \<and> symbol \<le> 15 then code_lengths_loop io t totalCodes (lens @ [nat symbol]) stream
               else if symbol < 16 \<or> symbol > 18 then Some (False, lens, stream)
               else if symbol = 16 \<and> lens = [] then None
               else let (value, n, least) = (if symbol = 16 then (last lens, 2, 3) else if symbol = 17 then (0, 3, 3) else (0, 7, 11));
                        (x, stream) = ReadBits io n stream;
                        repeat = x + least
                    in if length lens + repeat > 320 then None
                       else code_lengths_loop io t totalCodes (lens @ replicate repeat value) stream)"
  by pat_completeness auto
termination by (relation "measure (\<lambda>(_, _, n, lens, _). n - length lens)") (auto split: if_splits)

declare code_lengths_loop.simps [simp del]

text \<open>\<open>new\<close> is the tree on the stack before it is built.\<close>

definition DecodeCanonicalCodes :: "'b bit_stream \<Rightarrow> HuffmanTree \<Rightarrow> Decompressor \<Rightarrow> 'b \<Rightarrow> (bool \<times> Decompressor \<times> 'b) option" where
  "DecodeCanonicalCodes io new d stream =
     (let (x, stream) = ReadBits io 5 stream; literalCodeCount = x + 257;
          (x, stream) = ReadBits io 5 stream; distanceCodeCount = x + 1;
          (x, stream) = ReadBits io 4 stream; codeLengthCodeCount = x + 4;
          totalCodes = literalCodeCount + distanceCodeCount;
          (lens, stream) = read_lengths io (take codeLengthCodeCount codeLengthOrder) (replicate 19 0) stream;
          (ok, tree) = HuffmanTree_Build lens new
      in if \<not> ok then Some (False, d, stream)
         else case code_lengths_loop io tree totalCodes [] stream of
                None \<Rightarrow> None
              | Some (ok, lens, stream) \<Rightarrow>
                  if \<not> ok then Some (False, d, stream)
                  else let (ok, tree) = HuffmanTree_Build (take literalCodeCount lens) (m_LiteralLengthTree d);
                           d = d\<lparr>m_LiteralLengthTree := tree\<rparr>
                       in if \<not> ok then Some (False, d, stream)
                          else let (ok, tree) = HuffmanTree_Build (take distanceCodeCount (drop literalCodeCount lens)) (m_DistanceTree d)
                               in Some (ok, d\<lparr>m_DistanceTree := tree\<rparr>, stream))"

definition defaultLengths :: "nat list" where
  "defaultLengths = replicate 144 8 @ replicate 112 9 @ replicate 24 7 @ replicate 8 8"

definition defaultDistances :: "nat list" where
  "defaultDistances = replicate 32 5"

definition put_bytes :: "u8 list \<Rightarrow> Decompressor \<Rightarrow> Decompressor" where
  "put_bytes xs d = d\<lparr>m_OutputBuffer := map_option (\<lambda>bs. take (m_OutputPointer d) bs @ xs @ drop (m_OutputPointer d + length xs) bs) (m_OutputBuffer d),
     m_OutputPointer := m_OutputPointer d + length xs\<rparr>"

definition ParseBlock :: "'b bit_stream \<Rightarrow> (nat \<Rightarrow> u8 list) \<Rightarrow> HuffmanTree \<Rightarrow> BlockType \<Rightarrow> Decompressor \<Rightarrow> 'b \<Rightarrow> (bool \<times> Decompressor \<times> 'b) option" where
  "ParseBlock io fresh new blockType d stream =
     (case blockType of
        eUncompressed \<Rightarrow>
          (let (len, stream) = ReadWord io (AlignToByteBoundary io stream); (negatedLength, stream) = ReadWord io stream
           in if len XOR 0xffff \<noteq> negatedLength then Some (False, d, stream)
              else case (if m_OutputPointer d + len \<ge> m_OutputSize d then EnsureCapacity fresh (len * 2) d else Some d) of
                     None \<Rightarrow> None
                   | Some d \<Rightarrow> let (bytes, stream) = ReadBytes io len stream in Some (True, put_bytes bytes d, stream))
      | eFixedHuffmanCode \<Rightarrow>
          (let (ok, tree) = HuffmanTree_Build defaultLengths (m_LiteralLengthTree d); d = d\<lparr>m_LiteralLengthTree := tree\<rparr>
           in if \<not> ok then Some (False, d, stream)
              else let (ok, tree) = HuffmanTree_Build defaultDistances (m_DistanceTree d)
                   in Some (ok, d\<lparr>m_DistanceTree := tree\<rparr>, stream))
      | eDynamicHuffmanCode \<Rightarrow> DecodeCanonicalCodes io new d stream
      | eReservedBlock \<Rightarrow> Some (False, d, stream))"

text \<open>All blocks; the checksum that follows is computed and only logged.\<close>

partial_function (option) DecompressStream ::
    "'b bit_stream \<Rightarrow> (nat \<Rightarrow> u8 list) \<Rightarrow> HuffmanTree \<Rightarrow> Decompressor \<Rightarrow> 'b \<Rightarrow> (bool \<times> Decompressor \<times> 'b) option" where
  "DecompressStream io fresh new d stream =
     (let (final, stream) = ReadBits io 1 stream; (type, stream) = ReadBits io 2 stream
      in case ParseBlock io fresh new (BlockType_of type) d stream of
           None \<Rightarrow> None
         | Some (ok, d, stream) \<Rightarrow>
             if \<not> ok then Some (False, d, stream)
             else case DecodeBlock io fresh d stream of
                    None \<Rightarrow> None
                  | Some (ok, d, stream) \<Rightarrow>
                      if \<not> ok then Some (False, d, stream)
                      else if final \<noteq> 0 then Some (True, d, stream)
                      else DecompressStream io fresh new d stream)"

text \<open>The fields of a header, by what they are read from.\<close>

record ZLib_Header =
  CompressionMethod :: "nat \<Rightarrow> nat"
  DictionaryPresent :: "nat \<Rightarrow> bool"
  HeaderData :: "nat \<Rightarrow> nat"

definition eDeflate :: nat where "eDeflate = 8"

definition Decompress :: "'b bit_stream \<Rightarrow> (nat \<Rightarrow> u8 list) \<Rightarrow> HuffmanTree \<Rightarrow> ZLib_Header \<Rightarrow> nat \<Rightarrow> nat \<Rightarrow> Decompressor \<Rightarrow> 'b
    \<Rightarrow> (bool \<times> Decompressor) option" where
  "Decompress io fresh new head inputSize initialSize d stream =
     (case EnsureCapacity fresh (if initialSize = 0 then inputSize else initialSize) d of
        None \<Rightarrow> None
      | Some d \<Rightarrow>
          (let (header, stream) = ReadWord io stream
           in if CompressionMethod head header \<noteq> eDeflate then Some (False, d)
              else if DictionaryPresent head header then Some (False, d)
              else if HeaderData head header mod 31 \<noteq> 0 then Some (False, d)
              else if IsEndOfStream io stream then Some (False, d)
              else case DecompressStream io fresh new d stream of
                     None \<Rightarrow> None
                   | Some (ok, d, stream) \<Rightarrow>
                       if \<not> ok then Some (False, d\<lparr>m_OutputBuffer := None, m_OutputSize := 0\<rparr>)
                       else Some (True, d\<lparr>m_OutputSize := m_OutputPointer d\<rparr>)))"
section \<open>What a block stands for\<close>

text \<open>
  A literal, or a copy: the symbol of its length and the number in the extra bits, the symbol of its distance and the extra bits.
\<close>

datatype token = Literal u8 | Match nat nat nat nat

definition to_bits :: "nat \<Rightarrow> nat \<Rightarrow> bool list" where
  "to_bits n x = map (bit x) [0..<n]"

fun token_bits :: "nat list \<Rightarrow> nat list \<Rightarrow> token \<Rightarrow> bool list" where
  "token_bits lens dlens (Literal c) = codeword lens (unat c)"
| "token_bits lens dlens (Match k x k' y) =
     codeword lens (257 + k) @ to_bits (lengthExtraBits ! k) x @ codeword dlens k' @ to_bits (distExtraBits ! k') y"

fun copy_back :: "nat \<Rightarrow> nat \<Rightarrow> 'a list \<Rightarrow> 'a list" where
  "copy_back 0 distance out = out"
| "copy_back (Suc n) distance out = copy_back n distance (out @ [out ! (length out - distance)])"

fun apply_token :: "token \<Rightarrow> u8 list \<Rightarrow> u8 list" where
  "apply_token (Literal c) out = out @ [c]"
| "apply_token (Match k x k' y) out = copy_back (lengthBase ! k + x) (distBase ! k' + y) out"

fun token_ok :: "nat list \<Rightarrow> nat list \<Rightarrow> u8 list \<Rightarrow> token \<Rightarrow> bool" where
  "token_ok lens dlens out (Literal c) \<longleftrightarrow> unat c < length lens \<and> lens ! unat c \<noteq> 0"
| "token_ok lens dlens out (Match k x k' y) \<longleftrightarrow> k < 29 \<and> 257 + k < length lens \<and> lens ! (257 + k) \<noteq> 0 \<and> x < 2 ^ (lengthExtraBits ! k) \<and>
     k' < 30 \<and> k' < length dlens \<and> dlens ! k' \<noteq> 0 \<and> y < 2 ^ (distExtraBits ! k') \<and> distBase ! k' + y \<le> length out"

fun tokens_ok :: "nat list \<Rightarrow> nat list \<Rightarrow> u8 list \<Rightarrow> token list \<Rightarrow> bool" where
  "tokens_ok lens dlens out [] \<longleftrightarrow> True"
| "tokens_ok lens dlens out (t # ts) \<longleftrightarrow> token_ok lens dlens out t \<and> tokens_ok lens dlens (apply_token t out) ts"

lemma length_copy_back [simp]: "length (copy_back n distance out) = length out + n"
  by (induction n arbitrary: out) auto

lemma length_apply_token: "length out \<le> length (apply_token t out)"
  by (cases t) auto

lemma length_fold_apply: "length out \<le> length (fold apply_token ts out)"
  by (induction ts arbitrary: out) (auto intro: order_trans length_apply_token)

lemma from_to_bits: "x < 2 ^ n \<Longrightarrow> from_bits (to_bits n x) = x"
  by (simp add: to_bits_def horner_sum_bit_eq_take_bit take_bit_nat_eq_self)

lemma length_to_bits [simp]: "length (to_bits n x) = n"
  by (simp add: to_bits_def)

text \<open>The output so far.\<close>

definition holds :: "Decompressor \<Rightarrow> u8 list \<Rightarrow> bool" where
  "holds d out \<longleftrightarrow> (\<exists>rest. m_OutputBuffer d = Some (out @ rest) \<and> length out + length rest = m_OutputSize d)"

abbreviation same_tables :: "Decompressor \<Rightarrow> Decompressor \<Rightarrow> bool" where
  "same_tables d d' \<equiv> m_LiteralLengthTree d' = m_LiteralLengthTree d \<and> m_DistanceTree d' = m_DistanceTree d \<and> m_OutputSize d' = m_OutputSize d"

lemma holds_put:
  assumes "holds d out" "length out < m_OutputSize d"
  shows "holds (put_byte (length out) x d) (out @ [x]) \<and> same_tables d (put_byte (length out) x d)"
proof -
  from assms obtain r rest where "m_OutputBuffer d = Some (out @ r # rest)" "length out + Suc (length rest) = m_OutputSize d"
    by (auto simp: holds_def) (metis Suc_length_conv add_Suc_right less_add_same_cancel1 length_0_conv less_irrefl list.size(4) neq_Nil_conv)
  then show ?thesis by (auto simp: holds_def put_byte_def list_update_append)
qed

lemma get_byte_holds: "holds d out \<Longrightarrow> i < length out \<Longrightarrow> get_byte i d = out ! i"
  by (auto simp: holds_def get_byte_def nth_append)

lemma copy_loop_copies:
  assumes "holds d out" "length out + len \<le> m_OutputSize d" "src < length out" "1 \<le> distance" "distance \<le> length out"
    and "distance \<noteq> 1 \<longrightarrow> src = length out - distance" "out ! src = out ! (length out - distance)"
  shows "\<exists>d'. copy_loop len distance src (length out) d = (length out + len, d') \<and> holds d' (copy_back len distance out) \<and> same_tables d d'"
  using assms
proof (induction len arbitrary: out src d)
  case (Suc len)
  let ?x = "out ! (length out - distance)"
  let ?d = "put_byte (length out) ?x d" and ?out = "out @ [?x]" and ?src = "if distance = 1 then src else src + 1"
  have put: "holds ?d ?out" "same_tables d ?d" using holds_put [of d out] Suc.prems by auto
  have "\<exists>d'. copy_loop len distance ?src (length ?out) ?d = (length ?out + len, d') \<and> holds d' (copy_back len distance ?out) \<and> same_tables ?d d'"
  proof (rule Suc.IH)
    show "?out ! ?src = ?out ! (length ?out - distance)"
      using Suc.prems by (cases "distance = 1") (auto simp: nth_append Suc_diff_le)
  qed (use put Suc.prems in auto)
  then show ?case using get_byte_holds [OF Suc.prems(1,3)] Suc.prems(7) put(2) by auto
qed auto

text \<open>A table that has been built for code lengths.\<close>

definition built :: "nat list \<Rightarrow> HuffmanTree \<Rightarrow> bool" where
  "built lens t \<longleftrightarrow> lengths_ok lens \<and> (\<exists>t0. arrays_ok t0 \<and> HuffmanTree_Build lens t0 = (True, t))"

lemma tables_bound: "lengthBase ! k \<ge> 1" "distBase ! k' \<ge> 1" if "k < 29" "k' < 30"
proof -
  have "list_all (\<lambda>x. 1 \<le> x) lengthBase" "length lengthBase = 29" "list_all (\<lambda>x. 1 \<le> x) distBase" "length distBase = 30"
    by (simp_all add: lengthBase_def distBase_def)
  then show "lengthBase ! k \<ge> 1" "distBase ! k' \<ge> 1" using that unfolding list_all_length by metis+
qed

context bit_reader
begin

lemma extra_value:
  assumes "bits b = to_bits (extraBits ! k) x @ rest" "x < 2 ^ (extraBits ! k)"
  shows "\<exists>b'. extra io base extraBits k b = (base ! k + x, b') \<and> bits b' = rest"
proof (cases "extraBits ! k = 0")
  case True
  then show ?thesis using assms by (auto simp: extra_def to_bits_def)
next
  case False
  let ?n = "extraBits ! k"
  have n: "?n \<le> length (bits b)" using assms(1) by simp
  obtain v b' where r: "ReadBits io ?n b = (v, b')" by fastforce
  then have "v = x" "bits b' = rest"
    using value_read [OF n] rest_read [OF n] assms from_to_bits [OF assms(2)] by simp_all
  then show ?thesis using False r by (auto simp: extra_def)
qed

lemma built_decodes:
  assumes "built lens t" "s < length lens" "lens ! s \<noteq> 0" "bits b = codeword lens s @ rest" "16 \<le> length rest"
  shows "\<exists>b'. HuffmanTree_Decode io t b = Some (int s, b') \<and> bits b' = rest"
proof -
  obtain t0 where t0: "lengths_ok lens" "arrays_ok t0" "HuffmanTree_Build lens t0 = (True, t)" using assms(1) unfolding built_def by blast
  have "16 \<le> length (bits b)" using assms(4,5) by simp
  then show ?thesis using decode_codeword [OF t0(3,1,2) assms(2-4)] by blast
qed

lemma match_decodes:
  assumes "built lens (m_LiteralLengthTree d)" "built dlens (m_DistanceTree d)" "holds d out" "token_ok lens dlens out (Match k x k' y)"
    and "bits b = token_bits lens dlens (Match k x k' y) @ rest" "16 \<le> length rest"
    and "length (apply_token (Match k x k' y) out) < m_OutputSize d"
  shows "\<exists>d' b'. DecodeBlock_loop io fresh (length out) d b = DecodeBlock_loop io fresh (length (apply_token (Match k x k' y) out)) d' b' \<and>
    bits b' = rest \<and> holds d' (apply_token (Match k x k' y) out) \<and> same_tables d d'"
proof -
  let ?len = "lengthBase ! k + x" and ?dist = "distBase ! k' + y"
  note ok = assms(4) [simplified]
  obtain b1 where b1: "HuffmanTree_Decode io (m_LiteralLengthTree d) b = Some (int (257 + k), b1)"
      "bits b1 = to_bits (lengthExtraBits ! k) x @ codeword dlens k' @ to_bits (distExtraBits ! k') y @ rest"
    using built_decodes [OF assms(1), of "257 + k" b] ok assms(5,6) by (auto simp del: of_nat_add)
  obtain b2 where b2: "extra io lengthBase lengthExtraBits k b1 = (?len, b2)" "bits b2 = codeword dlens k' @ to_bits (distExtraBits ! k') y @ rest"
    using extra_value [OF b1(2)] ok by auto
  obtain b3 where b3: "HuffmanTree_Decode io (m_DistanceTree d) b2 = Some (int k', b3)" "bits b3 = to_bits (distExtraBits ! k') y @ rest"
    using built_decodes [OF assms(2) _ _ b2(2)] ok assms(6) by auto
  obtain b4 where b4: "extra io distBase distExtraBits k' b3 = (?dist, b4)" "bits b4 = rest"
    using extra_value [OF b3(2)] ok by auto
  have dist: "1 \<le> ?dist" "?dist \<le> length out" using ok tables_bound(2) [of k k'] by auto
  have src: "length out - ?dist < length out" using dist by linarith
  obtain d' where d': "copy_loop ?len ?dist (length out - ?dist) (length out) d = (length out + ?len, d')"
      "holds d' (copy_back ?len ?dist out)" "same_tables d d'"
    using copy_loop_copies [OF assms(3) _ src dist, of ?len] assms(7) by auto
  have "DecodeBlock_loop io fresh (length out) d b = DecodeBlock_loop io fresh (length out + ?len) d' b4"
    using b1(1) b2(1) b3(1) b4(1) d'(1) dist ok assms(7) by (subst DecodeBlock_loop.simps) simp
  then show ?thesis using b4(2) d'(2,3) by auto
qed

lemma literal_decodes:
  assumes "built lens (m_LiteralLengthTree d)" "holds d out" "unat c < length lens" "lens ! unat c \<noteq> 0"
    and "bits b = codeword lens (unat c) @ rest" "16 \<le> length rest" "length out < m_OutputSize d"
  shows "\<exists>d' b'. DecodeBlock_loop io fresh (length out) d b = DecodeBlock_loop io fresh (length (out @ [c])) d' b' \<and>
    bits b' = rest \<and> holds d' (out @ [c]) \<and> same_tables d d'"
proof -
  obtain b' where b': "HuffmanTree_Decode io (m_LiteralLengthTree d) b = Some (int (unat c), b')" "bits b' = rest"
    using built_decodes [OF assms(1,3-6)] by blast
  have "int (unat c) < 256" using unsigned_less [of c, where 'a = int] by simp
  then have "DecodeBlock_loop io fresh (length out) d b = DecodeBlock_loop io fresh (length out + 1) (put_byte (length out) c d) b'"
    using b'(1) assms(7) by (subst DecodeBlock_loop.simps) simp
  then show ?thesis using b'(2) holds_put [OF assms(2,7), of c] by auto
qed

lemma tokens_decode:
  assumes "built lens (m_LiteralLengthTree d)" "built dlens (m_DistanceTree d)" "holds d out" "tokens_ok lens dlens out ts"
    and "bits b = concat (map (token_bits lens dlens) ts) @ codeword lens 256 @ rest" "16 \<le> length rest"
    and "256 < length lens" "lens ! 256 \<noteq> 0" "length (fold apply_token ts out) < m_OutputSize d"
  shows "\<exists>d' b'. DecodeBlock_loop io fresh (length out) d b = Some (True, d', b') \<and> bits b' = rest \<and>
    m_OutputPointer d' = length (fold apply_token ts out) \<and> holds d' (fold apply_token ts out) \<and> same_tables d d'"
  using assms(1-5,9)
proof (induction ts arbitrary: out d b)
  case Nil
  then obtain b' where "HuffmanTree_Decode io (m_LiteralLengthTree d) b = Some (int 256, b')" "bits b' = rest"
    using built_decodes [OF Nil.prems(1) assms(7,8) _ assms(6), of b] by auto
  then show ?case using Nil.prems(3) by (subst DecodeBlock_loop.simps) (auto simp: holds_def)
next
  case (Cons t ts)
  let ?rest = "concat (map (token_bits lens dlens) ts) @ codeword lens 256 @ rest" and ?out = "apply_token t out"
  have room: "length ?out < m_OutputSize d" using Cons.prems(6) length_fold_apply [of ?out ts] by simp
  have "\<exists>d' b'. DecodeBlock_loop io fresh (length out) d b = DecodeBlock_loop io fresh (length ?out) d' b' \<and>
      bits b' = ?rest \<and> holds d' ?out \<and> same_tables d d'"
  proof (cases t)
    case (Literal c)
    then show ?thesis using literal_decodes [OF Cons.prems(1,3), of c b ?rest] Cons.prems(4,5) assms(6) room by simp
  next
    case (Match k x k' y)
    then show ?thesis using match_decodes [OF Cons.prems(1-3), of k x k' y b ?rest] Cons.prems(4,5) assms(6) room by simp
  qed
  then obtain d1 b1 where d1: "DecodeBlock_loop io fresh (length out) d b = DecodeBlock_loop io fresh (length ?out) d1 b1"
      "bits b1 = ?rest" "holds d1 ?out" "same_tables d d1" by blast
  then show ?case
    using Cons.IH [of d1 ?out b1] Cons.prems(1,2,4,6) by simp
qed

end

section \<open>Fixed codes\<close>

lemma fixed_counts:
  "count_list defaultLengths l = (if l = 7 then 24 else if l = 8 then 152 else if l = 9 then 112 else 0)"
  "count_list defaultDistances l = (if l = 5 then 32 else 0)"
proof -
  have "count_list (replicate n (x :: nat)) l = (if l = x then n else 0)" for n x by (induction n) auto
  then show "count_list defaultLengths l = (if l = 7 then 24 else if l = 8 then 152 else if l = 9 then 112 else 0)"
    "count_list defaultDistances l = (if l = 5 then 32 else 0)"
    by (simp_all add: defaultLengths_def defaultDistances_def)
qed

lemma fixed_nonzero: "i < 288 \<Longrightarrow> defaultLengths ! i \<noteq> 0" "i < 32 \<Longrightarrow> defaultDistances ! i \<noteq> 0"
  by (auto simp: defaultLengths_def defaultDistances_def nth_append)

lemma fixed_lengths [simp]: "length defaultLengths = 288" "length defaultDistances = 32"
  by (simp_all add: defaultLengths_def defaultDistances_def)

lemma fixed_ok: "lengths_ok defaultLengths" "lengths_ok defaultDistances"
  by (auto simp: MAX_SYMBOLS_def defaultLengths_def defaultDistances_def)

lemma fixed_fit: "code_fits defaultLengths l" "code_fits defaultDistances l"
proof -
  have zero: "first_code lens l = 0" if "\<And>k. k < l \<Longrightarrow> with_length lens k = 0" for lens l
    using that by (induction l) auto
  have l7: "first_code defaultLengths 7 = 0" by (rule zero) (simp add: with_length_def fixed_counts)
  then have l8: "first_code defaultLengths 8 = 48" using first_code.simps(2) [of defaultLengths 7] by (simp add: with_length_def fixed_counts)
  then have l9: "first_code defaultLengths 9 = 400" using first_code.simps(2) [of defaultLengths 8] by (simp add: with_length_def fixed_counts)
  have d5: "first_code defaultDistances 5 = 0" by (rule zero) (simp add: with_length_def fixed_counts)
  show "code_fits defaultLengths l" using l7 l8 l9 by (auto simp: code_fits_def with_length_def fixed_counts)
  show "code_fits defaultDistances l" using d5 by (auto simp: code_fits_def with_length_def fixed_counts)
qed

lemma fixed_built:
  assumes "arrays_ok (m_LiteralLengthTree d)" "arrays_ok (m_DistanceTree d)"
  shows "\<exists>d'. ParseBlock io fresh new eFixedHuffmanCode d b = Some (True, d', b) \<and> built defaultLengths (m_LiteralLengthTree d') \<and>
    built defaultDistances (m_DistanceTree d') \<and> m_OutputBuffer d' = m_OutputBuffer d \<and> m_OutputSize d' = m_OutputSize d \<and>
    m_OutputPointer d' = m_OutputPointer d"
proof -
  obtain t u where t: "HuffmanTree_Build defaultLengths (m_LiteralLengthTree d) = (True, t)" "HuffmanTree_Build defaultDistances (m_DistanceTree d) = (True, u)"
    using Build_result(1) [OF fixed_ok(1) assms(1)] Build_result(1) [OF fixed_ok(2) assms(2)] fixed_fit by (metis prod.collapse)
  then have "ParseBlock io fresh new eFixedHuffmanCode d b = Some (True, d\<lparr>m_LiteralLengthTree := t, m_DistanceTree := u\<rparr>, b)"
    by (simp add: ParseBlock_def)
  moreover have "built defaultLengths t" "built defaultDistances u" unfolding built_def using t fixed_ok assms by blast+
  ultimately show ?thesis by auto
qed

section \<open>Properties\<close>

text \<open>
  A block is decoded to what it stands for: with the tables of two codes, the bits of a sequence of literals and copies, and of the end
  symbol, make the decoder append the literals and the copied bytes to its output, succeed, and leave the rest of the stream.
\<close>

theorem block_decodes_to_its_symbols:
  assumes "bit_reader io bits" "built lens (m_LiteralLengthTree d)" "built dlens (m_DistanceTree d)"
    and "holds d out" "m_OutputPointer d = length out" "tokens_ok lens dlens out ts"
    and "bits b = concat (map (token_bits lens dlens) ts) @ codeword lens 256 @ rest" "16 \<le> length rest"
    and "256 < length lens" "lens ! 256 \<noteq> 0" "length (fold apply_token ts out) < m_OutputSize d"
  shows "\<exists>d' b'. DecodeBlock io fresh d b = Some (True, d', b') \<and> bits b' = rest \<and>
    m_OutputPointer d' = length (fold apply_token ts out) \<and> holds d' (fold apply_token ts out)"
  using bit_reader.tokens_decode [OF assms(1-4,6-11), of fresh] assms(5) by (auto simp: DecodeBlock_def)


section \<open>Witnesses\<close>

definition demo_decompressor :: Decompressor where
  "demo_decompressor = \<lparr>m_OutputBuffer = Some (replicate 8 0), m_OutputSize = 8, m_OutputPointer = 0, m_LiteralLengthTree = blank_tree,
     m_DistanceTree = blank_tree\<rparr>"

text \<open>The byte 65, and a copy of three bytes at the distance 1.\<close>

definition demo_tokens :: "token list" where
  "demo_tokens = [Literal 65, Match 0 0 0 0]"

lemma demo_tokens_facts: "fold apply_token demo_tokens [] = [65, 65, 65, 65]" "tokens_ok defaultLengths defaultDistances [] demo_tokens"
  using fixed_nonzero(1) [of 65] fixed_nonzero(1) [of 257] fixed_nonzero(2) [of 0]
  by (simp_all add: demo_tokens_def lengthBase_def distBase_def lengthExtraBits_def distExtraBits_def numeral_3_eq_3)


definition demo_bits :: "bool list" where
  "demo_bits = concat (map (token_bits defaultLengths defaultDistances) demo_tokens) @ codeword defaultLengths 256 @ replicate 32 False"


theorem block_decodes_to_its_symbols_witness:
  "\<exists>(d :: Decompressor) d' b'. holds d [] \<and> DecodeBlock list_stream (\<lambda>n. replicate n 0) d demo_bits = Some (True, d', b') \<and> holds d' [65, 65, 65, 65]"
proof -
  obtain d :: Decompressor where d: "built defaultLengths (m_LiteralLengthTree d)" "built defaultDistances (m_DistanceTree d)"
      "m_OutputBuffer d = m_OutputBuffer demo_decompressor" "m_OutputSize d = 8" "m_OutputPointer d = 0"
    using fixed_built [of demo_decompressor list_stream "\<lambda>n. replicate n 0" blank_tree "[]"] blank_arrays_ok by (auto simp: demo_decompressor_def)
  then have h: "holds d []" by (simp add: holds_def demo_decompressor_def)
  then show ?thesis
    using block_decodes_to_its_symbols [OF list_bits.bit_reader_axioms d(1,2) h _ demo_tokens_facts(2),
        where b = demo_bits and rest = "replicate 32 False" and fresh = "\<lambda>n. replicate n 0"]
      demo_tokens_facts(1) d(4,5) fixed_nonzero(1) [of 256] by (auto simp: demo_bits_def)
qed

section \<open>Departures\<close>

text \<open>Growing the output buffer loses the output: the new array is not filled from the old one.\<close>

theorem EnsureCapacity_loses_output:
  assumes "EnsureCapacity fresh count d = Some d'"
  shows "m_OutputBuffer d' = Some (fresh (m_OutputSize d'))"
  using assms by (auto simp: EnsureCapacity_def Let_def)

theorem EnsureCapacity_loses_output_witness:
  "\<exists>d'. EnsureCapacity (\<lambda>n. replicate n 7) 4 (demo_decompressor\<lparr>m_OutputBuffer := Some [1, 2, 3, 4, 5, 6, 7, 8], m_OutputPointer := 8\<rparr>) = Some d' \<and>
     m_OutputPointer d' = 8 \<and> m_OutputBuffer d' = Some (replicate 16 7)"
proof -
  let ?d = "demo_decompressor\<lparr>m_OutputBuffer := Some [1, 2, 3, 4, 5, 6, 7, 8], m_OutputPointer := 8\<rparr>"
  have "EnsureCapacity_loop 8 12 = Some 16" by (simp add: EnsureCapacity_loop.simps)
  then obtain d' where d': "EnsureCapacity (\<lambda>n. replicate n 7) 4 ?d = Some d'" "m_OutputSize d' = 16" "m_OutputPointer d' = 8"
    by (auto simp: EnsureCapacity_def demo_decompressor_def)
  then show ?thesis using EnsureCapacity_loses_output [OF d'(1)] by auto
qed

text \<open>
  When a literal does not fit, the decoder goes on at the place where the block began: the bytes of the block so far are written over.
\<close>

theorem growing_rewinds_block:
  assumes "HuffmanTree_Decode io (m_LiteralLengthTree d) b = Some (symbol, b')" "0 \<le> symbol" "symbol < 256" "m_OutputSize d \<le> current"
    and "EnsureCapacity fresh 4096 d = Some d'" "m_OutputBuffer d \<noteq> None"
  shows "DecodeBlock_loop io fresh current d b =
    DecodeBlock_loop io fresh (m_OutputPointer d + 1) (put_byte (m_OutputPointer d) (of_int symbol) d') b'"
proof -
  have "m_OutputPointer d' = m_OutputPointer d" using assms(5,6) by (auto simp: EnsureCapacity_def Let_def)
  then show ?thesis using assms by (subst DecodeBlock_loop.simps) simp
qed

text \<open>A stored block is followed by a second decoding: it fails when the bits after it are not a block of the table left by an earlier one.\<close>

theorem stored_block_is_decoded_again:
  assumes "ReadBits io 1 b = (1, b1)" "ReadBits io 2 b1 = (0, b2)" "ParseBlock io fresh new eUncompressed d b2 = Some (True, d', b3)"
    and "HuffmanTree_Decode io (m_LiteralLengthTree d') b3 = Some (- 1, b4)"
  shows "DecompressStream io fresh new d b = Some (False, d', b4)"
proof -
  have "DecodeBlock io fresh d' b3 = Some (False, d', b4)" unfolding DecodeBlock_def using assms(4) by (subst DecodeBlock_loop.simps) simp
  then show ?thesis using assms(1-3) by (subst DecompressStream.simps) (simp add: BlockType_of_def)
qed

text \<open>
  The code lengths of a dynamic block can overrun their array: a repetition is written before its length is compared with what is
  left, and a repetition at the start reads in front of the array.
\<close>

theorem code_lengths_overrun:
  assumes "HuffmanTree_Decode io t b = Some (18, b')" "length lens < totalCodes" "310 \<le> length lens"
  shows "code_lengths_loop io t totalCodes lens b = None"
  using assms by (subst code_lengths_loop.simps) (auto simp: split_beta)

theorem code_lengths_underrun:
  assumes "HuffmanTree_Decode io t b = Some (16, b')" "0 < totalCodes"
  shows "code_lengths_loop io t totalCodes [] b = None"
  using assms by (subst code_lengths_loop.simps) simp

end
