(* ===== verification/Spec2Isabelle.thy ===== *)
theory Spec2Isabelle
  imports Page_Map File_Descriptors Unicode_Text Video_Terminal Keyboard Fork_Exit_Wait Inflate
begin

text \<open>
  A verification development of the CryptixOS kernel (\<^verbatim>\<open>src/Kernel\<close>).

  \<^bold>\<open>The program.\<close>  CryptixOS is a POSIX-like kernel in C++.  At boot it receives a list of memory zones; the physical memory
  manager hands out page frames from them, the virtual memory layer keeps address spaces and page tables, the virtual filesystem
  resolves paths to inodes of mounted filesystems and gives processes descriptors on them, and the console shows the text programs
  write.  These parts are modelled as pure functions on explicit states.  A state is a \<open>record\<close> with the members of the class; an
  enumeration or flag set is a \<open>datatype\<close> or its machine word; \<^verbatim>\<open>ErrorOr<T>\<close> is \<open>errno_t + 'a\<close>; an assertion that fails, an
  access outside an array or a loop that does not end is \<open>None\<close>.  Integers have the width of the source wherever overflow can
  matter.

  \<^bold>\<open>Foreign code.\<close>  Prism (containers, strings, alignment), \<^verbatim>\<open>fmt\<close> and \<^verbatim>\<open>magic_enum\<close> are not part of the repository.  What
  the code calls of them is an argument of the definitions: an operation record or a function.  What it relies on is a locale, which
  is interpreted on concrete functions, so that the laws are satisfiable and the definitions can be run.

  \<^bold>\<open>Memory.\<close>
  \<^item> \<open>Memory_Zones\<close>: \<^verbatim>\<open>Memory/MemoryZone.hpp\<close>, the boot zones and allocation from them.
  \<^item> \<open>Bitmap_Allocator\<close>: \<^verbatim>\<open>Memory/Allocator/BitmapAllocator.cpp\<close>.  The allocator's bitmap represents a set of used frames;
    allocation and freeing are shown to be operations on that set, over every sequence of calls.
  \<^item> \<open>Physical_Memory\<close>: \<^verbatim>\<open>Memory/PMM.cpp\<close>, early allocation, the bitmap allocator behind it, and cleared pages.
  \<^item> \<open>Address_Space\<close>: \<^verbatim>\<open>Memory/AddressRange.hpp\<close>, \<^verbatim>\<open>Memory/Region.hpp\<close>, \<^verbatim>\<open>Memory/AddressSpace.cpp\<close>.  Regions stay disjoint, and
    the search for room finds one.
  \<^item> \<open>Page_Attributes\<close>, \<open>Page_Tables\<close>, \<open>Page_Map\<close>: the x86-64 page table entries, the four-level tables in physical memory
    (\<^verbatim>\<open>Arch/x86_64/PageMap.cpp\<close>) and the range operations of \<^verbatim>\<open>Memory/PageMap.cpp\<close>.  Mapping and unmapping change exactly one
    translation.

  \<^bold>\<open>Files.\<close>
  \<^item> \<open>INodes\<close>, \<open>Synth_Fs\<close>: \<^verbatim>\<open>VFS/INode.cpp\<close>, \<^verbatim>\<open>VFS/SynthFsINode.cpp\<close>, \<^verbatim>\<open>VFS/TmpFs\<close>: modes, times, permissions, and the filesystem in
    memory with its directories and file contents.
  \<^item> \<open>Path_Resolution\<close>: \<^verbatim>\<open>VFS/DirectoryEntry.cpp\<close>, \<^verbatim>\<open>VFS/MountPoint.cpp\<close>, \<^verbatim>\<open>VFS/PathResolver.cpp\<close>.  The resolver is shown to refine a walk
    through the directories' maps.  A link may lead in a circle, so the loops over links are \<open>partial_function (option)\<close>; trees
    without links and mounts are resolved in as many steps as the path has segments.
  \<^item> \<open>Vfs_Operations\<close>, \<open>File_Descriptors\<close>: \<^verbatim>\<open>VFS/VFS.cpp\<close>, \<^verbatim>\<open>VFS/FileDescriptor.cpp\<close>, \<^verbatim>\<open>VFS/FileDescriptorTable.cpp\<close>: drivers, mounting,
    creating and linking, open files, offsets, directory listings and descriptor numbers.
  \<^item> \<open>File_Syscalls\<close>: \<^verbatim>\<open>API/VFS.cpp\<close> and the file part of \<^verbatim>\<open>Scheduler/Process.cpp\<close>: the calls of a process on paths and descriptor
    numbers, written with combinators for errors and state.  Descriptors are shared by reference; every sequence of calls keeps the
    numbers valid.

  \<^bold>\<open>Console.\<close>
  \<^item> \<open>Unicode_Text\<close>: \<^verbatim>\<open>Library/Unicode.hpp\<close>, code page 437 and the widths of characters by binary search.
  \<^item> \<open>Colors\<close>: \<^verbatim>\<open>Library/Color.hpp\<close>.
  \<^item> \<open>Terminal_Emulator\<close>: \<^verbatim>\<open>Drivers/Terminal.cpp\<close>, the state machine of escape sequences over the virtual methods.  Its locales
    state what it needs of a device and that it keeps every invariant the device keeps.
  \<^item> \<open>Video_Terminal\<close>: \<^verbatim>\<open>Drivers/Video/VideoTerminal.cpp\<close>, the device on a framebuffer: its queue and grid represent a screen, which
    the operations update and flushing draws.
  \<^item> \<open>TTY_Line\<close>: \<^verbatim>\<open>Drivers/TTY.cpp\<close>, the line discipline: canonical editing, echo, signals, reads, writes and control calls.
  \<^item> \<open>Keyboard\<close>: \<^verbatim>\<open>Drivers/HID/Ps2KeyboardDevice.cpp\<close>, from scan codes to characters; typed keys are followed to the reader of the TTY.

  \<^bold>\<open>Threads.\<close>
  \<^item> \<open>Thread_Scheduler\<close>: \<^verbatim>\<open>Scheduler/Scheduler.cpp\<close>, \<^verbatim>\<open>Scheduler/Thread.cpp\<close>, \<^verbatim>\<open>Scheduler/Event.cpp\<close>: queues, ticks, blocking, events and signals
    as atomic operations of several processors.  The queues stay consistent over every interleaving; ticks are shown to be round robin.

  \<^bold>\<open>Processes.\<close>
  \<^item> \<open>Process_Calls\<close>: \<^verbatim>\<open>Scheduler/Process.cpp\<close>, \<^verbatim>\<open>API/Process.cpp\<close> and the fork of a thread: process objects, the table of ids, credentials,
    sessions and groups, forking with copies of physical memory, exiting and waiting.  The addresses the physical memory manager will
    hand out are a list in the state; the loop of \<^verbatim>\<open>WaitPid\<close> has as many passes as events are pending, since a pass that is repeated
    consumes one.
  \<^item> \<open>Process_Tree\<close>: ids are the least free ones; the table, the parents and the lists of children agree over every run, by rule
    induction on the calls.
  \<^item> \<open>Fork_Exit_Wait\<close>: a child reads its parent's bytes in frames of its own; what an exit leaves and a wait reports.

  \<^bold>\<open>Compression.\<close>
  \<^item> \<open>Huffman_Codes\<close>, \<open>Inflate\<close>: \<^verbatim>\<open>Library/ZLib.cpp\<close>, the tables of canonical codes and the decompressor, over the bit stream of Prism as a
    locale.  Decoding inverts the code; a block is decoded to the literals and copies it stands for.

  \<^bold>\<open>The lemmas.\<close>  Each theory states its data invariant and that every operation keeps it, then the behaviour of the operations in
  terms of an abstract view (a set of frames, a partial translation function, maps of names, a screen), then the properties.  Where
  the code departs from its intent, a theorem states what it does instead.

  \<^bold>\<open>Not modelled.\<close>  Locks (operations are taken to be atomic), the boot protocol, ACPI, PCI, NVMe, USB and other
  device drivers, processor contexts but for what a fork sets, the network stack, the disk filesystems, the pixels of glyphs and images,
  executing programs, and the system calls outside \<^verbatim>\<open>API/VFS.cpp\<close> and \<^verbatim>\<open>API/Process.cpp\<close>.  Their behaviour is mostly that of hardware or of
  code outside the repository; the disk filesystems are candidates for extending the development.
\<close>

end
